(* ===== verification/Prelude.thy ===== *)
theory Prelude
  imports Main "HOL-Library.Word" "HOL-Library.Char_ord" "HOL-Library.List_Lexorder"
begin

text \<open>
  Vocabulary shared by every component: the machine types of the C++ code, the pieces of the
  C++ standard library the code is written against (string search, decimal scanning, the C
  number parsers, ordered maps kept as sorted vectors), the outcome type of an operation that
  may throw, and the lemmas about them that the components rewrite with.

  Bytes are HOL characters (an unsigned 8 bit value), so a \<open>std::string\<close> is a
  \<open>string\<close>, its \<open>size()\<close> is \<open>length\<close>, and \<open>std::less<std::string>\<close>, which compares bytes as
  unsigned values, is the lexicographic order of the library theory List_Lexorder.
\<close>

unbundle bit_operations_syntax

section \<open>Types\<close>

type_synonym u8 = "8 word"
type_synonym u16 = "16 word"
type_synonym u32 = "32 word"
type_synonym u64 = "64 word"
type_synonym i64 = "64 word"

definition byte :: "char \<Rightarrow> u8" where
  "byte c = of_char c"

definition to_char :: "u8 \<Rightarrow> char" where
  "to_char b = char_of (unat b)"

named_theorems std_simps \<open>rewrite rules for the modelled standard library\<close>

section \<open>Bytes and characters\<close>

lemma unat_byte: "unat (byte c) = (of_char c :: nat)"
proof -
  have "(of_char c :: nat) < 256" by simp
  moreover have "byte c = word_of_nat (of_char c)"
    by (simp add: byte_def of_nat_of_char)
  ultimately show ?thesis
    by (simp add: unat_of_nat)
qed

lemma to_char_byte [simp]: "to_char (byte c) = c"
  by (simp add: to_char_def unat_byte)

lemma byte_to_char [simp]: "byte (to_char b) = b"
proof -
  have "unat (byte (to_char b)) = unat b mod 256"
    by (simp add: unat_byte to_char_def)
  also have "\<dots> = unat b"
    using unsigned_less [of b, where ?'a = nat] by simp
  finally show ?thesis
    by (simp add: word_unat_eq_iff)
qed

lemma byte_eq_iff [simp]: "byte c = byte d \<longleftrightarrow> c = d"
  by (metis to_char_byte)

lemma length_takeWhile_le [simp]: "length (takeWhile P xs) \<le> length xs"
  by (induction xs) auto

lemma byte_le_iff: "byte c \<le> byte d \<longleftrightarrow> c \<le> d"
  by (simp add: word_le_nat_alt unat_byte less_eq_char_def)

lemma unat_byte_diff: "d \<le> c \<Longrightarrow> unat (byte c - byte d) = of_char c - of_char d"
  by (simp add: unat_sub byte_le_iff unat_byte)

text \<open>Masking, shifting and joining words, read as arithmetic on natural numbers.\<close>

lemma unat_and_mask: "unat (w AND mask n) = unat w mod 2 ^ n"
  by (simp only: take_bit_eq_mask [symmetric] unsigned_take_bit_eq
      take_bit_eq_mod [of n "unat w"])

lemma unat_drop_bit: "unat (drop_bit n w) = unat w div 2 ^ n"
  by (simp add: unsigned_drop_bit_eq take_bit_nat_eq_self drop_bit_eq_div [of n "unat w"])

text \<open>Bits placed above the width of the lower part do not meet it, so joining is adding.\<close>

lemma join_bits:
  assumes "l < 2 ^ n"
  shows "push_bit n (word_of_nat h) OR word_of_nat l = (word_of_nat (2 ^ n * h + l) :: 'w::len word)"
proof -
  have l: "take_bit n l = l"
    using assms by (simp add: take_bit_nat_eq_self)
  have "push_bit n (word_of_nat h :: 'w word) AND word_of_nat l = 0"
    by (rule bit_word_eqI) (subst l [symmetric], auto simp: bit_simps)
  then have "push_bit n (word_of_nat h :: 'w word) OR word_of_nat l
      = push_bit n (word_of_nat h) + word_of_nat l"
    by (simp add: disjunctive_add_eq_or)
  then show ?thesis
    by (simp add: push_bit_eq_mult mult.commute)
qed

lemma unat_u8_less [simp]: "unat (b :: u8) < 256"
  using unsigned_less [of b, where ?'a = nat] by simp

section \<open>Decimal digits\<close>

text \<open>
  \<open>is_digit\<close> is the test \<open>c >= '0' && c <= '9'\<close> that the code writes out; on \<open>char\<close> the
  test gives the same answer whether \<open>char\<close> is signed or not, since both bounds are ASCII.
\<close>

definition is_digit :: "char \<Rightarrow> bool" where
  "is_digit c \<longleftrightarrow> CHR ''0'' \<le> c \<and> c \<le> CHR ''9''"

definition digit_val :: "char \<Rightarrow> nat" where
  "digit_val c = of_char c - of_char (CHR ''0'')"

definition dec_value :: "string \<Rightarrow> nat" where
  "dec_value = foldl (\<lambda>a c. 10 * a + digit_val c) 0"

lemma dec_value_Nil [simp]: "dec_value [] = 0"
  by (simp add: dec_value_def)

lemma dec_value_snoc [simp]: "dec_value (ds @ [d]) = 10 * dec_value ds + digit_val d"
  by (simp add: dec_value_def)

section \<open>The C number parsers\<close>

text \<open>
  \<open>isspace\<close> of the C locale, and \<open>strtoll\<close>/\<open>strtoull\<close> in base 10 on a string: white space is
  skipped, a sign is optional, and the longest run of digits is read. The result is the value,
  the number of characters consumed (0 when there is no digit, as \<open>endptr = nptr\<close>) and
  whether \<open>errno\<close> was set to \<open>ERANGE\<close>. Out of range, \<open>strtoll\<close> returns the nearest bound and
  \<open>strtoull\<close> the maximum; a minus sign makes \<open>strtoull\<close> negate its value modulo \<open>2 ^ 64\<close>.
\<close>

definition is_space :: "char \<Rightarrow> bool" where
  "is_space c \<longleftrightarrow> c \<in> {CHR 0x20, CHR 0x09, CHR 0x0A, CHR 0x0B, CHR 0x0C, CHR 0x0D}"

record 'v parsed =
  p_value :: 'v
  p_len :: nat
  p_erange :: bool

definition scan_sign :: "string \<Rightarrow> bool \<times> string" where
  "scan_sign s = (case s of
     [] \<Rightarrow> (False, [])
   | c # cs \<Rightarrow> if c = CHR ''-'' then (True, cs)
               else if c = CHR ''+'' then (False, cs) else (False, s))"

definition strtoll :: "string \<Rightarrow> int parsed" where
  "strtoll s =
     (let s1 = dropWhile is_space s; (neg, s2) = scan_sign s1; ds = takeWhile is_digit s2;
          v = (if neg then - int (dec_value ds) else int (dec_value ds))
      in if ds = [] then \<lparr>p_value = 0, p_len = 0, p_erange = False\<rparr>
         else \<lparr>p_value = max (- (2 ^ 63)) (min (2 ^ 63 - 1) v),
               p_len = length s - length s2 + length ds,
               p_erange = (v < - (2 ^ 63) \<or> 2 ^ 63 - 1 < v)\<rparr>)"

definition strtoull :: "string \<Rightarrow> nat parsed" where
  "strtoull s =
     (let s1 = dropWhile is_space s; (neg, s2) = scan_sign s1; ds = takeWhile is_digit s2;
          n = dec_value ds
      in if ds = [] then \<lparr>p_value = 0, p_len = 0, p_erange = False\<rparr>
         else \<lparr>p_value = (if 2 ^ 64 \<le> n then 2 ^ 64 - 1
                          else if neg then (2 ^ 64 - n) mod 2 ^ 64 else n),
               p_len = length s - length s2 + length ds,
               p_erange = (2 ^ 64 \<le> n)\<rparr>)"

lemma length_scan_sign: "length (snd (scan_sign s)) \<le> length s"
  by (auto simp: scan_sign_def split: list.splits)

lemma scan_consumed:
  assumes "scan_sign (dropWhile is_space s) = (neg, s2)"
  shows "length s - length s2 + length (takeWhile is_digit s2) \<le> length s"
proof -
  have "length s2 \<le> length (dropWhile is_space s)"
    using length_scan_sign [of "dropWhile is_space s"] assms by simp
  also have "\<dots> \<le> length s"
    by (rule length_dropWhile_le)
  finally have "length s2 \<le> length s" .
  then show ?thesis
    using length_takeWhile_le [of is_digit s2] by linarith
qed

lemma strtoll_len [std_simps]: "p_len (strtoll s) \<le> length s"
  by (auto simp: strtoll_def Let_def split: prod.splits dest: scan_consumed)

lemma strtoull_len [std_simps]: "p_len (strtoull s) \<le> length s"
  by (auto simp: strtoull_def Let_def split: prod.splits dest: scan_consumed)

section \<open>Ordered maps as sorted vectors\<close>

text \<open>
  \<open>boost::container::flat_map\<close> and \<open>std::map\<close> keep their entries sorted by key without
  duplicates and iterate in that order. \<open>omap_insert_or_assign\<close> is \<open>m[k] = v\<close>,
  \<open>omap_emplace\<close> keeps an existing entry, \<open>omap_find\<close> is \<open>find\<close>/\<open>count\<close>, \<open>omap_erase\<close>
  is \<open>erase(key)\<close>.
\<close>

type_synonym ('k, 'v) omap = "('k \<times> 'v) list"

abbreviation omap_keys :: "('k, 'v) omap \<Rightarrow> 'k list" where
  "omap_keys m \<equiv> map fst m"

definition omap_find :: "('k, 'v) omap \<Rightarrow> 'k \<Rightarrow> 'v option" where
  "omap_find m k = map_of m k"

fun omap_insert_or_assign :: "'k::linorder \<Rightarrow> 'v \<Rightarrow> ('k, 'v) omap \<Rightarrow> ('k, 'v) omap" where
  "omap_insert_or_assign k v [] = [(k, v)]"
| "omap_insert_or_assign k v ((a, b) # m) =
     (if k < a then (k, v) # (a, b) # m
      else if k = a then (k, v) # m
      else (a, b) # omap_insert_or_assign k v m)"

definition omap_emplace :: "'k::linorder \<Rightarrow> 'v \<Rightarrow> ('k, 'v) omap \<Rightarrow> ('k, 'v) omap" where
  "omap_emplace k v m = (if omap_find m k = None then omap_insert_or_assign k v m else m)"

definition omap_erase :: "'k \<Rightarrow> ('k, 'v) omap \<Rightarrow> ('k, 'v) omap" where
  "omap_erase k m = filter (\<lambda>(a, b). a \<noteq> k) m"

definition omap_ok :: "('k::linorder, 'v) omap \<Rightarrow> bool" where
  "omap_ok m \<longleftrightarrow> sorted_wrt (<) (omap_keys m)"

lemma omap_find_simps [simp]:
  "omap_find [] k = None"
  "omap_find ((a, v) # m) k = (if a = k then Some v else omap_find m k)"
  by (simp_all add: omap_find_def)

lemma omap_ok_simps [simp]:
  "omap_ok []"
  "omap_ok ((k, v) # m) \<longleftrightarrow> (\<forall>k' \<in> set (omap_keys m). k < k') \<and> omap_ok m"
  by (auto simp: omap_ok_def)

lemma omap_ok_distinct: "omap_ok m \<Longrightarrow> distinct (omap_keys m)"
  unfolding omap_ok_def by (simp add: strict_sorted_iff)

lemma set_insert_or_assign_keys [simp]:
  "set (omap_keys (omap_insert_or_assign k v m)) = insert k (set (omap_keys m))"
  by (induction k v m rule: omap_insert_or_assign.induct) auto

lemma insert_or_assign_memD:
  "(a, b) \<in> set (omap_insert_or_assign k v m) \<Longrightarrow> a = k \<or> a \<in> set (omap_keys m)"
  by (induction k v m rule: omap_insert_or_assign.induct) (force split: if_splits)+

lemma omap_ok_insert [simp]: "omap_ok m \<Longrightarrow> omap_ok (omap_insert_or_assign k v m)"
  by (induction k v m rule: omap_insert_or_assign.induct)
    (auto dest!: insert_or_assign_memD)

lemma omap_find_insert:
  "omap_ok m \<Longrightarrow>
     omap_find (omap_insert_or_assign k v m) k' = (if k' = k then Some v else omap_find m k')"
  by (induction k v m rule: omap_insert_or_assign.induct) auto

lemma set_insert_or_assign:
  "omap_ok m \<Longrightarrow>
     set (omap_insert_or_assign k v m) = insert (k, v) {p \<in> set m. fst p \<noteq> k}"
  by (induction k v m rule: omap_insert_or_assign.induct) auto

lemma omap_find_Some_iff: "omap_ok m \<Longrightarrow> omap_find m k = Some v \<longleftrightarrow> (k, v) \<in> set m"
  by (simp add: omap_find_def omap_ok_distinct)

lemma omap_find_None_iff: "omap_find m k = None \<longleftrightarrow> k \<notin> set (omap_keys m)"
  by (simp add: omap_find_def map_of_eq_None_iff)

lemma omap_find_erase: "omap_find (omap_erase k m) k' = (if k' = k then None else omap_find m k')"
  by (induction m) (auto simp: omap_erase_def)

lemma omap_ok_erase [simp]: "omap_ok m \<Longrightarrow> omap_ok (omap_erase k m)"
  by (induction m) (auto simp: omap_erase_def)

end
