(* ===== verification/HexUtils.thy ===== *)
theory HexUtils
  imports Prelude
begin

text \<open>
  The hexadecimal helpers of \<open>utils/hex_utils.hpp\<close>: number and byte-vector formatting and the
  parser back to bytes. A shift by 64 or more is undefined in C++; \<open>hexDigits\<close> returns
  \<open>None\<close> there, so that every theorem about a formatted number also says that no shift was
  undefined. The lemmas show the two round trips and characterise the rejected strings.
\<close>

section \<open>Formatting\<close>

definition digitsArray :: "char list" where
  "digitsArray = ''0123456789ABCDEF''"

fun hexDigits :: "u64 \<Rightarrow> u64 \<Rightarrow> nat \<Rightarrow> string option" where
  "hexDigits val bitIndex 0 = Some []"
| "hexDigits val bitIndex (Suc n) =
     (if 64 \<le> bitIndex then None
      else map_option (Cons (digitsArray ! unat (drop_bit (unat bitIndex) val AND 0x0f)))
             (hexDigits val (bitIndex - 4) n))"

definition intToHexString :: "u64 \<Rightarrow> nat \<Rightarrow> string option" where
  "intToHexString val digits = hexDigits val ((of_nat digits - 1) * 4) digits"

definition bytesToHexString :: "u8 list \<Rightarrow> string" where
  "bytesToHexString bytes =
     concat (map (\<lambda>b. [digitsArray ! unat (drop_bit 4 (b AND 0xf0)),
                       digitsArray ! unat (b AND 0x0f)]) bytes)"

section \<open>Parsing\<close>

definition hexCharToNibble :: "char \<Rightarrow> u8" where
  "hexCharToNibble ch =
     (if CHR ''0'' \<le> ch \<and> ch \<le> CHR ''9'' then byte ch - byte (CHR ''0'')
      else if CHR ''A'' \<le> ch \<and> ch \<le> CHR ''F'' then byte ch - byte (CHR ''A'') + 10
      else if CHR ''a'' \<le> ch \<and> ch \<le> CHR ''f'' then byte ch - byte (CHR ''a'') + 10
      else 16)"

fun hexPairs :: "string \<Rightarrow> u8 list option" where
  "hexPairs [] = Some []"
| "hexPairs [c] = None"
| "hexPairs (c # d # cs) =
     (let hi = hexCharToNibble c; lo = hexCharToNibble d
      in if lo = 16 \<or> hi = 16 then None
         else map_option (Cons (push_bit 4 hi OR lo)) (hexPairs cs))"

definition hexStringToBytes :: "string \<Rightarrow> u8 list" where
  "hexStringToBytes str = (case hexPairs str of None \<Rightarrow> [] | Some bs \<Rightarrow> bs)"

section \<open>Nibbles\<close>

text \<open>What a hexadecimal digit is worth; used to state what a formatted number denotes.\<close>

definition is_hex_digit :: "char \<Rightarrow> bool" where
  "is_hex_digit c \<longleftrightarrow> hexCharToNibble c \<noteq> 16"

definition hex_value :: "string \<Rightarrow> nat" where
  "hex_value = foldl (\<lambda>a c. 16 * a + unat (hexCharToNibble c)) 0"

lemma nibble_of_digit:
  assumes "n < 16"
  shows "hexCharToNibble (digitsArray ! n) = of_nat n"
proof -
  have "\<forall>m \<in> set [0..<16]. hexCharToNibble (digitsArray ! m) = of_nat m"
    by code_simp
  with assms show ?thesis by simp
qed

lemma low_nibble: "unat (b AND 0x0f) = unat b mod 16"
  using unat_and_mask [of b 4] by (simp add: mask_eq_exp_minus_1)

lemma high_nibble: "unat (drop_bit 4 (b AND 0xf0)) = unat (b :: u8) div 16"
proof -
  have "unat (drop_bit 4 b AND mask 4) = unat b div 16 mod 16"
    by (simp only: unat_and_mask unat_drop_bit) simp
  moreover have "drop_bit 4 (b AND 0xf0) = drop_bit 4 b AND mask 4"
    by (simp add: mask_eq_exp_minus_1)
  moreover have "unat b div 16 < 16"
    using unat_u8_less [of b] by linarith
  ultimately show ?thesis by simp
qed


section \<open>Round trips\<close>

lemma nibble_ne_16: "n < 16 \<Longrightarrow> (word_of_nat n :: u8) \<noteq> 16"
  by (auto simp: word_unat_eq_iff unat_of_nat)

lemma hexPairs_bytesToHexString: "hexPairs (bytesToHexString bytes) = Some bytes"
proof (induction bytes)
  case Nil
  show ?case by (simp add: bytesToHexString_def)
next
  case (Cons b bs)
  have "unat b div 16 < 16" and "unat b mod 16 < 16"
    using unat_u8_less [of b] by linarith+
  moreover have "push_bit 4 (word_of_nat (unat b div 16)) OR word_of_nat (unat b mod 16) = b"
    using join_bits [where 'w = 8 and n = 4 and l = "unat b mod 16" and h = "unat b div 16"] by simp
  ultimately show ?case
    using Cons.IH
    by (simp add: bytesToHexString_def low_nibble high_nibble nibble_of_digit nibble_ne_16 Let_def
        del: drop_bit_and)
qed


text \<open>Formatting a parsed string gives it back with every digit in its upper case form.\<close>

definition hex_canonical :: "char \<Rightarrow> char" where
  "hex_canonical c = digitsArray ! unat (hexCharToNibble c)"

lemma hexCharToNibble_lt: "hexCharToNibble c \<noteq> 16 \<Longrightarrow> unat (hexCharToNibble c) < 16"
  by (auto simp: hexCharToNibble_def less_eq_char_def unat_word_ariths unat_byte_diff
      split: if_splits)

lemma hexPairs_Some_iff:
  "(\<exists>bs. hexPairs s = Some bs) \<longleftrightarrow> even (length s) \<and> list_all is_hex_digit s"
  by (induction s rule: hexPairs.induct) (auto simp: Let_def is_hex_digit_def)

lemma hexPairs_length: "hexPairs s = Some bs \<Longrightarrow> length s = 2 * length bs"
  by (induction s arbitrary: bs rule: hexPairs.induct) (auto simp: Let_def split: if_splits)

lemma bytesToHexString_hexPairs:
  "hexPairs s = Some bs \<Longrightarrow> bytesToHexString bs = map hex_canonical s"
proof (induction s arbitrary: bs rule: hexPairs.induct)
  case (3 c d cs)
  then obtain bs' where c: "hexCharToNibble c \<noteq> 16" and d: "hexCharToNibble d \<noteq> 16"
    and cs: "hexPairs cs = Some bs'"
    and bs: "bs = (push_bit 4 (hexCharToNibble c) OR hexCharToNibble d) # bs'"
    by (auto simp: Let_def split: if_splits)
  let ?h = "unat (hexCharToNibble c)" and ?l = "unat (hexCharToNibble d)"
  have lt: "?h < 16" "?l < 16"
    using c d by (simp_all add: hexCharToNibble_lt)
  have "push_bit 4 (hexCharToNibble c) OR hexCharToNibble d = word_of_nat (16 * ?h + ?l)"
    using join_bits [where 'w = 8 and n = 4 and h = ?h and l = ?l] lt by simp
  moreover have "unat (word_of_nat (16 * ?h + ?l) :: u8) = 16 * ?h + ?l"
    using lt by (simp add: unat_of_nat del: of_nat_add of_nat_mult)
  ultimately have "unat (push_bit 4 (hexCharToNibble c) OR hexCharToNibble d) = 16 * ?h + ?l"
    by simp
  then show ?case
    using lt "3.IH" [OF refl refl _ cs] c d bs
    by (simp add: bytesToHexString_def low_nibble high_nibble hex_canonical_def del: drop_bit_and)
qed (simp_all add: bytesToHexString_def)

section \<open>Fixed-width numbers\<close>

lemma foldl_hex: "foldl (\<lambda>a c. 16 * a + unat (hexCharToNibble c)) a s = a * 16 ^ length s + hex_value s"
proof (induction s arbitrary: a)
  case (Cons c s)
  show ?case
    using Cons [of "16 * a + unat (hexCharToNibble c)"] Cons [of "unat (hexCharToNibble c)"]
    by (simp add: hex_value_def algebra_simps)
qed (simp add: hex_value_def)

lemma hex_value_Cons: "hex_value (c # s) = unat (hexCharToNibble c) * 16 ^ length s + hex_value s"
  using foldl_hex [of "unat (hexCharToNibble c)" s] by (simp add: hex_value_def)

lemma hexDigits_value:
  "n \<le> 16 \<Longrightarrow> \<exists>s. hexDigits v ((of_nat n - 1) * 4) n = Some s \<and> length s = n
     \<and> hex_value s = unat v mod 16 ^ n"
proof (induction n)
  case 0
  show ?case by (simp add: hex_value_def)
next
  case (Suc n)
  then obtain s where s: "hexDigits v ((of_nat n - 1) * 4) n = Some s" "length s = n"
    "hex_value s = unat v mod 16 ^ n"
    by auto
  have idx: "unat (of_nat n * 4 :: u64) = 4 * n"
    using Suc.prems by (simp add: unat_of_nat unat_word_ariths)
  have ok: "\<not> 64 \<le> (of_nat n * 4 :: u64)"
    using Suc.prems idx by (simp add: word_le_nat_alt)
  have nib: "unat (drop_bit (4 * n) v AND 0x0f) = unat v div 16 ^ n mod 16"
    using unat_and_mask [of "drop_bit (4 * n) v" 4]
    by (simp add: mask_eq_exp_minus_1 unat_drop_bit power_mult)
  have "hexCharToNibble (digitsArray ! (unat v div 16 ^ n mod 16)) = of_nat (unat v div 16 ^ n mod 16)"
    by (rule nibble_of_digit) simp
  then have "unat (hexCharToNibble (digitsArray ! (unat v div 16 ^ n mod 16))) = unat v div 16 ^ n mod 16"
    by (simp add: unat_of_nat)
  moreover have "unat v mod 16 ^ Suc n = unat v div 16 ^ n mod 16 * 16 ^ n + unat v mod 16 ^ n"
    by (metis mod_mult2_eq mult.commute power_Suc2)
  ultimately show ?case
    using s ok idx nib by (simp add: hex_value_Cons algebra_simps)
qed

section \<open>Properties\<close>

text \<open>
  Parsing the hexadecimal form of a byte vector gives the vector back.
\<close>

theorem hex_roundtrip: "hexStringToBytes (bytesToHexString bytes) = bytes"
  by (simp add: hexStringToBytes_def hexPairs_bytesToHexString)

text \<open>
  \<open>hexStringToBytes\<close> accepts exactly the strings of an even number of hexadecimal digits of
  either case: those of at least one byte give a non-empty result, which formats back to the
  string with its digits in upper case; every other string gives the empty vector.
\<close>

theorem hex_parse_exact:
  "(hexStringToBytes s \<noteq> [] \<longleftrightarrow> s \<noteq> [] \<and> even (length s) \<and> list_all is_hex_digit s)
   \<and> bytesToHexString (hexStringToBytes s)
     = (if even (length s) \<and> list_all is_hex_digit s then map hex_canonical s else [])"
proof (cases "hexPairs s")
  case None
  then show ?thesis
    using hexPairs_Some_iff [of s] by (auto simp: hexStringToBytes_def bytesToHexString_def)
next
  case (Some bs)
  then show ?thesis
    using hexPairs_Some_iff [of s] hexPairs_length [OF Some]
    by (auto simp: hexStringToBytes_def bytesToHexString_hexPairs)
qed

text \<open>
  For at most 16 digits no shift of \<open>intToHexString\<close> is undefined; the result has exactly that
  many digits and denotes the value modulo \<open>16 ^ digits\<close> (higher digits are cut off).
\<close>

theorem int_to_hex_value:
  assumes "digits \<le> 16"
  shows "\<exists>s. intToHexString value digits = Some s \<and> length s = digits
    \<and> hex_value s = unat value mod 16 ^ digits"
  using hexDigits_value [OF assms] by (simp add: intToHexString_def)

lemma int_to_hex_value_witness:
  "\<exists>s. intToHexString 0xBEEF 2 = Some s \<and> length s = 2
     \<and> hex_value s = unat (0xBEEF :: u64) mod 16 ^ 2"
  by (rule int_to_hex_value) simp

end
