(* ===== verification/Base64.thy ===== *)
theory Base64
  imports Prelude
begin

text \<open>
  The base64 codec of \<open>http/utility.hpp\<close>: the streaming \<open>Base64Encoder\<close> with its overflow
  bytes, \<open>base64encode\<close>, \<open>base64Decode\<close> with its 256 entry table, and the body writer of
  \<open>http/http_base64_file_body.hpp\<close> that feeds a file to the encoder chunk by chunk.
  An output parameter \<open>std::string& output\<close> that is only appended to is modelled by the
  appended characters. The lemmas relate the stream to a one-shot reference encoder, count the
  output, and show that decoding inverts encoding.
\<close>

section \<open>Encoder\<close>

record base64_encoder =
  overflow1 :: char
  overflow2 :: char
  overflowCount :: nat

definition base64_init :: base64_encoder where
  "base64_init = \<lparr>overflow1 = CHR 0x00, overflow2 = CHR 0x00, overflowCount = 0\<rparr>"

definition base64_key :: "char list" where
  "base64_key = ''ABCDEFGHIJKLMNOPQRSTUVWXYZabcdefghijklmnopqrstuvwxyz0123456789+/''"

definition encodeTriple :: "char \<Rightarrow> char \<Rightarrow> char \<Rightarrow> string" where
  "encodeTriple first second third =
     [base64_key ! unat (drop_bit 2 (byte first AND 0xFC)),
      base64_key ! unat (push_bit 4 (byte first AND 0x03) + drop_bit 4 (byte second AND 0xF0)),
      base64_key ! unat (push_bit 2 (byte second AND 0x0F) + drop_bit 6 (byte third AND 0xC0)),
      base64_key ! unat (byte third AND 0x3F)]"

text \<open>The loop over whole triples: the characters written and the zero to two bytes left.\<close>

fun encode_triples :: "string \<Rightarrow> string \<times> string" where
  "encode_triples (a # b # c # data) =
     (case encode_triples data of (out, rest) \<Rightarrow> (encodeTriple a b c @ out, rest))"
| "encode_triples data = ([], data)"

text \<open>The tail of \<open>encode\<close>: the two tests that store what is left as overflow, in order.\<close>

definition store_first :: "base64_encoder \<times> string \<Rightarrow> base64_encoder \<times> string" where
  "store_first s = (case s of (e, data) \<Rightarrow>
     if data \<noteq> [] \<and> overflowCount e = 0
     then (e\<lparr>overflow1 := hd data, overflowCount := 1\<rparr>, tl data) else (e, data))"

definition store_second :: "base64_encoder \<times> string \<Rightarrow> base64_encoder \<times> string" where
  "store_second s = (case s of (e, data) \<Rightarrow>
     if data \<noteq> [] \<and> overflowCount e = 1
     then (e\<lparr>overflow2 := hd data, overflowCount := 2\<rparr>, tl data) else (e, data))"

text \<open>The head of \<open>encode\<close>: bytes kept from the last call are completed first.\<close>

definition flush_overflow :: "base64_encoder \<Rightarrow> string \<Rightarrow> base64_encoder \<times> string \<times> string" where
  "flush_overflow e data =
     (if overflowCount e = 2 then
        (if data \<noteq> [] then
           (e\<lparr>overflowCount := 0\<rparr>, tl data, encodeTriple (overflow1 e) (overflow2 e) (hd data))
         else (e, data, []))
      else if overflowCount e = 1 then
        (if 2 \<le> length data then
           (e\<lparr>overflowCount := 0\<rparr>, drop 2 data, encodeTriple (overflow1 e) (data ! 0) (data ! 1))
         else (e, data, []))
      else (e, data, []))"

definition encode :: "base64_encoder \<Rightarrow> string \<Rightarrow> base64_encoder \<times> string" where
  "encode e data =
     (case flush_overflow e data of (e1, data1, out1) \<Rightarrow>
      case encode_triples data1 of (out2, data2) \<Rightarrow>
        (fst (store_second (store_first (e1, data2))), out1 @ out2))"

definition finalize :: "base64_encoder \<Rightarrow> base64_encoder \<times> string" where
  "finalize e =
     (if overflowCount e = 0 then (e, [])
      else
        let out1 = [base64_key ! unat (drop_bit 2 (byte (overflow1 e) AND 0xFC))];
            keyIndex = push_bit 4 (byte (overflow1 e) AND 0x03)
        in if overflowCount e = 2 then
             (e\<lparr>overflowCount := 0\<rparr>,
              out1 @ [base64_key ! unat (keyIndex + drop_bit 4 (byte (overflow2 e) AND 0xF0)),
                      base64_key ! unat (push_bit 2 (byte (overflow2 e) AND 0x0F)), CHR ''=''])
           else (e\<lparr>overflowCount := 0\<rparr>, out1 @ [base64_key ! unat keyIndex, CHR ''='', CHR ''='']))"

definition encodedSize :: "nat \<Rightarrow> nat" where
  "encodedSize inputSize = (inputSize + 2) div 3 * 4"

definition base64encode :: "string \<Rightarrow> string" where
  "base64encode data =
     (case encode base64_init data of (e, out) \<Rightarrow> out @ snd (finalize e))"

section \<open>Decoder\<close>

definition nop :: u8 where
  "nop = - 1"

definition decodingData :: "u8 list" where
  "decodingData =
    [
     nop, nop, nop, nop, nop, nop, nop, nop, nop, nop, nop, nop, nop, nop, nop, nop,
     nop, nop, nop, nop, nop, nop, nop, nop, nop, nop, nop, nop, nop, nop, nop, nop,
     nop, nop, nop, nop, nop, nop, nop, nop, nop, nop, nop, 62, nop, nop, nop, 63,
     52, 53, 54, 55, 56, 57, 58, 59, 60, 61, nop, nop, nop, nop, nop, nop,
     nop, 0, 1, 2, 3, 4, 5, 6, 7, 8, 9, 10, 11, 12, 13, 14,
     15, 16, 17, 18, 19, 20, 21, 22, 23, 24, 25, nop, nop, nop, nop, nop,
     nop, 26, 27, 28, 29, 30, 31, 32, 33, 34, 35, 36, 37, 38, 39, 40,
     41, 42, 43, 44, 45, 46, 47, 48, 49, 50, 51, nop, nop, nop, nop, nop,
     nop, nop, nop, nop, nop, nop, nop, nop, nop, nop, nop, nop, nop, nop, nop, nop,
     nop, nop, nop, nop, nop, nop, nop, nop, nop, nop, nop, nop, nop, nop, nop, nop,
     nop, nop, nop, nop, nop, nop, nop, nop, nop, nop, nop, nop, nop, nop, nop, nop,
     nop, nop, nop, nop, nop, nop, nop, nop, nop, nop, nop, nop, nop, nop, nop, nop,
     nop, nop, nop, nop, nop, nop, nop, nop, nop, nop, nop, nop, nop, nop, nop, nop,
     nop, nop, nop, nop, nop, nop, nop, nop, nop, nop, nop, nop, nop, nop, nop, nop,
     nop, nop, nop, nop, nop, nop, nop, nop, nop, nop, nop, nop, nop, nop, nop, nop,
     nop, nop, nop, nop, nop, nop, nop, nop, nop, nop, nop, nop, nop, nop, nop, nop
    ]"

definition getCodeValue :: "char \<Rightarrow> u8" where
  "getCodeValue c = decodingData ! of_char c"

text \<open>
  One round of the loop per recursive call. The index tests \<open>++i < inputLength\<close> are the
  case splits on the rest of the input; when the third character is missing, the test for the
  fourth fails as well and the loop ends with \<open>true\<close>. The output written so far is returned
  also when the input is rejected, as the code leaves it in \<open>output\<close>.
\<close>

fun decode_loop :: "string \<Rightarrow> string \<Rightarrow> bool \<times> string" where
  "decode_loop [] output = (True, output)"
| "decode_loop (c0 # cs) output =
     (let code0 = getCodeValue c0
      in if code0 = nop then (False, output)
         else case cs of [] \<Rightarrow> (False, output) | c1 # cs1 \<Rightarrow>
           (let code1 = getCodeValue c1
            in if code1 = nop then (False, output)
               else let out1 = output @ [to_char (push_bit 2 code0 OR (drop_bit 4 code1 AND 0x3))]
               in case cs1 of [] \<Rightarrow> (True, out1) | c2 # cs2 \<Rightarrow>
                 if c2 = CHR ''='' then ((code1 AND 0x0f) = 0, out1)
                 else let code2 = getCodeValue c2
                 in if code2 = nop then (False, out1)
                    else let out2 = out1 @ [to_char ((push_bit 4 code1 AND 0xf0) OR (drop_bit 2 code2 AND 0x0f))]
                    in (case cs2 of [] \<Rightarrow> (True, out2) | c3 # cs3 \<Rightarrow>
                      if c3 = CHR ''='' then ((code2 AND 0x03) = 0, out2)
                      else let code3 = getCodeValue c3
                      in if code3 = nop then (False, out2)
                         else decode_loop cs3
                           (out2 @ [to_char ((push_bit 6 code2 AND 0xc0) OR code3)]))))"

definition base64Decode :: "string \<Rightarrow> bool \<times> string" where
  "base64Decode input = decode_loop input []"

section \<open>The body writer\<close>

text \<open>
  \<open>Base64FileBody::writer::get\<close> on one result of the underlying file writer: \<open>None\<close> when it has
  nothing, otherwise a buffer and whether more follows. \<open>body_output\<close> is the sequence of
  \<open>get\<close> calls a serializer makes: it stops when there is no buffer or no more data.
\<close>

record body_writer =
  wr_buf :: string
  wr_encoder :: base64_encoder

definition writer_get ::
    "body_writer \<Rightarrow> (string \<times> bool) option \<Rightarrow> body_writer \<times> (string \<times> bool) option" where
  "writer_get w ret =
     (case ret of None \<Rightarrow> (w, None)
      | Some (chunkView, again) \<Rightarrow>
          (case encode (wr_encoder w) chunkView of (e, buf) \<Rightarrow>
             if again then (w\<lparr>wr_buf := buf, wr_encoder := e\<rparr>, Some (buf, again))
             else (case finalize e of (e', fin) \<Rightarrow>
                     (w\<lparr>wr_buf := buf @ fin, wr_encoder := e'\<rparr>, Some (buf @ fin, again)))))"

definition writer_init :: body_writer where
  "writer_init = \<lparr>wr_buf = [], wr_encoder = base64_init\<rparr>"

fun body_output :: "body_writer \<Rightarrow> (string \<times> bool) list \<Rightarrow> string" where
  "body_output w [] = []"
| "body_output w (r # rs) =
     (case writer_get w (Some r) of
        (w', Some (buf, again)) \<Rightarrow> if again then buf @ body_output w' rs else buf
      | (w', None) \<Rightarrow> [])"

definition base64_body_size :: "nat \<Rightarrow> nat" where
  "base64_body_size fileSize = encodedSize fileSize"

section \<open>The reference encoder\<close>

text \<open>RFC 4648: 24 bit groups read as a number, cut into four sextets, padded at the end.\<close>

definition sextet :: "nat \<Rightarrow> char" where
  "sextet n = base64_key ! (n mod 64)"

fun rfc4648 :: "string \<Rightarrow> string" where
  "rfc4648 (a # b # c # rest) =
     (let n = 65536 * of_char a + 256 * of_char b + of_char c
      in [sextet (n div 262144), sextet (n div 4096), sextet (n div 64), sextet n] @ rfc4648 rest)"
| "rfc4648 [a, b] =
     (let n = 65536 * of_char a + 256 * of_char b
      in [sextet (n div 262144), sextet (n div 4096), sextet (n div 64), CHR ''=''])"
| "rfc4648 [a] =
     (let n = 65536 * of_char a
      in [sextet (n div 262144), sextet (n div 4096), CHR ''='', CHR ''=''])"
| "rfc4648 [] = []"

text \<open>The masks and shifts of the encoder, read as arithmetic on byte values.\<close>

lemma and_FC: "unat (drop_bit 2 (b AND 0xFC)) = unat (b :: u8) div 4"
proof -
  have "drop_bit 2 (b AND 0xFC) = drop_bit 2 b AND mask 6"
    by (simp add: mask_eq_exp_minus_1)
  moreover have "unat (drop_bit 2 b AND mask 6) = unat b div 4 mod 64"
    by (simp only: unat_and_mask unat_drop_bit) simp
  moreover have "unat b div 4 < 64"
    using unat_u8_less [of b] by linarith
  ultimately show ?thesis by simp
qed

lemma and_F0: "unat (drop_bit 4 (b AND 0xF0)) = unat (b :: u8) div 16"
proof -
  have "drop_bit 4 (b AND 0xF0) = drop_bit 4 b AND mask 4"
    by (simp add: mask_eq_exp_minus_1)
  moreover have "unat (drop_bit 4 b AND mask 4) = unat b div 16 mod 16"
    by (simp only: unat_and_mask unat_drop_bit) simp
  moreover have "unat b div 16 < 16"
    using unat_u8_less [of b] by linarith
  ultimately show ?thesis by simp
qed

lemma and_C0: "unat (drop_bit 6 (b AND 0xC0)) = unat (b :: u8) div 64"
proof -
  have "drop_bit 6 (b AND 0xC0) = drop_bit 6 b AND mask 2"
    by (simp add: mask_eq_exp_minus_1)
  moreover have "unat (drop_bit 6 b AND mask 2) = unat b div 64 mod 4"
    by (simp only: unat_and_mask unat_drop_bit) simp
  moreover have "unat b div 64 < 4"
    using unat_u8_less [of b] by linarith
  ultimately show ?thesis by simp
qed

lemma and_03: "unat (b AND 0x03) = unat (b :: u8) mod 4"
  using unat_and_mask [of b 2] by (simp add: mask_eq_exp_minus_1)

lemma and_0F: "unat (b AND 0x0F) = unat (b :: u8) mod 16"
  using unat_and_mask [of b 4] by (simp add: mask_eq_exp_minus_1)

lemma and_3F: "unat (b AND 0x3F) = unat (b :: u8) mod 64"
  using unat_and_mask [of b 6] by (simp add: mask_eq_exp_minus_1)

lemma push_4_03: "unat (push_bit 4 (b AND 0x03) :: u8) = 16 * (unat b mod 4)"
  by (simp add: push_bit_eq_mult unat_word_ariths and_03)

lemma push_2_0F: "unat (push_bit 2 (b AND 0x0F) :: u8) = 4 * (unat b mod 16)"
  by (simp add: push_bit_eq_mult unat_word_ariths and_0F)

lemma u8_div: "unat (b :: u8) div 16 < 16" "unat b div 64 < 4"
  using unat_u8_less [of b] by linarith+

lemma second_index:
  "unat (push_bit 4 (a AND 0x03) + drop_bit 4 (b AND 0xF0) :: u8) = 16 * (unat a mod 4) + unat b div 16"
proof -
  have "16 * (unat a mod 4) + unat b div 16 < 256"
    using mod_less_divisor [of 4 "unat a"] u8_div(1) [of b] by linarith
  then show ?thesis
    by (simp add: unat_word_ariths push_4_03 and_F0 del: drop_bit_and push_bit_and)
qed

lemma third_index:
  "unat (push_bit 2 (a AND 0x0F) + drop_bit 6 (b AND 0xC0) :: u8) = 4 * (unat a mod 16) + unat b div 64"
proof -
  have "4 * (unat a mod 16) + unat b div 64 < 256"
    using mod_less_divisor [of 16 "unat a"] u8_div(2) [of b] by linarith
  then show ?thesis
    by (simp add: unat_word_ariths push_2_0F and_C0 del: drop_bit_and push_bit_and)
qed

lemmas key_index = and_FC and_3F push_4_03 push_2_0F second_index third_index

lemma split_low:
  fixes t :: nat
  assumes "t < 4"
  shows "(1024 * a + 4 * b + t) div 4 = 256 * a + b" "(1024 * a + 4 * b + t) mod 4 = t"
proof -
  have split: "1024 * a + 4 * b + t = 4 * (256 * a + b) + t"
    by simp
  show "(1024 * a + 4 * b + t) div 4 = 256 * a + b"
    unfolding split div_mult_self4 [OF zero_neq_numeral [symmetric]] using assms by simp
  show "(1024 * a + 4 * b + t) mod 4 = t"
    unfolding split mod_mult_self4 using assms by simp
qed

text \<open>The sextets of a group, as the code computes them from the single bytes.\<close>

lemma sextet_arith:
  fixes a b c :: nat
  assumes "a < 256" "b < 256" "c < 256"
  shows "(65536 * a + 256 * b + c) div 262144 mod 64 = a div 4"
    and "(65536 * a + 256 * b + c) div 4096 mod 64 = 16 * (a mod 4) + b div 16"
    and "(65536 * a + 256 * b + c) div 64 mod 64 = 4 * (b mod 16) + c div 64"
    and "(65536 * a + 256 * b + c) mod 64 = c mod 64"
proof -
  have d64: "(65536 * a + 256 * b + c) div 64 = 1024 * a + 4 * b + c div 64"
    using div_mult_self4 [of 64 "1024 * a + 4 * b" c] by simp
  have "c div 64 < 4"
    using assms by linarith
  then have d4: "(1024 * a + 4 * b + c div 64) div 4 = 256 * a + b"
    and m4: "(1024 * a + 4 * b + c div 64) mod 4 = c div 64"
    by (simp_all only: split_low)
  have "(256 * a + b) mod 16 = b mod 16"
    using mod_mult_self4 [of 16 "16 * a" b] by simp
  note m16 = this
  from d4 have "(1024 * a + 4 * b + c div 64) div 64 = 16 * a + b div 16"
    using div_mult2_eq [of "1024 * a + 4 * b + c div 64" 4 16]
      div_mult_self4 [of 16 "16 * a" b] by simp
  then have d4096: "(65536 * a + 256 * b + c) div 4096 = 16 * a + b div 16"
    using div_mult2_eq [of "65536 * a + 256 * b + c" 64 64] d64 by simp
  have b16: "b div 16 < 16"
    using assms by linarith
  then have "(16 * a + b div 16) div 64 = a div 4"
    using div_mult2_eq [of "16 * a + b div 16" 16 4] by simp
  then have d262144: "(65536 * a + 256 * b + c) div 262144 = a div 4"
    using div_mult2_eq [of "65536 * a + 256 * b + c" 4096 64] d4096 by simp
  show "(65536 * a + 256 * b + c) div 262144 mod 64 = a div 4"
    unfolding d262144 using assms by simp
  show "(65536 * a + 256 * b + c) div 4096 mod 64 = 16 * (a mod 4) + b div 16"
    unfolding d4096 using mod_mult2_eq [of "16 * a + b div 16" 16 4] b16 by simp
  show "(65536 * a + 256 * b + c) div 64 mod 64 = 4 * (b mod 16) + c div 64"
    unfolding d64 using mod_mult2_eq [of "1024 * a + 4 * b + c div 64" 4 16] d4 m4 m16 by simp
  show "(65536 * a + 256 * b + c) mod 64 = c mod 64"
    using mod_mult_self4 [of 64 "1024 * a + 4 * b" c] by simp
qed

lemma encodeTriple_rfc: "encodeTriple a b c @ rfc4648 r = rfc4648 (a # b # c # r)"
  by (simp add: encodeTriple_def key_index unat_byte sextet_def sextet_arith Let_def
      del: drop_bit_and push_bit_and)

text \<open>
  The encoder as an abstraction: the bytes it still holds. \<open>encode\<close> emits the whole groups of
  what is held followed by the new data, and keeps the rest; \<open>finalize\<close> pads what is held.
\<close>

definition pending :: "base64_encoder \<Rightarrow> string" where
  "pending e = take (overflowCount e) [overflow1 e, overflow2 e]"

definition encoder_ok :: "base64_encoder \<Rightarrow> bool" where
  "encoder_ok e \<longleftrightarrow> overflowCount e \<le> 2"

lemma encoder_ok_init [simp]: "encoder_ok base64_init" "pending base64_init = []"
  by (simp_all add: encoder_ok_def base64_init_def pending_def)

lemmas sextet_arith2 = sextet_arith [where c = 0, simplified add_0_right]
lemmas sextet_arith1 = sextet_arith2 [where b = 0, simplified add_0_right mult_zero_right]

lemma finalize_rfc:
  assumes "encoder_ok e"
  shows "snd (finalize e) = rfc4648 (pending e)"
proof -
  consider "overflowCount e = 0" | "overflowCount e = 1" | "overflowCount e = 2"
    using assms unfolding encoder_ok_def by linarith
  then show ?thesis
  proof cases
    case 2
    then have "pending e = [overflow1 e]"
      by (simp add: pending_def)
    moreover have "rfc4648 [overflow1 e] =
      [base64_key ! (of_char (overflow1 e) div 4),
       base64_key ! (16 * (of_char (overflow1 e) mod 4)), CHR ''='', CHR ''='']"
      using sextet_arith1 [of "of_char (overflow1 e)"]
      by (simp only: rfc4648.simps sextet_def Let_def) simp
    ultimately show ?thesis
      using 2 by (simp add: finalize_def Let_def key_index unat_byte del: drop_bit_and push_bit_and)
  next
    case 3
    then have "pending e = [overflow1 e, overflow2 e]"
      by (simp add: pending_def)
    moreover have "rfc4648 [overflow1 e, overflow2 e] =
      [base64_key ! (of_char (overflow1 e) div 4),
       base64_key ! (16 * (of_char (overflow1 e) mod 4) + of_char (overflow2 e) div 16),
       base64_key ! (4 * (of_char (overflow2 e) mod 16)), CHR ''='']"
      using sextet_arith2 [of "of_char (overflow1 e)" "of_char (overflow2 e)"]
      by (simp only: rfc4648.simps sextet_def Let_def) simp
    ultimately show ?thesis
      using 3 by (simp add: finalize_def Let_def key_index unat_byte del: drop_bit_and push_bit_and)
  qed (simp add: finalize_def pending_def)
qed

lemma encode_triples_rfc:
  "encode_triples data = (out, rest) \<Longrightarrow>
     length rest \<le> 2 \<and> out @ rfc4648 (rest @ later) = rfc4648 (data @ later)"
proof (induction data arbitrary: out rest rule: encode_triples.induct)
  case (1 a b c data)
  obtain o' where o': "encode_triples data = (o', rest)" "out = encodeTriple a b c @ o'"
    using "1.prems" by (auto split: prod.splits)
  have "rfc4648 ((a # b # c # data) @ later) = encodeTriple a b c @ rfc4648 (data @ later)"
    using encodeTriple_rfc [of a b c "data @ later"] by simp
  with "1.IH" [OF o'(1)] o'(2) show ?case by simp
qed auto

lemma flush_overflow_rfc:
  assumes "flush_overflow e data = (e1, data1, out)" and "encoder_ok e"
  shows "encoder_ok e1 \<and> out @ rfc4648 (pending e1 @ data1 @ later) = rfc4648 (pending e @ data @ later)
    \<and> (overflowCount e1 = 0 \<or> overflowCount e1 + length data1 \<le> 2)"
proof -
  consider "overflowCount e = 0" | "overflowCount e = 1" | "overflowCount e = 2"
    using assms(2) unfolding encoder_ok_def by linarith
  then show ?thesis
  proof cases
    case 2
    then show ?thesis
      using assms encodeTriple_rfc [of "overflow1 e" "data ! 0" "data ! 1" "drop 2 data @ later"]
      by (cases data; cases "tl data")
        (auto simp: flush_overflow_def pending_def encoder_ok_def split: if_splits)
  next
    case 3
    then show ?thesis
      using assms encodeTriple_rfc [of "overflow1 e" "overflow2 e" "hd data" "tl data @ later"]
      by (cases data) (auto simp: flush_overflow_def pending_def encoder_ok_def split: if_splits)
  qed (use assms in \<open>auto simp: flush_overflow_def pending_def encoder_ok_def\<close>)
qed

text \<open>What is left after the whole groups is stored, and nothing is dropped.\<close>

lemma store_rfc:
  assumes "overflowCount e + length data \<le> 2"
  shows "snd (store_second (store_first (e, data))) = []"
    and "pending (fst (store_second (store_first (e, data)))) = pending e @ data"
    and "encoder_ok (fst (store_second (store_first (e, data))))"
proof -
  consider "overflowCount e = 0" | "overflowCount e = 1" | "overflowCount e = 2"
    using assms by linarith
  then have "snd (store_second (store_first (e, data))) = []
    \<and> pending (fst (store_second (store_first (e, data)))) = pending e @ data
    \<and> encoder_ok (fst (store_second (store_first (e, data))))"
    using assms
    by cases (cases data; cases "tl data";
        auto simp: store_first_def store_second_def pending_def encoder_ok_def numeral_2_eq_2)+
  then show "snd (store_second (store_first (e, data))) = []"
    and "pending (fst (store_second (store_first (e, data)))) = pending e @ data"
    and "encoder_ok (fst (store_second (store_first (e, data))))"
    by auto
qed

lemma encode_rfc:
  assumes "encode e data = (e', out)" and "encoder_ok e"
  shows "encoder_ok e' \<and> out @ rfc4648 (pending e' @ later) = rfc4648 (pending e @ data @ later)"
proof -
  obtain e1 data1 out1 where f: "flush_overflow e data = (e1, data1, out1)"
    using prod_cases3 by blast
  obtain out2 data2 where t: "encode_triples data1 = (out2, data2)"
    by fastforce
  have e': "e' = fst (store_second (store_first (e1, data2)))" and out: "out = out1 @ out2"
    using assms(1) f t by (auto simp: encode_def)
  note f' = flush_overflow_rfc [OF f assms(2), of later]
  note t' = encode_triples_rfc [OF t, of later]
  have two: "out2 @ rfc4648 (pending e1 @ data2 @ later) = rfc4648 (pending e1 @ data1 @ later)
    \<and> overflowCount e1 + length data2 \<le> 2"
  proof (cases "overflowCount e1 = 0")
    case True
    with t' show ?thesis by (simp add: pending_def)
  next
    case False
    with f' have "overflowCount e1 + length data1 \<le> 2" by blast
    moreover from this False have "out2 = []" "data2 = data1"
      using t by (cases data1 rule: encode_triples.cases; auto)+
    ultimately show ?thesis by simp
  qed
  with store_rfc [of e1 data2] f' e' out show ?thesis by simp
qed

text \<open>A sequence of \<open>encode\<close> calls with the final \<open>finalize\<close>, as a streaming caller makes them.\<close>

fun encode_stream :: "base64_encoder \<Rightarrow> string list \<Rightarrow> string" where
  "encode_stream e [] = snd (finalize e)"
| "encode_stream e (data # chunks) =
     (case encode e data of (e', out) \<Rightarrow> out @ encode_stream e' chunks)"

lemma encode_stream_rfc:
  "encoder_ok e \<Longrightarrow> encode_stream e chunks = rfc4648 (pending e @ concat chunks)"
proof (induction chunks arbitrary: e)
  case Nil
  then show ?case by (simp add: finalize_rfc)
next
  case (Cons data chunks)
  obtain e' out where e: "encode e data = (e', out)"
    by fastforce
  with encode_rfc [OF e Cons.prems, of "concat chunks"] Cons.IH [of e'] show ?case
    by simp
qed

lemma base64encode_rfc: "base64encode data = rfc4648 data"
  using encode_stream_rfc [of base64_init "[data]"]
  by (simp add: base64encode_def split: prod.splits)

lemma length_rfc4648: "length (rfc4648 s) = encodedSize (length s)"
proof (induction s rule: rfc4648.induct)
  case (1 a b c rest)
  then show ?case
    using div_mult_self1 [of 3 "length rest + 2" 1] by (simp add: encodedSize_def Let_def)
qed (simp_all add: encodedSize_def Let_def)

lemma body_output_rfc:
  assumes "encoder_ok (wr_encoder w)"
  shows "body_output w (map (\<lambda>c. (c, True)) cs @ [(c, False)])
    = rfc4648 (pending (wr_encoder w) @ concat cs @ c)"
  using assms
proof (induction cs arbitrary: w)
  case Nil
  obtain e out where e: "encode (wr_encoder w) c = (e, out)"
    by fastforce
  with encode_rfc [OF e Nil, of "[]"] finalize_rfc [of e] show ?case
    by (auto simp: writer_get_def split: prod.splits)
next
  case (Cons d cs)
  obtain e out where e: "encode (wr_encoder w) d = (e, out)"
    by fastforce
  with encode_rfc [OF e Cons.prems, of "concat cs @ c"]
    Cons.IH [of "w\<lparr>wr_buf := out, wr_encoder := e\<rparr>"] show ?case
    by (simp add: writer_get_def)
qed

section \<open>Decoding what was encoded\<close>

lemma getCodeValue_key: "n < 64 \<Longrightarrow> getCodeValue (base64_key ! n) = of_nat n"
proof -
  have "\<forall>m \<in> set [0..<64]. getCodeValue (base64_key ! m) = of_nat m"
    by code_simp
  then show "n < 64 \<Longrightarrow> ?thesis" by simp
qed

lemma key_not_pad: "n < 64 \<Longrightarrow> base64_key ! n \<noteq> CHR ''=''"
proof -
  have "\<forall>m \<in> set [0..<64]. base64_key ! m \<noteq> CHR ''=''"
    by code_simp
  then show "n < 64 \<Longrightarrow> ?thesis" by simp
qed

lemma code_sextet [simp]: "getCodeValue (sextet n) = of_nat (n mod 64)"
  by (simp add: sextet_def getCodeValue_key)

lemma sextet_not_pad [simp]: "sextet n \<noteq> CHR ''=''"
  by (simp add: sextet_def key_not_pad)

lemma code_not_nop [simp]: "(of_nat (n mod 64) :: u8) \<noteq> nop"
proof
  assume *: "(of_nat (n mod 64) :: u8) = nop"
  have "unat nop = 255"
    by code_simp
  moreover have "unat (of_nat (n mod 64) :: u8) = n mod 64"
    by (simp add: unat_of_nat)
  ultimately show False
    using * mod_less_divisor [of 64 n] by simp
qed

text \<open>Bytes as numbers: the masks and shifts of the decoder on a value below 256.\<close>

lemma unat_of_nat_u8: "k < 256 \<Longrightarrow> unat (of_nat k :: u8) = k"
  by (simp add: unat_of_nat)

lemma word_and_mask: "k < 256 \<Longrightarrow> (of_nat k :: u8) AND mask n = of_nat (k mod 2 ^ n)"
  by (rule word_unat_eq_iff [THEN iffD2])
    (simp only: unat_and_mask unat_of_nat_u8 less_imp_diff_less
      order.strict_trans1 [OF mod_less_eq_dividend])

lemma word_shift: "k < 256 \<Longrightarrow> drop_bit n (of_nat k :: u8) = of_nat (k div 2 ^ n)"
  by (rule word_unat_eq_iff [THEN iffD2])
    (simp only: unat_drop_bit unat_of_nat_u8 order.strict_trans1 [OF div_le_dividend])

lemma decode_first:
  assumes "q < 64"
  shows "push_bit 2 (of_nat p :: u8) OR (drop_bit 4 (of_nat q) AND 0x3) = of_nat (4 * p + q div 16)"
proof -
  have "q div 16 < 4" and "q < 256"
    using assms by linarith+
  then have "drop_bit 4 (of_nat q :: u8) AND 0x3 = of_nat (q div 16)"
    using word_and_mask [of "q div 16" 2] by (simp add: word_shift mask_eq_exp_minus_1)
  then show ?thesis
    using join_bits [where 'w = 8 and n = 2 and h = p and l = "q div 16"] \<open>q div 16 < 4\<close> by simp
qed

lemma decode_second:
  assumes "q < 64" "r < 64"
  shows "(push_bit 4 (of_nat q :: u8) AND 0xf0) OR (drop_bit 2 (of_nat r) AND 0x0f)
    = of_nat (16 * (q mod 16) + r div 4)"
proof -
  have "r div 4 < 16" and "r < 256" and "q < 256"
    using assms by linarith+
  then have "drop_bit 2 (of_nat r :: u8) AND 0x0f = of_nat (r div 4)"
    using word_and_mask [of "r div 4" 4] by (simp add: word_shift mask_eq_exp_minus_1)
  moreover have "push_bit 4 (of_nat q :: u8) AND 0xf0 = push_bit 4 (of_nat q AND mask 4)"
    by (simp add: mask_eq_exp_minus_1)
  ultimately show ?thesis
    using join_bits [where 'w = 8 and n = 4 and h = "q mod 16" and l = "r div 4"]
      \<open>r div 4 < 16\<close> word_and_mask [OF \<open>q < 256\<close>, of 4] by simp
qed

lemma decode_third:
  assumes "r < 64" "s < 64"
  shows "(push_bit 6 (of_nat r :: u8) AND 0xc0) OR of_nat s = of_nat (64 * (r mod 4) + s)"
proof -
  have "r < 256"
    using assms by linarith
  have "push_bit 6 (of_nat r :: u8) AND 0xc0 = push_bit 6 (of_nat r AND mask 2)"
    by (simp add: mask_eq_exp_minus_1)
  then show ?thesis
    using join_bits [where 'w = 8 and n = 6 and h = "r mod 4" and l = s]
      assms word_and_mask [OF \<open>r < 256\<close>, of 2] by simp
qed

lemma char_lt: "of_char c < (256 :: nat)"
  by simp

lemma to_char_of_char [simp]: "to_char (of_nat (of_char c)) = c"
  by (simp add: to_char_def unat_of_nat_u8)

lemma regroup:
  fixes a b c :: nat
  assumes "a < 256" "b < 256" "c < 256" "n = 65536 * a + 256 * b + c"
  shows "4 * (n div 262144 mod 64) + (n div 4096 mod 64) div 16 = a"
    and "16 * ((n div 4096 mod 64) mod 16) + (n div 64 mod 64) div 4 = b"
    and "64 * ((n div 64 mod 64) mod 4) + n mod 64 = c"
proof -
  note s = sextet_arith [OF assms(1-3), folded assms(4)]
  have "b div 16 < 16" "c div 64 < 4"
    using assms by linarith+
  then have q: "(16 * (a mod 4) + b div 16) div 16 = a mod 4"
      "(16 * (a mod 4) + b div 16) mod 16 = b div 16"
    and r: "(4 * (b mod 16) + c div 64) div 4 = b mod 16" "(4 * (b mod 16) + c div 64) mod 4 = c div 64"
    using div_mult_self4 [of 16 "a mod 4" "b div 16"] mod_mult_self4 [of 16 "a mod 4" "b div 16"]
      div_mult_self4 [of 4 "b mod 16" "c div 64"] mod_mult_self4 [of 4 "b mod 16" "c div 64"]
    by simp_all
  show "4 * (n div 262144 mod 64) + (n div 4096 mod 64) div 16 = a"
    unfolding s q by simp
  show "16 * ((n div 4096 mod 64) mod 16) + (n div 64 mod 64) div 4 = b"
    unfolding s q r by simp
  show "64 * ((n div 64 mod 64) mod 4) + n mod 64 = c"
    unfolding s r by simp
qed

lemma decode_group:
  assumes "n = 65536 * of_char a + 256 * of_char b + of_char c"
  shows "decode_loop ([sextet (n div 262144), sextet (n div 4096), sextet (n div 64), sextet n] @ rest) out
    = decode_loop rest (out @ [a, b, c])"
proof -
  note g = regroup [OF char_lt char_lt char_lt assms]
  show ?thesis
    by (simp add: Let_def decode_first decode_second decode_third g
        del: of_nat_add of_nat_mult push_bit_and drop_bit_and)
qed

lemma decode_pair:
  assumes "n = 65536 * of_char a + 256 * of_char b"
  shows "decode_loop [sextet (n div 262144), sextet (n div 4096), sextet (n div 64), CHR ''=''] out
    = (True, out @ [a, b])"
proof -
  have n: "n = 65536 * of_char a + 256 * of_char b + 0"
    using assms by simp
  note g = regroup [OF char_lt char_lt _ n]
  have "(of_nat (n div 64 mod 64) :: u8) AND 0x03 = of_nat ((n div 64 mod 64) mod 4)"
    using word_and_mask [of "n div 64 mod 64" 2] by (simp add: mask_eq_exp_minus_1)
  also have "(n div 64 mod 64) mod 4 = 0"
    using g(3) by simp
  finally show ?thesis
    using g(1,2) by (simp add: Let_def decode_first decode_second
        del: of_nat_add of_nat_mult push_bit_and drop_bit_and)
qed

text \<open>The padding character ends the decoding, whatever follows it.\<close>

lemma decode_single:
  assumes "n = 65536 * of_char a"
  shows "decode_loop (sextet (n div 262144) # sextet (n div 4096) # CHR ''='' # junk) out
    = (True, out @ [a])"
proof -
  have n: "n = 65536 * of_char a + 256 * 0 + 0"
    using assms by simp
  note g = regroup [OF char_lt _ _ n]
  have "(of_nat (n div 4096 mod 64) :: u8) AND 0x0f = of_nat ((n div 4096 mod 64) mod 16)"
    using word_and_mask [of "n div 4096 mod 64" 4] by (simp add: mask_eq_exp_minus_1)
  also have "(n div 4096 mod 64) mod 16 = 0"
    using g(2) by simp
  finally show ?thesis
    using g(1) by (simp add: Let_def decode_first
        del: of_nat_add of_nat_mult push_bit_and drop_bit_and)
qed

lemma decode_loop_rfc: "decode_loop (rfc4648 s) out = (True, out @ s)"
proof (induction s arbitrary: out rule: rfc4648.induct)
  case (1 a b c rest)
  then show ?case
    by (simp only: rfc4648.simps Let_def decode_group [OF refl]) simp
qed (simp_all only: rfc4648.simps Let_def decode_pair [OF refl] decode_single [OF refl]
      decode_loop.simps(1) append_Nil2)

section \<open>Properties\<close>

text \<open>
  C10: decoding inverts encoding: for every byte string, \<open>base64Decode(base64encode(s))\<close> succeeds
  and gives \<open>s\<close> back, padding included.
\<close>

theorem base64_decode_encode: "base64Decode (base64encode s) = (True, s)"
  by (simp add: base64Decode_def base64encode_rfc decode_loop_rfc)

text \<open>
  However the input is cut into chunks, the streaming encoder followed by \<open>finalize\<close> writes
  the RFC 4648 encoding of the whole input, of exactly \<open>encodedSize\<close> characters.
\<close>

theorem base64_stream:
  "encode_stream base64_init chunks = rfc4648 (concat chunks)
   \<and> length (encode_stream base64_init chunks) = encodedSize (length (concat chunks))"
  by (simp only: encode_stream_rfc encoder_ok_init length_rfc4648) simp

text \<open>
  The body writer, over the chunks of a file read in any sizes, sends the one-shot encoding of
  the file, and the size announced by \<open>Base64FileBody::size\<close> is the number of bytes sent.
\<close>

theorem base64_body_writer:
  "body_output writer_init (map (\<lambda>c. (c, True)) cs @ [(c, False)]) = base64encode (concat cs @ c)
   \<and> length (body_output writer_init (map (\<lambda>c. (c, True)) cs @ [(c, False)]))
     = base64_body_size (length (concat cs @ c))"
  by (simp add: body_output_rfc writer_init_def base64encode_rfc length_rfc4648 base64_body_size_def)

text \<open>The decoder stops at the first padding character and does not look at the rest.\<close>

lemma base64Decode_ignores_after_pad:
  "base64Decode (butlast (butlast (base64encode [a])) @ CHR ''='' # junk) = (True, [a])"
proof -
  define n :: nat where "n = 65536 * of_char a"
  have "butlast (butlast (base64encode [a])) @ CHR ''='' # junk
      = sextet (n div 262144) # sextet (n div 4096) # CHR ''='' # junk"
    by (simp only: base64encode_rfc rfc4648.simps Let_def n_def butlast.simps append.simps
        list.distinct simp_thms if_True if_False)
  then show ?thesis
    by (simp only: base64Decode_def decode_single [OF n_def] append_Nil)
qed

end
