(* ===== verification/Trie.thy ===== *)
theory Trie
  imports Prelude "HOL-Library.Sublist"
begin

text \<open>
  The URL trie of \<open>http/routing.hpp\<close> (class \<open>Trie\<close>): nodes in a vector, edges that are either a
  typed parameter or a string fragment, insertion of a rule's URL, the merge of chains of plain
  fragments done by \<open>optimize\<close>, and the search that returns the smallest rule index that matches.

  The specification is the set of routes: \<open>route t n toks r\<close> says that rule \<open>r\<close> is reached from
  node \<open>n\<close> by the token sequence \<open>toks\<close>, and \<open>tok_run\<close> says how a token sequence consumes a URL.
  The lemmas show that \<open>find\<close> returns the least rule whose pattern matches, that \<open>add\<close> adds exactly
  one route, and that \<open>optimizeNode\<close> changes no route and terminates.

  The number parsers read from \<open>reqUrl.data() + pos\<close>; the model lets them read the rest of the
  URL and no byte after it. \<open>strtod\<close> is an argument of the search (a value's bit pattern, the
  characters consumed and \<open>ERANGE\<close>).
\<close>

section \<open>Data\<close>

datatype ParamType = PINT | PUINT | PDOUBLE | PSTRING | PPATH

fun ptIndex :: "ParamType \<Rightarrow> nat" where
  "ptIndex PINT = 0" | "ptIndex PUINT = 1" | "ptIndex PDOUBLE = 2" | "ptIndex PSTRING = 3"
| "ptIndex PPATH = 4"

definition ParamType_MAX :: nat where
  "ParamType_MAX = 5"

type_synonym dbl = u64

record RoutingParams =
  intParams :: "int list"
  uintParams :: "nat list"
  doubleParams :: "dbl list"
  stringParams :: "string list"

definition emptyParams :: RoutingParams where
  "emptyParams = \<lparr>intParams = [], uintParams = [], doubleParams = [], stringParams = []\<rparr>"

record node =
  ruleIndex :: nat
  paramChildrens :: "nat list"
  children :: "(string, nat) omap"

definition newNodeValue :: node where
  "newNodeValue = \<lparr>ruleIndex = 0, paramChildrens = replicate ParamType_MAX 0, children = []\<rparr>"

type_synonym trie = "node list"

definition trie_init :: trie where
  "trie_init = [newNodeValue]"

definition isSimpleNode :: "node \<Rightarrow> bool" where
  "isSimpleNode n \<longleftrightarrow> ruleIndex n = 0 \<and> list_all (\<lambda>x. x = 0) (paramChildrens n)"

section \<open>Insertion\<close>

definition newNode :: "trie \<Rightarrow> trie \<times> nat" where
  "newNode t = (t @ [newNodeValue], length t)"

definition paramTraits :: "(ParamType \<times> string) list" where
  "paramTraits =
     [(PINT, ''<int>''), (PUINT, ''<uint>''), (PDOUBLE, ''<float>''), (PDOUBLE, ''<double>''),
      (PSTRING, ''<str>''), (PSTRING, ''<string>''), (PPATH, ''<path>'')]"

text \<open>The loop over \<open>paramTraits\<close> with its \<open>break\<close>: the first tag that stands at the position.\<close>

definition matchTag :: "string \<Rightarrow> (ParamType \<times> string) option" where
  "matchTag s = List.find (\<lambda>(p, tag). take (length tag) s = tag) paramTraits"

definition goParam :: "trie \<Rightarrow> nat \<Rightarrow> ParamType \<Rightarrow> trie \<times> nat" where
  "goParam t idx p =
     (if paramChildrens (t ! idx) ! ptIndex p = 0
      then case newNode t of (t1, newNodeIdx) \<Rightarrow>
        (t1[idx := (t1 ! idx)\<lparr>paramChildrens := (paramChildrens (t1 ! idx))[ptIndex p := newNodeIdx]\<rparr>],
         newNodeIdx)
      else (t, paramChildrens (t ! idx) ! ptIndex p))"

definition goPiece :: "trie \<Rightarrow> nat \<Rightarrow> string \<Rightarrow> trie \<times> nat" where
  "goPiece t idx piece =
     (case omap_find (children (t ! idx)) piece of
        None \<Rightarrow> (case newNode t of (t1, newNodeIdx) \<Rightarrow>
          (t1[idx := (t1 ! idx)\<lparr>children := omap_emplace piece newNodeIdx (children (t1 ! idx))\<rparr>],
           newNodeIdx))
      | Some c \<Rightarrow> (t, c))"

text \<open>
  One iteration of the loop of \<open>add\<close> on the state \<open>(nodes, idx, i)\<close>, the loop's own \<open>i++\<close>
  included. After a '<' the body ends with \<open>i--\<close>, which the \<open>i++\<close> undoes (both wrap at 0), so
  a '<' at which no tag stands leaves the state as it was.
\<close>

definition add_iter :: "string \<Rightarrow> trie \<times> nat \<times> nat \<Rightarrow> trie \<times> nat \<times> nat" where
  "add_iter url st = (case st of (t, idx, i) \<Rightarrow>
     if url ! i = CHR ''<'' then
       (case matchTag (drop i url) of
          None \<Rightarrow> (t, idx, i)
        | Some (p, tag) \<Rightarrow> (case goParam t idx p of (t', idx') \<Rightarrow> (t', idx', i + length tag)))
     else (case goPiece t idx [url ! i] of (t', idx') \<Rightarrow> (t', idx', i + 1)))"

fun add_loop :: "nat \<Rightarrow> string \<Rightarrow> trie \<times> nat \<times> nat \<Rightarrow> (trie \<times> nat) option" where
  "add_loop fuel url (t, idx, i) =
     (if length url \<le> i then Some (t, idx)
      else case fuel of 0 \<Rightarrow> None | Suc fuel' \<Rightarrow> add_loop fuel' url (add_iter url (t, idx, i)))"

datatype trie_error = HandlerAlreadyExists string

definition add_with :: "nat \<Rightarrow> trie \<Rightarrow> string \<Rightarrow> nat \<Rightarrow> (trie_error + trie) option" where
  "add_with fuel t url r =
     (case add_loop fuel url (t, 0, 0) of
        None \<Rightarrow> None
      | Some (t', idx) \<Rightarrow>
          Some (if ruleIndex (t' ! idx) \<noteq> 0 then Inl (HandlerAlreadyExists url)
                else Inr (t'[idx := (t' ! idx)\<lparr>ruleIndex := r\<rparr>])))"

text \<open>An iteration that does not stand still consumes a character, so the length is fuel enough.\<close>

definition add :: "trie \<Rightarrow> string \<Rightarrow> nat \<Rightarrow> (trie_error + trie) option" where
  "add t url r = add_with (length url) t url r"

section \<open>Merging plain chains\<close>

definition mergeChildren :: "trie \<Rightarrow> (string, nat) omap \<Rightarrow> (string, nat) omap" where
  "mergeChildren t ch =
     fold (\<lambda>(k, c) merged.
             fold (\<lambda>(ck, cc) m. omap_insert_or_assign (k @ ck) cc m) (children (t ! c)) merged)
       ch []"

text \<open>\<open>for (x : xs) optimizeNode(&nodes[x])\<close>, with the recursive call as an argument.\<close>

fun optimize_each :: "(trie \<Rightarrow> nat \<Rightarrow> trie option) \<Rightarrow> nat list \<Rightarrow> trie \<Rightarrow> trie option" where
  "optimize_each rec [] t = Some t"
| "optimize_each rec (x # xs) t = Option.bind (rec t x) (optimize_each rec xs)"

primrec optimizeNode :: "nat \<Rightarrow> trie \<Rightarrow> nat \<Rightarrow> trie option" where
  "optimizeNode 0 t n = None"
| "optimizeNode (Suc fuel) t n =
     Option.bind (optimize_each (optimizeNode fuel) (filter (\<lambda>x. x \<noteq> 0) (paramChildrens (t ! n))) t)
       (\<lambda>t1.
          if children (t1 ! n) = [] then Some t1
          else if list_all (\<lambda>(k, c). isSimpleNode (t1 ! c)) (children (t1 ! n)) then
            optimizeNode fuel
              (t1[n := (t1 ! n)\<lparr>children := mergeChildren t1 (children (t1 ! n))\<rparr>]) n
          else optimize_each (optimizeNode fuel) (map snd (children (t1 ! n))) t1)"

definition optimize_fuel :: "trie \<Rightarrow> nat" where
  "optimize_fuel t = (length t + 1) * (length t + 1)"

definition validate :: "trie \<Rightarrow> trie option" where
  "validate t = optimizeNode (optimize_fuel t) t 0"

section \<open>Search\<close>

text \<open>
  Reading a parameter at the position: \<open>None\<close> when the block of \<open>find\<close> for this type does not
  descend, otherwise the characters consumed and the parameters with the value pushed. The code
  pushes before the call and pops after it, so the callee gets the extended parameters and the
  caller keeps its own.
\<close>

fun scanParam ::
    "(string \<Rightarrow> dbl parsed) \<Rightarrow> ParamType \<Rightarrow> string \<Rightarrow> RoutingParams \<Rightarrow> (nat \<times> RoutingParams) option" where
  "scanParam strtod PINT s ps =
     (let c = hd s; v = strtoll s
      in if is_digit c \<or> c = CHR ''+'' \<or> c = CHR ''-''
         then if \<not> p_erange v \<and> p_len v \<noteq> 0
              then Some (p_len v, ps\<lparr>intParams := intParams ps @ [p_value v]\<rparr>) else None
         else None)"
| "scanParam strtod PUINT s ps =
     (let c = hd s; v = strtoull s
      in if is_digit c \<or> c = CHR ''+''
         then if \<not> p_erange v \<and> p_len v \<noteq> 0
              then Some (p_len v, ps\<lparr>uintParams := uintParams ps @ [p_value v]\<rparr>) else None
         else None)"
| "scanParam strtod PDOUBLE s ps =
     (let c = hd s; v = strtod s
      in if is_digit c \<or> c = CHR ''+'' \<or> c = CHR ''-'' \<or> c = CHR ''.''
         then if \<not> p_erange v \<and> p_len v \<noteq> 0
              then Some (p_len v, ps\<lparr>doubleParams := doubleParams ps @ [p_value v]\<rparr>) else None
         else None)"
| "scanParam strtod PSTRING s ps =
     (let seg = takeWhile (\<lambda>c. c \<noteq> CHR ''/'') s
      in if seg \<noteq> [] then Some (length seg, ps\<lparr>stringParams := stringParams ps @ [seg]\<rparr>) else None)"
| "scanParam strtod PPATH s ps =
     (if s \<noteq> [] then Some (length s, ps\<lparr>stringParams := stringParams ps @ [s]\<rparr>) else None)"

type_synonym found = "nat \<times> RoutingParams"

definition updateFound :: "found \<Rightarrow> found \<Rightarrow> found" where
  "updateFound acc ret =
     (if fst ret \<noteq> 0 \<and> (fst acc = 0 \<or> fst acc > fst ret) then ret else acc)"

text \<open>
  The state of a call of \<open>find\<close> is the node and the rest of the URL from \<open>pos\<close>. \<open>rec\<close> is the
  recursive call; \<open>None\<close> is a call that does not return.
\<close>

definition findParam ::
    "(string \<Rightarrow> dbl parsed) \<Rightarrow> (nat \<Rightarrow> string \<Rightarrow> RoutingParams \<Rightarrow> found option) \<Rightarrow> node
     \<Rightarrow> string \<Rightarrow> RoutingParams \<Rightarrow> ParamType \<Rightarrow> found \<Rightarrow> found option" where
  "findParam strtod rec nd s ps p acc =
     (if paramChildrens nd ! ptIndex p \<noteq> 0 then
        (case scanParam strtod p s ps of
           None \<Rightarrow> Some acc
         | Some (k, ps') \<Rightarrow>
             map_option (updateFound acc) (rec (paramChildrens nd ! ptIndex p) (drop k s) ps'))
      else Some acc)"

fun findChildren ::
    "(nat \<Rightarrow> string \<Rightarrow> RoutingParams \<Rightarrow> found option) \<Rightarrow> string \<Rightarrow> RoutingParams
     \<Rightarrow> (string \<times> nat) list \<Rightarrow> found \<Rightarrow> found option" where
  "findChildren rec s ps [] acc = Some acc"
| "findChildren rec s ps ((fragment, child) # kvs) acc =
     (if take (length fragment) s = fragment then
        Option.bind (rec child (drop (length fragment) s) ps)
          (\<lambda>ret. findChildren rec s ps kvs (updateFound acc ret))
      else findChildren rec s ps kvs acc)"

primrec findFrom ::
    "nat \<Rightarrow> (string \<Rightarrow> dbl parsed) \<Rightarrow> trie \<Rightarrow> nat \<Rightarrow> string \<Rightarrow> RoutingParams \<Rightarrow> found option" where
  "findFrom 0 strtod t n s ps = None"
| "findFrom (Suc fuel) strtod t n s ps =
     (let nd = t ! n; rec = findFrom fuel strtod t
      in if s = [] then Some (ruleIndex nd, ps)
         else
           Option.bind (findParam strtod rec nd s ps PINT (0, emptyParams))
             (\<lambda>a1. Option.bind (findParam strtod rec nd s ps PUINT a1)
             (\<lambda>a2. Option.bind (findParam strtod rec nd s ps PDOUBLE a2)
             (\<lambda>a3. Option.bind (findParam strtod rec nd s ps PSTRING a3)
             (\<lambda>a4. Option.bind (findParam strtod rec nd s ps PPATH a4)
             (findChildren rec s ps (children nd)))))))"

text \<open>Every call consumes at least one character, so the length plus one is fuel enough.\<close>

definition find_route :: "(string \<Rightarrow> dbl parsed) \<Rightarrow> trie \<Rightarrow> string \<Rightarrow> found option" where
  "find_route strtod t reqUrl = findFrom (length reqUrl + 1) strtod t 0 reqUrl emptyParams"

section \<open>Routes\<close>

datatype token = Lit char | Par ParamType

inductive route :: "trie \<Rightarrow> nat \<Rightarrow> token list \<Rightarrow> nat \<Rightarrow> bool" for t where
  here: "ruleIndex (t ! n) = r \<Longrightarrow> r \<noteq> 0 \<Longrightarrow> route t n [] r"
| param: "paramChildrens (t ! n) ! ptIndex p = c \<Longrightarrow> c \<noteq> 0 \<Longrightarrow> route t c toks r
    \<Longrightarrow> route t n (Par p # toks) r"
| child: "(frag, c) \<in> set (children (t ! n)) \<Longrightarrow> frag \<noteq> [] \<Longrightarrow> route t c toks r
    \<Longrightarrow> route t n (map Lit frag @ toks) r"

inductive_cases route_NilE [elim!]: "route t n [] r"

text \<open>How a token sequence reads a URL: the parameters collected, or \<open>None\<close> when it does not match.\<close>

fun tok_run :: "(string \<Rightarrow> dbl parsed) \<Rightarrow> token list \<Rightarrow> string \<Rightarrow> RoutingParams \<Rightarrow> RoutingParams option" where
  "tok_run strtod [] s ps = (if s = [] then Some ps else None)"
| "tok_run strtod (Lit c # toks) s ps =
     (case s of [] \<Rightarrow> None | d # s' \<Rightarrow> if c = d then tok_run strtod toks s' ps else None)"
| "tok_run strtod (Par p # toks) s ps =
     (if s = [] then None
      else case scanParam strtod p s ps of
             None \<Rightarrow> None
           | Some (k, ps') \<Rightarrow> tok_run strtod toks (drop k s) ps')"

lemma tok_run_lits:
  "tok_run strtod (map Lit frag @ toks) s ps =
     (if take (length frag) s = frag then tok_run strtod toks (drop (length frag) s) ps else None)"
proof (induction frag arbitrary: s)
  case (Cons c frag)
  then show ?case by (cases s) auto
qed simp

lemma route_rule_pos: "route t n toks r \<Longrightarrow> r \<noteq> 0"
  by (induction rule: route.induct) auto

definition matches :: "(string \<Rightarrow> dbl parsed) \<Rightarrow> trie \<Rightarrow> nat \<Rightarrow> string \<Rightarrow> RoutingParams \<Rightarrow> found set" where
  "matches strtod t n s ps = {(r, ps'). \<exists>toks. route t n toks r \<and> tok_run strtod toks s ps = Some ps'}"

text \<open>\<open>ret\<close> is a best answer for a set of matches: none, or one with the least rule index.\<close>

definition best :: "found set \<Rightarrow> found \<Rightarrow> bool" where
  "best M ret \<longleftrightarrow> (if fst ret = 0 then M = {} else ret \<in> M \<and> (\<forall>m \<in> M. fst ret \<le> fst m))"

lemma best_empty [simp]: "best {} (0, ps)"
  by (simp add: best_def)

lemma best_unique: "best M a \<Longrightarrow> best M b \<Longrightarrow> fst a = fst b"
  by (fastforce simp: best_def split: if_splits)

lemma best_update: "best A acc \<Longrightarrow> best B ret \<Longrightarrow> best (A \<union> B) (updateFound acc ret)"
  by (fastforce simp: best_def updateFound_def split: if_splits)

text \<open>What the search needs of the vector: five slots, targets inside it, no empty fragment.\<close>

definition node_wf :: "nat \<Rightarrow> node \<Rightarrow> bool" where
  "node_wf N nd \<longleftrightarrow> length (paramChildrens nd) = ParamType_MAX
     \<and> (\<forall>c \<in> set (paramChildrens nd). c < N)
     \<and> (\<forall>(frag, c) \<in> set (children nd). frag \<noteq> [] \<and> c < N)"

definition trie_wf :: "trie \<Rightarrow> bool" where
  "trie_wf t \<longleftrightarrow> t \<noteq> [] \<and> (\<forall>nd \<in> set t. node_wf (length t) nd)"

lemma ptIndex_less [simp]: "ptIndex p < ParamType_MAX"
  by (cases p) (simp_all add: ParamType_MAX_def)

lemma ptIndex_eq_iff [simp]: "ptIndex p = ptIndex q \<longleftrightarrow> p = q"
  by (cases p; cases q) simp_all

lemma node_wf_param: "node_wf N nd \<Longrightarrow> paramChildrens nd ! ptIndex p < N"
  by (simp add: node_wf_def)

lemma node_wf_child: "node_wf N nd \<Longrightarrow> (frag, c) \<in> set (children nd) \<Longrightarrow> frag \<noteq> [] \<and> c < N"
  by (auto simp: node_wf_def)

lemma trie_wf_node: "trie_wf t \<Longrightarrow> n < length t \<Longrightarrow> node_wf (length t) (t ! n)"
  by (simp add: trie_wf_def)

definition paramMatches ::
    "(string \<Rightarrow> dbl parsed) \<Rightarrow> trie \<Rightarrow> node \<Rightarrow> string \<Rightarrow> RoutingParams \<Rightarrow> ParamType \<Rightarrow> found set" where
  "paramMatches strtod t nd s ps p =
     (if paramChildrens nd ! ptIndex p = 0 then {}
      else case scanParam strtod p s ps of None \<Rightarrow> {}
      | Some (k, ps') \<Rightarrow> matches strtod t (paramChildrens nd ! ptIndex p) (drop k s) ps')"

definition childMatches ::
    "(string \<Rightarrow> dbl parsed) \<Rightarrow> trie \<Rightarrow> (string \<times> nat) list \<Rightarrow> string \<Rightarrow> RoutingParams \<Rightarrow> found set" where
  "childMatches strtod t kvs s ps =
     (\<Union>(frag, c) \<in> set kvs. if take (length frag) s = frag
        then matches strtod t c (drop (length frag) s) ps else {})"

lemma matches_Nil: "matches strtod t n [] ps = (if ruleIndex (t ! n) = 0 then {} else {(ruleIndex (t ! n), ps)})"
proof -
  have "tok_run strtod toks [] ps = Some ps' \<longleftrightarrow> toks = [] \<and> ps' = ps" for toks ps'
    by (cases toks rule: list.exhaust; cases "hd toks") auto
  then show ?thesis
    by (auto simp: matches_def intro: route.here)
qed

lemma matches_split:
  assumes "s \<noteq> []" and "node_wf N (t ! n)"
  shows "matches strtod t n s ps
    = (\<Union>p. paramMatches strtod t (t ! n) s ps p) \<union> childMatches strtod t (children (t ! n)) s ps"
proof (intro equalityI subsetI)
  fix m assume "m \<in> matches strtod t n s ps"
  then obtain toks where r: "route t n toks (fst m)" and run: "tok_run strtod toks s ps = Some (snd m)"
    by (auto simp: matches_def)
  from r show "m \<in> (\<Union>p. paramMatches strtod t (t ! n) s ps p)
      \<union> childMatches strtod t (children (t ! n)) s ps"
  proof cases
    case here
    with run assms show ?thesis by simp
  next
    case (param p c toks')
    then show ?thesis
      using run by (cases m) (fastforce simp: paramMatches_def matches_def split: if_splits option.splits)
  next
    case (child frag c toks')
    then have "take (length frag) s = frag"
      and "tok_run strtod toks' (drop (length frag) s) ps = Some (snd m)"
      using run by (auto simp: tok_run_lits split: if_splits)
    with child show ?thesis
      by (cases m) (fastforce simp: childMatches_def matches_def)
  qed
next
  fix m assume "m \<in> (\<Union>p. paramMatches strtod t (t ! n) s ps p)
      \<union> childMatches strtod t (children (t ! n)) s ps"
  then consider (p) p where "m \<in> paramMatches strtod t (t ! n) s ps p"
    | (c) "m \<in> childMatches strtod t (children (t ! n)) s ps"
    by blast
  then show "m \<in> matches strtod t n s ps"
  proof cases
    case p
    then show ?thesis
      using assms(1) by (cases m)
        (fastforce simp: paramMatches_def matches_def intro: route.param split: if_splits option.splits)
  next
    case c
    then obtain frag c' toks where "(frag, c') \<in> set (children (t ! n))" "take (length frag) s = frag"
      and r: "route t c' toks (fst m)" "tok_run strtod toks (drop (length frag) s) ps = Some (snd m)"
      by (auto simp: childMatches_def matches_def split: if_splits)
    moreover have "frag \<noteq> []"
      using node_wf_child assms(2) calculation(1) by blast
    ultimately have "route t n (map Lit frag @ toks) (fst m)"
      and "tok_run strtod (map Lit frag @ toks) s ps = Some (snd m)"
      by (auto simp: tok_run_lits intro: route.child)
    then show ?thesis
      unfolding matches_def by (cases m) auto
  qed
qed

section \<open>The search finds the least matching rule\<close>

lemma scanParam_pos: "scanParam strtod p s ps = Some (k, ps') \<Longrightarrow> k \<noteq> 0"
  by (cases p) (auto simp: Let_def split: if_splits)

text \<open>The call \<open>rec\<close> answers well on every shorter rest of the URL.\<close>

definition rec_ok ::
    "(string \<Rightarrow> dbl parsed) \<Rightarrow> trie \<Rightarrow> string \<Rightarrow> (nat \<Rightarrow> string \<Rightarrow> RoutingParams \<Rightarrow> found option) \<Rightarrow> bool" where
  "rec_ok strtod t s rec \<longleftrightarrow>
     (\<forall>c s' ps. c < length t \<longrightarrow> length s' < length s \<longrightarrow>
        (\<exists>ret. rec c s' ps = Some ret \<and> best (matches strtod t c s' ps) ret))"

lemma rec_okD:
  "rec_ok strtod t s rec \<Longrightarrow> c < length t \<Longrightarrow> length s' < length s \<Longrightarrow>
     \<exists>ret. rec c s' ps = Some ret \<and> best (matches strtod t c s' ps) ret"
  by (simp add: rec_ok_def)

lemma findParam_best:
  assumes "rec_ok strtod t s rec" "node_wf (length t) nd" "s \<noteq> []" "best M acc"
  shows "\<exists>acc'. findParam strtod rec nd s ps p acc = Some acc'
    \<and> best (M \<union> paramMatches strtod t nd s ps p) acc'"
proof (cases "scanParam strtod p s ps")
  case None
  then show ?thesis
    using assms(4) by (cases acc) (simp add: findParam_def paramMatches_def)
next
  case (Some kps)
  obtain k ps' where kps: "kps = (k, ps')"
    by fastforce
  have "length (drop k s) < length s"
    using scanParam_pos Some kps assms(3) by simp
  then obtain ret where "rec (paramChildrens nd ! ptIndex p) (drop k s) ps' = Some ret"
      "best (matches strtod t (paramChildrens nd ! ptIndex p) (drop k s) ps') ret"
    using rec_okD [OF assms(1) node_wf_param [OF assms(2)]] by blast
  then show ?thesis
    using assms(4) Some kps by (auto simp: findParam_def paramMatches_def best_update simp del: split_paired_Ex)
qed

lemma findChildren_best:
  assumes "rec_ok strtod t s rec" "s \<noteq> []"
    and "\<forall>(frag, c) \<in> set kvs. frag \<noteq> [] \<and> c < length t" "best M acc"
  shows "\<exists>acc'. findChildren rec s ps kvs acc = Some acc'
    \<and> best (M \<union> childMatches strtod t kvs s ps) acc'"
  using assms(3,4)
proof (induction kvs arbitrary: M acc)
  case Nil
  then show ?case by (simp add: childMatches_def)
next
  case (Cons kv kvs)
  obtain frag c where kv: "kv = (frag, c)"
    by fastforce
  show ?case
  proof (cases "take (length frag) s = frag")
    case False
    with Cons kv show ?thesis by (simp add: childMatches_def)
  next
    case True
    have frag: "frag \<noteq> [] \<and> c < length t"
      using Cons.prems(1) unfolding kv by simp
    then have "length (drop (length frag) s) < length s"
      using assms(2) by simp
    then obtain ret where ret: "rec c (drop (length frag) s) ps = Some ret"
        "best (matches strtod t c (drop (length frag) s) ps) ret"
      using rec_okD [OF assms(1)] frag by blast
    have kvs: "\<forall>(frag, c) \<in> set kvs. frag \<noteq> [] \<and> c < length t"
      using Cons.prems(1) by simp
    obtain acc' where acc': "findChildren rec s ps kvs (updateFound acc ret) = Some acc'"
        "best (M \<union> matches strtod t c (drop (length frag) s) ps \<union> childMatches strtod t kvs s ps) acc'"
      using Cons.IH [OF kvs best_update [OF Cons.prems(2) ret(2)]] by blast
    have "childMatches strtod t (kv # kvs) s ps
        = matches strtod t c (drop (length frag) s) ps \<union> childMatches strtod t kvs s ps"
      using True kv by (simp add: childMatches_def)
    with acc' ret(1) True kv show ?thesis
      by (simp add: Un_assoc)
  qed
qed

lemma UNIV_ParamType: "(UNIV :: ParamType set) = {PINT, PUINT, PDOUBLE, PSTRING, PPATH}"
  by (auto intro: ParamType.exhaust)

lemma findFrom_best:
  assumes "trie_wf t"
  shows "n < length t \<Longrightarrow> length s < fuel \<Longrightarrow>
    \<exists>ret. findFrom fuel strtod t n s ps = Some ret \<and> best (matches strtod t n s ps) ret"
proof (induction fuel arbitrary: n s ps)
  case (Suc fuel)
  let ?nd = "t ! n" and ?rec = "findFrom fuel strtod t"
  have nd: "node_wf (length t) ?nd"
    using trie_wf_node [OF assms] Suc.prems(1) .
  show ?case
  proof (cases "s = []")
    case True
    then show ?thesis by (simp add: matches_Nil best_def)
  next
    case False
    have rec: "rec_ok strtod t s ?rec"
      using Suc.IH Suc.prems(2) by (simp add: rec_ok_def)
    note par = findParam_best [OF rec nd False]
    from par [OF best_empty] obtain a1 where a1: "findParam strtod ?rec ?nd s ps PINT (0, emptyParams) = Some a1"
      "best ({} \<union> paramMatches strtod t ?nd s ps PINT) a1" by blast
    from par [OF a1(2)] obtain a2 where a2: "findParam strtod ?rec ?nd s ps PUINT a1 = Some a2"
      "best ({} \<union> paramMatches strtod t ?nd s ps PINT \<union> paramMatches strtod t ?nd s ps PUINT) a2" by blast
    from par [OF a2(2)] obtain a3 where a3: "findParam strtod ?rec ?nd s ps PDOUBLE a2 = Some a3"
      "best ({} \<union> paramMatches strtod t ?nd s ps PINT \<union> paramMatches strtod t ?nd s ps PUINT
         \<union> paramMatches strtod t ?nd s ps PDOUBLE) a3" by blast
    from par [OF a3(2)] obtain a4 where a4: "findParam strtod ?rec ?nd s ps PSTRING a3 = Some a4"
      "best ({} \<union> paramMatches strtod t ?nd s ps PINT \<union> paramMatches strtod t ?nd s ps PUINT
         \<union> paramMatches strtod t ?nd s ps PDOUBLE \<union> paramMatches strtod t ?nd s ps PSTRING) a4" by blast
    from par [OF a4(2)] obtain a5 where a5: "findParam strtod ?rec ?nd s ps PPATH a4 = Some a5"
      "best ({} \<union> paramMatches strtod t ?nd s ps PINT \<union> paramMatches strtod t ?nd s ps PUINT
         \<union> paramMatches strtod t ?nd s ps PDOUBLE \<union> paramMatches strtod t ?nd s ps PSTRING
         \<union> paramMatches strtod t ?nd s ps PPATH) a5" by blast
    have kids: "\<forall>(frag, c) \<in> set (children ?nd). frag \<noteq> [] \<and> c < length t"
      using nd by (simp add: node_wf_def)
    have split: "matches strtod t n s ps = ({} \<union> paramMatches strtod t ?nd s ps PINT
         \<union> paramMatches strtod t ?nd s ps PUINT
         \<union> paramMatches strtod t ?nd s ps PDOUBLE \<union> paramMatches strtod t ?nd s ps PSTRING
         \<union> paramMatches strtod t ?nd s ps PPATH) \<union> childMatches strtod t (children ?nd) s ps"
      unfolding matches_split [OF False nd] UNIV_ParamType by blast
    obtain a6 where a6: "findChildren ?rec s ps (children ?nd) a5 = Some a6"
      "best (matches strtod t n s ps) a6"
      unfolding split using findChildren_best [OF rec False kids a5(2), of ps] by blast
    show ?thesis
      using a1(1) a2(1) a3(1) a4(1) a5(1) a6 False by (simp add: Let_def)
  qed
qed simp

text \<open>\<open>find\<close> answers on every URL, with the least rule that has a matching pattern and with the
  parameters one of its matching patterns reads.\<close>

lemma find_route_best:
  "trie_wf t \<Longrightarrow> \<exists>ret. find_route strtod t url = Some ret \<and> best (matches strtod t 0 url emptyParams) ret"
  unfolding find_route_def by (rule findFrom_best) (auto simp: trie_wf_def)

section \<open>Insertion adds one route\<close>

text \<open>
  Before \<open>validate\<close> every fragment is a single character, and each node is reached by one token
  sequence only. \<open>goto\<close> follows one token, \<open>walk\<close> a sequence.
\<close>

fun goto :: "trie \<Rightarrow> nat \<Rightarrow> token \<Rightarrow> nat option" where
  "goto t n (Lit c) = omap_find (children (t ! n)) [c]"
| "goto t n (Par p) = (let c = paramChildrens (t ! n) ! ptIndex p in if c = 0 then None else Some c)"

fun walk :: "trie \<Rightarrow> nat \<Rightarrow> token list \<Rightarrow> nat option" where
  "walk t n [] = Some n"
| "walk t n (x # toks) = Option.bind (goto t n x) (\<lambda>c. walk t c toks)"

definition edges_up :: "nat \<Rightarrow> node \<Rightarrow> bool" where
  "edges_up n nd \<longleftrightarrow> (\<forall>c \<in> set (paramChildrens nd). c \<noteq> 0 \<longrightarrow> n < c)
     \<and> (\<forall>(frag, c) \<in> set (children nd). n < c)"

definition raw_node :: "nat \<Rightarrow> nat \<Rightarrow> node \<Rightarrow> bool" where
  "raw_node N n nd \<longleftrightarrow> node_wf N nd \<and> edges_up n nd \<and> omap_ok (children nd)
     \<and> (\<forall>(frag, c) \<in> set (children nd). length frag = 1)"

definition raw_trie :: "trie \<Rightarrow> bool" where
  "raw_trie t \<longleftrightarrow> t \<noteq> [] \<and> (\<forall>n < length t. raw_node (length t) n (t ! n))
     \<and> (\<forall>a b m. walk t 0 a = Some m \<and> walk t 0 b = Some m \<longrightarrow> a = b)"

lemma raw_trie_node: "raw_trie t \<Longrightarrow> n < length t \<Longrightarrow> raw_node (length t) n (t ! n)"
  by (simp add: raw_trie_def)

lemma raw_trie_wf: "raw_trie t \<Longrightarrow> trie_wf t"
  unfolding raw_trie_def trie_wf_def raw_node_def by (metis in_set_conv_nth)

lemma goto_bound: "raw_node N n (t ! n) \<Longrightarrow> goto t n x = Some c \<Longrightarrow> n < c \<and> c < N"
  by (cases x)
    (auto simp: raw_node_def node_wf_def edges_up_def omap_find_Some_iff Let_def split: if_splits)

lemma walk_append: "walk t n (a @ b) = Option.bind (walk t n a) (\<lambda>m. walk t m b)"
  by (induction a arbitrary: n) (auto split: Option.bind_splits)

lemma walk_bound: "raw_trie t \<Longrightarrow> n < length t \<Longrightarrow> walk t n a = Some m \<Longrightarrow> m < length t"
proof (induction a arbitrary: n)
  case (Cons x a)
  then obtain c where c: "goto t n x = Some c" "walk t c a = Some m"
    by (auto split: Option.bind_splits)
  with goto_bound [OF raw_trie_node [OF Cons.prems(1,2)]] have "c < length t"
    by blast
  with Cons.IH [OF Cons.prems(1) _ c(2)] show ?case .
qed simp

lemma raw_route_Cons:
  assumes "raw_node N n (t ! n)"
  shows "route t n (x # toks) r \<longleftrightarrow> (\<exists>c. goto t n x = Some c \<and> route t c toks r)"
proof
  assume "route t n (x # toks) r"
  then show "\<exists>c. goto t n x = Some c \<and> route t c toks r"
  proof cases
    case (child frag c toks')
    then have "length frag = 1"
      using assms by (auto simp: raw_node_def)
    then obtain ch where "frag = [ch]"
      by (cases frag) auto
    with child assms show ?thesis
      by (auto simp: raw_node_def omap_find_Some_iff)
  qed auto
next
  assume "\<exists>c. goto t n x = Some c \<and> route t c toks r"
  then obtain c where c: "goto t n x = Some c" "route t c toks r"
    by blast
  show "route t n (x # toks) r"
  proof (cases x)
    case (Lit ch)
    with c assms have "([ch], c) \<in> set (children (t ! n))"
      by (auto simp: raw_node_def omap_find_Some_iff)
    from route.child [OF this _ c(2)] Lit show ?thesis by simp
  next
    case (Par p)
    with c show ?thesis
      by (auto simp: Let_def split: if_splits intro: route.param)
  qed
qed

lemma raw_route_iff:
  assumes "raw_trie t"
  shows "n < length t \<Longrightarrow> route t n toks r \<longleftrightarrow> (\<exists>m. walk t n toks = Some m \<and> ruleIndex (t ! m) = r \<and> r \<noteq> 0)"
proof (induction toks arbitrary: n)
  case Nil
  then show ?case by (auto intro: route.here)
next
  case (Cons x toks)
  note raw = raw_trie_node [OF assms Cons.prems]
  show ?case
    unfolding raw_route_Cons [OF raw]
    using Cons.IH goto_bound [OF raw] by (auto split: Option.bind_splits)
qed

text \<open>A new node at the end of the vector, reached from \<open>idx\<close> by one new edge \<open>tok\<close>.\<close>

definition new_edge :: "trie \<Rightarrow> nat \<Rightarrow> token \<Rightarrow> trie \<Rightarrow> bool" where
  "new_edge t idx tok t' \<longleftrightarrow> idx < length t \<and> goto t idx tok = None \<and> length t' = Suc (length t)
     \<and> (\<forall>m < length t. m \<noteq> idx \<longrightarrow> t' ! m = t ! m) \<and> t' ! length t = newNodeValue
     \<and> ruleIndex (t' ! idx) = ruleIndex (t ! idx) \<and> raw_node (length t') idx (t' ! idx)
     \<and> (\<forall>x. goto t' idx x = (if x = tok then Some (length t) else goto t idx x))"

lemma goto_same_node: "t' ! m = t ! m \<Longrightarrow> goto t' m x = goto t m x"
  by (cases x) simp_all

lemma goto_newNode: "t ! m = newNodeValue \<Longrightarrow> goto t m x = None"
  by (cases x) (simp_all add: newNodeValue_def omap_find_def)

lemma new_edge_goto:
  assumes "new_edge t idx tok t'" and "m < length t'"
  shows "goto t' m x = (if m = idx \<and> x = tok then Some (length t)
    else if m = length t then None else goto t m x)"
proof -
  consider "m = idx" | "m = length t" | "m < length t" "m \<noteq> idx"
    using assms unfolding new_edge_def by linarith
  then show ?thesis
    using assms by cases (auto simp: new_edge_def goto_newNode intro: goto_same_node)
qed

lemma new_edge_walk:
  assumes "new_edge t idx tok t'" and "raw_trie t"
  shows "walk t' 0 a = (if \<exists>pre. a = pre @ [tok] \<and> walk t 0 pre = Some idx then Some (length t)
    else walk t 0 a)"
proof (induction a rule: rev_induct)
  case (snoc x a)
  have len: "0 < length t" "length t' = Suc (length t)" "goto t idx tok = None" "idx < length t"
    using assms by (auto simp: raw_trie_def new_edge_def)
  show ?case
  proof (cases "walk t 0 a")
    case None
    then have "walk t' 0 a = None \<or> walk t' 0 a = Some (length t)"
      using snoc.IH by auto
    with None snoc.IH len new_edge_goto [OF assms(1)] show ?thesis
      by (auto simp: walk_append new_edge_def goto_newNode split: Option.bind_splits)
  next
    case (Some m)
    have m: "m < length t"
      using walk_bound [OF assms(2) len(1) Some] .
    have "\<not> (\<exists>pre. a = pre @ [tok] \<and> walk t 0 pre = Some idx)"
      using Some len(3) by (auto simp: walk_append)
    with snoc.IH Some have "walk t' 0 a = Some m"
      by simp
    with Some m len new_edge_goto [OF assms(1), of m x] show ?thesis
      by (auto simp: walk_append split: Option.bind_splits)
  qed
qed (auto)

lemma raw_node_mono: "raw_node N n nd \<Longrightarrow> N \<le> N' \<Longrightarrow> raw_node N' n nd"
  unfolding raw_node_def node_wf_def by fastforce

lemma raw_newNode [simp]: "n < N \<Longrightarrow> raw_node N n newNodeValue"
  by (auto simp: raw_node_def node_wf_def edges_up_def newNodeValue_def)

lemma new_edge_raw:
  assumes "new_edge t idx tok t'" and "raw_trie t"
  shows "raw_trie t'"
proof -
  have "raw_node (length t') n (t' ! n)" if n: "n < length t'" for n
  proof -
    consider "n = idx" | "n = length t" | "n < length t" "n \<noteq> idx"
      using n assms(1) by (auto simp: new_edge_def less_Suc_eq)
    then show ?thesis
      using assms by cases
        (auto simp: new_edge_def intro: raw_node_mono [OF raw_trie_node])
  qed
  moreover have "a = b" if w: "walk t' 0 a = Some m" "walk t' 0 b = Some m" for a b m
  proof -
    have inj: "a = b" if "walk t 0 a = Some m" "walk t 0 b = Some m" for a b m
      using assms(2) that unfolding raw_trie_def by blast
    have "walk t 0 a \<noteq> Some (length t)" for a
      using walk_bound [OF assms(2), of 0 a "length t"] assms(2) by (auto simp: raw_trie_def)
    then show ?thesis
      using w inj unfolding new_edge_walk [OF assms]
      by (auto split: if_splits)
  qed
  ultimately show ?thesis
    using assms(1) by (auto simp: raw_trie_def new_edge_def)
qed

lemma new_edge_rules:
  assumes "new_edge t idx tok t'" and "raw_trie t"
  shows "route t' 0 a r \<longleftrightarrow> route t 0 a r"
proof -
  have len: "0 < length t" "0 < length t'" "idx < length t"
    using assms by (auto simp: raw_trie_def new_edge_def)
  have same: "ruleIndex (t' ! m) = ruleIndex (t ! m)" if "m < length t" for m
    using that assms(1) by (cases "m = idx") (auto simp: new_edge_def)
  have fresh: "ruleIndex (t' ! length t) = 0" "goto t idx tok = None"
    using assms(1) by (auto simp: new_edge_def newNodeValue_def)
  have "m < length t" if "walk t 0 a = Some m" for m
    using walk_bound [OF assms(2) len(1) that] .
  then show ?thesis
    unfolding raw_route_iff [OF new_edge_raw [OF assms] len(2)] raw_route_iff [OF assms(2) len(1)]
      new_edge_walk [OF assms]
    using same fresh by (auto simp: walk_append)
qed

text \<open>Both steps of \<open>add\<close> follow an existing edge or make a new one.\<close>

definition linked :: "trie \<Rightarrow> nat \<Rightarrow> token \<Rightarrow> trie \<times> nat \<Rightarrow> bool" where
  "linked t idx tok res \<longleftrightarrow> (case res of (t', idx') \<Rightarrow>
     (goto t idx tok = Some idx' \<and> t' = t) \<or> (new_edge t idx tok t' \<and> idx' = length t))"

lemma goParam_linked:
  assumes "raw_node (length t) idx (t ! idx)" and "idx < length t"
  shows "linked t idx (Par p) (goParam t idx p)"
proof (cases "paramChildrens (t ! idx) ! ptIndex p = 0")
  case True
  define t' where "t' = (t @ [newNodeValue])[idx := (t ! idx)
    \<lparr>paramChildrens := (paramChildrens (t ! idx))[ptIndex p := length t]\<rparr>]"
  have len: "length (paramChildrens (t ! idx)) = ParamType_MAX"
    using assms(1) by (simp add: raw_node_def node_wf_def)
  have go: "goParam t idx p = (t', length t)"
    using True assms(2) by (simp add: goParam_def newNode_def t'_def nth_append)
  have idx: "t' ! idx = (t ! idx)\<lparr>paramChildrens := (paramChildrens (t ! idx))[ptIndex p := length t]\<rparr>"
    using assms(2) by (simp add: t'_def)
  have "raw_node (length t') idx (t' ! idx)"
    using assms raw_node_mono [OF assms(1), of "Suc (length t)"]
    unfolding idx raw_node_def node_wf_def edges_up_def
    by (auto simp: t'_def dest!: set_update_subset_insert [THEN subsetD])
  moreover have "\<forall>x. goto t' idx x = (if x = Par p then Some (length t) else goto t idx x)"
  proof
    fix x show "goto t' idx x = (if x = Par p then Some (length t) else goto t idx x)"
      using assms(2) len by (cases x) (auto simp: idx nth_list_update)
  qed
  ultimately have "new_edge t idx (Par p) t'"
    using assms(2) True idx by (simp add: new_edge_def t'_def nth_append)
  with go show ?thesis by (simp add: linked_def)
next
  case False
  then show ?thesis by (simp add: goParam_def linked_def Let_def)
qed

lemma goPiece_linked:
  assumes "raw_node (length t) idx (t ! idx)" and "idx < length t"
  shows "linked t idx (Lit c) (goPiece t idx [c])"
proof (cases "omap_find (children (t ! idx)) [c]")
  case None
  define t' where "t' = (t @ [newNodeValue])[idx := (t ! idx)
    \<lparr>children := omap_emplace [c] (length t) (children (t ! idx))\<rparr>]"
  have ok: "omap_ok (children (t ! idx))"
    using assms(1) by (simp add: raw_node_def)
  have ins: "omap_emplace [c] (length t) (children (t ! idx))
      = omap_insert_or_assign [c] (length t) (children (t ! idx))"
    by (simp only: omap_emplace_def None simp_thms if_True)
  have go: "goPiece t idx [c] = (t', length t)"
    using None assms(2) by (simp add: goPiece_def newNode_def t'_def nth_append)
  have idx: "t' ! idx = (t ! idx)\<lparr>children := omap_insert_or_assign [c] (length t) (children (t ! idx))\<rparr>"
    using assms(2) ins by (simp add: t'_def)
  have "raw_node (length t') idx (t' ! idx)"
    using assms raw_node_mono [OF assms(1), of "Suc (length t)"]
    unfolding idx raw_node_def node_wf_def edges_up_def
    by (auto simp: t'_def set_insert_or_assign [OF ok] ok)
  moreover have "\<forall>x. goto t' idx x = (if x = Lit c then Some (length t) else goto t idx x)"
  proof
    fix x show "goto t' idx x = (if x = Lit c then Some (length t) else goto t idx x)"
      by (cases x) (auto simp: idx omap_find_insert [OF ok] Let_def)
  qed
  ultimately have "new_edge t idx (Lit c) t'"
    using assms(2) None idx by (simp add: new_edge_def t'_def nth_append)
  with go show ?thesis by (simp add: linked_def)
next
  case (Some m)
  then show ?thesis by (simp add: goPiece_def linked_def)
qed

lemma linked_step:
  assumes "linked t idx tok (t', idx')" and "raw_trie t" and "walk t 0 pre = Some idx"
  shows "raw_trie t' \<and> walk t' 0 (pre @ [tok]) = Some idx' \<and> (\<forall>a r. route t' 0 a r \<longleftrightarrow> route t 0 a r)"
  using assms new_edge_raw new_edge_rules new_edge_walk [of t idx tok t' "pre @ [tok]"]
  by (auto simp: linked_def walk_append)

text \<open>The token sequence a rule's URL stands for; \<open>None\<close> when some '<' starts no known tag.\<close>

lemma matchTag_Some: "matchTag s = Some (p, tag) \<Longrightarrow> tag \<noteq> [] \<and> length tag \<le> length s"
  by (auto simp: matchTag_def paramTraits_def find_Some_iff dest!: arg_cong [where f = length]
      split: if_splits)

function (sequential) tokenise :: "string \<Rightarrow> token list option" where
  "tokenise [] = Some []"
| "tokenise (c # cs) =
     (if c = CHR ''<'' then
        (case matchTag (c # cs) of None \<Rightarrow> None
         | Some (p, tag) \<Rightarrow> map_option (Cons (Par p)) (tokenise (drop (length tag) (c # cs))))
      else map_option (Cons (Lit c)) (tokenise cs))"
  by pat_completeness auto
termination
  by (relation "measure length") (auto dest: matchTag_Some)

lemma add_loop_link:
  assumes "raw_trie t" "walk t 0 pre = Some idx" "linked t idx tok (t', idx')"
  shows "raw_trie t' \<and> idx' < length t' \<and> walk t' 0 (pre @ [tok]) = Some idx'
    \<and> (\<forall>a r. route t' 0 a r \<longleftrightarrow> route t 0 a r)"
proof -
  note step = linked_step [OF assms(3,1,2)]
  then have "idx' < length t'"
    using walk_bound [of t' 0 "pre @ [tok]" idx'] by (simp add: raw_trie_def)
  with step show ?thesis by blast
qed

lemma add_loop_ok:
  assumes "raw_trie t" "walk t 0 pre = Some idx" "tokenise (drop i url) = Some toks"
    and "length url - i \<le> fuel"
  shows "\<exists>t' idx'. add_loop fuel url (t, idx, i) = Some (t', idx') \<and> raw_trie t'
    \<and> walk t' 0 (pre @ toks) = Some idx' \<and> (\<forall>a r. route t' 0 a r \<longleftrightarrow> route t 0 a r)"
  using assms
proof (induction fuel arbitrary: t idx i pre toks)
  case 0
  then show ?case by auto
next
  case (Suc fuel)
  show ?case
  proof (cases "length url \<le> i")
    case True
    with Suc.prems show ?thesis by auto
  next
    case False
    then obtain c cs where url: "drop i url = c # cs" "url ! i = c"
      by (metis Cons_nth_drop_Suc not_le)
    then have cs: "cs = drop (Suc i) url"
      by (metis drop_Suc list.sel(3) tl_drop)
  have shift: "drop (i + k) url = drop k (c # cs)" for k
    using drop_drop [of k i url] url(1) by (simp add: add.commute)
    have "idx < length t"
      using walk_bound [OF Suc.prems(1) _ Suc.prems(2)] Suc.prems(1) by (simp add: raw_trie_def)
    note raw = raw_trie_node [OF Suc.prems(1) this] and idx = this
    obtain tok toks' t' idx' i' where it: "add_iter url (t, idx, i) = (t', idx', i')"
      and lk: "linked t idx tok (t', idx')" and toks: "toks = tok # toks'"
      and rest: "tokenise (drop i' url) = Some toks'" and i': "i < i'"
    proof (cases "c = CHR ''<''")
      case True
      with Suc.prems(3) url obtain p tag toks' where tag: "matchTag (drop i url) = Some (p, tag)"
        "tokenise (drop (length tag) (drop i url)) = Some toks'" "toks = Par p # toks'"
        by (auto split: option.splits)
      obtain t' idx' where go: "goParam t idx p = (t', idx')"
        by fastforce
      show thesis
        using goParam_linked [OF raw idx, of p] tag go url True matchTag_Some [OF tag(1)]
        by (intro that [of t' idx' "i + length tag" "Par p" toks']) (auto simp: add_iter_def shift)
    next
      case False
      with Suc.prems(3) url obtain toks' where tag: "tokenise cs = Some toks'" "toks = Lit c # toks'"
        by auto
      obtain t' idx' where go: "goPiece t idx [c] = (t', idx')"
        by fastforce
      show thesis
        using goPiece_linked [OF raw idx, of c] tag go url False cs
        by (intro that [of t' idx' "i + 1" "Lit c" toks']) (auto simp: add_iter_def)
    qed
    note link = add_loop_link [OF Suc.prems(1,2) lk]
    have "length url - i' \<le> fuel"
      using Suc.prems(4) i' by linarith
    with Suc.IH [of t' "pre @ [tok]" idx' i' toks'] link rest
    obtain t'' idx'' where "add_loop fuel url (t', idx', i') = Some (t'', idx'')" "raw_trie t''"
      "walk t'' 0 (pre @ toks) = Some idx''" "\<forall>a r. route t'' 0 a r \<longleftrightarrow> route t 0 a r"
      using toks by auto
    with it False show ?thesis by simp
  qed
qed

lemma add_loop_stuck:
  "tokenise (drop i url) = None \<Longrightarrow> add_loop fuel url (t, idx, i) = None"
proof (induction fuel arbitrary: t idx i)
  case 0
  then show ?case by (cases "length url \<le> i") auto
next
  case (Suc fuel)
  then have "\<not> length url \<le> i"
    by (metis drop_all option.distinct(1) tokenise.simps(1))
  then obtain c cs where url: "drop i url = c # cs" "url ! i = c"
    by (metis Cons_nth_drop_Suc not_le)
  then have cs: "cs = drop (Suc i) url"
    by (metis drop_Suc list.sel(3) tl_drop)
  have shift: "drop (i + k) url = drop k (c # cs)" for k
    using drop_drop [of k i url] url(1) by (simp add: add.commute)
  obtain t' idx' i' where it: "add_iter url (t, idx, i) = (t', idx', i')"
    using prod_cases3 by blast
  have "tokenise (drop i' url) = None"
    using it Suc.prems url cs [symmetric]
    by (auto simp: add_iter_def shift split: if_splits option.splits prod.splits)
  with Suc.IH it \<open>\<not> length url \<le> i\<close> show ?case by simp
qed

lemma walk_same_edges:
  assumes "\<And>m x. goto t' m x = goto t m x"
  shows "walk t' n a = walk t n a"
  by (induction a arbitrary: n) (simp_all add: assms split: Option.bind_splits)

lemma set_rule_ok:
  assumes "raw_trie t" "walk t 0 toks = Some idx" "ruleIndex (t ! idx) = 0" "r \<noteq> 0"
    and "t' = t[idx := (t ! idx)\<lparr>ruleIndex := r\<rparr>]"
  shows "raw_trie t' \<and> (\<forall>a q. route t' 0 a q \<longleftrightarrow> route t 0 a q \<or> a = toks \<and> q = r)"
proof -
  have len: "0 < length t" "idx < length t" "length t' = length t"
    using walk_bound [OF assms(1) _ assms(2)] assms(1,5) by (auto simp: raw_trie_def)
  have go: "goto t' m x = goto t m x" for m x
    using len assms(5) by (cases x; cases "m = idx") simp_all
  have walk: "walk t' n a = walk t n a" for n a
    using go by (rule walk_same_edges)
  have node: "raw_node (length t') n (t' ! n)" if "n < length t'" for n
    using that len assms(5) raw_trie_node [OF assms(1), of n]
    by (cases "n = idx") (simp_all add: raw_node_def node_wf_def edges_up_def)
  have raw: "raw_trie t'"
    using assms(1) len node by (auto simp: raw_trie_def walk)
  have rule: "ruleIndex (t' ! m) = (if m = idx then r else ruleIndex (t ! m))" for m
    using len assms(5) by (cases "m = idx") simp_all
  have only: "a = toks" if "walk t 0 a = Some idx" for a
    using assms(1,2) that unfolding raw_trie_def by blast
  have "route t' 0 a q \<longleftrightarrow> route t 0 a q \<or> a = toks \<and> q = r" for a q
  proof -
    have "route t' 0 a q \<longleftrightarrow> (\<exists>m. walk t 0 a = Some m \<and> ruleIndex (t' ! m) = q \<and> q \<noteq> 0)"
      using raw_route_iff [OF raw, of 0 a q] len by (simp add: walk)
    moreover have "route t 0 a q \<longleftrightarrow> (\<exists>m. walk t 0 a = Some m \<and> ruleIndex (t ! m) = q \<and> q \<noteq> 0)"
      using raw_route_iff [OF assms(1), of 0 a q] len by simp
    moreover have "walk t 0 a \<noteq> Some idx" if "a \<noteq> toks"
      using only that by blast
    ultimately show ?thesis
      using assms(2-4) by (cases "a = toks") (auto simp only: rule split: if_splits)
  qed
  with raw show ?thesis by blast
qed

lemma add_spec:
  assumes "raw_trie t" "tokenise url = Some toks" "r \<noteq> 0"
  shows "if \<exists>q. route t 0 toks q then add t url r = Some (Inl (HandlerAlreadyExists url))
    else \<exists>t'. add t url r = Some (Inr t') \<and> raw_trie t'
      \<and> (\<forall>a q. route t' 0 a q \<longleftrightarrow> route t 0 a q \<or> a = toks \<and> q = r)"
proof -
  obtain t' idx where t': "add_loop (length url) url (t, 0, 0) = Some (t', idx)" "raw_trie t'"
    "walk t' 0 toks = Some idx" "\<forall>a r. route t' 0 a r \<longleftrightarrow> route t 0 a r"
    using add_loop_ok [OF assms(1), of "[]" 0 0 url toks "length url"] assms(2) by auto
  have "0 < length t'"
    using t'(2) by (simp add: raw_trie_def)
  then have ex: "(\<exists>q. route t 0 toks q) \<longleftrightarrow> ruleIndex (t' ! idx) \<noteq> 0"
    using t'(3,4) raw_route_iff [OF t'(2), of 0 toks] by auto
  show ?thesis
  proof (cases "ruleIndex (t' ! idx) = 0")
    case True
    with set_rule_ok [OF t'(2,3) True assms(3) refl] t'(1,4) ex show ?thesis
      by (simp add: add_def add_with_def)
  next
    case False
    with t'(1) ex show ?thesis
      by (simp add: add_def add_with_def)
  qed
qed

section \<open>Merging keeps the routes\<close>

text \<open>What the merge needs: targets grow, fragments are sorted and none is a prefix of another.\<close>

definition prefix_free :: "string set \<Rightarrow> bool" where
  "prefix_free ks \<longleftrightarrow> (\<forall>a \<in> ks. \<forall>b \<in> ks. prefix a b \<longrightarrow> a = b)"

definition opt_node :: "nat \<Rightarrow> nat \<Rightarrow> node \<Rightarrow> bool" where
  "opt_node N n nd \<longleftrightarrow> node_wf N nd \<and> edges_up n nd \<and> omap_ok (children nd)
     \<and> prefix_free (set (omap_keys (children nd)))"

definition opt_trie :: "trie \<Rightarrow> bool" where
  "opt_trie t \<longleftrightarrow> t \<noteq> [] \<and> (\<forall>n < length t. opt_node (length t) n (t ! n))"

lemma opt_trie_wf: "opt_trie t \<Longrightarrow> trie_wf t"
  unfolding opt_trie_def trie_wf_def opt_node_def by (metis in_set_conv_nth)

lemma raw_node_opt:
  assumes "raw_node N n nd"
  shows "opt_node N n nd"
proof -
  have "length k = 1" if "k \<in> set (omap_keys (children nd))" for k
    using assms that by (force simp: raw_node_def)
  then have len: "\<forall>k \<in> set (omap_keys (children nd)). length k = 1"
    by blast
  have "prefix_free (set (omap_keys (children nd)))"
    unfolding prefix_free_def
  proof (intro ballI impI)
    fix a b assume "a \<in> set (omap_keys (children nd))" "b \<in> set (omap_keys (children nd))" "prefix a b"
    with len have "length a = length b" and "prefix a b"
      by metis+
    then show "a = b"
      by (auto simp: prefix_def)
  qed
  with assms show ?thesis
    by (simp add: raw_node_def opt_node_def)
qed

lemma raw_trie_opt: "raw_trie t \<Longrightarrow> opt_trie t"
  by (simp add: raw_trie_def opt_trie_def raw_node_opt)

lemma fold_insert_set:
  "omap_ok m \<Longrightarrow> (\<forall>k v v'. (k, v) \<in> set m \<union> set kvs \<longrightarrow> (k, v') \<in> set m \<union> set kvs \<longrightarrow> v = v')
   \<Longrightarrow> omap_ok (fold (\<lambda>(k, v). omap_insert_or_assign k v) kvs m)
     \<and> set (fold (\<lambda>(k, v). omap_insert_or_assign k v) kvs m) = set m \<union> set kvs"
proof (induction kvs arbitrary: m)
  case (Cons kv kvs)
  obtain k v where kv: "kv = (k, v)"
    by fastforce
  have set: "set (omap_insert_or_assign k v m) = insert (k, v) (set m)"
    using Cons.prems by (fastforce simp: set_insert_or_assign kv)
  show ?case
    using Cons.IH [of "omap_insert_or_assign k v m"] Cons.prems
    unfolding set by (simp add: kv)
qed simp

text \<open>The two nested loops of the merge insert the concatenated fragments one by one.\<close>

definition grandchildren :: "trie \<Rightarrow> (string \<times> nat) list \<Rightarrow> (string \<times> nat) list" where
  "grandchildren t ch = concat (map (\<lambda>(k, c). map (\<lambda>(ck, cc). (k @ ck, cc)) (children (t ! c))) ch)"

lemma mergeChildren_fold:
  "mergeChildren t ch = fold (\<lambda>(k, v). omap_insert_or_assign k v) (grandchildren t ch) []"
proof -
  have "fold (\<lambda>(k, c) merged.
             fold (\<lambda>(ck, cc) m. omap_insert_or_assign (k @ ck) cc m) (children (t ! c)) merged) ch m
    = fold (\<lambda>(k, v). omap_insert_or_assign k v) (grandchildren t ch) m" for m
    by (induction ch arbitrary: m)
      (auto simp: grandchildren_def fold_map comp_def case_prod_unfold)
  then show ?thesis by (simp add: mergeChildren_def)
qed

lemma set_grandchildren:
  "(kk, cc) \<in> set (grandchildren t ch) \<longleftrightarrow>
     (\<exists>k c ck. (k, c) \<in> set ch \<and> (ck, cc) \<in> set (children (t ! c)) \<and> kk = k @ ck)"
  by (fastforce simp: grandchildren_def)

lemma prefix_freeD: "prefix_free ks \<Longrightarrow> a \<in> ks \<Longrightarrow> b \<in> ks \<Longrightarrow> a @ x = b @ y \<Longrightarrow> a = b \<and> x = y"
proof -
  assume ks: "prefix_free ks" "a \<in> ks" "b \<in> ks" and eq: "a @ x = b @ y"
  then have "prefix a b \<or> prefix b a"
    by (metis prefixI prefix_same_cases)
  with ks have "a = b"
    unfolding prefix_free_def by blast
  with eq show ?thesis by simp
qed

text \<open>Fragments of a node's children, one level down.\<close>

lemma opt_nodeD:
  assumes "opt_node N n nd"
  shows "(k, c) \<in> set (children nd) \<Longrightarrow> k \<noteq> [] \<and> n < c \<and> c < N"
    and "(k, c) \<in> set (children nd) \<Longrightarrow> (k, c') \<in> set (children nd) \<Longrightarrow> c = c'"
    and "(k, c) \<in> set (children nd) \<Longrightarrow> (k', c') \<in> set (children nd) \<Longrightarrow> k @ x = k' @ y
      \<Longrightarrow> k = k' \<and> c = c' \<and> x = y"
proof -
  show "(k, c) \<in> set (children nd) \<Longrightarrow> k \<noteq> [] \<and> n < c \<and> c < N"
    using assms by (auto simp: opt_node_def node_wf_def edges_up_def)
  show same: "(k, c) \<in> set (children nd) \<Longrightarrow> (k, c') \<in> set (children nd) \<Longrightarrow> c = c'" for c c' k
    using assms omap_find_Some_iff [of "children nd" k c] omap_find_Some_iff [of "children nd" k c']
    by (simp add: opt_node_def)
  assume m: "(k, c) \<in> set (children nd)" "(k', c') \<in> set (children nd)" "k @ x = k' @ y"
  then have "k \<in> set (omap_keys (children nd))" "k' \<in> set (omap_keys (children nd))"
    by force+
  with m(3) assms have "k = k' \<and> x = y"
    unfolding opt_node_def using prefix_freeD by blast
  with m same show "k = k' \<and> c = c' \<and> x = y"
    by blast
qed

lemma mergeChildren_props:
  assumes "opt_node N n nd" and kids: "\<forall>(k, c) \<in> set (children nd). opt_node N c (t ! c)"
  shows "omap_ok (mergeChildren t (children nd))"
    and "set (mergeChildren t (children nd)) = set (grandchildren t (children nd))"
    and "prefix_free (set (omap_keys (mergeChildren t (children nd))))"
proof -
  let ?g = "grandchildren t (children nd)"
  have uniq: "kk @ x = kk' @ y \<Longrightarrow> kk = kk' \<and> cc = cc'"
    if "(kk, cc) \<in> set ?g" "(kk', cc') \<in> set ?g" for kk cc kk' cc' x y
  proof -
    assume eq: "kk @ x = kk' @ y"
    from that obtain k c ck k' c' ck' where
      k: "(k, c) \<in> set (children nd)" "(ck, cc) \<in> set (children (t ! c))" "kk = k @ ck"
      and k': "(k', c') \<in> set (children nd)" "(ck', cc') \<in> set (children (t ! c'))" "kk' = k' @ ck'"
      unfolding set_grandchildren by blast
    have "k = k' \<and> c = c' \<and> ck @ x = ck' @ y"
      using opt_nodeD(3) [OF assms(1) k(1) k'(1), of "ck @ x" "ck' @ y"] eq k k' by simp
    moreover have "opt_node N c (t ! c)"
      using kids k(1) by blast
    ultimately show "kk = kk' \<and> cc = cc'"
      using opt_nodeD(3) [of N c "t ! c" ck cc ck' cc' x y] k k' by blast
  qed
  have "\<forall>k v v'. (k, v) \<in> set [] \<union> set ?g \<longrightarrow> (k, v') \<in> set [] \<union> set ?g \<longrightarrow> v = v'"
    using uniq by fastforce
  from fold_insert_set [OF _ this]
  have ok: "omap_ok (mergeChildren t (children nd))
      \<and> set (mergeChildren t (children nd)) = set ?g"
    unfolding mergeChildren_fold by simp
  then show "omap_ok (mergeChildren t (children nd))"
    and set: "set (mergeChildren t (children nd)) = set ?g"
    by simp_all
  show "prefix_free (set (omap_keys (mergeChildren t (children nd))))"
    unfolding prefix_free_def
  proof (intro ballI impI)
    fix a b assume "a \<in> set (omap_keys (mergeChildren t (children nd)))"
      "b \<in> set (omap_keys (mergeChildren t (children nd)))" and p: "prefix a b"
    then obtain va vb where "(a, va) \<in> set ?g" "(b, vb) \<in> set ?g"
      using set by auto
    moreover obtain z where "a @ z = b @ []"
      using p by (auto simp: prefix_def)
    ultimately have "a = b \<and> va = vb"
      by (rule uniq)
    then show "a = b" ..
  qed
qed

text \<open>One merge, at a node all of whose children are plain.\<close>

definition mergeAt :: "trie \<Rightarrow> nat \<Rightarrow> trie" where
  "mergeAt t n = t[n := (t ! n)\<lparr>children := mergeChildren t (children (t ! n))\<rparr>]"

lemma opt_trie_node: "opt_trie t \<Longrightarrow> n < length t \<Longrightarrow> opt_node (length t) n (t ! n)"
  by (simp add: opt_trie_def)

lemma opt_trie_kids:
  assumes "opt_trie t" "n < length t"
  shows "\<forall>(k, c) \<in> set (children (t ! n)). opt_node (length t) c (t ! c)"
  using assms opt_nodeD(1) [OF opt_trie_node [OF assms]] by (auto intro: opt_trie_node)

lemma mergeAt_children:
  assumes "opt_trie t" "n < length t"
  shows "(kk, cc) \<in> set (children (mergeAt t n ! n)) \<longleftrightarrow>
    (\<exists>k c ck. (k, c) \<in> set (children (t ! n)) \<and> (ck, cc) \<in> set (children (t ! c)) \<and> kk = k @ ck)"
  using mergeChildren_props(2) [OF opt_trie_node [OF assms] opt_trie_kids [OF assms]] assms(2)
  by (simp add: mergeAt_def set_grandchildren)

lemma mergeAt_grow:
  assumes "opt_trie t" "n < length t" "(kk, cc) \<in> set (children (mergeAt t n ! n))"
  shows "kk \<noteq> [] \<and> cc < length t \<and> (\<exists>(k, c) \<in> set (children (t ! n)). n < c \<and> c < cc)"
proof -
  from assms(3) obtain k c ck where
    k: "(k, c) \<in> set (children (t ! n))" "(ck, cc) \<in> set (children (t ! c))" "kk = k @ ck"
    unfolding mergeAt_children [OF assms(1,2)] by blast
  note c = opt_nodeD(1) [OF opt_trie_node [OF assms(1,2)] k(1)]
  then have "opt_node (length t) c (t ! c)"
    using opt_trie_node [OF assms(1)] by blast
  from opt_nodeD(1) [OF this k(2)] c k show ?thesis
    by auto
qed

lemma mergeAt_opt:
  assumes "opt_trie t" "n < length t"
  shows "opt_trie (mergeAt t n)"
proof -
  note nd = opt_trie_node [OF assms]
  note props = mergeChildren_props [OF nd opt_trie_kids [OF assms]]
  have at: "mergeAt t n ! n = (t ! n)\<lparr>children := mergeChildren t (children (t ! n))\<rparr>"
    using assms(2) by (simp add: mergeAt_def)
  have grow: "kk \<noteq> [] \<and> cc < length t \<and> n < cc" if "(kk, cc) \<in> set (children (mergeAt t n ! n))" for kk cc
    using mergeAt_grow [OF assms that] by fastforce
  have "node_wf (length t) (mergeAt t n ! n) \<and> edges_up n (mergeAt t n ! n)"
    using nd grow by (auto simp: opt_node_def node_wf_def edges_up_def at)
  then have "opt_node (length t) n (mergeAt t n ! n)"
    using props(1,3) by (simp add: opt_node_def at)
  then have "opt_node (length t) m (mergeAt t n ! m)" if "m < length t" for m
    using that opt_trie_node [OF assms(1) that] by (cases "m = n") (simp_all add: mergeAt_def)
  then show ?thesis
    using assms(1) unfolding opt_trie_def by (simp add: mergeAt_def)
qed

lemma simple_route:
  assumes "isSimpleNode (t ! c)" "node_wf N (t ! c)" "route t c toks r"
  shows "\<exists>ck cc toks'. (ck, cc) \<in> set (children (t ! c)) \<and> ck \<noteq> [] \<and> toks = map Lit ck @ toks'
    \<and> route t cc toks' r"
  using assms(3)
proof cases
  case (param p c' toks')
  have "ptIndex p < length (paramChildrens (t ! c))"
    using assms(2) by (simp add: node_wf_def)
  then have "paramChildrens (t ! c) ! ptIndex p = 0"
    using assms(1) by (auto simp: isSimpleNode_def list_all_length)
  with param show ?thesis by simp
qed (use assms(1) in \<open>auto simp: isSimpleNode_def\<close>)

lemma mergeAt_route:
  assumes "opt_trie t" "n < length t"
    and simple: "\<forall>(k, c) \<in> set (children (t ! n)). isSimpleNode (t ! c)"
  shows "route (mergeAt t n) m toks r \<longleftrightarrow> route t m toks r"
proof
  let ?t = "mergeAt t n"
  have other: "?t ! m = t ! m" if "m \<noteq> n" for m
    using that by (simp add: mergeAt_def)
  have same: "ruleIndex (?t ! m) = ruleIndex (t ! m)" "paramChildrens (?t ! m) = paramChildrens (t ! m)" for m
    using assms(2) by (cases "m = n"; simp add: mergeAt_def)+
  show "route t m toks r" if "route ?t m toks r"
    using that
  proof (induction rule: route.induct)
    case (here m r)
    then show ?case using same by (auto intro: route.here)
  next
    case (param m p c toks r)
    then show ?case using same by (auto intro: route.param)
  next
    case (child frag c m toks r)
    show ?case
    proof (cases "m = n")
      case True
      then obtain k d ck where k: "(k, d) \<in> set (children (t ! n))" "(ck, c) \<in> set (children (t ! d))"
        "frag = k @ ck"
        using child.hyps(1) mergeAt_children [OF assms(1,2)] by blast
      note d = opt_nodeD(1) [OF opt_trie_node [OF assms(1,2)] k(1)]
      then have "ck \<noteq> []"
        using opt_nodeD(1) [OF opt_trie_node [OF assms(1)] k(2)] by blast
      then have "route t d (map Lit ck @ toks) r"
        using route.child [OF k(2) _ child.IH] by blast
      from route.child [OF k(1) _ this] d True k(3) show ?thesis
        by simp
    next
      case False
      then show ?thesis
        using child other by (auto intro: route.child)
    qed
  qed
  show "route ?t m toks r" if "route t m toks r"
    using that
  proof (induction rule: route.induct)
    case (here m r)
    then show ?case using same by (auto intro: route.here)
  next
    case (param m p c toks r)
    then show ?case using same by (auto intro: route.param)
  next
    case (child frag c m toks r)
    show ?case
    proof (cases "m = n")
      case True
      then have c: "n < c" "c < length t"
        using opt_nodeD(1) [OF opt_trie_node [OF assms(1,2)]] child.hyps(1) by blast+
      have "isSimpleNode (?t ! c)" "node_wf (length t) (?t ! c)"
        using simple child.hyps(1) True c other [of c] opt_trie_node [OF assms(1) c(2)]
        by (auto simp: opt_node_def)
      from simple_route [OF this child.IH] obtain ck cc toks' where
        ck: "(ck, cc) \<in> set (children (t ! c))" "toks = map Lit ck @ toks'" "route ?t cc toks' r"
        using other [of c] c by auto
      then have "(frag @ ck, cc) \<in> set (children (?t ! n))"
        using child.hyps(1) True mergeAt_children [OF assms(1,2)] by blast
      from route.child [OF this _ ck(3)] child.hyps(2) ck(2) True show ?thesis
        by simp
    next
      case False
      then show ?thesis
        using child other by (auto intro: route.child)
    qed
  qed
qed

text \<open>What a call of \<open>optimizeNode\<close> at node \<open>n\<close> guarantees: nodes before \<open>n\<close> are not touched.\<close>

definition kept :: "nat \<Rightarrow> trie \<Rightarrow> trie \<Rightarrow> bool" where
  "kept n t t' \<longleftrightarrow> opt_trie t' \<and> length t' = length t \<and> (\<forall>m < n. t' ! m = t ! m)
     \<and> (\<forall>m a r. route t' m a r \<longleftrightarrow> route t m a r)"

lemma kept_refl: "opt_trie t \<Longrightarrow> kept n t t"
  by (simp add: kept_def)

lemma kept_trans: "kept n t t1 \<Longrightarrow> kept n t1 t2 \<Longrightarrow> kept n t t2"
  by (simp add: kept_def)

lemma kept_mono: "kept m t t' \<Longrightarrow> n \<le> m \<Longrightarrow> kept n t t'"
  by (simp add: kept_def)

lemma optimize_each_ok:
  assumes "\<forall>t x. opt_trie t \<and> length t = N \<and> n < x \<and> x < N \<longrightarrow> (\<exists>t'. rec t x = Some t' \<and> kept x t t')"
  shows "opt_trie t \<Longrightarrow> length t = N \<Longrightarrow> \<forall>x \<in> set xs. n < x \<and> x < N
    \<Longrightarrow> \<exists>t'. optimize_each rec xs t = Some t' \<and> kept (Suc n) t t'"
proof (induction xs arbitrary: t)
  case Nil
  then show ?case by (simp add: kept_refl)
next
  case (Cons x xs)
  then obtain t1 where t1: "rec t x = Some t1" "kept x t t1"
    using assms by (metis list.set_intros(1))
  moreover have "opt_trie t1" "length t1 = N"
    using t1(2) Cons.prems by (auto simp: kept_def)
  ultimately obtain t2 where t2: "optimize_each rec xs t1 = Some t2" "kept (Suc n) t1 t2"
    using Cons.IH [of t1] Cons.prems(3) by auto
  have "kept (Suc n) t t1"
    using t1(2) Cons.prems(3) by (auto intro: kept_mono)
  with t1(1) t2 show ?case
    by (auto intro: kept_trans)
qed

text \<open>
  The depth of the recursion: each call goes to a larger node, or stays at the node after a merge
  that made the least target \<open>b\<close> of its fragments grow.
\<close>

lemma optimizeNode_ok:
  "opt_trie t \<Longrightarrow> length t = N \<Longrightarrow> n < N \<Longrightarrow> b \<le> N \<Longrightarrow> \<forall>(k, c) \<in> set (children (t ! n)). b \<le> c
   \<Longrightarrow> (N - n) * (N + 1) + (N - b) < fuel
   \<Longrightarrow> \<exists>t'. optimizeNode fuel t n = Some t' \<and> kept n t t'"
proof (induction fuel arbitrary: t n b)
  case (Suc fuel)
  have down: "\<exists>t'. optimizeNode fuel t x = Some t' \<and> kept x t t'"
    if x: "opt_trie t" "length t = N" "n < x" "x < N" for t x
  proof (rule Suc.IH [OF x(1,2,4)])
    define d where "d = x - Suc n"
    then have d: "N - n = N - x + Suc d"
      using x(3,4) by linarith
    have "(N - x) * (N + 1) + N < (N - n) * (N + 1)"
      unfolding d by (simp add: algebra_simps)
    then show "(N - x) * (N + 1) + (N - 0) < fuel"
      using Suc.prems(6) by linarith
  qed simp_all
  then have down: "\<forall>t x. opt_trie t \<and> length t = N \<and> n < x \<and> x < N
      \<longrightarrow> (\<exists>t'. optimizeNode fuel t x = Some t' \<and> kept x t t')"
    by blast
  note each = optimize_each_ok [where rec = "optimizeNode fuel" and N = N and n = n, OF down]
  have "opt_node N n (t ! n)"
    using opt_trie_node [OF Suc.prems(1)] Suc.prems(2,3) by simp
  then have "\<forall>x \<in> set (filter (\<lambda>x. x \<noteq> 0) (paramChildrens (t ! n))). n < x \<and> x < N"
    by (auto simp: opt_node_def node_wf_def edges_up_def)
  from each [OF Suc.prems(1,2) this] obtain t1 where
    t1: "optimize_each (optimizeNode fuel) (filter (\<lambda>x. x \<noteq> 0) (paramChildrens (t ! n))) t = Some t1"
      "kept (Suc n) t t1" by blast
  have t1': "opt_trie t1" "length t1 = N" "t1 ! n = t ! n"
    using t1(2) Suc.prems(2) by (auto simp: kept_def)
  have t1n: "kept n t t1"
    using t1(2) by (rule kept_mono) simp
  consider (leaf) "children (t ! n) = []"
    | (merge) "children (t ! n) \<noteq> []" "list_all (\<lambda>(k, c). isSimpleNode (t1 ! c)) (children (t ! n))"
    | (each) "children (t ! n) \<noteq> []" "\<not> list_all (\<lambda>(k, c). isSimpleNode (t1 ! c)) (children (t ! n))"
    by blast
  then show ?case
  proof cases
    case leaf
    then show ?thesis using t1 t1' t1n by simp
  next
    case merge
    have n1: "n < length t1"
      using t1'(2) Suc.prems(3) by simp
    have "\<forall>(k, c) \<in> set (children (t1 ! n)). isSimpleNode (t1 ! c)"
      using merge(2) t1'(3) by (auto simp: list_all_iff)
    note route = mergeAt_route [OF t1'(1) n1 this]
    obtain k c where kc: "(k, c) \<in> set (children (t ! n))"
      using merge(1) by (cases "children (t ! n)") auto
    then have "b < N"
      using Suc.prems(5) opt_nodeD(1) [OF \<open>opt_node N n (t ! n)\<close> kc] by fastforce
    have kept1: "kept n t1 (mergeAt t1 n)"
      using route mergeAt_opt [OF t1'(1) n1] by (simp add: kept_def mergeAt_def)
    have up: "\<forall>(k, c) \<in> set (children (mergeAt t1 n ! n)). Suc b \<le> c"
      using mergeAt_grow [OF t1'(1) n1] Suc.prems(5) t1'(3) by fastforce
    have "\<exists>t'. optimizeNode fuel (mergeAt t1 n) n = Some t' \<and> kept n (mergeAt t1 n) t'"
    proof (rule Suc.IH [OF _ _ Suc.prems(3) _ up])
      show "(N - n) * (N + 1) + (N - Suc b) < fuel"
        using Suc.prems(6) \<open>b < N\<close> by linarith
    qed (use kept1 t1' \<open>b < N\<close> in \<open>auto simp: kept_def\<close>)
    then show ?thesis
      using t1 t1' merge kept_trans [OF kept_trans [OF t1n kept1]] by (auto simp: mergeAt_def)
  next
    case each
    have "\<forall>x \<in> set (map snd (children (t1 ! n))). n < x \<and> x < N"
      using opt_nodeD(1) [OF \<open>opt_node N n (t ! n)\<close>] t1'(3) by auto
    from optimize_each_ok [where rec = "optimizeNode fuel" and N = N and n = n, OF down t1'(1,2) this]
    obtain t2 where t2: "optimize_each (optimizeNode fuel) (map snd (children (t1 ! n))) t1 = Some t2"
      "kept (Suc n) t1 t2" by blast
    have "kept n t1 t2"
      using t2(2) by (rule kept_mono) simp
    with t1 t1' t2(1) each t1n show ?thesis
      by (auto intro: kept_trans)
  qed
qed simp

lemma validate_ok:
  assumes "opt_trie t"
  shows "\<exists>t'. validate t = Some t' \<and> opt_trie t' \<and> length t' = length t
    \<and> (\<forall>a r. route t' 0 a r \<longleftrightarrow> route t 0 a r)"
proof -
  have "0 < length t"
    using assms by (simp add: opt_trie_def)
  then have "\<exists>t'. optimizeNode (optimize_fuel t) t 0 = Some t' \<and> kept 0 t t'"
    by (intro optimizeNode_ok [where b = 0 and N = "length t"])
      (auto simp: assms optimize_fuel_def)
  then show ?thesis
    by (auto simp: validate_def kept_def)
qed

section \<open>The interface the router relies on\<close>

text \<open>
  What \<open>Router\<close> needs of the trie: rules are added to a table under construction, the table is
  sealed by \<open>validate\<close>, and then searched. \<open>pats\<close> is the set of patterns with their rule.
\<close>

type_synonym pattern = "token list \<times> nat"

definition pattern_matches :: "(string \<Rightarrow> dbl parsed) \<Rightarrow> pattern set \<Rightarrow> string \<Rightarrow> found set" where
  "pattern_matches strtod P url =
     {(r, ps). \<exists>toks. (toks, r) \<in> P \<and> tok_run strtod toks url emptyParams = Some ps}"

lemma pattern_matches_Un:
  "pattern_matches strtod (P \<union> Q) url = pattern_matches strtod P url \<union> pattern_matches strtod Q url"
  by (auto simp: pattern_matches_def)

locale route_table =
  fixes building :: "'t \<Rightarrow> bool"
    and sealed :: "'t \<Rightarrow> bool"
    and pats :: "'t \<Rightarrow> pattern set"
    and empty :: 't
    and insert_rule :: "'t \<Rightarrow> string \<Rightarrow> nat \<Rightarrow> (trie_error + 't) option"
    and seal :: "'t \<Rightarrow> 't option"
    and search :: "(string \<Rightarrow> dbl parsed) \<Rightarrow> 't \<Rightarrow> string \<Rightarrow> found option"
  assumes empty_ok: "building empty" "pats empty = {}"
    and insert_new: "building t \<Longrightarrow> tokenise url = Some toks \<Longrightarrow> r \<noteq> 0 \<Longrightarrow> \<forall>q. (toks, q) \<notin> pats t
      \<Longrightarrow> \<exists>t'. insert_rule t url r = Some (Inr t') \<and> building t' \<and> pats t' = insert (toks, r) (pats t)"
    and insert_dup: "building t \<Longrightarrow> tokenise url = Some toks \<Longrightarrow> r \<noteq> 0 \<Longrightarrow> (toks, q) \<in> pats t
      \<Longrightarrow> insert_rule t url r = Some (Inl (HandlerAlreadyExists url))"
    and seal_ok: "building t \<Longrightarrow> \<exists>t'. seal t = Some t' \<and> sealed t' \<and> pats t' = pats t"
    and search_ok: "sealed t \<Longrightarrow>
      \<exists>ret. search strtod t url = Some ret \<and> best (pattern_matches strtod (pats t) url) ret"
begin

text \<open>Adding a list of URLs with their rules, as the router does while it validates its rules.\<close>

fun insert_all :: "'t \<Rightarrow> (string \<times> nat) list \<Rightarrow> (trie_error + 't) option" where
  "insert_all t [] = Some (Inr t)"
| "insert_all t ((url, r) # rules) =
     (case insert_rule t url r of
        Some (Inr t') \<Rightarrow> insert_all t' rules
      | res \<Rightarrow> res)"

lemma insert_all_ok:
  "building t \<Longrightarrow> list_all2 (\<lambda>(url, r) p. tokenise url = Some (fst p) \<and> r = snd p \<and> r \<noteq> 0) rules ps
   \<Longrightarrow> distinct (map fst ps) \<Longrightarrow> \<forall>p \<in> set ps. \<forall>q. (fst p, q) \<notin> pats t
   \<Longrightarrow> \<exists>t'. insert_all t rules = Some (Inr t') \<and> building t' \<and> pats t' = pats t \<union> set ps"
proof (induction rules arbitrary: t ps)
  case Nil
  then show ?case by auto
next
  case (Cons rule rules)
  obtain url r where rule: "rule = (url, r)"
    by fastforce
  with Cons.prems(2) obtain toks ps' where ps: "ps = (toks, r) # ps'" "tokenise url = Some toks" "r \<noteq> 0"
    "list_all2 (\<lambda>(url, r) p. tokenise url = Some (fst p) \<and> r = snd p \<and> r \<noteq> 0) rules ps'"
    by (cases ps) auto
  with insert_new [OF Cons.prems(1) ps(2,3)] Cons.prems(4) obtain t' where
    t': "insert_rule t url r = Some (Inr t')" "building t'" "pats t' = insert (toks, r) (pats t)"
    by auto
  have "\<forall>p \<in> set ps'. \<forall>q. (fst p, q) \<notin> pats t'"
    using Cons.prems(3,4) ps(1) t'(3) by (auto simp: image_iff)
  with Cons.IH [OF t'(2) ps(4)] Cons.prems(3) ps(1) t' rule show ?case
    by auto
qed

text \<open>A sealed table answers with the least rule that has a matching pattern.\<close>

lemma search_least:
  assumes "building t"
  shows "\<exists>t' ret. seal t = Some t' \<and> search strtod t' url = Some ret
    \<and> best (pattern_matches strtod (pats t) url) ret"
  using seal_ok [OF assms] search_ok by metis

end

definition trie_patterns :: "trie \<Rightarrow> pattern set" where
  "trie_patterns t = {(toks, r). route t 0 toks r}"

lemma trie_init_raw: "raw_trie trie_init" "trie_patterns trie_init = {}"
proof -
  have go: "goto trie_init 0 x = None" for x
    by (rule goto_newNode) (simp add: trie_init_def)
  then have walk: "walk trie_init 0 a = Some m \<Longrightarrow> a = [] \<and> m = 0" for a m
    by (cases a) auto
  show raw: "raw_trie trie_init"
    using walk by (simp add: raw_trie_def) (auto simp: trie_init_def)
  show "trie_patterns trie_init = {}"
  proof -
    have "\<not> route trie_init 0 toks r" for toks r
    proof
      assume "route trie_init 0 toks r"
      then obtain m where "walk trie_init 0 toks = Some m" "ruleIndex (trie_init ! m) \<noteq> 0"
        using raw_route_iff [OF raw, of 0 toks r] by (auto simp: trie_init_def)
      with walk show False
        by (fastforce simp: trie_init_def newNodeValue_def)
    qed
    then show ?thesis by (simp add: trie_patterns_def)
  qed
qed

interpretation trie_table: route_table raw_trie opt_trie trie_patterns trie_init add validate find_route
proof unfold_locales
  show "raw_trie trie_init" "trie_patterns trie_init = {}"
    by (rule trie_init_raw)+
next
  fix t url toks and r :: nat
  assume "raw_trie t" "tokenise url = Some toks" "r \<noteq> 0" "\<forall>q. (toks, q) \<notin> trie_patterns t"
  with add_spec [of t url toks r] obtain t' where "add t url r = Some (Inr t')" "raw_trie t'"
    "\<forall>a q. route t' 0 a q \<longleftrightarrow> route t 0 a q \<or> a = toks \<and> q = r"
    by (auto simp: trie_patterns_def split: if_splits)
  then show "\<exists>t'. add t url r = Some (Inr t') \<and> raw_trie t' \<and> trie_patterns t' = insert (toks, r) (trie_patterns t)"
    by (auto simp: trie_patterns_def)
next
  fix t url toks and r q :: nat
  assume "raw_trie t" "tokenise url = Some toks" "r \<noteq> 0" "(toks, q) \<in> trie_patterns t"
  with add_spec [of t url toks r]
  show "add t url r = Some (Inl (HandlerAlreadyExists url))"
    by (auto simp: trie_patterns_def split: if_splits)
next
  fix t assume "raw_trie t"
  with validate_ok [OF raw_trie_opt]
  show "\<exists>t'. validate t = Some t' \<and> opt_trie t' \<and> trie_patterns t' = trie_patterns t"
    by (fastforce simp: trie_patterns_def)
next
  fix strtod t url assume "opt_trie t"
  moreover have "pattern_matches strtod (trie_patterns t) url = matches strtod t 0 url emptyParams"
    by (simp add: pattern_matches_def trie_patterns_def matches_def)
  ultimately show "\<exists>ret. find_route strtod t url = Some ret
      \<and> best (pattern_matches strtod (trie_patterns t) url) ret"
    using find_route_best [OF opt_trie_wf] by simp
qed

section \<open>Properties\<close>

text \<open>The rules \<open>1, 2, \<dots>\<close> of a list of URLs, in order, added to an empty trie and validated.\<close>

definition number_rules :: "string list \<Rightarrow> (string \<times> nat) list" where
  "number_rules urls = zip urls [1..<length urls + 1]"

fun add_all :: "trie \<Rightarrow> (string \<times> nat) list \<Rightarrow> (trie_error + trie) option" where
  "add_all t [] = Some (Inr t)"
| "add_all t ((url, r) # rules) =
     (case add t url r of Some (Inr t') \<Rightarrow> add_all t' rules | res \<Rightarrow> res)"

lemma add_all_table: "add_all t rules = trie_table.insert_all t rules"
  by (induction t rules rule: add_all.induct) (auto split: option.splits sum.splits)

definition rule_patterns :: "string list \<Rightarrow> pattern set" where
  "rule_patterns urls = {(toks, r). \<exists>i < length urls. r = Suc i \<and> tokenise (urls ! i) = Some toks}"

lemma add_all_number:
  assumes "\<forall>u \<in> set urls. tokenise u \<noteq> None" "distinct (map tokenise urls)"
  shows "\<exists>t. add_all trie_init (number_rules urls) = Some (Inr t) \<and> raw_trie t
    \<and> trie_patterns t = rule_patterns urls"
proof -
  define ps where "ps = zip (map (the \<circ> tokenise) urls) [1..<length urls + 1]"
  have "list_all2 (\<lambda>(url, r) p. tokenise url = Some (fst p) \<and> r = snd p \<and> r \<noteq> 0) (number_rules urls) ps"
    using assms(1) by (auto simp: list_all2_conv_all_nth number_rules_def ps_def simp del: upt_Suc)
  moreover have "distinct (map fst ps)"
  proof -
    have "inj_on the (tokenise ` set urls)"
      using assms(1) by (intro inj_onI) (metis imageE option.expand)
    then have "distinct (map the (map tokenise urls))"
      using assms(2) by (subst distinct_map) auto
    then show ?thesis
      by (simp add: ps_def comp_def del: upt_Suc)
  qed
  moreover have "set ps = rule_patterns urls"
  proof -
    have tok: "\<exists>toks. tokenise (urls ! i) = Some toks" if "i < length urls" for i
      using assms(1) nth_mem [OF that] by blast
    have "ps = map (\<lambda>i. (the (tokenise (urls ! i)), Suc i)) [0..<length urls]"
      by (rule nth_equalityI) (simp_all add: ps_def del: upt_Suc)
    then have "set ps = {(the (tokenise (urls ! i)), Suc i) | i. i < length urls}"
      by auto
    also have "\<dots> = rule_patterns urls"
      using tok by (fastforce simp: rule_patterns_def)
    finally show ?thesis .
  qed
  ultimately show ?thesis
    using trie_table.insert_all_ok [of trie_init "number_rules urls" ps] trie_init_raw
    by (auto simp: add_all_table)
qed

text \<open>
  C3: the router's trie end to end. When the rules' URLs are well formed and pairwise different as
  patterns, adding them succeeds, \<open>validate\<close> returns, and \<open>find\<close> on every URL returns the least
  rule whose pattern matches (0 when none does), with parameters that a matching pattern of that
  rule reads from the URL.
\<close>

theorem trie_find_least:
  assumes "\<forall>u \<in> set urls. tokenise u \<noteq> None" "distinct (map tokenise urls)"
  shows "\<exists>t t' ret. add_all trie_init (number_rules urls) = Some (Inr t) \<and> validate t = Some t'
    \<and> find_route strtod t' url = Some ret
    \<and> best (pattern_matches strtod (rule_patterns urls) url) ret"
  using add_all_number [OF assms] trie_table.search_least by metis

definition no_double :: "string \<Rightarrow> dbl parsed" where
  "no_double s = \<lparr>p_value = 0, p_len = 0, p_erange = False\<rparr>"

lemma trie_find_least_witness:
  "\<exists>t t' ret. add_all trie_init (number_rules [''/a/<int>'', ''/a/<str>/b'']) = Some (Inr t)
    \<and> validate t = Some t' \<and> find_route no_double t' ''/a/7'' = Some ret
    \<and> best (pattern_matches no_double (rule_patterns [''/a/<int>'', ''/a/<str>/b'']) ''/a/7'') ret"
  by (rule trie_find_least) (simp_all add: matchTag_def paramTraits_def)

text \<open>
  \<open>add\<close> on a trie under construction: with a well-formed URL it returns; it throws exactly when
  some rule already has the same pattern, and otherwise adds this one route and no other.
\<close>

theorem trie_add_route:
  assumes "raw_trie t" "tokenise url = Some toks" "r \<noteq> 0"
  shows "if \<exists>q. route t 0 toks q then add t url r = Some (Inl (HandlerAlreadyExists url))
    else \<exists>t'. add t url r = Some (Inr t') \<and> raw_trie t'
      \<and> (\<forall>a q. route t' 0 a q \<longleftrightarrow> route t 0 a q \<or> a = toks \<and> q = r)"
  using assms by (rule add_spec)

lemma trie_add_route_witness:
  "if \<exists>q. route trie_init 0 [Lit CHR ''/'', Par PSTRING] q
   then add trie_init ''/<str>'' 1 = Some (Inl (HandlerAlreadyExists ''/<str>''))
   else \<exists>t'. add trie_init ''/<str>'' 1 = Some (Inr t') \<and> raw_trie t'
      \<and> (\<forall>a q. route t' 0 a q \<longleftrightarrow> route trie_init 0 a q \<or> a = [Lit CHR ''/'', Par PSTRING] \<and> q = 1)"
  by (rule trie_add_route [OF trie_init_raw(1)]) (simp_all add: matchTag_def paramTraits_def)

text \<open>
  \<open>add\<close> does not return on a URL with a '<' that starts none of the known tags: no number of
  iterations of its loop ends it, whatever the trie.
\<close>

theorem trie_add_unknown_tag_diverges:
  assumes "tokenise url = None"
  shows "\<forall>fuel. add_with fuel t url r = None"
  using add_loop_stuck [of 0 url] assms by (simp add: add_with_def del: add_loop.simps)

lemma trie_add_unknown_tag_diverges_witness:
  "\<forall>fuel. add_with fuel trie_init ''/a/<uuid>'' 1 = None"
  by (rule trie_add_unknown_tag_diverges) (simp add: matchTag_def paramTraits_def)

text \<open>
  C13: \<open>add\<close> returns, or throws, exactly for the URLs in which every '<' starts one of the known tags; on
  any other URL no number of iterations of its loop ends it.
\<close>

theorem trie_add_terminates:
  assumes "raw_trie t" "r \<noteq> 0"
  shows "(add t url r \<noteq> None \<longleftrightarrow> tokenise url \<noteq> None) \<and> ((\<exists>fuel. add_with fuel t url r \<noteq> None) \<longleftrightarrow> tokenise url \<noteq> None)"
proof -
  show ?thesis
  proof (cases "tokenise url")
    case None
    then show ?thesis
      using trie_add_unknown_tag_diverges [of url t r] by (simp add: add_def)
  next
    case (Some toks)
    then have "add t url r \<noteq> None"
      using add_spec [OF assms(1) Some assms(2)] by (auto split: if_splits)
    then show ?thesis
      using Some by (auto simp: add_def)
  qed
qed

theorem trie_add_terminates_witness:
  "add trie_init ''/a/<str>'' 1 \<noteq> None \<and> add trie_init ''/a/<uuid>'' 1 = None"
proof -
  have "tokenise ''/a/<str>'' \<noteq> None" "tokenise ''/a/<uuid>'' = None"
    by (simp_all add: matchTag_def paramTraits_def)
  then show ?thesis
    using trie_add_terminates [OF trie_init_raw(1), of 1 "''/a/<str>''"] trie_add_terminates [OF trie_init_raw(1), of 1 "''/a/<uuid>''"]
    by simp
qed

text \<open>
  C12: merging chains of plain fragments is an equivalence: on every trie with sorted prefix-free
  fragments and growing targets \<open>validate\<close> terminates, keeps that form, and does not change which
  rule any URL finds.
\<close>

theorem trie_validate_equiv:
  assumes "opt_trie t"
  shows "\<exists>t'. validate t = Some t' \<and> opt_trie t' \<and> (\<forall>toks r. route t' 0 toks r \<longleftrightarrow> route t 0 toks r)
    \<and> (\<forall>strtod url. \<exists>r ps ps'. find_route strtod t url = Some (r, ps)
         \<and> find_route strtod t' url = Some (r, ps'))"
proof -
  obtain t' where t': "validate t = Some t'" "opt_trie t'" "\<forall>a r. route t' 0 a r \<longleftrightarrow> route t 0 a r"
    using validate_ok [OF assms] by blast
  have "\<exists>r ps ps'. find_route strtod t url = Some (r, ps) \<and> find_route strtod t' url = Some (r, ps')"
    for strtod url
  proof -
    have "matches strtod t' 0 url emptyParams = matches strtod t 0 url emptyParams"
      using t'(3) by (simp add: matches_def)
    then show ?thesis
      using find_route_best [OF opt_trie_wf [OF assms], of strtod url]
        find_route_best [OF opt_trie_wf [OF t'(2)], of strtod url] best_unique by fastforce
  qed
  with t' show ?thesis by blast
qed

lemma trie_validate_equiv_witness:
  "\<exists>t'. validate trie_init = Some t' \<and> opt_trie t' \<and> (\<forall>toks r. route t' 0 toks r \<longleftrightarrow> route trie_init 0 toks r)
    \<and> (\<forall>strtod url. \<exists>r ps ps'. find_route strtod trie_init url = Some (r, ps)
         \<and> find_route strtod t' url = Some (r, ps'))"
  by (rule trie_validate_equiv [OF raw_trie_opt [OF trie_init_raw(1)]])

end
