(* ===== verification/Verb.thy ===== *)
theory Verb
  imports Prelude
begin

text \<open>
  The verbs of \<open>http/verb.hpp\<close>: the dense enumeration the router indexes its tables with, the
  conversion from the request's verb, and the text of the Allow header. The request's verb is an
  enumeration of boost; only its seven members named by the code matter, \<open>verb_other\<close> stands for
  the rest. The lemmas say that the two conversions agree and that the indexes are dense.
\<close>

datatype HttpVerb = Delete | Get | Head | Options | Patch | Post | Put | Max

datatype boost_verb =
    verb_delete | verb_get | verb_head | verb_options | verb_patch | verb_post | verb_put
  | verb_other nat

fun verbIndex :: "HttpVerb \<Rightarrow> nat" where
  "verbIndex Delete = 0" | "verbIndex Get = 1" | "verbIndex Head = 2" | "verbIndex Options = 3"
| "verbIndex Patch = 4" | "verbIndex Post = 5" | "verbIndex Put = 6" | "verbIndex Max = 7"

definition maxVerbIndex :: nat where
  "maxVerbIndex = verbIndex Max - 1"

definition notFoundIndex :: nat where
  "notFoundIndex = maxVerbIndex + 1"

definition methodNotAllowedIndex :: nat where
  "methodNotAllowedIndex = notFoundIndex + 1"

fun httpVerbFromBoost :: "boost_verb \<Rightarrow> HttpVerb option" where
  "httpVerbFromBoost verb_delete = Some Delete"
| "httpVerbFromBoost verb_get = Some Get"
| "httpVerbFromBoost verb_head = Some Head"
| "httpVerbFromBoost verb_options = Some Options"
| "httpVerbFromBoost verb_patch = Some Patch"
| "httpVerbFromBoost verb_post = Some Post"
| "httpVerbFromBoost verb_put = Some Put"
| "httpVerbFromBoost (verb_other n) = None"

fun httpVerbToString :: "HttpVerb \<Rightarrow> string" where
  "httpVerbToString Delete = ''DELETE''"
| "httpVerbToString Get = ''GET''"
| "httpVerbToString Head = ''HEAD''"
| "httpVerbToString Patch = ''PATCH''"
| "httpVerbToString Post = ''POST''"
| "httpVerbToString Put = ''PUT''"
| "httpVerbToString Options = ''OPTIONS''"
| "httpVerbToString Max = ''''"

text \<open>\<open>static_cast<HttpVerb>(index)\<close> for the indexes of real verbs, in the order of the enumeration.\<close>

definition allVerbs :: "HttpVerb list" where
  "allVerbs = [Delete, Get, Head, Options, Patch, Post, Put]"

definition verbOfIndex :: "nat \<Rightarrow> HttpVerb" where
  "verbOfIndex i = (allVerbs @ [Max]) ! i"

lemmas verb_consts = maxVerbIndex_def notFoundIndex_def methodNotAllowedIndex_def

lemma verbIndex_less: "httpVerbFromBoost v = Some h \<Longrightarrow> verbIndex h \<le> maxVerbIndex"
  by (cases v) (auto simp: verb_consts)

lemma verbIndex_eq_iff [simp]: "verbIndex a = verbIndex b \<longleftrightarrow> a = b"
  by (cases a; cases b) simp_all

lemma verbOfIndex_verbIndex [simp]: "verbOfIndex (verbIndex h) = h"
  by (cases h) (simp_all add: verbOfIndex_def allVerbs_def)

lemma allVerbs_index: "map verbIndex allVerbs = [0..<7]"
  by (simp add: allVerbs_def upt_rec)

lemma upt_Suc_maxVerbIndex: "[0..<Suc maxVerbIndex] = map verbIndex allVerbs"
  by (simp only: allVerbs_index) (simp add: verb_consts)

end
