(* ===== verification/Json.thy ===== *)
theory Json
  imports Prelude
begin

text \<open>
  The JSON values the code builds and inspects (\<open>nlohmann::json\<close>): one constructor per kind of
  value that the code distinguishes. Numbers keep the library's three representations: signed and
  unsigned 64 bit integers and doubles (as bit patterns). An object is a \<open>std::map\<close> from keys to
  values, kept sorted. The predicates are the library's \<open>empty()\<close>, \<open>is_structured()\<close> and friends
  as its documentation states them, and the access helpers are the ones the code uses.
\<close>

datatype json =
    JNull
  | JBool bool
  | JInt int
  | JUInt nat
  | JFloat u64
  | JString string
  | JBinary "u8 list"
  | JArray "json list"
  | JObject "(string \<times> json) list"

type_synonym json_object = "(string \<times> json) list"

fun json_empty :: "json \<Rightarrow> bool" where
  "json_empty JNull = True"
| "json_empty (JArray xs) = (xs = [])"
| "json_empty (JObject m) = (m = [])"
| "json_empty (JBool b) = False"
| "json_empty (JInt i) = False"
| "json_empty (JUInt n) = False"
| "json_empty (JFloat d) = False"
| "json_empty (JString s) = False"
| "json_empty (JBinary b) = False"

fun is_structured :: "json \<Rightarrow> bool" where
  "is_structured (JArray xs) = True"
| "is_structured (JObject m) = True"
| "is_structured JNull = False"
| "is_structured (JBool b) = False"
| "is_structured (JInt i) = False"
| "is_structured (JUInt n) = False"
| "is_structured (JFloat d) = False"
| "is_structured (JString s) = False"
| "is_structured (JBinary b) = False"

fun is_array :: "json \<Rightarrow> bool" where
  "is_array (JArray xs) = True"
| "is_array j = False"

fun is_object :: "json \<Rightarrow> bool" where
  "is_object (JObject m) = True"
| "is_object j = False"

text \<open>\<open>j[key]\<close> on an object or null value (a null value becomes an object), as a read.\<close>

fun json_at :: "json \<Rightarrow> string \<Rightarrow> json option" where
  "json_at (JObject m) k = omap_find m k"
| "json_at j k = None"

text \<open>\<open>j[key] = v\<close>; on another kind of value the library throws, \<open>None\<close>.\<close>

fun json_set :: "json \<Rightarrow> string \<Rightarrow> json \<Rightarrow> json option" where
  "json_set (JObject m) k v = Some (JObject (omap_insert_or_assign k v m))"
| "json_set JNull k v = Some (JObject [(k, v)])"
| "json_set j k v = None"

text \<open>Objects whose keys are sorted and distinct, at every level, as \<open>std::map\<close> keeps them.\<close>

fun json_ok :: "json \<Rightarrow> bool" where
  "json_ok (JArray xs) = (\<forall>x \<in> set xs. json_ok x)"
| "json_ok (JObject m) = (omap_ok m \<and> (\<forall>p \<in> set m. json_ok (snd p)))"
| "json_ok JNull = True"
| "json_ok (JBool b) = True"
| "json_ok (JInt i) = True"
| "json_ok (JUInt n) = True"
| "json_ok (JFloat d) = True"
| "json_ok (JString s) = True"
| "json_ok (JBinary b) = True"

lemma json_at_set:
  "json_ok j \<Longrightarrow> json_set j k v = Some j' \<Longrightarrow>
     json_at j' k' = (if k' = k then Some v else json_at j k')"
  by (cases j) (auto simp: omap_find_insert)

lemma json_ok_set: "json_ok j \<Longrightarrow> json_ok v \<Longrightarrow> json_set j k v = Some j' \<Longrightarrow> json_ok j'"
  by (cases j) (auto simp: set_insert_or_assign)

end
