(* ===== verification/ContentTypes.thy ===== *)
theory ContentTypes
  imports Prelude
begin

text \<open>
  Content negotiation of \<open>http/http_utility.hpp\<close>. \<open>getPreferedContentType\<close> is modelled as it is
  written: each round shortens the header view by its first character although the positions it
  keeps are counted in the unshortened view, and takes \<open>substr(lastIndex, index)\<close>, whose second
  argument is a length. The lemmas give the cases in which the result is the intended one (a
  single entry, two entries separated by a comma and a space) and exhibit the others.
\<close>

datatype ContentType = NoMatch | ANY | CBOR | HTML | JSON | OctetStream | EventStream

definition contentTypes :: "(string \<times> ContentType) list" where
  "contentTypes =
     [(''application/cbor'', CBOR), (''application/json'', JSON),
      (''application/octet-stream'', OctetStream), (''text/html'', HTML),
      (''text/event-stream'', EventStream)]"

text \<open>\<open>s.find(c, from)\<close>, with \<open>size()\<close> in place of \<open>npos\<close>, and \<open>s.find(pat)\<close>.\<close>

definition find_char_from :: "char \<Rightarrow> string \<Rightarrow> nat \<Rightarrow> nat" where
  "find_char_from c s from = from + length (takeWhile (\<lambda>x. x \<noteq> c) (drop from s))"

fun find_sub :: "string \<Rightarrow> string \<Rightarrow> nat option" where
  "find_sub pat [] = (if pat = [] then Some 0 else None)"
| "find_sub pat (c # cs) =
     (if take (length pat) (c # cs) = pat then Some 0 else map_option Suc (find_sub pat cs))"

definition substr :: "string \<Rightarrow> nat \<Rightarrow> nat \<Rightarrow> string" where
  "substr s pos n = take n (drop pos s)"

text \<open>One entry of the header: what the body of the loop returns for it, \<open>None\<close> to continue.\<close>

definition matchEntry :: "ContentType list \<Rightarrow> string \<Rightarrow> ContentType option" where
  "matchEntry preferedOrder enc0 =
     (let encoding = (case find_sub '';q='' enc0 of Some sep \<Rightarrow> substr enc0 0 sep | None \<Rightarrow> enc0)
      in if encoding = ''*/*'' then Some ANY
         else case map_of contentTypes encoding of
                None \<Rightarrow> None
              | Some ct \<Rightarrow> if ct \<in> set preferedOrder then Some ct else None)"

function preferLoop :: "ContentType list \<Rightarrow> string \<Rightarrow> nat \<Rightarrow> ContentType" where
  "preferLoop preferedOrder header lastIndex =
     (if lastIndex < length header + 1 then
        let index = find_char_from (CHR '','') header lastIndex;
            encoding = substr header lastIndex index
        in case matchEntry preferedOrder encoding of
             Some ct \<Rightarrow> ct
           | None \<Rightarrow> preferLoop preferedOrder (tl header) (index + 1)
      else NoMatch)"
  by pat_completeness auto
termination
  by (relation "measure (\<lambda>(po, h, i). 2 * length h + (if i < length h + 1 then 1 else 0))")
    (auto simp: find_char_from_def)

definition getPreferedContentType :: "string \<Rightarrow> ContentType list \<Rightarrow> ContentType" where
  "getPreferedContentType header preferedOrder = preferLoop preferedOrder header 0"

definition isContentTypeAllowed :: "string \<Rightarrow> ContentType \<Rightarrow> bool \<Rightarrow> bool" where
  "isContentTypeAllowed header type allowWildcard =
     (let allowed = getPreferedContentType header [type]
      in if allowed = ANY then allowWildcard else type = allowed)"

declare preferLoop.simps [simp del]

section \<open>Rounds of the loop\<close>

lemma find_char_from_none:
  "c \<notin> set (drop i s) \<Longrightarrow> i \<le> length s \<Longrightarrow> find_char_from c s i = length s"
proof -
  assume "c \<notin> set (drop i s)" "i \<le> length s"
  then have "takeWhile (\<lambda>x. x \<noteq> c) (drop i s) = drop i s"
    by auto
  then show ?thesis
    unfolding find_char_from_def using \<open>i \<le> length s\<close> by (simp only:) simp
qed

lemma find_char_from_some:
  "c \<notin> set a \<Longrightarrow> find_char_from c (pre @ a @ c # b) (length pre) = length pre + length a"
proof -
  assume "c \<notin> set a"
  then have "takeWhile (\<lambda>x. x \<noteq> c) (a @ c # b) = a"
    by (induction a) auto
  then show ?thesis
    by (simp add: find_char_from_def)
qed

lemma preferLoop_end: "length header < i \<Longrightarrow> preferLoop po header i = NoMatch"
  by (subst preferLoop.simps) simp

text \<open>The last round: no comma is left, the entry is the rest of the view.\<close>

lemma preferLoop_last:
  assumes "CHR '','' \<notin> set (drop i header)" "i \<le> length header"
  shows "preferLoop po header i
    = (case matchEntry po (drop i header) of Some ct \<Rightarrow> ct | None \<Rightarrow> NoMatch)"
  using assms
  by (subst preferLoop.simps)
    (simp add: find_char_from_none Let_def substr_def preferLoop_end split: option.splits)

text \<open>The first round: the entry is what stands before the comma.\<close>

lemma preferLoop_first:
  assumes "CHR '','' \<notin> set a"
  shows "preferLoop po (a @ CHR '','' # b) 0
    = (case matchEntry po a of Some ct \<Rightarrow> ct
       | None \<Rightarrow> preferLoop po (tl (a @ CHR '','' # b)) (length a + 1))"
  using find_char_from_some [of "CHR '',''" a "[]" b] assms
  by (subst preferLoop.simps) (simp add: Let_def substr_def split: option.splits)

lemma drop_tl_append: "drop (length a + 1) (tl (a @ x # y # b)) = b"
  by (cases a) auto

section \<open>Properties\<close>

text \<open>What a list of entries should select: the first entry that is a wildcard or an allowed type.\<close>

fun select :: "ContentType list \<Rightarrow> string list \<Rightarrow> ContentType" where
  "select po [] = NoMatch"
| "select po (e # es) = (case matchEntry po e of Some ct \<Rightarrow> ct | None \<Rightarrow> select po es)"

text \<open>
  On an Accept header of one entry, or of two entries separated by a comma and a space,
  \<open>getPreferedContentType\<close> returns the first entry that is the wildcard or an allowed type.
\<close>

theorem preferred_two_entries:
  assumes "CHR '','' \<notin> set a" "CHR '','' \<notin> set b"
  shows "getPreferedContentType a po = select po [a]
    \<and> getPreferedContentType (a @ '', '' @ b) po = select po [a, b]"
proof
  show "getPreferedContentType a po = select po [a]"
    using assms(1) by (simp add: getPreferedContentType_def preferLoop_last split: option.splits)
  have "preferLoop po (tl (a @ CHR '','' # CHR '' '' # b)) (length a + 1) = select po [b]"
    using assms(2) preferLoop_last [of "length a + 1" "tl (a @ CHR '','' # CHR '' '' # b)" po]
    unfolding drop_tl_append by (simp split: option.splits)
  then show "getPreferedContentType (a @ '', '' @ b) po = select po [a, b]"
    using preferLoop_first [OF assms(1), of po "CHR '' '' # b"]
    by (simp add: getPreferedContentType_def split: option.splits)
qed

lemma preferred_two_entries_witness:
  "getPreferedContentType ''text/plain'' [CBOR, JSON, HTML] = select [CBOR, JSON, HTML] [''text/plain'']
   \<and> getPreferedContentType (''text/plain'' @ '', '' @ ''application/json;q=0.9'') [CBOR, JSON, HTML]
     = select [CBOR, JSON, HTML] [''text/plain'', ''application/json;q=0.9'']"
  by (rule preferred_two_entries) simp_all

text \<open>
  Without the space after the comma the second entry is read from its second character on, so
  an allowed type in that position is not found.
\<close>

theorem preferred_no_space_misread:
  assumes "CHR '','' \<notin> set a" "CHR '','' \<notin> set b"
  shows "getPreferedContentType (a @ '','' @ c # b) po = select po [a, b]"
proof -
  have "preferLoop po (tl (a @ CHR '','' # c # b)) (length a + 1) = select po [b]"
    using assms(2) preferLoop_last [of "length a + 1" "tl (a @ CHR '','' # c # b)" po]
    unfolding drop_tl_append by (simp split: option.splits)
  then show ?thesis
    using preferLoop_first [OF assms(1), of po "c # b"]
    by (simp add: getPreferedContentType_def split: option.splits)
qed

lemma preferred_no_space_misread_witness:
  "getPreferedContentType (''text/plain'' @ '','' @ CHR ''a'' # ''pplication/json'') [JSON]
     = select [JSON] [''text/plain'', ''pplication/json'']"
  by (rule preferred_no_space_misread) simp_all

text \<open>A list of three entries: the second is read together with the start of the third.\<close>

lemma preferred_three_entries_misread:
  "getPreferedContentType ''text/plain, application/json, text/html'' [CBOR, JSON, HTML] = HTML"
  by code_simp

end
