(* ===== verification/Response.thy ===== *)
theory Response
  imports Base64 HexUtils Json ContentTypes Verb
begin

text \<open>
  Requests and responses: \<open>http/http_request.hpp\<close>, \<open>http/http_response.hpp\<close>,
  \<open>include/async_resp.hpp\<close>, \<open>security_headers.hpp\<close> and \<open>http/complete_response_fields.hpp\<close>.

  Header fields are a list of name/value pairs in serialisation order; names are compared without
  case, \<open>insert\<close> keeps the fields already there, \<open>erase\<close> removes all of a name (the documented
  behaviour of the field container). A completion handler or liveness callback is identified by a
  number; an operation that calls one returns which one. The hash of a JSON value, its text and its
  CBOR form are arguments. The lemmas cover the life cycle of a response, the conditional request,
  the negotiated body, the content length and the security headers.
\<close>

section \<open>Header fields\<close>

type_synonym fields = "(string \<times> string) list"

definition to_lower :: "char \<Rightarrow> char" where
  "to_lower c = (if CHR ''A'' \<le> c \<and> c \<le> CHR ''Z'' then char_of (of_char c + (32 :: nat)) else c)"

definition iequals :: "string \<Rightarrow> string \<Rightarrow> bool" where
  "iequals a b \<longleftrightarrow> map to_lower a = map to_lower b"

fun fields_insert :: "string \<Rightarrow> string \<Rightarrow> fields \<Rightarrow> fields" where
  "fields_insert k v [] = [(k, v)]"
| "fields_insert k v ((a, b) # f) =
     (if iequals a k \<and> \<not> list_ex (\<lambda>p. iequals (fst p) k) f then (a, b) # (k, v) # f
      else (a, b) # fields_insert k v f)"

definition fields_erase :: "string \<Rightarrow> fields \<Rightarrow> fields" where
  "fields_erase k f = filter (\<lambda>p. \<not> iequals (fst p) k) f"

definition fields_get :: "fields \<Rightarrow> string \<Rightarrow> string" where
  "fields_get f k = (case List.find (\<lambda>p. iequals (fst p) k) f of Some p \<Rightarrow> snd p | None \<Rightarrow> [])"

definition fields_all :: "fields \<Rightarrow> string \<Rightarrow> string list" where
  "fields_all f k = map snd (filter (\<lambda>p. iequals (fst p) k) f)"

lemma iequals_refl [simp]: "iequals k k"
  by (simp add: iequals_def)

lemma fields_all_insert_same: "iequals k k' \<Longrightarrow> fields_all (fields_insert k v f) k' = fields_all f k' @ [v]"
proof (induction f)
  case (Cons p f)
  obtain a b where p: "p = (a, b)"
    by fastforce
  have "iequals a k \<longleftrightarrow> iequals a k'" for a
    using Cons.prems by (auto simp: iequals_def)
  then show ?case
    using Cons p by (auto simp: fields_all_def list_ex_iff filter_empty_conv)
qed (simp add: fields_all_def)

lemma fields_all_insert_other: "\<not> iequals k k' \<Longrightarrow> fields_all (fields_insert k v f) k' = fields_all f k'"
  by (induction f) (auto simp: fields_all_def)

lemma fields_all_insert:
  "fields_all (fields_insert k v f) k' = (if iequals k k' then fields_all f k' @ [v] else fields_all f k')"
  by (simp add: fields_all_insert_same fields_all_insert_other)

section \<open>Requests\<close>

record 's request =
  rq_method :: boost_verb
  rq_target :: string
  rq_fields :: fields
  rq_body :: string
  urlBase :: string
  isSecure :: bool
  rq_session :: "'s option"
  userRole :: string

definition rq_getHeaderValue :: "'s request \<Rightarrow> string \<Rightarrow> string" where
  "rq_getHeaderValue req key = fields_get (rq_fields req) key"

text \<open>\<open>parse_relative_ref\<close> is an argument: the URL (here its encoded path) or a failure.\<close>

definition setUrlInfo :: "(string \<Rightarrow> string option) \<Rightarrow> 's request \<Rightarrow> 's request \<times> bool" where
  "setUrlInfo parse_relative_ref req =
     (case parse_relative_ref (rq_target req) of
        None \<Rightarrow> (req, False) | Some u \<Rightarrow> (req\<lparr>urlBase := u\<rparr>, True))"

definition request_target :: "(string \<Rightarrow> string option) \<Rightarrow> 's request \<Rightarrow> string \<Rightarrow> 's request \<times> bool" where
  "request_target parse_relative_ref req target = setUrlInfo parse_relative_ref (req\<lparr>rq_target := target\<rparr>)"

text \<open>The constructor from a message: the request and whether \<open>ec\<close> was set.\<close>

definition makeRequest ::
    "(string \<Rightarrow> string option) \<Rightarrow> boost_verb \<Rightarrow> string \<Rightarrow> fields \<Rightarrow> string \<Rightarrow> 's request \<times> bool" where
  "makeRequest parse_relative_ref method target flds body =
     (case setUrlInfo parse_relative_ref
        \<lparr>rq_method = method, rq_target = target, rq_fields = flds, rq_body = body, urlBase = [],
         isSecure = False, rq_session = None, userRole = []\<rparr> of (req, ok) \<Rightarrow> (req, \<not> ok))"

section \<open>Responses\<close>

text \<open>The body variant; a file is represented by its size.\<close>

datatype res_body = StringBody string | FileBody nat | Base64Body nat

record response =
  res_status :: nat
  res_fields :: fields
  res_body :: res_body
  jsonValue :: json
  expectedHash :: "string option"
  completed :: bool
  completeRequestHandler :: "nat option"
  isAliveHelper :: "nat option"

definition response_init :: response where
  "response_init = \<lparr>res_status = 200, res_fields = [], res_body = StringBody [], jsonValue = JNull,
     expectedHash = None, completed = False, completeRequestHandler = None, isAliveHelper = None\<rparr>"

definition addHeader :: "string \<Rightarrow> string \<Rightarrow> response \<Rightarrow> response" where
  "addHeader key v r = r\<lparr>res_fields := fields_insert key v (res_fields r)\<rparr>"

definition clearHeader :: "string \<Rightarrow> response \<Rightarrow> response" where
  "clearHeader key r = r\<lparr>res_fields := fields_erase key (res_fields r)\<rparr>"

definition set_result :: "nat \<Rightarrow> response \<Rightarrow> response" where
  "set_result v r = r\<lparr>res_status := v\<rparr>"

definition res_getHeaderValue :: "response \<Rightarrow> string \<Rightarrow> string" where
  "res_getHeaderValue r key = fields_get (res_fields r) key"

text \<open>
  The move constructor: the new response and what is left of the source. \<open>expectedHash\<close> is not
  moved, the handler only when the source is not completed.
\<close>

definition move_construct :: "response \<Rightarrow> response \<times> response" where
  "move_construct res =
     (\<lparr>res_status = res_status res, res_fields = res_fields res, res_body = res_body res,
       jsonValue = jsonValue res, expectedHash = None, completed = completed res,
       completeRequestHandler = (if completed res then None else completeRequestHandler res),
       isAliveHelper = isAliveHelper res\<rparr>,
      res\<lparr>jsonValue := JNull,
          completeRequestHandler := (if completed res then completeRequestHandler res else None),
          isAliveHelper := None\<rparr>)"

text \<open>Move assignment between two different objects: the target keeps its own \<open>expectedHash\<close>.\<close>

definition move_assign :: "response \<Rightarrow> response \<Rightarrow> response \<times> response" where
  "move_assign this r =
     (this\<lparr>res_status := res_status r, res_fields := res_fields r, res_body := res_body r,
       jsonValue := jsonValue r,
       completeRequestHandler := (if completed r then None else completeRequestHandler r),
       completed := completed r, isAliveHelper := isAliveHelper r\<rparr>,
      r\<lparr>jsonValue := JNull,
        completeRequestHandler := (if completed r then completeRequestHandler r else None),
        isAliveHelper := None\<rparr>)"

text \<open>Replacing a body that is not a string by a fresh string response also drops status and headers.\<close>

definition copyBody :: "response \<Rightarrow> response \<Rightarrow> response" where
  "copyBody this res =
     (case res_body res of
        StringBody s \<Rightarrow>
          (case res_body this of
             StringBody s' \<Rightarrow> this\<lparr>res_body := StringBody s\<rparr>
           | other \<Rightarrow> this\<lparr>res_status := 200, res_fields := [], res_body := StringBody s\<rparr>)
      | other \<Rightarrow> this)"

definition body_of :: "response \<Rightarrow> string option" where
  "body_of r = (case res_body r of StringBody s \<Rightarrow> Some s | other \<Rightarrow> None)"

definition res_size :: "response \<Rightarrow> nat" where
  "res_size r = (case res_body r of StringBody s \<Rightarrow> length s | FileBody n \<Rightarrow> n | Base64Body n \<Rightarrow> n)"

text \<open>\<open>message::payload_size()\<close> for the three body types.\<close>

definition payload_size :: "response \<Rightarrow> nat option" where
  "payload_size r = Some (case res_body r of
     StringBody s \<Rightarrow> length s | FileBody n \<Rightarrow> n | Base64Body n \<Rightarrow> base64_body_size n)"

definition getContentLength :: "response \<Rightarrow> nat option \<Rightarrow> nat" where
  "getContentLength r pSize =
     (case pSize of None \<Rightarrow> 0
      | Some n \<Rightarrow>
          let is1XXReturn = (res_status r div 100 = 1)
          in if n > 0 \<and> (is1XXReturn \<or> res_status r = 204 \<or> res_status r = 304) then 0 else n)"

text \<open>\<open>std::to_string\<close> of a length, and \<open>content_length(n)\<close>, which sets the one Content-Length field.\<close>

fun nat_to_string :: "nat \<Rightarrow> string" where
  "nat_to_string n = (if n < 10 then [char_of (48 + n)] else nat_to_string (n div 10) @ [char_of (48 + n mod 10)])"

declare nat_to_string.simps [simp del]

definition set_field :: "string \<Rightarrow> string \<Rightarrow> fields \<Rightarrow> fields" where
  "set_field k v f = fields_erase k f @ [(k, v)]"

definition preparePayload :: "response \<Rightarrow> response" where
  "preparePayload r =
     r\<lparr>res_fields := set_field ''Content-Length''
         (nat_to_string (getContentLength r (payload_size r))) (res_fields r)\<rparr>"

definition res_clear :: "response \<Rightarrow> response" where
  "res_clear r = r\<lparr>res_status := 200, res_fields := [], res_body := StringBody [], jsonValue := JNull,
     completed := False, expectedHash := None\<rparr>"

text \<open>The quoted 8 digit form of the hash; 8 digits are always defined.\<close>

definition quote :: "string \<Rightarrow> string" where
  "quote s = CHR 0x22 # s @ [CHR 0x22]"

definition hashEtag :: "u64 \<Rightarrow> string" where
  "hashEtag hashval = quote (case intToHexString hashval 8 of Some s \<Rightarrow> s | None \<Rightarrow> [])"

definition computeEtag :: "(json \<Rightarrow> u64) \<Rightarrow> response \<Rightarrow> string" where
  "computeEtag hash r =
     (if res_status r \<noteq> 200 then []
      else if json_empty (jsonValue r) then []
      else hashEtag (hash (jsonValue r)))"

definition res_write :: "string \<Rightarrow> response \<Rightarrow> response" where
  "res_write bodyPart r =
     (case res_body r of
        StringBody s \<Rightarrow> r\<lparr>res_body := StringBody (s @ bodyPart)\<rparr>
      | other \<Rightarrow> r\<lparr>res_body := StringBody bodyPart\<rparr>)"

text \<open>\<open>end()\<close>: the response afterwards and the handler that is called with it.\<close>

definition res_end :: "(json \<Rightarrow> u64) \<Rightarrow> response \<Rightarrow> response \<times> nat option" where
  "res_end hash r =
     (let etag = computeEtag hash r;
          r1 = (if etag \<noteq> [] then addHeader ''ETag'' etag r else r)
      in if completed r1 then (r1, None)
         else (r1\<lparr>completed := True\<rparr>, completeRequestHandler r1))"

definition setCompleteRequestHandler :: "nat \<Rightarrow> response \<Rightarrow> response" where
  "setCompleteRequestHandler handler r = r\<lparr>completeRequestHandler := Some handler, completed := False\<rparr>"

definition releaseCompleteRequestHandler :: "response \<Rightarrow> response \<times> nat option" where
  "releaseCompleteRequestHandler r =
     (r\<lparr>completeRequestHandler := None, completed := True\<rparr>, completeRequestHandler r)"

definition setIsAliveHelper :: "nat \<Rightarrow> response \<Rightarrow> response" where
  "setIsAliveHelper handler r = r\<lparr>isAliveHelper := Some handler\<rparr>"

definition releaseIsAliveHelper :: "response \<Rightarrow> response \<times> nat option" where
  "releaseIsAliveHelper r = (r\<lparr>isAliveHelper := None\<rparr>, isAliveHelper r)"

text \<open>\<open>isAlive()\<close>, with the answer of each liveness callback as an argument.\<close>

definition isAlive :: "(nat \<Rightarrow> bool) \<Rightarrow> response \<Rightarrow> bool" where
  "isAlive answer r = (case isAliveHelper r of None \<Rightarrow> False | Some h \<Rightarrow> answer h)"

definition setHashAndHandleNotModified :: "(json \<Rightarrow> u64) \<Rightarrow> response \<Rightarrow> response" where
  "setHashAndHandleNotModified hash r =
     (if json_empty (jsonValue r) \<or> res_status r \<noteq> 200 then r
      else
        let hexVal = hashEtag (hash (jsonValue r));
            r1 = addHeader ''ETag'' hexVal r
        in if expectedHash r1 = Some hexVal then set_result 304 (r1\<lparr>jsonValue := JNull\<rparr>) else r1)"

definition setExpectedHash :: "string \<Rightarrow> response \<Rightarrow> response" where
  "setExpectedHash hash r = r\<lparr>expectedHash := Some hash\<rparr>"

text \<open>Opening a file, by path or descriptor: the size of the file or the failure is an argument.\<close>

definition updateFileBody :: "bool \<Rightarrow> nat \<Rightarrow> response \<Rightarrow> response" where
  "updateFileBody base64 file_size r = r\<lparr>res_body := (if base64 then Base64Body file_size else FileBody file_size)\<rparr>"

definition openFileImpl :: "bool \<Rightarrow> nat option \<Rightarrow> response \<Rightarrow> response \<times> bool" where
  "openFileImpl base64 opened r =
     (case opened of None \<Rightarrow> (r, False) | Some n \<Rightarrow> (updateFileBody base64 n r, True))"

text \<open>Destroying an \<open>AsyncResp\<close> ends its response.\<close>

definition asyncResp_destroy :: "(json \<Rightarrow> u64) \<Rightarrow> response \<Rightarrow> response \<times> nat option" where
  "asyncResp_destroy hash res = res_end hash res"

section \<open>Completing a response\<close>

definition csp_strict :: string where
  "csp_strict = ''default-src 'none'; '' @ ''img-src 'self' data:; '' @ ''font-src 'self'; ''
     @ ''style-src 'self'; '' @ ''script-src 'self'; '' @ ''connect-src 'self' wss:; ''
     @ ''form-action 'none'; '' @ ''frame-ancestors 'none'; '' @ ''object-src 'none'; ''
     @ ''base-uri 'none' ''"

definition csp_open :: string where
  "csp_open = ''default-src 'none'; '' @ ''img-src *; '' @ ''font-src *; '' @ ''style-src *; ''
     @ ''script-src *; '' @ ''connect-src *; '' @ ''form-action *; '' @ ''frame-ancestors *; ''
     @ ''object-src *; '' @ ''base-uri *''"

text \<open>\<open>xss_disabled\<close> is the build option \<open>bmcwebInsecureDisableXssPrevention\<close>.\<close>

definition addSecurityHeaders :: "bool \<Rightarrow> 's request \<Rightarrow> response \<Rightarrow> response" where
  "addSecurityHeaders xss_disabled req res =
     (let r1 = addHeader ''Strict-Transport-Security'' (''max-age=31536000; '' @ ''includeSubdomains; '' @ ''preload'') res;
          r2 = addHeader ''X-Frame-Options'' ''DENY'' r1;
          r3 = addHeader ''Pragma'' ''no-cache'' r2;
          r4 = addHeader ''Cache-Control'' ''no-Store,no-Cache'' r3;
          r5 = addHeader ''X-XSS-Protection'' (''1; '' @ ''mode=block'') r4;
          r6 = addHeader ''X-Content-Type-Options'' ''nosniff'' r5
      in if \<not> xss_disabled then addHeader ''Content-Security-Policy'' csp_strict r6
         else
           let r7 = addHeader ''Content-Security-Policy'' csp_open r6;
               r8 = addHeader ''Access-Control-Allow-Origin'' (rq_getHeaderValue req ''Origin'') r7;
               r9 = addHeader ''Access-Control-Allow-Methods''
                      (''GET, '' @ ''POST, '' @ ''PUT, '' @ ''PATCH, '' @ ''DELETE'') r8;
               r10 = addHeader ''Access-Control-Allow-Credentials'' ''true'' r9
           in addHeader ''Access-Control-Allow-Headers''
                (''Origin, '' @ ''Content-Type, '' @ ''Accept, '' @ ''Cookie, '' @ ''X-XSRF-TOKEN'') r10)"

text \<open>\<open>cleanupTempSession\<close> of \<open>authentication.hpp\<close>: the compiled version does nothing.\<close>

definition cleanupTempSession :: "'s request \<Rightarrow> 'st \<Rightarrow> 'st" where
  "cleanupTempSession req store = store"

definition writeJsonBody :: "(json \<Rightarrow> string) \<Rightarrow> (json \<Rightarrow> string) \<Rightarrow> 's request \<Rightarrow> response \<Rightarrow> response" where
  "writeJsonBody dump to_cbor req r =
     (if is_structured (jsonValue r) then
        let prefered = getPreferedContentType (rq_getHeaderValue req ''Accept'') [CBOR, JSON, HTML]
        in if prefered = HTML then r
           else if prefered = CBOR then
             res_write (to_cbor (jsonValue r)) (addHeader ''Content-Type'' ''application/cbor'' r)
           else
             res_write (dump (jsonValue r)) (addHeader ''Content-Type'' ''application/json'' r)
      else r)"

definition completeResponseFields ::
    "(json \<Rightarrow> u64) \<Rightarrow> (json \<Rightarrow> string) \<Rightarrow> (json \<Rightarrow> string) \<Rightarrow> bool \<Rightarrow> 's request \<Rightarrow> response \<Rightarrow> response" where
  "completeResponseFields hash dump to_cbor xss_disabled req res =
     writeJsonBody dump to_cbor req
       (setHashAndHandleNotModified hash
         (cleanupTempSession req (addSecurityHeaders xss_disabled req res)))"

section \<open>Life cycle\<close>

text \<open>The operations on a response that touch its completion, as a sequence of calls.\<close>

datatype response_op =
    OpEnd
  | OpSetHandler nat
  | OpRelease
  | OpClear
  | OpResult nat
  | OpHeader string string
  | OpWrite string
  | OpJson json

fun response_step :: "(json \<Rightarrow> u64) \<Rightarrow> response_op \<Rightarrow> response \<Rightarrow> response \<times> nat option" where
  "response_step hash OpEnd r = res_end hash r"
| "response_step hash (OpSetHandler h) r = (setCompleteRequestHandler h r, None)"
| "response_step hash OpRelease r = (fst (releaseCompleteRequestHandler r), None)"
| "response_step hash OpClear r = (res_clear r, None)"
| "response_step hash (OpResult v) r = (set_result v r, None)"
| "response_step hash (OpHeader k v) r = (addHeader k v r, None)"
| "response_step hash (OpWrite s) r = (res_write s r, None)"
| "response_step hash (OpJson j) r = (r\<lparr>jsonValue := j\<rparr>, None)"

fun response_run :: "(json \<Rightarrow> u64) \<Rightarrow> response_op list \<Rightarrow> response \<Rightarrow> response \<times> nat list" where
  "response_run hash [] r = (r, [])"
| "response_run hash (x # xs) r =
     (case response_step hash x r of (r1, called) \<Rightarrow>
      case response_run hash xs r1 of (r2, calls) \<Rightarrow>
        (r2, (case called of None \<Rightarrow> calls | Some h \<Rightarrow> h # calls)))"

fun rearms :: "response_op \<Rightarrow> bool" where
  "rearms (OpSetHandler h) = True"
| "rearms OpClear = True"
| "rearms x = False"

lemma completed_simps [simp]:
  "completed (addHeader k v r) = completed r"
  "completed (set_result n r) = completed r"
  "completed (res_write s r) = completed r"
  "completeRequestHandler (addHeader k v r) = completeRequestHandler r"
  "completeRequestHandler (set_result n r) = completeRequestHandler r"
  "completeRequestHandler (res_write s r) = completeRequestHandler r"
  by (simp_all add: addHeader_def set_result_def res_write_def split: res_body.splits)

lemma response_run_calls:
  "length (snd (response_run hash xs r)) \<le> (if completed r then 0 else 1) + length (filter rearms xs)"
proof (induction xs arbitrary: r)
  case (Cons x xs)
  obtain r1 called where step: "response_step hash x r = (r1, called)"
    by fastforce
  have "(case called of None \<Rightarrow> 0 | Some h \<Rightarrow> 1) + (if completed r1 then 0 else 1)
      \<le> (if completed r then 0 else 1) + (if rearms x then 1 else (0 :: nat))"
    using step by (cases x)
      (auto simp: res_end_def Let_def setCompleteRequestHandler_def releaseCompleteRequestHandler_def
        res_clear_def split: if_splits option.splits)
  with Cons.IH [of r1] step show ?case
    by (auto split: prod.splits option.splits if_splits)
qed simp

text \<open>Operations that neither arm, release nor end a response.\<close>

fun plain :: "response_op \<Rightarrow> bool" where
  "plain (OpResult v) = True"
| "plain (OpHeader k v) = True"
| "plain (OpWrite s) = True"
| "plain (OpJson j) = True"
| "plain x = False"

lemma response_run_append:
  "response_run hash (xs @ ys) r =
     (case response_run hash xs r of (r1, c1) \<Rightarrow>
      case response_run hash ys r1 of (r2, c2) \<Rightarrow> (r2, c1 @ c2))"
  by (induction xs arbitrary: r) (auto split: prod.splits option.splits)

lemma plain_run:
  "list_all plain xs \<Longrightarrow> \<exists>r'. response_run hash xs r = (r', []) \<and> completed r' = completed r
     \<and> completeRequestHandler r' = completeRequestHandler r"
proof (induction xs arbitrary: r)
  case (Cons x xs)
  then obtain r1 where r1: "response_step hash x r = (r1, None)" "completed r1 = completed r"
      "completeRequestHandler r1 = completeRequestHandler r"
    by (cases x) auto
  with Cons.IH [of r1] Cons.prems show ?case by auto
qed simp

lemma no_calls_when_completed:
  "completed r \<Longrightarrow> \<not> list_ex rearms ys \<Longrightarrow> snd (response_run hash ys r) = []"
  using response_run_calls [of hash ys r] by (simp add: filter_empty_conv list_ex_iff)

section \<open>What completing leaves in the response\<close>

lemma hashEtag_nonempty [simp]: "hashEtag h \<noteq> []"
  by (simp add: hashEtag_def quote_def)

lemma add_fields [simp]:
  "res_fields (addHeader k v r) = fields_insert k v (res_fields r)"
  "res_fields (set_result n r) = res_fields r"
  "res_fields (res_write s r) = res_fields r"
  "res_fields (r\<lparr>jsonValue := j\<rparr>) = res_fields r"
  by (simp_all add: addHeader_def set_result_def res_write_def split: res_body.splits)

lemma other_parts [simp]:
  "res_status (addHeader k v r) = res_status r" "res_status (res_write s r) = res_status r"
  "res_status (set_result n r) = n"
  "res_body (addHeader k v r) = res_body r" "res_body (set_result n r) = res_body r"
  "jsonValue (addHeader k v r) = jsonValue r" "jsonValue (set_result n r) = jsonValue r"
  "jsonValue (res_write s r) = jsonValue r"
  "expectedHash (addHeader k v r) = expectedHash r" "expectedHash (set_result n r) = expectedHash r"
  by (simp_all add: addHeader_def set_result_def res_write_def split: res_body.splits)

lemma fields_mem_insert [simp]:
  "v \<in> set (fields_all (fields_insert k' v' f) k)
    \<longleftrightarrow> (iequals k' k \<and> v = v') \<or> v \<in> set (fields_all f k)"
  by (auto simp: fields_all_insert)

lemma security_parts [simp]:
  "res_status (addSecurityHeaders x req r) = res_status r"
  "res_body (addSecurityHeaders x req r) = res_body r"
  "jsonValue (addSecurityHeaders x req r) = jsonValue r"
  "expectedHash (addSecurityHeaders x req r) = expectedHash r"
  by (simp_all add: addSecurityHeaders_def Let_def)

lemma fields_kept:
  "v \<in> set (fields_all (res_fields r) k) \<Longrightarrow>
     v \<in> set (fields_all (res_fields (setHashAndHandleNotModified hash r)) k)"
  "v \<in> set (fields_all (res_fields r) k) \<Longrightarrow>
     v \<in> set (fields_all (res_fields (writeJsonBody dump cbor req r)) k)"
  by (auto simp: setHashAndHandleNotModified_def writeJsonBody_def Let_def)

definition security_policy :: "bool \<Rightarrow> 's request \<Rightarrow> (string \<times> string) list" where
  "security_policy xss_disabled req =
     [(''Strict-Transport-Security'', ''max-age=31536000; includeSubdomains; preload''),
      (''X-Frame-Options'', ''DENY''), (''Pragma'', ''no-cache''), (''Cache-Control'', ''no-Store,no-Cache''),
      (''X-XSS-Protection'', ''1; mode=block''), (''X-Content-Type-Options'', ''nosniff''),
      (''Content-Security-Policy'', if xss_disabled then csp_open else csp_strict)]
     @ (if xss_disabled
        then [(''Access-Control-Allow-Origin'', rq_getHeaderValue req ''Origin''),
              (''Access-Control-Allow-Methods'', ''GET, POST, PUT, PATCH, DELETE''),
              (''Access-Control-Allow-Credentials'', ''true''),
              (''Access-Control-Allow-Headers'', ''Origin, Content-Type, Accept, Cookie, X-XSRF-TOKEN'')]
        else [])"

lemma security_fold:
  "addSecurityHeaders x req r = fold (\<lambda>(k, v). addHeader k v) (security_policy x req) r"
  by (cases x) (simp_all add: addSecurityHeaders_def security_policy_def Let_def)

lemma fold_headers_mem:
  "(k, v) \<in> set hs \<Longrightarrow> v \<in> set (fields_all (res_fields (fold (\<lambda>(k, v). addHeader k v) hs r)) k)"
  "v \<in> set (fields_all (res_fields r) k) \<Longrightarrow>
     v \<in> set (fields_all (res_fields (fold (\<lambda>(k, v). addHeader k v) hs r)) k)"
  by (induction hs arbitrary: r) auto

lemma fold_headers_other:
  "\<forall>k' \<in> set (map fst hs). \<not> iequals k' k \<Longrightarrow>
     fields_all (res_fields (fold (\<lambda>(k, v). addHeader k v) hs r)) k = fields_all (res_fields r) k"
  by (induction hs arbitrary: r) (auto simp: fields_all_insert_other)

lemma security_fields:
  "(k, v) \<in> set (security_policy x req) \<Longrightarrow>
     v \<in> set (fields_all (res_fields (addSecurityHeaders x req r)) k)"
  unfolding security_fold by (rule fold_headers_mem)

lemma security_names: "k \<in> set (''ETag'' # map fst (security_policy x req)) \<Longrightarrow> \<not> iequals k ''Content-Type''"
proof -
  have "list_all (\<lambda>k. \<not> iequals k ''Content-Type'')
    [''ETag'', ''Strict-Transport-Security'', ''X-Frame-Options'', ''Pragma'', ''Cache-Control'',
     ''X-XSS-Protection'', ''X-Content-Type-Options'', ''Content-Security-Policy'',
     ''Access-Control-Allow-Origin'', ''Access-Control-Allow-Methods'',
     ''Access-Control-Allow-Credentials'', ''Access-Control-Allow-Headers'']"
    by code_simp
  then show "k \<in> set (''ETag'' # map fst (security_policy x req)) \<Longrightarrow> ?thesis"
    unfolding list_all_iff security_policy_def by (cases x) (simp_all only: list.map fst_conv append.simps
      list.set if_True if_False map_append insert_iff Ball_def, blast+)
qed

section \<open>Properties\<close>

text \<open>
  C11: a completion handler is called exactly once: after it is set, whatever headers, status and
  body are written, the first \<open>end()\<close> calls it, and no later operation calls any handler until one
  is set again or the response is cleared.
\<close>

theorem response_handler_once:
  assumes "list_all plain xs" "\<not> list_ex rearms ys"
  shows "snd (response_run hash (OpSetHandler h # xs @ OpEnd # ys) r) = [h]"
proof -
  obtain r' where r': "response_run hash xs (setCompleteRequestHandler h r) = (r', [])"
    "\<not> completed r'" "completeRequestHandler r' = Some h"
    using plain_run [OF assms(1), of hash "setCompleteRequestHandler h r"]
    by (auto simp: setCompleteRequestHandler_def)
  then obtain r'' where ended: "res_end hash r' = (r'', Some h)" "completed r''"
    using that by (cases "computeEtag hash r' = []") (auto simp: res_end_def Let_def)
  have "snd (response_run hash ys r'') = []"
    using ended(2) assms(2) by (rule no_calls_when_completed)
  with r' ended show ?thesis
    by (auto simp: response_run_append split: prod.splits)
qed

lemma response_handler_once_witness:
  "snd (response_run (\<lambda>j. 0) (OpSetHandler 7 # [OpJson (JBool True), OpResult 200] @ OpEnd # [OpEnd, OpRelease])
     response_init) = [7]"
  by (rule response_handler_once) simp_all

text \<open>
  The security policy reaches every response: after \<open>completeResponseFields\<close> each header of the
  policy (the strict one, or the open one with its CORS headers when XSS prevention is disabled) is
  present with its value, whatever the handler put there, on not-modified responses too.
\<close>

theorem security_headers_present:
  "\<forall>(k, v) \<in> set (security_policy xss_disabled req).
     v \<in> set (fields_all (res_fields (completeResponseFields hash dump to_cbor xss_disabled req res)) k)"
  by (auto simp: completeResponseFields_def cleanupTempSession_def intro: fields_kept security_fields)

definition sample_request :: "string \<Rightarrow> unit request" where
  "sample_request accept = \<lparr>rq_method = verb_get, rq_target = ''/'', rq_fields = [(''accept'', accept)],
     rq_body = [], urlBase = ''/'', isSecure = True, rq_session = None, userRole = []\<rparr>"

lemma security_headers_present_witness:
  "''DENY'' \<in> set (fields_all (res_fields (completeResponseFields (\<lambda>j. 0) (\<lambda>j. []) (\<lambda>j. []) False
     (sample_request []) response_init)) ''X-Frame-Options'')"
  using security_headers_present [of False "sample_request []" "\<lambda>j. 0" "\<lambda>j. []" "\<lambda>j. []" response_init]
  by (simp add: security_policy_def)

text \<open>
  The conditional request. When the client's hash is the ETag of a successful non-empty JSON
  answer, completing turns the answer into 304 without a body: the JSON is dropped, nothing is
  written, the content length is 0 and the ETag is sent. With any other expected hash status, JSON
  and ETag are those of the full answer.
\<close>

theorem conditional_request:
  assumes "res_status res = 200" "\<not> json_empty (jsonValue res)"
  shows "let etag = hashEtag (hash (jsonValue res));
      res' = completeResponseFields hash dump to_cbor x req res
    in etag \<in> set (fields_all (res_fields res') ''ETag'')
      \<and> (if expectedHash res = Some etag
         then res_status res' = 304 \<and> jsonValue res' = JNull \<and> res_body res' = res_body res
           \<and> getContentLength res' (payload_size res') = 0
         else res_status res' = 200 \<and> jsonValue res' = jsonValue res)"
proof -
  let ?etag = "hashEtag (hash (jsonValue res))"
  have "?etag \<in> set (fields_all (res_fields
      (setHashAndHandleNotModified hash (addSecurityHeaders x req res))) ''ETag'')"
    using assms by (simp add: setHashAndHandleNotModified_def Let_def)
  then have "?etag \<in> set (fields_all (res_fields
      (completeResponseFields hash dump to_cbor x req res)) ''ETag'')"
    unfolding completeResponseFields_def cleanupTempSession_def by (rule fields_kept)
  then show ?thesis
    using assms
    by (auto simp: completeResponseFields_def cleanupTempSession_def writeJsonBody_def
        setHashAndHandleNotModified_def Let_def getContentLength_def split: option.splits)
qed

lemma conditional_request_witness:
  "let etag = hashEtag ((\<lambda>j. 1) (jsonValue (response_init\<lparr>jsonValue := JBool True\<rparr>)));
      res' = completeResponseFields (\<lambda>j. 1) (\<lambda>j. ''true'') (\<lambda>j. []) False (sample_request [])
        (response_init\<lparr>jsonValue := JBool True\<rparr>)
    in etag \<in> set (fields_all (res_fields res') ''ETag'')
      \<and> (if expectedHash (response_init\<lparr>jsonValue := JBool True\<rparr>) = Some etag
         then res_status res' = 304 \<and> jsonValue res' = JNull
           \<and> res_body res' = res_body (response_init\<lparr>jsonValue := JBool True\<rparr>)
           \<and> getContentLength res' (payload_size res') = 0
         else res_status res' = 200 \<and> jsonValue res' = jsonValue (response_init\<lparr>jsonValue := JBool True\<rparr>))"
  by (rule conditional_request) (simp_all add: response_init_def)

text \<open>
  The negotiated body of a full structured answer with a string body: CBOR or JSON text is
  appended with its content type, JSON also when nothing matches; a client that prefers HTML gets
  neither a body nor a content type.
\<close>

theorem negotiated_body:
  assumes "is_structured (jsonValue res)" "res_body res = StringBody s"
    and "expectedHash res \<noteq> Some (hashEtag (hash (jsonValue res)))"
  shows "let prefered = getPreferedContentType (rq_getHeaderValue req ''Accept'') [CBOR, JSON, HTML];
      res' = completeResponseFields hash dump to_cbor x req res;
      types = fields_all (res_fields res) ''Content-Type''
    in res_body res' = StringBody (s @ (if prefered = HTML then []
          else if prefered = CBOR then to_cbor (jsonValue res) else dump (jsonValue res)))
      \<and> fields_all (res_fields res') ''Content-Type'' = types @ (if prefered = HTML then []
          else if prefered = CBOR then [''application/cbor''] else [''application/json''])"
proof -
  have sec: "fields_all (res_fields (addSecurityHeaders x req res)) ''Content-Type''
      = fields_all (res_fields res) ''Content-Type''"
    unfolding security_fold by (rule fold_headers_other) (use security_names in \<open>auto\<close>)
  have etag: "\<not> iequals ''ETag'' ''Content-Type''"
    by (rule security_names) simp
  define r where "r = setHashAndHandleNotModified hash (addSecurityHeaders x req res)"
  have r: "jsonValue r = jsonValue res" "res_body r = StringBody s"
    "fields_all (res_fields r) ''Content-Type'' = fields_all (res_fields res) ''Content-Type''"
    using assms(2,3) sec etag
    by (simp_all add: r_def setHashAndHandleNotModified_def Let_def fields_all_insert_other)
  have "completeResponseFields hash dump to_cbor x req res = writeJsonBody dump to_cbor req r"
    by (simp add: r_def completeResponseFields_def cleanupTempSession_def)
  then show ?thesis
    using r assms(1) by (simp add: writeJsonBody_def Let_def res_write_def fields_all_insert_same)
qed

lemma negotiated_body_witness:
  "let prefered = getPreferedContentType (rq_getHeaderValue (sample_request ''text/html'') ''Accept'') [CBOR, JSON, HTML];
      res' = completeResponseFields (\<lambda>j. 1) (\<lambda>j. ''[]'') (\<lambda>j. []) False (sample_request ''text/html'')
        (response_init\<lparr>jsonValue := JArray []\<rparr>);
      types = fields_all (res_fields (response_init\<lparr>jsonValue := JArray []\<rparr>)) ''Content-Type''
    in res_body res' = StringBody ([] @ (if prefered = HTML then []
          else if prefered = CBOR then [] else ''[]''))
      \<and> fields_all (res_fields res') ''Content-Type'' = types @ (if prefered = HTML then []
          else if prefered = CBOR then [''application/cbor''] else [''application/json''])"
  using negotiated_body [of "response_init\<lparr>jsonValue := JArray []\<rparr>" "[]" "\<lambda>j. 1" "sample_request ''text/html''"
      "\<lambda>j. ''[]''" "\<lambda>j. []" False]
  by (simp add: response_init_def)

text \<open>
  The announced length. \<open>preparePayload\<close> leaves exactly one Content-Length field; it announces
  the bytes the body sends (for a base64 file the encoded size), and 0 for a 1xx, 204 or 304 answer.
\<close>

theorem content_length_announced:
  "\<exists>n. fields_all (res_fields (preparePayload r)) ''Content-Length'' = [nat_to_string n]
    \<and> n = (if res_status r div 100 = 1 \<or> res_status r = 204 \<or> res_status r = 304 then 0
           else case res_body r of StringBody s \<Rightarrow> length s | FileBody m \<Rightarrow> m
             | Base64Body m \<Rightarrow> encodedSize m)"
proof -
  have "fields_all (set_field k v f) k = [v]" for k v f
    by (simp add: fields_all_def set_field_def fields_erase_def)
  then show ?thesis
    by (auto simp: preparePayload_def getContentLength_def payload_size_def base64_body_size_def Let_def
        split: res_body.splits)
qed

text \<open>A successful answer that is ended and then completed carries its ETag twice.\<close>

lemma etag_sent_twice:
  assumes "res_status r = 200" "\<not> json_empty (jsonValue r)" "fields_all (res_fields r) ''ETag'' = []"
  shows "fields_all (res_fields (setHashAndHandleNotModified hash (fst (res_end hash r)))) ''ETag''
    = [hashEtag (hash (jsonValue r)), hashEtag (hash (jsonValue r))]"
  using assms
  by (auto simp: res_end_def computeEtag_def setHashAndHandleNotModified_def Let_def fields_all_insert)

end
