(* ===== verification/ParamTags.thy ===== *)
theory ParamTags
  imports Trie
begin

text \<open>
  The compile-time and registration-time type checks of URL parameters: the tags of
  \<open>http/utility.hpp\<close> (namespaces \<open>black_magic\<close> and \<open>utility\<close>) and the dispatch of a handler's
  arguments in \<open>http/routing.hpp\<close> (\<open>Call\<close>, \<open>SingleTagToType\<close>, \<open>Arguments\<close>).

  A tag packs one type code per parameter as base 6 (base 3) digits, first parameter lowest, in a
  64 bit word that wraps. The lemmas decode the packing, show that the compatibility check
  compares the lists of types, and that a handler called through \<open>Call\<close> gets exactly the values
  the URL's pattern reads, in the order of the URL.
\<close>

section \<open>Type codes\<close>

datatype TypeCode = Unspecified | Integer | UnsignedInteger | Float | String | Path

fun toUnderlying :: "TypeCode \<Rightarrow> nat" where
  "toUnderlying Unspecified = 0" | "toUnderlying Integer = 1" | "toUnderlying UnsignedInteger = 2"
| "toUnderlying Float = 3" | "toUnderlying String = 4" | "toUnderlying Path = 5"

definition TypeCode_Max :: nat where
  "TypeCode_Max = 6"

text \<open>The C++ types that \<open>getParameterTag<T>\<close> distinguishes; \<open>T_other\<close> is any other type.\<close>

datatype cxx_type =
    T_int | T_char | T_short | T_long | T_long_long
  | T_unsigned_int | T_unsigned_char | T_unsigned_short | T_unsigned_long | T_unsigned_long_long
  | T_double | T_string | T_other

fun typeParameterTag :: "cxx_type \<Rightarrow> TypeCode" where
  "typeParameterTag T_int = Integer"
| "typeParameterTag T_char = Integer"
| "typeParameterTag T_short = Integer"
| "typeParameterTag T_long = Integer"
| "typeParameterTag T_long_long = Integer"
| "typeParameterTag T_unsigned_int = UnsignedInteger"
| "typeParameterTag T_unsigned_char = UnsignedInteger"
| "typeParameterTag T_unsigned_short = UnsignedInteger"
| "typeParameterTag T_unsigned_long = UnsignedInteger"
| "typeParameterTag T_unsigned_long_long = UnsignedInteger"
| "typeParameterTag T_double = Float"
| "typeParameterTag T_string = String"
| "typeParameterTag T_other = Unspecified"

text \<open>Evaluated by the compiler, which rejects an overflow of the \<open>int\<close>.\<close>

fun computeParameterTagFromArgsList :: "cxx_type list \<Rightarrow> nat" where
  "computeParameterTagFromArgsList [] = 0"
| "computeParameterTagFromArgsList (arg # args) =
     (let subValue = computeParameterTagFromArgsList args
      in if typeParameterTag arg \<noteq> Unspecified
         then subValue * TypeCode_Max + toUnderlying (typeParameterTag arg)
         else subValue)"

text \<open>The loop of \<open>isParameterTagCompatible\<close>; a path counts as a string.\<close>

definition path_as_string :: "nat \<Rightarrow> nat" where
  "path_as_string s = (if s = toUnderlying Path then toUnderlying String else s)"

function isParameterTagCompatible :: "nat \<Rightarrow> nat \<Rightarrow> bool" where
  "isParameterTagCompatible a b =
     (if a = 0 \<and> b = 0 then True
      else if a = 0 \<or> b = 0 then False
      else
        let sa = path_as_string (a mod TypeCode_Max); sb = path_as_string (b mod TypeCode_Max)
        in if sa \<noteq> sb then False
           else isParameterTagCompatible (a div TypeCode_Max) (b div TypeCode_Max))"
  by pat_completeness auto
termination
  by (relation "measure fst") (auto simp: TypeCode_Max_def)

declare isParameterTagCompatible.simps [simp del]

section \<open>The tag of a URL\<close>

text \<open>
  Both \<open>getParameterTag\<close> functions: the same loop over the characters with the base of the packing
  and the table of tags as arguments. The state is the tag so far, the index of the open '<' (for
  \<open>npos\<close>, \<open>None\<close>) and the number of parameters.
\<close>

fun tagLoop ::
    "u64 \<Rightarrow> (string \<Rightarrow> nat) \<Rightarrow> string \<Rightarrow> nat \<Rightarrow> string \<Rightarrow> u64 \<Rightarrow> nat option \<Rightarrow> nat \<Rightarrow> u64" where
  "tagLoop base tagCode url urlIndex [] tagValue segment paramIndex =
     (if segment \<noteq> None then 0 else tagValue)"
| "tagLoop base tagCode url urlIndex (character # rest) tagValue segment paramIndex =
     (if character = CHR ''<'' \<and> segment \<noteq> None then 0
      else
        let segment1 = (if character = CHR ''<'' then Some urlIndex else segment)
        in if character = CHR ''>'' then
             (case segment1 of
                None \<Rightarrow> 0
              | Some start \<Rightarrow>
                  let tag = take (urlIndex + 1 - start) (drop start url);
                      insertIndex = base ^ paramIndex
                  in tagLoop base tagCode url (urlIndex + 1) rest
                       (tagValue + insertIndex * of_nat (tagCode tag)) None (paramIndex + 1))
           else tagLoop base tagCode url (urlIndex + 1) rest tagValue segment1 paramIndex)"

definition tagCode6 :: "string \<Rightarrow> nat" where
  "tagCode6 tag =
     (if tag = ''<int>'' then toUnderlying Integer
      else if tag = ''<uint>'' then toUnderlying UnsignedInteger
      else if tag = ''<float>'' \<or> tag = ''<double>'' then toUnderlying Float
      else if tag = ''<str>'' \<or> tag = ''<string>'' then toUnderlying String
      else if tag = ''<path>'' then toUnderlying Path
      else 0)"

definition getParameterTag :: "string \<Rightarrow> u64" where
  "getParameterTag url = tagLoop 6 tagCode6 url 0 url 0 None 0"

text \<open>The version of namespace \<open>utility\<close>: strings and paths only, in base 3.\<close>

definition tagCode3 :: "string \<Rightarrow> nat" where
  "tagCode3 tag =
     (if tag = ''<str>'' \<or> tag = ''<string>'' then 1 else if tag = ''<path>'' then 2 else 0)"

definition utility_getParameterTag :: "string \<Rightarrow> u64" where
  "utility_getParameterTag url = tagLoop 3 tagCode3 url 0 url 0 None 0"

text \<open>\<open>int tag\<close>; a negative value ends the loop at once.\<close>

function numArgsFromTag :: "int \<Rightarrow> nat" where
  "numArgsFromTag tag = (if tag > 0 then numArgsFromTag (tag div 3) + 1 else 0)"
  by pat_completeness auto
termination
  by (relation "measure nat") auto

declare numArgsFromTag.simps [simp del]

section \<open>Handler arguments\<close>

datatype arg_type = A_int64 | A_uint64 | A_double | A_string

datatype arg = IntArg int | UintArg nat | DoubleArg dbl | StringArg string

fun SingleTagToType :: "nat \<Rightarrow> arg_type option" where
  "SingleTagToType n =
     (if n = 1 then Some A_int64 else if n = 2 then Some A_uint64 else if n = 3 then Some A_double
      else if n = 4 \<or> n = 5 then Some A_string else None)"

text \<open>\<open>Arguments<Tag>\<close>: the type list of a tag; a digit without a type does not compile, \<open>None\<close>.\<close>

function Arguments :: "nat \<Rightarrow> arg_type list option" where
  "Arguments tag =
     (if tag = 0 then Some []
      else case Arguments (tag div 6) of
             None \<Rightarrow> None
           | Some subarguments \<Rightarrow> map_option (\<lambda>t. t # subarguments) (SingleTagToType (tag mod 6)))"
  by pat_completeness auto
termination
  by (relation "measure id") auto

declare Arguments.simps [simp del]

text \<open>\<open>PromoteT\<close>: the type a handler's argument is read as.\<close>

fun promote :: "cxx_type \<Rightarrow> arg_type option" where
  "promote T_int = Some A_int64"
| "promote T_char = Some A_int64"
| "promote T_short = Some A_int64"
| "promote T_long = Some A_int64"
| "promote T_long_long = Some A_int64"
| "promote T_unsigned_int = Some A_uint64"
| "promote T_unsigned_char = Some A_uint64"
| "promote T_unsigned_short = Some A_uint64"
| "promote T_unsigned_long = Some A_uint64"
| "promote T_unsigned_long_long = Some A_uint64"
| "promote T_double = Some A_double"
| "promote T_string = Some A_string"
| "promote T_other = None"

text \<open>
  \<open>RoutingParams::get\<close> and the four recursive specialisations of \<open>Call\<close>: each argument type takes
  the next position of its own vector. Reading past the end is undefined, \<open>None\<close>.
\<close>

definition vector_at :: "'a list \<Rightarrow> nat \<Rightarrow> 'a option" where
  "vector_at xs i = (if i < length xs then Some (xs ! i) else None)"

fun params_get :: "RoutingParams \<Rightarrow> arg_type \<times> nat \<Rightarrow> arg option" where
  "params_get ps (A_int64, i) = map_option IntArg (vector_at (intParams ps) i)"
| "params_get ps (A_uint64, i) = map_option UintArg (vector_at (uintParams ps) i)"
| "params_get ps (A_double, i) = map_option DoubleArg (vector_at (doubleParams ps) i)"
| "params_get ps (A_string, i) = map_option StringArg (vector_at (stringParams ps) i)"

fun callPairs :: "nat \<Rightarrow> nat \<Rightarrow> nat \<Rightarrow> nat \<Rightarrow> arg_type list \<Rightarrow> (arg_type \<times> nat) list \<Rightarrow> (arg_type \<times> nat) list" where
  "callPairs nInt nUint nDouble nString [] pushed = pushed"
| "callPairs nInt nUint nDouble nString (A_int64 # args) pushed =
     callPairs (nInt + 1) nUint nDouble nString args (pushed @ [(A_int64, nInt)])"
| "callPairs nInt nUint nDouble nString (A_uint64 # args) pushed =
     callPairs nInt (nUint + 1) nDouble nString args (pushed @ [(A_uint64, nUint)])"
| "callPairs nInt nUint nDouble nString (A_double # args) pushed =
     callPairs nInt nUint (nDouble + 1) nString args (pushed @ [(A_double, nDouble)])"
| "callPairs nInt nUint nDouble nString (A_string # args) pushed =
     callPairs nInt nUint nDouble (nString + 1) args (pushed @ [(A_string, nString)])"

definition call_args :: "arg_type list \<Rightarrow> RoutingParams \<Rightarrow> arg option list" where
  "call_args types ps = map (params_get ps) (callPairs 0 0 0 0 types [])"

section \<open>Packing\<close>

text \<open>A list of digits as a number in base \<open>b\<close>, lowest digit first.\<close>

fun packed :: "nat \<Rightarrow> nat list \<Rightarrow> nat" where
  "packed b [] = 0"
| "packed b (c # cs) = c + b * packed b cs"

lemma packed_bound: "\<forall>c \<in> set cs. c < b \<Longrightarrow> packed b cs < b ^ length cs"
proof (induction cs)
  case (Cons c cs)
  then have "packed b cs + 1 \<le> b ^ length cs" "c < b"
    by auto
  then have "c + b * packed b cs < b * (packed b cs + 1)"
    by simp
  also have "\<dots> \<le> b * b ^ length cs"
    using \<open>packed b cs + 1 \<le> b ^ length cs\<close> by (rule mult_le_mono2)
  finally show ?case by simp
qed simp

lemma packed_digit: "c < b \<Longrightarrow> packed b (c # cs) mod b = c \<and> packed b (c # cs) div b = packed b cs"
  by simp

lemma packed_zero: "\<forall>c \<in> set cs. 0 < c \<Longrightarrow> 0 < b \<Longrightarrow> packed b cs = 0 \<longleftrightarrow> cs = []"
  by (cases cs) auto

definition digit6 :: "nat \<Rightarrow> bool" where
  "digit6 c \<longleftrightarrow> 0 < c \<and> c < 6"

lemma compatible_packed:
  "list_all digit6 as \<Longrightarrow> list_all digit6 bs \<Longrightarrow>
     isParameterTagCompatible (packed 6 as) (packed 6 bs) \<longleftrightarrow> map path_as_string as = map path_as_string bs"
proof (induction as arbitrary: bs)
  case Nil
  have "packed 6 bs = 0 \<longleftrightarrow> bs = []"
    using Nil by (intro packed_zero) (auto simp: list_all_iff digit6_def)
  then show ?case
    by (subst isParameterTagCompatible.simps) auto
next
  case (Cons a as)
  then have a: "0 < a" "a < 6"
    by (simp_all add: digit6_def)
  show ?case
  proof (cases bs)
    case Nil
    then show ?thesis
      using a by (subst isParameterTagCompatible.simps) simp
  next
    case (Cons b bs')
    then have b: "0 < b" "b < 6"
      using Cons.prems by (simp_all add: digit6_def)
    have "isParameterTagCompatible (packed 6 (a # as)) (packed 6 (b # bs'))
        \<longleftrightarrow> path_as_string a = path_as_string b \<and> isParameterTagCompatible (packed 6 as) (packed 6 bs')"
      using a b by (subst isParameterTagCompatible.simps) (simp add: TypeCode_Max_def Let_def)
    with Cons.IH [of bs'] Cons.prems Cons show ?thesis by simp
  qed
qed

lemma typeCode_digit6: "t \<noteq> Unspecified \<Longrightarrow> digit6 (toUnderlying t)"
  by (cases t) (simp_all add: digit6_def)

lemma computeParameterTag_packed:
  "computeParameterTagFromArgsList args
    = packed 6 (map toUnderlying (filter (\<lambda>t. t \<noteq> Unspecified) (map typeParameterTag args)))"
  by (induction args) (simp_all add: Let_def TypeCode_Max_def)

section \<open>The tag of a well-formed URL\<close>

fun paramCode :: "ParamType \<Rightarrow> TypeCode" where
  "paramCode PINT = Integer" | "paramCode PUINT = UnsignedInteger" | "paramCode PDOUBLE = Float"
| "paramCode PSTRING = String" | "paramCode PPATH = Path"

fun params_of :: "token list \<Rightarrow> ParamType list" where
  "params_of [] = []"
| "params_of (Lit c # toks) = params_of toks"
| "params_of (Par p # toks) = p # params_of toks"

text \<open>No closing bracket outside a tag; the loop gives the tag 0 to a URL that has one.\<close>

definition brackets_ok :: "token list \<Rightarrow> bool" where
  "brackets_ok toks \<longleftrightarrow> Lit (CHR ''>'') \<notin> set toks"

lemma brackets_ok_Cons [simp]:
  "brackets_ok [] " "brackets_ok (x # toks) \<longleftrightarrow> x \<noteq> Lit (CHR ''>'') \<and> brackets_ok toks"
  by (auto simp: brackets_ok_def)

lemma tag_step:
  "(p, tag) \<in> set paramTraits \<Longrightarrow> drop i url = tag @ rest \<Longrightarrow>
     tagLoop base tagCode url i (tag @ rest) v None k
     = tagLoop base tagCode url (i + length tag) rest (v + base ^ k * of_nat (tagCode tag)) None (k + 1)"
  by (auto simp: paramTraits_def Let_def)

lemma matchTag_mem: "matchTag s = Some (p, tag) \<Longrightarrow> (p, tag) \<in> set paramTraits \<and> s = tag @ drop (length tag) s"
  unfolding matchTag_def find_Some_iff
  by clarsimp (metis append_take_drop_id nth_mem)

fun wpacked :: "u64 \<Rightarrow> nat list \<Rightarrow> u64" where
  "wpacked b [] = 0"
| "wpacked b (c # cs) = of_nat c + b * wpacked b cs"

lemma wpacked_of_nat: "wpacked (of_nat b) cs = of_nat (packed b cs)"
  by (induction cs) simp_all

lemma tagLoop_tokenise:
  assumes "\<forall>(p, tag) \<in> set paramTraits. tagCode tag = code p"
  shows "tokenise rest = Some toks \<Longrightarrow> brackets_ok toks \<Longrightarrow> drop i url = rest \<Longrightarrow>
    tagLoop base tagCode url i rest v None k = v + base ^ k * wpacked base (map code (params_of toks))"
proof (induction rest arbitrary: toks i v k rule: tokenise.induct)
  case (2 c cs)
  show ?case
  proof (cases "c = CHR ''<''")
    case True
    with "2.prems"(1) obtain p tag toks' where tag: "matchTag (c # cs) = Some (p, tag)"
      "tokenise (drop (length tag) (c # cs)) = Some toks'" "toks = Par p # toks'"
      by (auto split: option.splits)
    note mem = matchTag_mem [OF tag(1)]
    let ?r = "drop (length tag) (c # cs)"
    have "drop (i + length tag) url = ?r"
      using "2.prems"(3) by (metis add.commute drop_drop)
    with "2.IH"(1) [OF True tag(1) refl tag(2)] "2.prems"(2) tag(3)
    have ih: "tagLoop base tagCode url (i + length tag) ?r (v + base ^ k * of_nat (tagCode tag)) None (k + 1)
        = v + base ^ k * of_nat (tagCode tag) + base ^ (k + 1) * wpacked base (map code (params_of toks'))"
      by simp
    have "tagCode tag = code p"
      using assms mem by blast
    then show ?thesis
      using tag_step [of p tag i url ?r base tagCode v k] mem "2.prems"(3) ih tag(3)
      by (simp add: algebra_simps)
  next
    case False
    with "2.prems"(1) obtain toks' where toks: "tokenise cs = Some toks'" "toks = Lit c # toks'"
      by auto
    have "drop (i + 1) url = cs"
      using "2.prems"(3) by (metis drop_Suc list.sel(3) tl_drop Suc_eq_plus1)
    with "2.IH"(2) [OF False toks(1)] "2.prems"(2) toks False show ?thesis
      by (simp add: Let_def)
  qed
qed simp

lemma codes6: "\<forall>(p, tag) \<in> set paramTraits. tagCode6 tag = toUnderlying (paramCode p)"
  by (simp add: paramTraits_def tagCode6_def)

definition url_tag_value :: "token list \<Rightarrow> nat" where
  "url_tag_value toks = packed 6 (map (\<lambda>p. toUnderlying (paramCode p)) (params_of toks))"

text \<open>With at most 24 parameters the packed tag fits the word, so nothing wraps.\<close>

lemma getParameterTag_packed:
  assumes "tokenise url = Some toks" "brackets_ok toks" "length (params_of toks) \<le> 24"
  shows "unat (getParameterTag url) = url_tag_value toks"
proof -
  let ?cs = "map (\<lambda>p. toUnderlying (paramCode p)) (params_of toks)"
  have "getParameterTag url = wpacked 6 ?cs"
    using tagLoop_tokenise [OF codes6 assms(1,2), of 0 url 6 0 0] by (simp add: getParameterTag_def comp_def)
  also have "\<dots> = of_nat (packed 6 ?cs)"
    using wpacked_of_nat [of 6 ?cs] by simp
  finally have w: "getParameterTag url = of_nat (packed 6 ?cs)" .
  have "toUnderlying (paramCode p) < 6" for p
    by (cases p) simp_all
  then have "packed 6 ?cs < 6 ^ length ?cs"
    by (intro packed_bound) auto
  also have "\<dots> \<le> 6 ^ 24"
    using assms(3) by (intro power_increasing) simp_all
  finally have "packed 6 ?cs < 2 ^ 64"
    by simp
  then show ?thesis
    unfolding w url_tag_value_def by (simp add: unat_of_nat)
qed

section \<open>Dispatch\<close>

text \<open>The value a parameter reads, separated from the vector it is pushed to.\<close>

fun push_arg :: "arg \<Rightarrow> RoutingParams \<Rightarrow> RoutingParams" where
  "push_arg (IntArg v) ps = ps\<lparr>intParams := intParams ps @ [v]\<rparr>"
| "push_arg (UintArg v) ps = ps\<lparr>uintParams := uintParams ps @ [v]\<rparr>"
| "push_arg (DoubleArg v) ps = ps\<lparr>doubleParams := doubleParams ps @ [v]\<rparr>"
| "push_arg (StringArg v) ps = ps\<lparr>stringParams := stringParams ps @ [v]\<rparr>"

fun scan_value :: "(string \<Rightarrow> dbl parsed) \<Rightarrow> ParamType \<Rightarrow> string \<Rightarrow> (nat \<times> arg) option" where
  "scan_value strtod PINT s =
     (if (is_digit (hd s) \<or> hd s = CHR ''+'' \<or> hd s = CHR ''-'')
         \<and> \<not> p_erange (strtoll s) \<and> p_len (strtoll s) \<noteq> 0
      then Some (p_len (strtoll s), IntArg (p_value (strtoll s))) else None)"
| "scan_value strtod PUINT s =
     (if (is_digit (hd s) \<or> hd s = CHR ''+'')
         \<and> \<not> p_erange (strtoull s) \<and> p_len (strtoull s) \<noteq> 0
      then Some (p_len (strtoull s), UintArg (p_value (strtoull s))) else None)"
| "scan_value strtod PDOUBLE s =
     (if (is_digit (hd s) \<or> hd s = CHR ''+'' \<or> hd s = CHR ''-'' \<or> hd s = CHR ''.'')
         \<and> \<not> p_erange (strtod s) \<and> p_len (strtod s) \<noteq> 0
      then Some (p_len (strtod s), DoubleArg (p_value (strtod s))) else None)"
| "scan_value strtod PSTRING s =
     (if takeWhile (\<lambda>c. c \<noteq> CHR ''/'') s = [] then None
      else Some (length (takeWhile (\<lambda>c. c \<noteq> CHR ''/'') s), StringArg (takeWhile (\<lambda>c. c \<noteq> CHR ''/'') s)))"
| "scan_value strtod PPATH s = (if s = [] then None else Some (length s, StringArg s))"

lemma scanParam_value:
  "scanParam strtod p s ps = map_option (\<lambda>(k, v). (k, push_arg v ps)) (scan_value strtod p s)"
  by (cases p) (simp_all add: Let_def)

text \<open>The values a pattern reads from a URL, in the order of the URL.\<close>

fun tok_values :: "(string \<Rightarrow> dbl parsed) \<Rightarrow> token list \<Rightarrow> string \<Rightarrow> arg list option" where
  "tok_values strtod [] s = (if s = [] then Some [] else None)"
| "tok_values strtod (Lit c # toks) s =
     (case s of [] \<Rightarrow> None | d # s' \<Rightarrow> if c = d then tok_values strtod toks s' else None)"
| "tok_values strtod (Par p # toks) s =
     (if s = [] then None
      else case scan_value strtod p s of
             None \<Rightarrow> None
           | Some (k, v) \<Rightarrow> map_option (Cons v) (tok_values strtod toks (drop k s)))"

lemma tok_run_values:
  "tok_run strtod toks s ps = map_option (\<lambda>vs. fold push_arg vs ps) (tok_values strtod toks s)"
proof (induction strtod toks s arbitrary: ps rule: tok_values.induct)
  case (3 strtod p toks s)
  then show ?case
    by (auto simp: scanParam_value option.map_comp comp_def split: option.splits prod.splits)
qed (auto split: list.splits)

fun arg_kind :: "arg \<Rightarrow> arg_type" where
  "arg_kind (IntArg v) = A_int64" | "arg_kind (UintArg v) = A_uint64"
| "arg_kind (DoubleArg v) = A_double" | "arg_kind (StringArg v) = A_string"

definition param_arg :: "ParamType \<Rightarrow> arg_type" where
  "param_arg p = the (SingleTagToType (toUnderlying (paramCode p)))"

lemma scan_value_kind: "scan_value strtod p s = Some (k, v) \<Longrightarrow> arg_kind v = param_arg p"
  by (cases p) (auto simp: param_arg_def split: if_splits)

lemma tok_values_kind: "tok_values strtod toks s = Some vs \<Longrightarrow> map arg_kind vs = map param_arg (params_of toks)"
proof (induction strtod toks s arbitrary: vs rule: tok_values.induct)
  case (3 strtod p toks s)
  then show ?case
    by (auto split: if_splits option.splits dest: scan_value_kind)
qed (auto split: if_splits list.splits)

text \<open>How many of a kind stand before a position is the index of the vector of that kind.\<close>

fun kind_count :: "RoutingParams \<Rightarrow> arg_type \<Rightarrow> nat" where
  "kind_count ps A_int64 = length (intParams ps)"
| "kind_count ps A_uint64 = length (uintParams ps)"
| "kind_count ps A_double = length (doubleParams ps)"
| "kind_count ps A_string = length (stringParams ps)"

lemma params_get_kept:
  "params_get ps (t, i) = Some a \<Longrightarrow> params_get (push_arg v ps) (t, i) = Some a"
  by (cases t; cases v) (auto simp: vector_at_def nth_append split: if_splits)

lemma params_get_fold: "params_get ps (t, i) = Some a \<Longrightarrow> params_get (fold push_arg vs ps) (t, i) = Some a"
  by (induction vs arbitrary: ps) (auto dest: params_get_kept)

lemma params_get_push: "params_get (push_arg v ps) (arg_kind v, kind_count ps (arg_kind v)) = Some v"
  by (cases v) (simp_all add: vector_at_def)

lemma callPairs_values:
  "map (params_get (fold push_arg vs ps))
      (callPairs (length (intParams ps)) (length (uintParams ps)) (length (doubleParams ps))
         (length (stringParams ps)) (map arg_kind vs) acc)
    = map (params_get (fold push_arg vs ps)) acc @ map Some vs"
proof (induction vs arbitrary: ps acc)
  case (Cons v vs)
  have "params_get (fold push_arg vs (push_arg v ps)) (arg_kind v, kind_count ps (arg_kind v)) = Some v"
    using params_get_fold params_get_push by blast
  moreover have "callPairs (length (intParams ps)) (length (uintParams ps)) (length (doubleParams ps))
      (length (stringParams ps)) (map arg_kind (v # vs)) acc
    = callPairs (length (intParams (push_arg v ps))) (length (uintParams (push_arg v ps)))
        (length (doubleParams (push_arg v ps))) (length (stringParams (push_arg v ps)))
        (map arg_kind vs) (acc @ [(arg_kind v, kind_count ps (arg_kind v))])"
    by (cases v) simp_all
  ultimately show ?case
    using Cons.IH [of "push_arg v ps"] by simp
qed simp

lemma call_args_values:
  "call_args (map arg_kind vs) (fold push_arg vs emptyParams) = map Some vs"
  using callPairs_values [of vs emptyParams "[]"] by (simp add: call_args_def emptyParams_def)

lemma Arguments_packed:
  "list_all digit6 cs \<Longrightarrow> Arguments (packed 6 cs) = Some (map (\<lambda>c. the (SingleTagToType c)) cs)"
proof (induction cs)
  case Nil
  show ?case by (subst Arguments.simps) simp
next
  case (Cons c cs)
  then have c: "0 < c" "c < 6"
    by (simp_all add: digit6_def)
  have "\<exists>t. SingleTagToType c = Some t"
    using c by auto
  with Cons c show ?case
    by (subst Arguments.simps) auto
qed

lemma url_tag_digits: "list_all digit6 (map (\<lambda>p. toUnderlying (paramCode p)) ps)"
proof -
  have "paramCode p \<noteq> Unspecified" for p
    by (cases p) simp_all
  then show ?thesis
    by (auto simp: list_all_iff intro: typeCode_digit6)
qed

section \<open>Properties\<close>



text \<open>
  C4: the arguments of a tagged rule are those of its URL: the type list computed from the tag is
  the list of the URL's parameter types, and when the pattern matches a request, the dispatch
  hands the handler every value the pattern reads, in the order of the URL, and reads no vector
  past its end.
\<close>

theorem handler_arguments_in_order:
  assumes "tokenise url = Some toks" "brackets_ok toks" "length (params_of toks) \<le> 24"
    and "tok_run strtod toks request emptyParams = Some ps"
  shows "\<exists>types values. Arguments (unat (getParameterTag url)) = Some types
    \<and> types = map param_arg (params_of toks)
    \<and> tok_values strtod toks request = Some values \<and> call_args types ps = map Some values"
proof -
  obtain vs where vs: "tok_values strtod toks request = Some vs" "ps = fold push_arg vs emptyParams"
    using assms(4) by (auto simp: tok_run_values)
  have types: "Arguments (unat (getParameterTag url)) = Some (map param_arg (params_of toks))"
    unfolding getParameterTag_packed [OF assms(1-3)] url_tag_value_def Arguments_packed [OF url_tag_digits]
    by (simp add: param_arg_def)
  have "call_args (map param_arg (params_of toks)) ps = map Some vs"
    using call_args_values [of vs] tok_values_kind [OF vs(1)] vs(2) by simp
  with types vs(1) show ?thesis by blast
qed

lemma handler_arguments_in_order_witness:
  "\<exists>types values. Arguments (unat (getParameterTag ''/<str>/<int>'')) = Some types
    \<and> types = map param_arg (params_of [Lit CHR ''/'', Par PSTRING, Lit CHR ''/'', Par PINT])
    \<and> tok_values no_double [Lit CHR ''/'', Par PSTRING, Lit CHR ''/'', Par PINT] ''/x/42'' = Some values
    \<and> call_args types (emptyParams\<lparr>intParams := [42], stringParams := [''x'']\<rparr>) = map Some values"
proof (rule handler_arguments_in_order)
  show "tok_run no_double [Lit CHR ''/'', Par PSTRING, Lit CHR ''/'', Par PINT] ''/x/42'' emptyParams
      = Some (emptyParams\<lparr>intParams := [42], stringParams := [''x'']\<rparr>)"
    by code_simp
qed (simp_all add: matchTag_def paramTraits_def)

end
