(* ===== verification/Router.thy ===== *)
theory Router
  imports Response ParamTags
begin

text \<open>
  The rules and the router of \<open>http/routing.hpp\<close>: the per-rule method bits, the tables per verb with
  their trie, registration (\<open>validate\<close>), the search over all verbs that builds the Allow header, and
  the request entry points \<open>handle\<close> and \<open>handleUpgrade\<close>.

  A pointer to a rule is its index in \<open>allRules\<close>; slot 0 of every table is the null pointer. The
  handler of a rule is not part of the model: an entry point returns the response it left and the
  call of a handler it makes, if any. Exceptions are \<open>Inl\<close>, \<open>None\<close> is a call that does not return.
  The lemmas reduce the nine tables and tries to a specification over the list of registered rules.
\<close>

section \<open>Rules\<close>

record rule =
  rule_url :: string
  methodsBitfield :: u64
  nameStr :: string
  hasHandler :: bool

definition new_rule :: "string \<Rightarrow> rule" where
  "new_rule thisRule =
     \<lparr>rule_url = thisRule, methodsBitfield = push_bit (verbIndex Get) 1, nameStr = [], hasHandler = False\<rparr>"

definition rule_name :: "string \<Rightarrow> rule \<Rightarrow> rule" where
  "rule_name name r = r\<lparr>nameStr := name\<rparr>"

text \<open>\<open>methods(v)\<close> assigns; \<open>methods(v, vs...)\<close> first applies the rest, then adds \<open>v\<close>.\<close>

fun rule_methods :: "boost_verb \<Rightarrow> boost_verb list \<Rightarrow> rule \<Rightarrow> rule" where
  "rule_methods m [] r =
     (case httpVerbFromBoost m of
        Some verb \<Rightarrow> r\<lparr>methodsBitfield := push_bit (verbIndex verb) 1\<rparr>
      | None \<Rightarrow> r)"
| "rule_methods m (m' # ms) r =
     (let r1 = rule_methods m' ms r
      in case httpVerbFromBoost m of
           Some verb \<Rightarrow> r1\<lparr>methodsBitfield := methodsBitfield r1 OR push_bit (verbIndex verb) 1\<rparr>
         | None \<Rightarrow> r1)"

definition rule_notFound :: "rule \<Rightarrow> rule" where
  "rule_notFound r = r\<lparr>methodsBitfield := push_bit notFoundIndex 1\<rparr>"

definition rule_methodNotAllowed :: "rule \<Rightarrow> rule" where
  "rule_methodNotAllowed r = r\<lparr>methodsBitfield := push_bit methodNotAllowedIndex 1\<rparr>"

definition rule_setHandler :: "rule \<Rightarrow> rule" where
  "rule_setHandler r = r\<lparr>hasHandler := True\<rparr>"

datatype router_error = NoHandler string | RouteExists string | TrieCorrupted

definition rule_validate :: "rule \<Rightarrow> router_error + unit" where
  "rule_validate r =
     (if \<not> hasHandler r
      then Inl (NoHandler (nameStr r @ (if nameStr r \<noteq> [] then '': '' else '''') @ ''no handler for url '' @ rule_url r))
      else Inr ())"

text \<open>
  Setting the function of a \<open>DynamicRule\<close>: \<open>wrap\<close> throws when the argument types do not fit the
  URL's tag.
\<close>

definition dynamic_setHandler :: "cxx_type list \<Rightarrow> rule \<Rightarrow> string + rule" where
  "dynamic_setHandler args r =
     (if \<not> isParameterTagCompatible (unat (getParameterTag (rule_url r))) (computeParameterTagFromArgsList args)
      then Inl (''routeDynamic: Handler type is mismatched with URL parameters: '' @ rule_url r)
      else Inr (rule_setHandler r))"

section \<open>Tables\<close>

record per_method =
  pm_rules :: "nat option list"
  pm_trie :: trie

definition per_method_init :: per_method where
  "per_method_init = \<lparr>pm_rules = [None], pm_trie = trie_init\<rparr>"

record router =
  perMethods :: "per_method list"
  allRules :: "rule list"

definition router_init :: router where
  "router_init = \<lparr>perMethods = replicate (methodNotAllowedIndex + 1) per_method_init, allRules = []\<rparr>"

definition newRule :: "rule \<Rightarrow> router \<Rightarrow> router" where
  "newRule r rt = rt\<lparr>allRules := allRules rt @ [r]\<rparr>"

definition add_or_throw :: "trie \<Rightarrow> string \<Rightarrow> nat \<Rightarrow> (router_error + trie) option" where
  "add_or_throw t url k =
     (case add t url k of
        None \<Rightarrow> None
      | Some (Inl (HandlerAlreadyExists u)) \<Rightarrow> Some (Inl (RouteExists u))
      | Some (Inr t') \<Rightarrow> Some (Inr t'))"

text \<open>One iteration of the loop of \<open>internalAddRuleObject\<close>, for a method whose bit is set.\<close>

definition addToMethod :: "string \<Rightarrow> nat \<Rightarrow> per_method \<Rightarrow> (router_error + per_method) option" where
  "addToMethod rule ruleObject pm =
     (let rules = pm_rules pm @ [Some ruleObject]; k = length rules - 1
      in case add_or_throw (pm_trie pm) rule k of
           Some (Inr t1) \<Rightarrow>
             if length rule > 2 \<and> last rule = CHR ''/'' then
               (case add_or_throw t1 (butlast rule) k of
                  Some (Inr t2) \<Rightarrow> Some (Inr \<lparr>pm_rules = rules, pm_trie = t2\<rparr>)
                | Some (Inl e) \<Rightarrow> Some (Inl e)
                | None \<Rightarrow> None)
             else Some (Inr \<lparr>pm_rules = rules, pm_trie = t1\<rparr>)
         | Some (Inl e) \<Rightarrow> Some (Inl e)
         | None \<Rightarrow> None)"

fun addMethods ::
    "string \<Rightarrow> u64 \<Rightarrow> nat \<Rightarrow> nat list \<Rightarrow> per_method list \<Rightarrow> (router_error + per_method list) option" where
  "addMethods rule bits ruleObject [] pms = Some (Inr pms)"
| "addMethods rule bits ruleObject (m # ms) pms =
     (if bit bits m then
        (case addToMethod rule ruleObject (pms ! m) of
           Some (Inr pm) \<Rightarrow> addMethods rule bits ruleObject ms (pms[m := pm])
         | Some (Inl e) \<Rightarrow> Some (Inl e)
         | None \<Rightarrow> None)
      else addMethods rule bits ruleObject ms pms)"

definition internalAddRuleObject ::
    "string \<Rightarrow> u64 \<Rightarrow> nat \<Rightarrow> per_method list \<Rightarrow> (router_error + per_method list) option" where
  "internalAddRuleObject rule bits ruleObject pms =
     addMethods rule bits ruleObject [0..<methodNotAllowedIndex + 1] pms"

text \<open>
  \<open>validate\<close>: every rule is validated and added, then every trie is merged. No code sets
  \<open>ruleToUpgrade\<close>, so \<open>upgrade()\<close> is always null.
\<close>

fun addRules :: "(nat \<times> rule) list \<Rightarrow> per_method list \<Rightarrow> (router_error + per_method list) option" where
  "addRules [] pms = Some (Inr pms)"
| "addRules ((i, r) # rs) pms =
     (case rule_validate r of
        Inl e \<Rightarrow> Some (Inl e)
      | Inr u \<Rightarrow>
          (case internalAddRuleObject (rule_url r) (methodsBitfield r) i pms of
             Some (Inr pms') \<Rightarrow> addRules rs pms'
           | Some (Inl e) \<Rightarrow> Some (Inl e)
           | None \<Rightarrow> None))"

fun validateTries :: "per_method list \<Rightarrow> per_method list option" where
  "validateTries [] = Some []"
| "validateTries (pm # pms) =
     (case validate (pm_trie pm) of
        None \<Rightarrow> None
      | Some t \<Rightarrow> map_option (Cons (pm\<lparr>pm_trie := t\<rparr>)) (validateTries pms))"

definition router_validate :: "router \<Rightarrow> (router_error + router) option" where
  "router_validate rt =
     (case addRules (zip [0..<length (allRules rt)] (allRules rt)) (perMethods rt) of
        Some (Inr pms) \<Rightarrow> map_option (\<lambda>pms'. Inr (rt\<lparr>perMethods := pms'\<rparr>)) (validateTries pms)
      | Some (Inl e) \<Rightarrow> Some (Inl e)
      | None \<Rightarrow> None)"

section \<open>Search\<close>

type_synonym find_route_result = "(nat \<times> RoutingParams) option"

definition findRouteByIndex ::
    "(string \<Rightarrow> dbl parsed) \<Rightarrow> router \<Rightarrow> string \<Rightarrow> nat \<Rightarrow> (router_error + find_route_result) option" where
  "findRouteByIndex strtod rt url index =
     (if index \<ge> length (perMethods rt) then Some (Inr None)
      else
        let perMethod = perMethods rt ! index
        in case find_route strtod (pm_trie perMethod) url of
             None \<Rightarrow> None
           | Some (n, ps) \<Rightarrow>
               if n \<ge> length (pm_rules perMethod) then Some (Inl TrieCorrupted)
               else if n \<noteq> 0 then Some (Inr (map_option (\<lambda>r. (r, ps)) (pm_rules perMethod ! n)))
               else Some (Inr None))"

text \<open>The loop of \<open>findRoute\<close> over the verbs; the state is the Allow header and the route so far.\<close>

fun findVerbs ::
    "(string \<Rightarrow> dbl parsed) \<Rightarrow> router \<Rightarrow> string \<Rightarrow> nat \<Rightarrow> nat list \<Rightarrow> string \<Rightarrow> find_route_result
     \<Rightarrow> (router_error + string \<times> find_route_result) option" where
  "findVerbs strtod rt url reqMethodIndex [] allow rte = Some (Inr (allow, rte))"
| "findVerbs strtod rt url reqMethodIndex (i # is) allow rte =
     (case findRouteByIndex strtod rt url i of
        None \<Rightarrow> None
      | Some (Inl e) \<Rightarrow> Some (Inl e)
      | Some (Inr None) \<Rightarrow> findVerbs strtod rt url reqMethodIndex is allow rte
      | Some (Inr (Some found)) \<Rightarrow>
          findVerbs strtod rt url reqMethodIndex is
            ((if allow \<noteq> [] then allow @ '', '' else allow) @ httpVerbToString (verbOfIndex i))
            (if i = reqMethodIndex then Some found else rte))"

definition findRoute ::
    "(string \<Rightarrow> dbl parsed) \<Rightarrow> router \<Rightarrow> 's request \<Rightarrow> (router_error + string \<times> find_route_result) option" where
  "findRoute strtod rt req =
     (case httpVerbFromBoost (rq_method req) of
        None \<Rightarrow> Some (Inr ([], None))
      | Some verb \<Rightarrow>
          findVerbs strtod rt (urlBase req) (verbIndex verb) [0..<maxVerbIndex + 1] [] None)"

section \<open>Entry points\<close>

text \<open>The response afterwards, and the rule called with its parameters.\<close>

type_synonym handled = "response \<times> (nat \<times> RoutingParams) option"

text \<open>The end of \<open>handle\<close>, once the route and the Allow header are known.\<close>

definition dispatch :: "'s request \<Rightarrow> response \<Rightarrow> bool \<Rightarrow> string \<Rightarrow> find_route_result \<Rightarrow> handled" where
  "dispatch req res bypassAuth allow rte =
     (let res1 = (if allow \<noteq> [] then addHeader ''Allow'' allow res else res)
      in case rte of
           None \<Rightarrow> (set_result (if allow = [] then 404 else 405) res1, None)
         | Some (rule, params) \<Rightarrow>
             if rq_session req = None \<or> bypassAuth then (res1, Some (rule, params)) else (res1, None))"

definition handle ::
    "(string \<Rightarrow> dbl parsed) \<Rightarrow> router \<Rightarrow> 's request \<Rightarrow> response \<Rightarrow> bool \<Rightarrow> (router_error + handled) option" where
  "handle strtod rt req res bypassAuth =
     (case httpVerbFromBoost (rq_method req) of
        None \<Rightarrow> Some (Inr (set_result 404 res, None))
      | Some verb \<Rightarrow>
          if verbIndex verb \<ge> length (perMethods rt) then Some (Inr (set_result 404 res, None))
          else
            (case findRoute strtod rt req of
               None \<Rightarrow> None
             | Some (Inl e) \<Rightarrow> Some (Inl e)
             | Some (Inr (allow, Some found)) \<Rightarrow> Some (Inr (dispatch req res bypassAuth allow (Some found)))
             | Some (Inr (allow, None)) \<Rightarrow>
                 (case findRouteByIndex strtod rt (urlBase req)
                         (if allow = [] then notFoundIndex else methodNotAllowedIndex) of
                    None \<Rightarrow> None
                  | Some (Inl e) \<Rightarrow> Some (Inl e)
                  | Some (Inr rte) \<Rightarrow> Some (Inr (dispatch req res bypassAuth allow rte)))))"

text \<open>\<open>handleUpgrade\<close>: every rule's own \<open>handleUpgrade\<close> is that of \<open>BaseRule\<close>, which answers 404.\<close>

definition rule_handleUpgrade :: "response \<Rightarrow> response" where
  "rule_handleUpgrade res = set_result 404 res"

definition handleUpgrade ::
    "(string \<Rightarrow> dbl parsed) \<Rightarrow> router \<Rightarrow> 's request \<Rightarrow> response \<Rightarrow> (router_error + response) option" where
  "handleUpgrade strtod rt req res =
     (case httpVerbFromBoost (rq_method req) of
        None \<Rightarrow> Some (Inr (set_result 404 res))
      | Some verb \<Rightarrow>
          if verbIndex verb \<ge> length (perMethods rt) then Some (Inr (set_result 404 res))
          else
            let pm = perMethods rt ! verbIndex verb
            in (case find_route strtod (pm_trie pm) (urlBase req) of
                 None \<Rightarrow> None
               | Some (n, ps) \<Rightarrow>
                   if n = 0 then Some (Inr (set_result 404 res))
                   else if n \<ge> length (pm_rules pm) then Some (Inl TrieCorrupted)
                   else (case pm_rules pm ! n of
                           None \<Rightarrow> None
                         | Some i \<Rightarrow>
                             if \<not> bit (methodsBitfield (allRules rt ! i)) (verbIndex verb)
                             then Some (Inr (set_result 404 res))
                             else Some (Inr (rule_handleUpgrade res)))))"

text \<open>
  \<open>findRouteIndexes\<close> with the position in the URL; a child is a larger node, so the number of
  nodes bounds the depth. \<open>getRoutes\<close> collects the URLs of the rules found in every table.
\<close>

fun routeIndexes_each :: "(nat \<Rightarrow> nat \<Rightarrow> nat list) \<Rightarrow> trie \<Rightarrow> string \<Rightarrow> nat \<Rightarrow> (string \<times> nat) list \<Rightarrow> nat list" where
  "routeIndexes_each rec t reqUrl pos [] = []"
| "routeIndexes_each rec t reqUrl pos ((fragment, child) # kvs) =
     (if pos \<ge> length reqUrl then
        (if ruleIndex (t ! child) \<noteq> 0 \<and> fragment \<noteq> ''/'' then [ruleIndex (t ! child)] else [])
        @ rec child (pos + length fragment)
      else if take (length fragment) (drop pos reqUrl) = fragment then rec child (pos + length fragment)
      else [])
     @ routeIndexes_each rec t reqUrl pos kvs"

primrec findRouteIndexes :: "nat \<Rightarrow> trie \<Rightarrow> string \<Rightarrow> nat \<Rightarrow> nat \<Rightarrow> nat list" where
  "findRouteIndexes 0 t reqUrl n pos = []"
| "findRouteIndexes (Suc fuel) t reqUrl n pos =
     routeIndexes_each (findRouteIndexes fuel t reqUrl) t reqUrl pos (children (t ! n))"

definition getRoutes :: "router \<Rightarrow> string \<Rightarrow> string option list" where
  "getRoutes rt parent =
     concat (map (\<lambda>pm. map (\<lambda>k. map_option (\<lambda>i. rule_url (allRules rt ! i)) (pm_rules pm ! k))
                   (findRouteIndexes (length (pm_trie pm)) (pm_trie pm) parent 0 0)) (perMethods rt))"

section \<open>The specification: a list of rules\<close>

text \<open>The URLs a rule answers to, and when it serves a request.\<close>

definition rule_urls :: "string \<Rightarrow> string list" where
  "rule_urls u = u # (if length u > 2 \<and> last u = CHR ''/'' then [butlast u] else [])"

definition serves :: "(string \<Rightarrow> dbl parsed) \<Rightarrow> rule \<Rightarrow> string \<Rightarrow> RoutingParams \<Rightarrow> bool" where
  "serves strtod r url ps \<longleftrightarrow>
     (\<exists>u \<in> set (rule_urls (rule_url r)). \<exists>toks. tokenise u = Some toks
        \<and> tok_run strtod toks url emptyParams = Some ps)"

definition matching :: "(string \<Rightarrow> dbl parsed) \<Rightarrow> rule list \<Rightarrow> nat \<Rightarrow> string \<Rightarrow> nat set" where
  "matching strtod L m url =
     {i. i < length L \<and> bit (methodsBitfield (L ! i)) m \<and> (\<exists>ps. serves strtod (L ! i) url ps)}"

text \<open>The answer of a table: the first registered rule that serves the URL for this method.\<close>

definition first_match ::
    "(string \<Rightarrow> dbl parsed) \<Rightarrow> rule list \<Rightarrow> nat \<Rightarrow> string \<Rightarrow> find_route_result \<Rightarrow> bool" where
  "first_match strtod L m url res \<longleftrightarrow>
     (case res of
        None \<Rightarrow> matching strtod L m url = {}
      | Some (i, ps) \<Rightarrow> i \<in> matching strtod L m url \<and> (\<forall>j \<in> matching strtod L m url. i \<le> j)
          \<and> serves strtod (L ! i) url ps)"

definition method_rules :: "rule list \<Rightarrow> nat \<Rightarrow> nat \<Rightarrow> nat list" where
  "method_rules L m n = filter (\<lambda>i. bit (methodsBitfield (L ! i)) m) [0..<n]"

definition rule_pats :: "rule list \<Rightarrow> nat \<Rightarrow> nat \<Rightarrow> pattern list" where
  "rule_pats L i k = map (\<lambda>u. (the (tokenise u), k)) (rule_urls (rule_url (L ! i)))"

definition table_pats :: "rule list \<Rightarrow> nat list \<Rightarrow> pattern list" where
  "table_pats L is = concat (map (\<lambda>k. rule_pats L (is ! k) (Suc k)) [0..<length is])"

lemma table_pats_snoc: "table_pats L (is @ [i]) = table_pats L is @ rule_pats L i (Suc (length is))"
proof -
  have "map (\<lambda>k. rule_pats L ((is @ [i]) ! k) (Suc k)) [0..<length is]
      = map (\<lambda>k. rule_pats L (is ! k) (Suc k)) [0..<length is]"
    by (rule map_cong) (simp_all add: nth_append)
  then have "concat (map (\<lambda>k. rule_pats L ((is @ [i]) ! k) (Suc k)) [0..<length is])
      = table_pats L is"
    by (simp only: table_pats_def)
  then show ?thesis
    by (simp add: table_pats_def [of L "is @ [i]"])
qed

text \<open>
  The rules that can be registered: every URL well formed, every rule with a handler, and no two
  rules of one method with the same pattern.
\<close>

definition rules_ok :: "rule list \<Rightarrow> bool" where
  "rules_ok L \<longleftrightarrow>
     (\<forall>r \<in> set L. hasHandler r \<and> (\<forall>u \<in> set (rule_urls (rule_url r)). tokenise u \<noteq> None))
     \<and> (\<forall>m \<le> methodNotAllowedIndex. distinct (map fst (table_pats L (method_rules L m (length L)))))"

section \<open>Registration fills the tables\<close>

definition table_ok :: "rule list \<Rightarrow> nat list \<Rightarrow> per_method \<Rightarrow> bool" where
  "table_ok L is pm \<longleftrightarrow> raw_trie (pm_trie pm) \<and> pm_rules pm = None # map Some is
     \<and> trie_patterns (pm_trie pm) = set (table_pats L is)"

lemma add_or_throw_new:
  assumes "raw_trie t" "tokenise u = Some toks" "k \<noteq> 0" "\<forall>q. (toks, q) \<notin> trie_patterns t"
  shows "\<exists>t'. add_or_throw t u k = Some (Inr t') \<and> raw_trie t'
    \<and> trie_patterns t' = insert (toks, k) (trie_patterns t)"
  using trie_table.insert_new [OF assms] by (auto simp: add_or_throw_def)

lemma addToMethod_ok:
  assumes "table_ok L is pm" and urls: "\<forall>u \<in> set (rule_urls (rule_url (L ! i))). tokenise u \<noteq> None"
    and dist: "distinct (map fst (table_pats L (is @ [i])))"
  shows "\<exists>pm'. addToMethod (rule_url (L ! i)) i pm = Some (Inr pm') \<and> table_ok L (is @ [i]) pm'"
proof -
  let ?u = "rule_url (L ! i)" and ?k = "Suc (length is)"
  obtain toks where toks: "tokenise ?u = Some toks"
    using urls by (auto simp: rule_urls_def)
  have t: "raw_trie (pm_trie pm)" "pm_rules pm = None # map Some is"
    "trie_patterns (pm_trie pm) = set (table_pats L is)"
    using assms(1) by (simp_all add: table_ok_def)
  have k: "length (pm_rules pm @ [Some i]) - 1 = ?k"
    using t(2) by simp
  have new: "\<forall>q. (x, q) \<notin> set (table_pats L is)" if "x \<in> fst ` set (rule_pats L i ?k)" for x
    using dist that unfolding table_pats_snoc by force
  have "toks \<in> fst ` set (rule_pats L i ?k)"
    using toks by (auto simp: rule_pats_def rule_urls_def)
  then obtain t1 where t1: "add_or_throw (pm_trie pm) ?u ?k = Some (Inr t1)" "raw_trie t1"
    "trie_patterns t1 = insert (toks, ?k) (set (table_pats L is))"
    using add_or_throw_new [OF t(1) toks, of ?k] new t(3) by auto
  show ?thesis
  proof (cases "length ?u > 2 \<and> last ?u = CHR ''/''")
    case False
    then have "set (table_pats L (is @ [i])) = insert (toks, ?k) (set (table_pats L is))"
      using toks by (auto simp: table_pats_snoc rule_pats_def rule_urls_def)
    with False t1 t k show ?thesis
      by (auto simp: addToMethod_def Let_def table_ok_def)
  next
    case True
    obtain toks2 where toks2: "tokenise (butlast ?u) = Some toks2"
      using urls True by (auto simp: rule_urls_def)
    have pats: "rule_pats L i ?k = [(toks, ?k), (toks2, ?k)]"
      using True toks toks2 by (simp add: rule_pats_def rule_urls_def)
    then have "toks \<noteq> toks2"
      using dist by (simp add: table_pats_snoc)
    moreover have "\<forall>q. (toks2, q) \<notin> set (table_pats L is)"
      using new pats by simp
    ultimately obtain t2 where t2: "add_or_throw t1 (butlast ?u) ?k = Some (Inr t2)" "raw_trie t2"
      "trie_patterns t2 = insert (toks2, ?k) (trie_patterns t1)"
      using add_or_throw_new [OF t1(2) toks2, of ?k] t1(3) by auto
    have "set (table_pats L (is @ [i])) = insert (toks2, ?k) (insert (toks, ?k) (set (table_pats L is)))"
      using pats by (auto simp: table_pats_snoc)
    with True t1 t2 t k show ?thesis
      by (auto simp: addToMethod_def Let_def table_ok_def)
  qed
qed

lemma addMethods_ok:
  "distinct ms \<Longrightarrow> \<forall>m \<in> set ms. m < length pms \<Longrightarrow>
   \<forall>m \<in> set ms. if bit bits m then \<exists>pm. addToMethod u i (pms ! m) = Some (Inr pm) \<and> P m pm else P m (pms ! m)
   \<Longrightarrow> \<exists>pms'. addMethods u bits i ms pms = Some (Inr pms') \<and> length pms' = length pms
     \<and> (\<forall>m \<in> set ms. P m (pms' ! m)) \<and> (\<forall>m. m \<notin> set ms \<longrightarrow> pms' ! m = pms ! m)"
proof (induction ms arbitrary: pms)
  case (Cons m ms)
  show ?case
  proof (cases "bit bits m")
    case True
    then obtain pm where pm: "addToMethod u i (pms ! m) = Some (Inr pm)" "P m pm"
      using Cons.prems(3) by auto
    have "\<forall>m' \<in> set ms. pms[m := pm] ! m' = pms ! m'"
      using Cons.prems(1) by (metis distinct.simps(2) nth_list_update_neq)
    then have "\<exists>pms'. addMethods u bits i ms (pms[m := pm]) = Some (Inr pms') \<and> length pms' = length (pms[m := pm])
     \<and> (\<forall>m \<in> set ms. P m (pms' ! m)) \<and> (\<forall>x. x \<notin> set ms \<longrightarrow> pms' ! x = pms[m := pm] ! x)"
      using Cons.prems by (intro Cons.IH) auto
    with True pm Cons.prems(1,2) show ?thesis by auto
  next
    case False
    then have "P m (pms ! m)"
      using Cons.prems(3) by simp
    moreover have "\<forall>m \<in> set ms. if bit bits m
        then \<exists>pm. addToMethod u i (pms ! m) = Some (Inr pm) \<and> P m pm else P m (pms ! m)"
      using Cons.prems(3) by simp
    then obtain pms' where "addMethods u bits i ms pms = Some (Inr pms')" "length pms' = length pms"
      "\<forall>m \<in> set ms. P m (pms' ! m)" "\<forall>m. m \<notin> set ms \<longrightarrow> pms' ! m = pms ! m"
      using Cons.IH [of pms] Cons.prems(1,2) by auto
    ultimately show ?thesis
      using False Cons.prems(1) by auto
  qed
qed simp

definition tables_ok :: "rule list \<Rightarrow> nat \<Rightarrow> per_method list \<Rightarrow> bool" where
  "tables_ok L n pms \<longleftrightarrow> length pms = methodNotAllowedIndex + 1
     \<and> (\<forall>m \<le> methodNotAllowedIndex. table_ok L (method_rules L m n) (pms ! m))"

lemma method_rules_Suc:
  "method_rules L m (Suc n) = method_rules L m n @ (if bit (methodsBitfield (L ! n)) m then [n] else [])"
  by (simp add: method_rules_def)

lemma table_pats_prefix:
  "n \<le> n' \<Longrightarrow> \<exists>ps. table_pats L (method_rules L m n') = table_pats L (method_rules L m n) @ ps"
proof (induction n' rule: dec_induct)
  case (step k)
  then show ?case
    by (cases "bit (methodsBitfield (L ! k)) m") (auto simp: method_rules_Suc table_pats_snoc)
qed simp

lemma addRules_ok:
  assumes "rules_ok L"
  shows "n \<le> length L \<Longrightarrow> tables_ok L n pms \<Longrightarrow>
    \<exists>pms'. addRules (map (\<lambda>i. (i, L ! i)) [n..<length L]) pms = Some (Inr pms') \<and> tables_ok L (length L) pms'"
proof (induction "length L - n" arbitrary: n pms)
  case 0
  then show ?case by simp
next
  case (Suc d)
  then have n: "n < length L"
    by linarith
  let ?P = "\<lambda>m pm. table_ok L (method_rules L m (Suc n)) pm"
  have urls: "\<forall>u \<in> set (rule_urls (rule_url (L ! n))). tokenise u \<noteq> None" and handler: "hasHandler (L ! n)"
    using assms nth_mem [OF n] by (auto simp: rules_ok_def)
  have "if bit (methodsBitfield (L ! n)) m
      then \<exists>pm. addToMethod (rule_url (L ! n)) n (pms ! m) = Some (Inr pm) \<and> ?P m pm else ?P m (pms ! m)"
    if "m \<in> set [0..<methodNotAllowedIndex + 1]" for m
  proof -
    have m: "m \<le> methodNotAllowedIndex" "table_ok L (method_rules L m n) (pms ! m)"
      using that Suc.prems(2) by (auto simp: tables_ok_def)
    have "distinct (map fst (table_pats L (method_rules L m (length L))))"
      using assms m(1) by (simp add: rules_ok_def)
    then have "distinct (map fst (table_pats L (method_rules L m (Suc n))))"
      using table_pats_prefix [of "Suc n" "length L" L m] n by auto
    then show ?thesis
      using addToMethod_ok [OF m(2) urls] m(2) by (auto simp: method_rules_Suc)
  qed
  then have "\<exists>pms'. addMethods (rule_url (L ! n)) (methodsBitfield (L ! n)) n [0..<methodNotAllowedIndex + 1] pms
      = Some (Inr pms') \<and> length pms' = length pms \<and> (\<forall>m \<in> set [0..<methodNotAllowedIndex + 1]. ?P m (pms' ! m))
      \<and> (\<forall>m. m \<notin> set [0..<methodNotAllowedIndex + 1] \<longrightarrow> pms' ! m = pms ! m)"
    using Suc.prems(2) by (intro addMethods_ok) (auto simp: tables_ok_def)
  then obtain pms1 where pms1: "internalAddRuleObject (rule_url (L ! n)) (methodsBitfield (L ! n)) n pms = Some (Inr pms1)"
    "tables_ok L (Suc n) pms1"
    using Suc.prems(2) by (auto simp: internalAddRuleObject_def tables_ok_def less_Suc_eq_le simp del: upt_Suc)
  from Suc.hyps(1) [OF _ _ pms1(2)] Suc.hyps(2) n obtain pms' where
    "addRules (map (\<lambda>i. (i, L ! i)) [Suc n..<length L]) pms1 = Some (Inr pms')" "tables_ok L (length L) pms'"
    by fastforce
  with pms1(1) n handler show ?case
    by (simp add: upt_conv_Cons rule_validate_def)
qed

definition sealed_ok :: "rule list \<Rightarrow> nat list \<Rightarrow> per_method \<Rightarrow> bool" where
  "sealed_ok L is pm \<longleftrightarrow> opt_trie (pm_trie pm) \<and> pm_rules pm = None # map Some is
     \<and> trie_patterns (pm_trie pm) = set (table_pats L is)"

definition router_ok :: "router \<Rightarrow> bool" where
  "router_ok rt \<longleftrightarrow> length (perMethods rt) = methodNotAllowedIndex + 1
     \<and> (\<forall>m \<le> methodNotAllowedIndex.
          sealed_ok (allRules rt) (method_rules (allRules rt) m (length (allRules rt))) (perMethods rt ! m))
     \<and> (\<forall>r \<in> set (allRules rt). \<forall>u \<in> set (rule_urls (rule_url r)). tokenise u \<noteq> None)"

lemma validateTries_ok:
  "\<forall>m < length pms. table_ok L (f m) (pms ! m) \<Longrightarrow>
   \<exists>pms'. validateTries pms = Some pms' \<and> length pms' = length pms
     \<and> (\<forall>m < length pms. sealed_ok L (f m) (pms' ! m))"
proof (induction pms arbitrary: f)
  case (Cons pm pms)
  have "table_ok L (f 0) pm"
    using Cons.prems by force
  then obtain t where "validate (pm_trie pm) = Some t" "sealed_ok L (f 0) (pm\<lparr>pm_trie := t\<rparr>)"
    using trie_table.seal_ok [of "pm_trie pm"] by (auto simp: table_ok_def sealed_ok_def)
  moreover have "\<forall>m < length pms. table_ok L (f (Suc m)) (pms ! m)"
    using Cons.prems by force
  from Cons.IH [OF this] obtain pms' where "validateTries pms = Some pms'" "length pms' = length pms"
    "\<forall>m < length pms. sealed_ok L (f (Suc m)) (pms' ! m)"
    by blast
  ultimately show ?case
    by (auto simp: nth_Cons split: nat.split)
qed simp

lemma router_validate_ok:
  assumes "rules_ok L"
  shows "\<exists>rt. router_validate (router_init\<lparr>allRules := L\<rparr>) = Some (Inr rt) \<and> router_ok rt \<and> allRules rt = L"
proof -
  let ?f = "\<lambda>m. method_rules L m (length L)"
  have init: "tables_ok L 0 (perMethods router_init)"
    using trie_init_raw
    by (simp add: tables_ok_def router_init_def table_ok_def per_method_init_def method_rules_def
        table_pats_def del: replicate_Suc)
  have zip: "zip [0..<length L] L = map (\<lambda>i. (i, L ! i)) [0..<length L]"
    by (rule nth_equalityI) simp_all
  from addRules_ok [OF assms _ init] obtain pms where
    pms: "addRules (zip [0..<length L] L) (perMethods router_init) = Some (Inr pms)" "tables_ok L (length L) pms"
    unfolding zip by auto
  then have "\<forall>m < length pms. table_ok L (?f m) (pms ! m)" "length pms = methodNotAllowedIndex + 1"
    by (auto simp: tables_ok_def)
  with validateTries_ok [of pms L ?f] obtain pms' where "validateTries pms = Some pms'"
    "length pms' = methodNotAllowedIndex + 1" "\<forall>m < length pms. sealed_ok L (?f m) (pms' ! m)"
    by auto
  with pms(1) \<open>length pms = methodNotAllowedIndex + 1\<close> assms show ?thesis
    by (auto simp: router_validate_def router_ok_def rules_ok_def)
qed

section \<open>Search in the tables\<close>

lemma table_pats_mem:
  "(toks, k) \<in> set (table_pats L is) \<longleftrightarrow>
     (\<exists>j < length is. k = Suc j \<and> (\<exists>u \<in> set (rule_urls (rule_url (L ! (is ! j)))). toks = the (tokenise u)))"
  by (auto simp: table_pats_def rule_pats_def)

lemma findRouteByIndex_first:
  assumes "router_ok rt" "m \<le> methodNotAllowedIndex"
  shows "\<exists>res. findRouteByIndex strtod rt url m = Some (Inr res) \<and> first_match strtod (allRules rt) m url res"
proof -
  let ?L = "allRules rt" and ?pm = "perMethods rt ! m"
  define ids where "ids = method_rules ?L m (length ?L)"
  have pm: "opt_trie (pm_trie ?pm)" "pm_rules ?pm = None # map Some ids"
    "trie_patterns (pm_trie ?pm) = set (table_pats ?L ids)" "m < length (perMethods rt)"
    using assms by (auto simp: router_ok_def sealed_ok_def ids_def)
  have ids: "sorted ids" "set ids = {i. i < length ?L \<and> bit (methodsBitfield (?L ! i)) m}"
    by (auto simp: ids_def method_rules_def sorted_wrt_filter)
  let ?M = "pattern_matches strtod (set (table_pats ?L ids)) url"
  have match: "(k, ps) \<in> ?M \<longleftrightarrow> (\<exists>j < length ids. k = Suc j \<and> serves strtod (?L ! (ids ! j)) url ps)" for k ps
  proof -
    have key: "(\<exists>u \<in> set (rule_urls (rule_url (?L ! (ids ! j)))).
          tok_run strtod (the (tokenise u)) url emptyParams = Some ps)
        \<longleftrightarrow> serves strtod (?L ! (ids ! j)) url ps" if "j < length ids" for j
    proof -
      have "?L ! (ids ! j) \<in> set ?L"
        using ids(2) nth_mem [OF that] by auto
      then have "\<forall>u \<in> set (rule_urls (rule_url (?L ! (ids ! j)))). tokenise u \<noteq> None"
        using assms(1) unfolding router_ok_def by blast
      then show ?thesis
        unfolding serves_def by (intro bex_cong refl) auto
    qed
    have "(k, ps) \<in> ?M \<longleftrightarrow> (\<exists>j < length ids. k = Suc j \<and> (\<exists>u \<in> set (rule_urls (rule_url (?L ! (ids ! j)))).
          tok_run strtod (the (tokenise u)) url emptyParams = Some ps))"
      unfolding pattern_matches_def by (auto simp: table_pats_mem)
    with key show ?thesis
      by (simp cong: conj_cong)
  qed
  obtain n ps where found: "find_route strtod (pm_trie ?pm) url = Some (n, ps)" "best ?M (n, ps)"
    using trie_table.search_ok [OF pm(1), of strtod url] pm(3) by auto
  show ?thesis
  proof (cases n)
    case 0
    then have "?M = {}"
      using found(2) by (simp add: best_def)
    have "matching strtod ?L m url = {}"
    proof (rule ccontr)
      assume "matching strtod ?L m url \<noteq> {}"
      then obtain i ps where "i \<in> set ids" "serves strtod (?L ! i) url ps"
        using ids(2) by (auto simp: matching_def)
      then have "\<exists>k. (k, ps) \<in> ?M"
        unfolding match by (metis in_set_conv_nth)
      with \<open>?M = {}\<close> show False by blast
    qed
    with 0 found(1) pm(2,4) show ?thesis
      by (simp add: findRouteByIndex_def first_match_def)
  next
    case (Suc j)
    then have mem: "(Suc j, ps) \<in> ?M" and least: "\<forall>x \<in> ?M. Suc j \<le> fst x"
      using found(2) by (auto simp: best_def)
    then have j: "j < length ids" "serves strtod (?L ! (ids ! j)) url ps"
      unfolding match by auto
    have "ids ! j \<le> i" if "i \<in> matching strtod ?L m url" for i
    proof -
      have "i \<in> set ids" and "\<exists>ps'. serves strtod (?L ! i) url ps'"
        using that ids(2) by (auto simp: matching_def)
      then obtain j' ps' where "j' < length ids" "ids ! j' = i" "serves strtod (?L ! i) url ps'"
        unfolding in_set_conv_nth by blast
      moreover from this have "(Suc j', ps') \<in> ?M"
        unfolding match by blast
      with least have "j \<le> j'"
        by (metis Suc_le_mono fst_conv)
      ultimately show ?thesis
        using sorted_nth_mono [OF ids(1)] by blast
    qed
    moreover have "ids ! j \<in> matching strtod ?L m url"
      using j ids(2) nth_mem [OF j(1)] by (auto simp: matching_def)
    ultimately show ?thesis
      using Suc found(1) pm(2,4) j by (auto simp: findRouteByIndex_def first_match_def)
  qed
qed

section \<open>The Allow header\<close>

fun allow_header :: "HttpVerb list \<Rightarrow> string" where
  "allow_header [] = []"
| "allow_header (v # vs) = httpVerbToString v @ concat (map (\<lambda>v. '', '' @ httpVerbToString v) vs)"

lemma allow_header_snoc:
  "allow_header (vs @ [v]) = (if vs = [] then [] else allow_header vs @ '', '') @ httpVerbToString v"
  by (cases vs) simp_all

lemma httpVerbToString_nonempty: "v \<in> set allVerbs \<Longrightarrow> httpVerbToString v \<noteq> []"
  by (auto simp: allVerbs_def)

lemma allow_header_empty: "set vs \<subseteq> set allVerbs \<Longrightarrow> allow_header vs = [] \<longleftrightarrow> vs = []"
  using httpVerbToString_nonempty by (cases vs) auto

text \<open>The verbs, in the order of the enumeration, that a family of table answers serves.\<close>

definition served_verbs :: "(nat \<Rightarrow> find_route_result) \<Rightarrow> HttpVerb list" where
  "served_verbs f = filter (\<lambda>v. f (verbIndex v) \<noteq> None) allVerbs"

lemma findVerbs_result:
  assumes "\<forall>v \<in> set vs. findRouteByIndex strtod rt url (verbIndex v) = Some (Inr (f (verbIndex v)))"
    and "set pre \<subseteq> set allVerbs" "set vs \<subseteq> set allVerbs"
  shows "findVerbs strtod rt url q (map verbIndex vs) (allow_header pre) cur
    = Some (Inr (allow_header (pre @ filter (\<lambda>v. f (verbIndex v) \<noteq> None) vs),
        if \<exists>v \<in> set vs. verbIndex v = q \<and> f q \<noteq> None then f q else cur))"
  using assms
proof (induction vs arbitrary: pre cur)
  case (Cons v vs)
  show ?case
  proof (cases "f (verbIndex v)")
    case None
    with Cons show ?thesis by auto
  next
    case (Some found)
    obtain i ps where "found = (i, ps)"
      by fastforce
    moreover have "(if allow_header pre \<noteq> [] then allow_header pre @ '', '' else allow_header pre) @ httpVerbToString v
        = allow_header (pre @ [v])"
      using allow_header_empty [OF Cons.prems(2)] by (auto simp: allow_header_snoc)
    ultimately show ?thesis
      using Some Cons.prems Cons.IH [of "pre @ [v]" "if verbIndex v = q then Some found else cur"]
      by auto
  qed
qed simp

lemma findRoute_result:
  assumes "router_ok rt" "httpVerbFromBoost (rq_method req) = Some verb"
    and f: "\<forall>m \<le> methodNotAllowedIndex. findRouteByIndex strtod rt (urlBase req) m = Some (Inr (f m))"
  shows "findRoute strtod rt req = Some (Inr (allow_header (served_verbs f), f (verbIndex verb)))"
proof -
  have all: "\<forall>v \<in> set allVerbs. findRouteByIndex strtod rt (urlBase req) (verbIndex v) = Some (Inr (f (verbIndex v)))"
    using f by (auto simp: allVerbs_def verb_consts)
  have "verb \<in> set allVerbs"
    using assms(2) by (cases "rq_method req") (auto simp: allVerbs_def)
  then have "(if \<exists>v \<in> set allVerbs. verbIndex v = verbIndex verb \<and> f (verbIndex verb) \<noteq> None
      then f (verbIndex verb) else None) = f (verbIndex verb)"
    by (cases "f (verbIndex verb)") auto
  with findVerbs_result [OF all, of "[]" "verbIndex verb" None] assms(2) show ?thesis
    by (simp add: findRoute_def upt_Suc_maxVerbIndex served_verbs_def del: upt_Suc)
qed

section \<open>Method bits\<close>

lemma bit_push_one: "k < 64 \<Longrightarrow> bit (2 ^ k :: u64) m \<longleftrightarrow> m = k"
  by (auto simp: bit_simps)

lemma verbIndex_lt_64: "verbIndex v < 64"
  by (cases v) simp_all

lemma rule_methods_bits:
  "bit (methodsBitfield (rule_methods m ms r)) i \<longleftrightarrow>
     (\<exists>v. v \<in> set (m # ms) \<and> map_option verbIndex (httpVerbFromBoost v) = Some i)
     \<or> (httpVerbFromBoost (last (m # ms)) = None \<and> bit (methodsBitfield r) i)"
proof (induction m ms r rule: rule_methods.induct)
  case (1 m r)
  then show ?case
    using verbIndex_lt_64 by (auto simp: bit_push_one split: option.splits)
next
  case (2 m m' ms r)
  then show ?case
    using verbIndex_lt_64 by (auto simp: Let_def bit_or_iff bit_push_one split: option.splits)
qed

section \<open>Listing routes\<close>

lemma findRouteIndexes_sound:
  assumes "opt_trie t"
  shows "n < length t \<Longrightarrow> r \<in> set (findRouteIndexes fuel t url n pos) \<Longrightarrow>
    \<exists>more. more \<noteq> [] \<and> route t n (map Lit (drop pos url @ more)) r"
proof (induction fuel arbitrary: n pos)
  case (Suc fuel)
  have nd: "opt_node (length t) n (t ! n)"
    using opt_trie_node [OF assms Suc.prems(1)] .
  have each: "\<exists>more. more \<noteq> [] \<and> route t n (map Lit (drop pos url @ more)) r"
    if "r \<in> set (routeIndexes_each (findRouteIndexes fuel t url) t url pos kvs)"
      "set kvs \<subseteq> set (children (t ! n))" for kvs
    using that
  proof (induction kvs)
    case (Cons kv kvs)
    obtain fragment c where kv: "kv = (fragment, c)"
      by fastforce
    have edge: "(fragment, c) \<in> set (children (t ! n))" "fragment \<noteq> []" "c < length t"
      using Cons.prems(2) opt_nodeD(1) [OF nd] kv by auto
    note child = route.child [OF edge(1,2)]
    consider (tail) "r \<in> set (routeIndexes_each (findRouteIndexes fuel t url) t url pos kvs)"
      | (here) "length url \<le> pos" "ruleIndex (t ! c) = r" "r \<noteq> 0"
      | (deep) "length url \<le> pos" "r \<in> set (findRouteIndexes fuel t url c (pos + length fragment))"
      | (step) "pos < length url" "take (length fragment) (drop pos url) = fragment"
          "r \<in> set (findRouteIndexes fuel t url c (pos + length fragment))"
      using Cons.prems(1) kv by (auto split: if_splits)
    then show ?case
    proof cases
      case tail
      with Cons show ?thesis by simp
    next
      case here
      have "route t c [] r"
        using here(2,3) by (rule route.here)
      from child [OF this] here(1) edge(2) show ?thesis
        by (intro exI [of _ fragment]) simp
    next
      case deep
      then obtain more where more: "route t c (map Lit (drop (pos + length fragment) url @ more)) r"
        using Suc.IH [OF edge(3)] by blast
      then have "route t c (map Lit more) r"
        using deep(1) by simp
      from child [OF this] deep(1) edge(2) show ?thesis
        by (intro exI [of _ "fragment @ more"]) simp
    next
      case step
      then obtain more where more: "more \<noteq> []" "route t c (map Lit (drop (pos + length fragment) url @ more)) r"
        using Suc.IH [OF edge(3)] by blast
      have "drop pos url = fragment @ drop (pos + length fragment) url"
        using step(2) by (metis append_take_drop_id drop_drop add.commute)
      with child [OF more(2)] more(1) show ?thesis
        by (intro exI [of _ more]) simp
    qed
  qed simp
  show ?case
    using each [of "children (t ! n)"] Suc.prems(2) by simp
qed simp

section \<open>The entry points on a validated router\<close>

definition handled_as ::
    "'s request \<Rightarrow> response \<Rightarrow> bool \<Rightarrow> (nat \<Rightarrow> find_route_result) \<Rightarrow> HttpVerb \<Rightarrow> handled \<Rightarrow> bool" where
  "handled_as req res bypassAuth f verb out \<longleftrightarrow>
     (let allow = allow_header (served_verbs f);
          rte = (case f (verbIndex verb) of Some x \<Rightarrow> Some x
                 | None \<Rightarrow> if allow = [] then f notFoundIndex else f methodNotAllowedIndex)
      in res_fields (fst out)
           = (if allow = [] then res_fields res else fields_insert ''Allow'' allow (res_fields res))
         \<and> (case rte of
              None \<Rightarrow> snd out = None \<and> res_status (fst out) = (if allow = [] then 404 else 405)
            | Some x \<Rightarrow> res_status (fst out) = res_status res
                \<and> snd out = (if rq_session req = None \<or> bypassAuth then Some x else None)))"

lemma dispatch_handled:
  assumes "rte = (case f (verbIndex verb) of Some x \<Rightarrow> Some x
      | None \<Rightarrow> if allow_header (served_verbs f) = [] then f notFoundIndex else f methodNotAllowedIndex)"
  shows "handled_as req res bypassAuth f verb (dispatch req res bypassAuth (allow_header (served_verbs f)) rte)"
  unfolding handled_as_def Let_def assms [symmetric]
  by (cases rte) (auto simp: dispatch_def Let_def)

lemma handle_found:
  assumes "router_ok rt" "httpVerbFromBoost (rq_method req) = Some verb"
    and f: "\<forall>m \<le> methodNotAllowedIndex. findRouteByIndex strtod rt (urlBase req) m = Some (Inr (f m))"
    and "f (verbIndex verb) = Some x"
  shows "handle strtod rt req res bypassAuth
     = Some (Inr (dispatch req res bypassAuth (allow_header (served_verbs f)) (Some x)))"
  using assms(2,4) findRoute_result [OF assms(1,2) f] assms(1) verbIndex_less [OF assms(2)]
  by (simp add: handle_def router_ok_def verb_consts)

lemma handle_result:
  assumes "router_ok rt" "httpVerbFromBoost (rq_method req) = Some verb"
    and f: "\<forall>m \<le> methodNotAllowedIndex. findRouteByIndex strtod rt (urlBase req) m = Some (Inr (f m))"
  shows "\<exists>out. handle strtod rt req res bypassAuth = Some (Inr out) \<and> handled_as req res bypassAuth f verb out"
proof -
  have len: "\<not> length (perMethods rt) \<le> verbIndex verb"
    using assms(1) verbIndex_less [OF assms(2)] by (simp add: router_ok_def verb_consts)
  have idx: "findRouteByIndex strtod rt (urlBase req) notFoundIndex = Some (Inr (f notFoundIndex))"
    "findRouteByIndex strtod rt (urlBase req) methodNotAllowedIndex = Some (Inr (f methodNotAllowedIndex))"
    using f by (simp_all add: methodNotAllowedIndex_def)
  show ?thesis
  proof (cases "f (verbIndex verb)")
    case None
    then have "handle strtod rt req res bypassAuth
        = Some (Inr (dispatch req res bypassAuth (allow_header (served_verbs f))
            (if allow_header (served_verbs f) = [] then f notFoundIndex else f methodNotAllowedIndex)))"
      using len idx assms(2) findRoute_result [OF assms(1,2) f] by (simp add: handle_def)
    moreover have "handled_as req res bypassAuth f verb (dispatch req res bypassAuth (allow_header (served_verbs f))
            (if allow_header (served_verbs f) = [] then f notFoundIndex else f methodNotAllowedIndex))"
      by (rule dispatch_handled) (simp add: None)
    ultimately show ?thesis by blast
  next
    case (Some x)
    note handle_found [OF assms this]
    moreover have "handled_as req res bypassAuth f verb
        (dispatch req res bypassAuth (allow_header (served_verbs f)) (Some x))"
      by (rule dispatch_handled) (simp add: Some)
    ultimately show ?thesis by blast
  qed
qed

text \<open>The routes of all verbs at once, and what \<open>handle\<close> makes of them.\<close>

lemma routes_of_router:
  assumes "router_ok rt"
  shows "\<exists>f. \<forall>m \<le> methodNotAllowedIndex.
    findRouteByIndex strtod rt url m = Some (Inr (f m)) \<and> first_match strtod (allRules rt) m url (f m)"
proof -
  have "\<forall>m. \<exists>res. m \<le> methodNotAllowedIndex \<longrightarrow>
      findRouteByIndex strtod rt url m = Some (Inr res) \<and> first_match strtod (allRules rt) m url res"
    using findRouteByIndex_first [OF assms] by blast
  then show ?thesis
    using choice [of "\<lambda>m res. m \<le> methodNotAllowedIndex \<longrightarrow>
      findRouteByIndex strtod rt url m = Some (Inr res) \<and> first_match strtod (allRules rt) m url res"]
    by blast
qed

lemma handle_routes:
  assumes "router_ok rt"
  shows "\<exists>f. (\<forall>m \<le> methodNotAllowedIndex. first_match strtod (allRules rt) m (urlBase req) (f m))
    \<and> (case httpVerbFromBoost (rq_method req) of
         None \<Rightarrow> handle strtod rt req res bypassAuth = Some (Inr (set_result 404 res, None))
       | Some verb \<Rightarrow> \<exists>out. handle strtod rt req res bypassAuth = Some (Inr out)
           \<and> handled_as req res bypassAuth f verb out)"
proof -
  obtain f where f: "\<forall>m \<le> methodNotAllowedIndex. findRouteByIndex strtod rt (urlBase req) m = Some (Inr (f m))
      \<and> first_match strtod (allRules rt) m (urlBase req) (f m)"
    using routes_of_router [OF assms] by blast
  then have "\<exists>out. handle strtod rt req res bypassAuth = Some (Inr out)
      \<and> handled_as req res bypassAuth f verb out" if "httpVerbFromBoost (rq_method req) = Some verb" for verb
    using handle_result [OF assms that] by blast
  then show ?thesis
    using f by (cases "httpVerbFromBoost (rq_method req)") (auto simp: handle_def)
qed

lemma handleUpgrade_404:
  assumes "router_ok rt"
  shows "handleUpgrade strtod rt req res = Some (Inr (set_result 404 res))"
proof (cases "httpVerbFromBoost (rq_method req)")
  case (Some verb)
  let ?m = "verbIndex verb" let ?L = "allRules rt" let ?pm = "perMethods rt ! ?m"
  have m: "?m \<le> methodNotAllowedIndex" "?m < length (perMethods rt)"
    using assms verbIndex_less [OF Some] by (auto simp: router_ok_def verb_consts)
  have pm: "opt_trie (pm_trie ?pm)" "pm_rules ?pm = None # map Some (method_rules ?L ?m (length ?L))"
    "trie_patterns (pm_trie ?pm) = set (table_pats ?L (method_rules ?L ?m (length ?L)))"
    using assms m(1) by (auto simp: router_ok_def sealed_ok_def)
  obtain n ps where found: "find_route strtod (pm_trie ?pm) (urlBase req) = Some (n, ps)"
    "best (pattern_matches strtod (trie_patterns (pm_trie ?pm)) (urlBase req)) (n, ps)"
    using trie_table.search_ok [OF pm(1), of strtod "urlBase req"] by auto
  show ?thesis
  proof (cases n)
    case 0
    with found(1) m Some show ?thesis
      by (simp add: handleUpgrade_def)
  next
    case (Suc j)
    then have "j < length (method_rules ?L ?m (length ?L))"
      using found(2) unfolding pm(3) by (auto simp: best_def pattern_matches_def table_pats_mem)
    with found(1) m Some Suc pm(2) show ?thesis
      by (simp add: handleUpgrade_def rule_handleUpgrade_def Let_def)
  qed
qed (simp add: handleUpgrade_def)

section \<open>Properties\<close>

text \<open>
  C1: routing, end to end. When every rule has a handler and a well-formed URL and no two rules of
  one method have the same pattern, \<open>validate\<close> succeeds, and \<open>handle\<close> then treats every request as
  the list of rules says: the first registered rule that serves the URL for the request's verb is
  called with its parameters; without one the 404 or 405 rule is called, or the plain status is
  set; the Allow header lists the verbs that serve the URL, in the order of the enumeration. A
  request of an unknown verb gets 404. (A request with a session that does not bypass
  authentication is not passed to any handler.)
\<close>

theorem router_handles:
  assumes "rules_ok L"
  shows "\<exists>rt. router_validate (router_init\<lparr>allRules := L\<rparr>) = Some (Inr rt)
    \<and> (\<forall>strtod req res bypassAuth. \<exists>f. (\<forall>m \<le> methodNotAllowedIndex. first_match strtod L m (urlBase req) (f m))
         \<and> (case httpVerbFromBoost (rq_method req) of
              None \<Rightarrow> handle strtod rt req res bypassAuth = Some (Inr (set_result 404 res, None))
            | Some verb \<Rightarrow> \<exists>out. handle strtod rt req res bypassAuth = Some (Inr out)
                \<and> handled_as req res bypassAuth f verb out))"
proof -
  obtain rt where rt: "router_validate (router_init\<lparr>allRules := L\<rparr>) = Some (Inr rt)" "router_ok rt" "allRules rt = L"
    using router_validate_ok [OF assms] by blast
  show ?thesis
    by (intro exI [of _ rt] conjI allI rt(1) handle_routes [OF rt(2), unfolded rt(3)])
qed

definition sample_rules :: "rule list" where
  "sample_rules = [rule_setHandler (new_rule ''/v1/<str>/'')]"

lemma sample_rules_ok: "rules_ok sample_rules"
proof -
  have len: "length sample_rules = 1"
    by (simp add: sample_rules_def)
  have url: "rule_url (sample_rules ! 0) = ''/v1/<str>/''"
    by (simp add: sample_rules_def rule_setHandler_def new_rule_def)
  have "distinct (map fst (rule_pats sample_rules 0 1))"
    unfolding rule_pats_def url by (simp add: rule_urls_def matchTag_def paramTraits_def)
  moreover have "method_rules sample_rules m 1 = [] \<or> method_rules sample_rules m 1 = [0]" for m
    by (simp add: method_rules_def)
  ultimately have "distinct (map fst (table_pats sample_rules (method_rules sample_rules m 1)))" for m
    by (metis append_Nil distinct.simps(1) list.map(1) list.size(3) One_nat_def table_pats_def
        table_pats_snoc concat.simps(1) upt_0)
  then show ?thesis
    unfolding rules_ok_def len
    by (simp add: sample_rules_def rule_setHandler_def new_rule_def rule_urls_def matchTag_def paramTraits_def)
qed

lemma router_handles_witness:
  "\<exists>rt f out. router_validate (router_init\<lparr>allRules := sample_rules\<rparr>) = Some (Inr rt)
    \<and> handle no_double rt (sample_request []) response_init False = Some (Inr out)
    \<and> handled_as (sample_request []) response_init False f Get out"
proof -
  obtain rt where rt: "router_validate (router_init\<lparr>allRules := sample_rules\<rparr>) = Some (Inr rt)"
    and h: "\<exists>f. (\<forall>m \<le> methodNotAllowedIndex. first_match no_double sample_rules m (urlBase (sample_request [])) (f m))
      \<and> (case httpVerbFromBoost (rq_method (sample_request [])) of
           None \<Rightarrow> handle no_double rt (sample_request []) response_init False
             = Some (Inr (set_result 404 response_init, None))
         | Some verb \<Rightarrow> \<exists>out. handle no_double rt (sample_request []) response_init False = Some (Inr out)
             \<and> handled_as (sample_request []) response_init False f verb out)"
    using router_handles [OF sample_rules_ok] by blast
  have "rq_method (sample_request []) = verb_get"
    by (simp add: sample_request_def)
  with rt h show ?thesis
    by auto
qed

text \<open>
  The authorisation step is missing: a request with a session that does not bypass
  authentication never reaches a handler, whatever the router, and is left without an answer of
  its own when a rule matches.
\<close>

theorem session_request_not_handled:
  assumes "rq_session req \<noteq> None" "handle strtod rt req res False = Some (Inr (res', call))"
  shows "call = None"
  using assms
  by (auto simp: handle_def dispatch_def Let_def split: option.splits sum.splits if_splits prod.splits)

lemma session_request_not_handled_witness:
  "\<exists>rt res'. router_validate (router_init\<lparr>allRules := sample_rules\<rparr>) = Some (Inr rt)
    \<and> handle no_double rt ((sample_request [])\<lparr>rq_session := Some (), urlBase := ''/v1/a''\<rparr>) response_init False
        = Some (Inr (res', None))"
proof -
  let ?req = "(sample_request [])\<lparr>rq_session := Some (), urlBase := ''/v1/a''\<rparr>"
  obtain rt where rt: "router_validate (router_init\<lparr>allRules := sample_rules\<rparr>) = Some (Inr rt)" "router_ok rt"
    using router_validate_ok [OF sample_rules_ok] by blast
  have "httpVerbFromBoost (rq_method ?req) = Some Get"
    by (simp add: sample_request_def)
  with handle_routes [OF rt(2), of no_double ?req response_init False]
  obtain res' call where "handle no_double rt ?req response_init False = Some (Inr (res', call))"
    by auto
  with session_request_not_handled [of ?req no_double rt response_init res' call] rt(1) show ?thesis
    by auto
qed

text \<open>
  An upgrade request on a validated router always gets 404, never an exception: no registered
  kind of rule accepts upgrades.
\<close>

theorem upgrade_always_404:
  assumes "rules_ok L"
  shows "\<exists>rt. router_validate (router_init\<lparr>allRules := L\<rparr>) = Some (Inr rt)
    \<and> (\<forall>strtod req res. handleUpgrade strtod rt req res = Some (Inr (set_result 404 res)))"
  using router_validate_ok [OF assms] handleUpgrade_404 by blast

lemma upgrade_always_404_witness:
  "\<exists>rt. router_validate (router_init\<lparr>allRules := sample_rules\<rparr>) = Some (Inr rt)
    \<and> (\<forall>strtod (req :: unit request) res. handleUpgrade strtod rt req res = Some (Inr (set_result 404 res)))"
  by (rule upgrade_always_404 [OF sample_rules_ok])

text \<open>
  \<open>methods(...)\<close> sets exactly the bits of the known verbs it is given, provided the last one is
  known; after an unknown last verb the bits the rule had before stay set as well.
\<close>

theorem methods_bits:
  "bit (methodsBitfield (rule_methods m ms r)) i \<longleftrightarrow>
     (\<exists>v. v \<in> set (m # ms) \<and> map_option verbIndex (httpVerbFromBoost v) = Some i)
     \<or> (httpVerbFromBoost (last (m # ms)) = None \<and> bit (methodsBitfield r) i)"
  by (rule rule_methods_bits)

text \<open>
  \<open>getRoutes\<close> lists only rules below the given URL: every index found in a table is the rule of
  a literal pattern that continues the URL by at least one character.
\<close>

theorem route_indexes_below:
  assumes "opt_trie t" "r \<in> set (findRouteIndexes fuel t url 0 0)"
  shows "\<exists>more. more \<noteq> [] \<and> route t 0 (map Lit (url @ more)) r"
  using findRouteIndexes_sound [OF assms(1) _ assms(2)] assms(1) by (auto simp: opt_trie_def)

lemma route_indexes_below_witness:
  "\<exists>more. more \<noteq> [] \<and> route (trie_init[0 := (newNodeValue\<lparr>children := [(''a'', 1)]\<rparr>)] @ [newNodeValue\<lparr>ruleIndex := 4\<rparr>]) 0
     (map Lit ([] @ more)) 4"
proof (rule route_indexes_below [where fuel = 2])
  let ?t = "trie_init[0 := (newNodeValue\<lparr>children := [(''a'', 1)]\<rparr>)] @ [newNodeValue\<lparr>ruleIndex := 4\<rparr>]"
  show "opt_trie ?t"
    by (auto simp: opt_trie_def opt_node_def node_wf_def edges_up_def prefix_free_def trie_init_def
        newNodeValue_def ParamType_MAX_def less_Suc_eq)
  show "4 \<in> set (findRouteIndexes 2 ?t [] 0 0)"
    by (simp add: trie_init_def newNodeValue_def numeral_2_eq_2)
qed

end
