(* ===== verification/BaseRegistry.thy ===== *)
theory BaseRegistry
  imports Prelude
begin

text \<open>
  The message registry of \<open>include/registries/base_message_registry.hpp\<close>: the types of
  \<open>include/registries.hpp\<close>, the header, the 110 entries in their order (in blocks of ten, as
  \<open>base_registry_0\<close> to \<open>base_registry_10\<close>) and the enumeration of their indexes. The lemmas
  read the columns the message builders depend on.
\<close>

record registry_header =
  h_copyright :: string
  h_type :: string
  h_id :: string
  h_name :: string
  h_language :: string
  h_description :: string
  h_registryPrefix :: string
  h_registryVersion :: string
  h_owningEntity :: string

record message_def =
  m_description :: string
  m_message :: string
  m_messageSeverity :: string
  m_numberOfArgs :: nat
  m_paramTypes :: "string list"
  m_resolution :: string

type_synonym message_entry = "string \<times> message_def"

definition base_header :: registry_header where
  "base_header =
     \<lparr>h_copyright = ''Copyright 2014-2023 DMTF. All rights reserved.'',
      h_type = ''#MessageRegistry.v1_5_0.MessageRegistry'',
      h_id = ''Base.1.16.0'',
      h_name = ''Base Message Registry'',
      h_language = ''en'',
      h_description = ''This registry defines the base messages for Redfish'',
      h_registryPrefix = ''Base'',
      h_registryVersion = ''1.16.0'',
      h_owningEntity = ''DMTF''\<rparr>"

definition base_registry_0 :: "message_entry list" where
  "base_registry_0 =
    [(''AccessDenied'',
       \<lparr>m_description = ''Indicates that while attempting to access, connect to, or transfer to or from another resource, the service denied access.'',
        m_message = ''While attempting to establish a connection to '%1', the service denied access.'',
        m_messageSeverity = ''Critical'', m_numberOfArgs = 1, m_paramTypes = [''string''],
        m_resolution = ''Attempt to ensure that the URI is correct and that the service has the appropriate credentials.''\<rparr>),
     (''AccountForSessionNoLongerExists'',
       \<lparr>m_description = ''Indicates that the account for the session has been removed, thus the session has been removed as well.'',
        m_message = ''The account for the current session has been removed, thus the current session has been removed as well.'',
        m_messageSeverity = ''OK'', m_numberOfArgs = 0, m_paramTypes = [],
        m_resolution = ''Attempt to connect with a valid account.''\<rparr>),
     (''AccountModified'',
       \<lparr>m_description = ''Indicates that the account was successfully modified.'',
        m_message = ''The account was successfully modified.'',
        m_messageSeverity = ''OK'', m_numberOfArgs = 0, m_paramTypes = [],
        m_resolution = ''No resolution is required.''\<rparr>),
     (''AccountNotModified'',
       \<lparr>m_description = ''Indicates that the modification requested for the account was not successful.'',
        m_message = ''The account modification request failed.'',
        m_messageSeverity = ''Warning'', m_numberOfArgs = 0, m_paramTypes = [],
        m_resolution = ''The modification may have failed due to permission issues or issues with the request body.''\<rparr>),
     (''AccountRemoved'',
       \<lparr>m_description = ''Indicates that the account was successfully removed.'',
        m_message = ''The account was successfully removed.'',
        m_messageSeverity = ''OK'', m_numberOfArgs = 0, m_paramTypes = [],
        m_resolution = ''No resolution is required.''\<rparr>),
     (''ActionDeprecated'',
       \<lparr>m_description = ''Indicates the action is deprecated.'',
        m_message = ''The action %1 is deprecated.'',
        m_messageSeverity = ''Warning'', m_numberOfArgs = 1, m_paramTypes = [''string''],
        m_resolution = ''Refer to the schema guide for more information.''\<rparr>),
     (''ActionNotSupported'',
       \<lparr>m_description = ''Indicates that the action supplied with the POST operation is not supported by the resource.'',
        m_message = ''The action %1 is not supported by the resource.'',
        m_messageSeverity = ''Critical'', m_numberOfArgs = 1, m_paramTypes = [''string''],
        m_resolution = ''The action supplied cannot be resubmitted to the implementation.  Perhaps the action was invalid, the wrong resource was the target or the implementation documentation may be of assistance.''\<rparr>),
     (''ActionParameterDuplicate'',
       \<lparr>m_description = ''Indicates that the action was supplied with a duplicated action parameter in the request body.'',
        m_message = ''The action %1 was submitted with more than one value for the parameter %2.'',
        m_messageSeverity = ''Warning'', m_numberOfArgs = 2, m_paramTypes = [''string'', ''string''],
        m_resolution = ''Resubmit the action with only one instance of the action parameter in the request body if the operation failed.''\<rparr>),
     (''ActionParameterMissing'',
       \<lparr>m_description = ''Indicates that the action requested was missing an action parameter that is required to process the action.'',
        m_message = ''The action %1 requires the parameter %2 to be present in the request body.'',
        m_messageSeverity = ''Critical'', m_numberOfArgs = 2, m_paramTypes = [''string'', ''string''],
        m_resolution = ''Supply the action with the required parameter in the request body when the request is resubmitted.''\<rparr>),
     (''ActionParameterNotSupported'',
       \<lparr>m_description = ''Indicates that the parameter supplied for the action is not supported on the resource.'',
        m_message = ''The parameter %1 for the action %2 is not supported on the target resource.'',
        m_messageSeverity = ''Warning'', m_numberOfArgs = 2, m_paramTypes = [''string'', ''string''],
        m_resolution = ''Remove the parameter supplied and resubmit the request if the operation failed.''\<rparr>)]"

definition base_registry_1 :: "message_entry list" where
  "base_registry_1 =
    [(''ActionParameterUnknown'',
       \<lparr>m_description = ''Indicates that an action was submitted but an action parameter supplied did not match any of the known parameters.'',
        m_message = ''The action %1 was submitted with the invalid parameter %2.'',
        m_messageSeverity = ''Warning'', m_numberOfArgs = 2, m_paramTypes = [''string'', ''string''],
        m_resolution = ''Correct the invalid action parameter and resubmit the request if the operation failed.''\<rparr>),
     (''ActionParameterValueConflict'',
       \<lparr>m_description = ''Indicates that the requested parameter value could not be completed, because of a mismatch with other parameters or properties in the resource.'',
        m_message = ''The parameter '%1' with the requested value of '%2' does not meet the constraints of the implementation.'',
        m_messageSeverity = ''Warning'', m_numberOfArgs = 2, m_paramTypes = [''string'', ''string''],
        m_resolution = ''No resolution is required.''\<rparr>),
     (''ActionParameterValueError'',
       \<lparr>m_description = ''Indicates that a parameter was given an invalid value.'',
        m_message = ''The value for the parameter %1 in the action %2 is invalid.'',
        m_messageSeverity = ''Warning'', m_numberOfArgs = 2, m_paramTypes = [''string'', ''string''],
        m_resolution = ''Correct the value for the parameter in the request body and resubmit the request if the operation failed.''\<rparr>),
     (''ActionParameterValueFormatError'',
       \<lparr>m_description = ''Indicates that a parameter was given the correct value type but the value of that parameter was not supported.  This includes the value size or length has been exceeded.'',
        m_message = ''The value '%1' for the parameter %2 in the action %3 is of a different format than the parameter can accept.'',
        m_messageSeverity = ''Warning'', m_numberOfArgs = 3, m_paramTypes = [''string'', ''string'', ''string''],
        m_resolution = ''Correct the value for the parameter in the request body and resubmit the request if the operation failed.''\<rparr>),
     (''ActionParameterValueNotInList'',
       \<lparr>m_description = ''Indicates that a parameter was given the correct value type but the value of that parameter was not supported.  The value is not in an enumeration.'',
        m_message = ''The value '%1' for the parameter %2 in the action %3 is not in the list of acceptable values.'',
        m_messageSeverity = ''Warning'', m_numberOfArgs = 3, m_paramTypes = [''string'', ''string'', ''string''],
        m_resolution = ''Choose a value from the enumeration list that the implementation can support and resubmit the request if the operation failed.''\<rparr>),
     (''ActionParameterValueTypeError'',
       \<lparr>m_description = ''Indicates that a parameter was given the wrong value type, such as when a number is supplied for a parameter that requires a string.'',
        m_message = ''The value '%1' for the parameter %2 in the action %3 is of a different type than the parameter can accept.'',
        m_messageSeverity = ''Warning'', m_numberOfArgs = 3, m_paramTypes = [''string'', ''string'', ''string''],
        m_resolution = ''Correct the value for the parameter in the request body and resubmit the request if the operation failed.''\<rparr>),
     (''ArraySizeTooLong'',
       \<lparr>m_description = ''Indicates that the size of the array exceeded the maximum number of elements.'',
        m_message = ''The array provided for property %1 exceeds the size limit %2.'',
        m_messageSeverity = ''Warning'', m_numberOfArgs = 2, m_paramTypes = [''string'', ''number''],
        m_resolution = ''Resubmit the request with an appropriate array size.''\<rparr>),
     (''ArraySizeTooShort'',
       \<lparr>m_description = ''Indicates that the size of the array is under the minimum number of elements.'',
        m_message = ''The array provided for property %1 is under the minimum size limit %2.'',
        m_messageSeverity = ''Warning'', m_numberOfArgs = 2, m_paramTypes = [''string'', ''number''],
        m_resolution = ''Resubmit the request with an appropriate array size.''\<rparr>),
     (''AuthenticationTokenRequired'',
       \<lparr>m_description = ''Indicates that the request could not be performed because an authentication token was not provided.'',
        m_message = ''The request could not be performed because an authentication token was not provided.'',
        m_messageSeverity = ''Critical'', m_numberOfArgs = 0, m_paramTypes = [],
        m_resolution = ''Obtain an authentication token and resubmit the request.''\<rparr>),
     (''ChassisPowerStateOffRequired'',
       \<lparr>m_description = ''Indicates that the request requires a specified chassis to be powered off.'',
        m_message = ''The Chassis with Id '%1' requires to be powered off to perform this request.'',
        m_messageSeverity = ''Warning'', m_numberOfArgs = 1, m_paramTypes = [''string''],
        m_resolution = ''Power off the specified chassis and resubmit the request.''\<rparr>)]"

definition base_registry_2 :: "message_entry list" where
  "base_registry_2 =
    [(''ChassisPowerStateOnRequired'',
       \<lparr>m_description = ''Indicates that the request requires a specified chassis to be powered on.'',
        m_message = ''The chassis with Id '%1' requires to be powered on to perform this request.'',
        m_messageSeverity = ''Warning'', m_numberOfArgs = 1, m_paramTypes = [''string''],
        m_resolution = ''Power on the specified chassis and resubmit the request.''\<rparr>),
     (''ConditionInRelatedResource'',
       \<lparr>m_description = ''Indicates that one or more fault or error conditions exist in a related resource.'',
        m_message = ''One or more conditions exist in a related resource.  See the OriginOfCondition property.'',
        m_messageSeverity = ''Warning'', m_numberOfArgs = 0, m_paramTypes = [],
        m_resolution = ''Check the Conditions array in the resource shown in the OriginOfCondition property to determine the conditions that need attention.''\<rparr>),
     (''CouldNotEstablishConnection'',
       \<lparr>m_description = ''Indicates that the attempt to access the resource, file, or image at the URI was unsuccessful because a session could not be established.'',
        m_message = ''The service failed to establish a connection with the URI '%1'.'',
        m_messageSeverity = ''Critical'', m_numberOfArgs = 1, m_paramTypes = [''string''],
        m_resolution = ''Ensure that the URI contains a valid and reachable node name, protocol information and other URI components.''\<rparr>),
     (''CreateFailedMissingReqProperties'',
       \<lparr>m_description = ''Indicates that a create was attempted on a resource but that properties that are required for the create operation were missing from the request.'',
        m_message = ''The create operation failed because the required property %1 was missing from the request.'',
        m_messageSeverity = ''Critical'', m_numberOfArgs = 1, m_paramTypes = [''string''],
        m_resolution = ''Correct the body to include the required property with a valid value and resubmit the request if the operation failed.''\<rparr>),
     (''CreateLimitReachedForResource'',
       \<lparr>m_description = ''Indicates that no more resources can be created on the resource as it has reached its create limit.'',
        m_message = ''The create operation failed because the resource has reached the limit of possible resources.'',
        m_messageSeverity = ''Critical'', m_numberOfArgs = 0, m_paramTypes = [],
        m_resolution = ''Either delete resources and resubmit the request if the operation failed or do not resubmit the request.''\<rparr>),
     (''Created'',
       \<lparr>m_description = ''Indicates that all conditions of a successful create operation have been met.'',
        m_message = ''The resource has been created successfully.'',
        m_messageSeverity = ''OK'', m_numberOfArgs = 0, m_paramTypes = [],
        m_resolution = ''None.''\<rparr>),
     (''EmptyJSON'',
       \<lparr>m_description = ''Indicates that the request body contained an empty JSON object when one or more properties are expected in the body.'',
        m_message = ''The request body submitted contained an empty JSON object and the service is unable to process it.'',
        m_messageSeverity = ''Warning'', m_numberOfArgs = 0, m_paramTypes = [],
        m_resolution = ''Add properties in the JSON object and resubmit the request.''\<rparr>),
     (''EventBufferExceeded'',
       \<lparr>m_description = ''Indicates undelivered events may have been lost due to a lack of buffer space in the service.'',
        m_message = ''Undelivered events may have been lost due to exceeding the event buffer.'',
        m_messageSeverity = ''Warning'', m_numberOfArgs = 0, m_paramTypes = [],
        m_resolution = ''None.''\<rparr>),
     (''EventSubscriptionLimitExceeded'',
       \<lparr>m_description = ''Indicates that a event subscription establishment has been requested but the operation failed due to the number of simultaneous connection exceeding the limit of the implementation.'',
        m_message = ''The event subscription failed due to the number of simultaneous subscriptions exceeding the limit of the implementation.'',
        m_messageSeverity = ''Critical'', m_numberOfArgs = 0, m_paramTypes = [],
        m_resolution = ''Reduce the number of other subscriptions before trying to establish the event subscription or increase the limit of simultaneous subscriptions, if supported.''\<rparr>),
     (''GeneralError'',
       \<lparr>m_description = ''Indicates that a general error has occurred.  Use in `@Message.ExtendedInfo` is discouraged.  When used in `@Message.ExtendedInfo`, implementations are expected to include a `Resolution` property with this message and provide a service-defined resolution to indicate how to resolve the error.'',
        m_message = ''A general error has occurred.  See Resolution for information on how to resolve the error, or @Message.ExtendedInfo if Resolution is not provided.'',
        m_messageSeverity = ''Critical'', m_numberOfArgs = 0, m_paramTypes = [],
        m_resolution = ''None.''\<rparr>)]"

definition base_registry_3 :: "message_entry list" where
  "base_registry_3 =
    [(''HeaderInvalid'',
       \<lparr>m_description = ''Indicates that a request header is invalid.'',
        m_message = ''Header '%1' is invalid.'',
        m_messageSeverity = ''Critical'', m_numberOfArgs = 1, m_paramTypes = [''string''],
        m_resolution = ''Resubmit the request with a valid request header.''\<rparr>),
     (''HeaderMissing'',
       \<lparr>m_description = ''Indicates that a required request header is missing.'',
        m_message = ''Required header '%1' is missing in the request.'',
        m_messageSeverity = ''Critical'', m_numberOfArgs = 1, m_paramTypes = [''string''],
        m_resolution = ''Resubmit the request with the required request header.''\<rparr>),
     (''InsufficientPrivilege'',
       \<lparr>m_description = ''Indicates that the credentials associated with the established session do not have sufficient privileges for the requested operation.'',
        m_message = ''There are insufficient privileges for the account or credentials associated with the current session to perform the requested operation.'',
        m_messageSeverity = ''Critical'', m_numberOfArgs = 0, m_paramTypes = [],
        m_resolution = ''Either abandon the operation or change the associated access rights and resubmit the request if the operation failed.''\<rparr>),
     (''InsufficientStorage'',
       \<lparr>m_description = ''Indicates that the operation could not be completed due to a lack of storage or memory avaiable to the service.'',
        m_message = ''Insufficent storage or memory available to complete the request.'',
        m_messageSeverity = ''Critical'', m_numberOfArgs = 0, m_paramTypes = [],
        m_resolution = ''Increase the free storage space available to the service and resubmit the request.''\<rparr>),
     (''InternalError'',
       \<lparr>m_description = ''Indicates that the request failed for an unknown internal error but that the service is still operational.'',
        m_message = ''The request failed due to an internal service error.  The service is still operational.'',
        m_messageSeverity = ''Critical'', m_numberOfArgs = 0, m_paramTypes = [],
        m_resolution = ''Resubmit the request.  If the problem persists, consider resetting the service.''\<rparr>),
     (''InvalidIndex'',
       \<lparr>m_description = ''The index is not valid.'',
        m_message = ''The index %1 is not a valid offset into the array.'',
        m_messageSeverity = ''Warning'', m_numberOfArgs = 1, m_paramTypes = [''number''],
        m_resolution = ''Verify the index value provided is within the bounds of the array.''\<rparr>),
     (''InvalidJSON'',
       \<lparr>m_description = ''Indicates that the request body contains invalid JSON.'',
        m_message = ''The request body submitted is invalid JSON starting at line %1 and could not be parsed by the receiving service.'',
        m_messageSeverity = ''Critical'', m_numberOfArgs = 1, m_paramTypes = [''number''],
        m_resolution = ''Ensure that the request body is valid JSON and resubmit the request.''\<rparr>),
     (''InvalidObject'',
       \<lparr>m_description = ''Indicates that the object in question is invalid according to the implementation.  Examples include a firmware update malformed URI.'',
        m_message = ''The object at '%1' is invalid.'',
        m_messageSeverity = ''Critical'', m_numberOfArgs = 1, m_paramTypes = [''string''],
        m_resolution = ''Either the object is malformed or the URI is not correct.  Correct the condition and resubmit the request if it failed.''\<rparr>),
     (''InvalidURI'',
       \<lparr>m_description = ''Indicates that the operation encountered a URI that does not correspond to a valid resource.'',
        m_message = ''The URI %1 was not found.'',
        m_messageSeverity = ''Critical'', m_numberOfArgs = 1, m_paramTypes = [''string''],
        m_resolution = ''Provide a valid URI and resubmit the request.''\<rparr>),
     (''LicenseRequired'',
       \<lparr>m_description = ''Indicates that a license is required to perform the requested operation.'',
        m_message = ''A license is required for this operation: %1.'',
        m_messageSeverity = ''Critical'', m_numberOfArgs = 1, m_paramTypes = [''string''],
        m_resolution = ''Install the requested license and resubmit the request.''\<rparr>)]"

definition base_registry_4 :: "message_entry list" where
  "base_registry_4 =
    [(''MalformedJSON'',
       \<lparr>m_description = ''Indicates that the request body was malformed JSON.'',
        m_message = ''The request body submitted was malformed JSON and could not be parsed by the receiving service.'',
        m_messageSeverity = ''Critical'', m_numberOfArgs = 0, m_paramTypes = [],
        m_resolution = ''Ensure that the request body is valid JSON and resubmit the request.''\<rparr>),
     (''MaximumErrorsExceeded'',
       \<lparr>m_description = ''Indicates that sufficient errors have occurred that the reporting service cannot return them all.'',
        m_message = ''Too many errors have occurred to report them all.'',
        m_messageSeverity = ''Critical'', m_numberOfArgs = 0, m_paramTypes = [],
        m_resolution = ''Resolve other reported errors and retry the current operation.''\<rparr>),
     (''MissingOrMalformedPart'',
       \<lparr>m_description = ''Indicates that a multipart request is missing a required part or contains malformed parts.'',
        m_message = ''The multipart request contains malformed parts or is missing required parts.'',
        m_messageSeverity = ''Critical'', m_numberOfArgs = 0, m_paramTypes = [],
        m_resolution = ''Add any missing required parts or correct the malformed parts and resubmit the request.''\<rparr>),
     (''NetworkNameResolutionNotConfigured'',
       \<lparr>m_description = ''Indicates that network-based name resolution has not been configured on the service.'',
        m_message = ''Network name resolution has not been configured on this service.'',
        m_messageSeverity = ''Warning'', m_numberOfArgs = 0, m_paramTypes = [],
        m_resolution = ''Configure the network name resolution protocol support on this service, or update any URI values to include an IP address instead of a network name and resubmit the request.''\<rparr>),
     (''NetworkNameResolutionNotSupported'',
       \<lparr>m_description = ''Indicates the service does not support network-based name resolution.'',
        m_message = ''Resolution of network-based names is not supported by this service.'',
        m_messageSeverity = ''Warning'', m_numberOfArgs = 0, m_paramTypes = [],
        m_resolution = ''Update any URI values to include an IP address instead of a network name and resubmit the request.''\<rparr>),
     (''NoOperation'',
       \<lparr>m_description = ''Indicates that the requested operation will not perform any changes on the service.'',
        m_message = ''The request body submitted contain no data to act upon and no changes to the resource took place.'',
        m_messageSeverity = ''Warning'', m_numberOfArgs = 0, m_paramTypes = [],
        m_resolution = ''Add properties in the JSON object and resubmit the request.''\<rparr>),
     (''NoValidSession'',
       \<lparr>m_description = ''Indicates that the operation failed because a valid session is required in order to access any resources.'',
        m_message = ''There is no valid session established with the implementation.'',
        m_messageSeverity = ''Critical'', m_numberOfArgs = 0, m_paramTypes = [],
        m_resolution = ''Establish a session before attempting any operations.''\<rparr>),
     (''OperationFailed'',
       \<lparr>m_description = ''Indicates that one of the internal operations necessary to complete the request failed.  Examples of this are when an internal service provider is unable to complete the request, such as in aggregation or RDE.'',
        m_message = ''An error occurred internal to the service as part of the overall request.  Partial results may have been returned.'',
        m_messageSeverity = ''Warning'', m_numberOfArgs = 0, m_paramTypes = [],
        m_resolution = ''Resubmit the request.  If the problem persists, consider resetting the service or provider.''\<rparr>),
     (''OperationNotAllowed'',
       \<lparr>m_description = ''Indicates that the HTTP method in the request is not allowed on this resource.'',
        m_message = ''The HTTP method is not allowed on this resource.'',
        m_messageSeverity = ''Critical'', m_numberOfArgs = 0, m_paramTypes = [],
        m_resolution = ''None.''\<rparr>),
     (''OperationTimeout'',
       \<lparr>m_description = ''Indicates that one of the internal operations necessary to complete the request timed out.  Examples of this are when an internal service provider is unable to complete the request, such as in aggregation or RDE.'',
        m_message = ''A timeout internal to the service occured as part of the request.  Partial results may have been returned.'',
        m_messageSeverity = ''Warning'', m_numberOfArgs = 0, m_paramTypes = [],
        m_resolution = ''Resubmit the request.  If the problem persists, consider resetting the service or provider.''\<rparr>)]"

definition base_registry_5 :: "message_entry list" where
  "base_registry_5 =
    [(''PasswordChangeRequired'',
       \<lparr>m_description = ''Indicates that the password for the account provided must be changed before accessing the service.  The password can be changed with a PATCH to the `Password` property in the manager account resource instance.  Implementations that provide a default password for an account may require a password change prior to first access to the service.'',
        m_message = ''The password provided for this account must be changed before access is granted.  PATCH the Password property for this account located at the target URI '%1' to complete this process.'',
        m_messageSeverity = ''Critical'', m_numberOfArgs = 1, m_paramTypes = [''string''],
        m_resolution = ''Change the password for this account using a PATCH to the Password property at the URI provided.''\<rparr>),
     (''PayloadTooLarge'',
       \<lparr>m_description = ''Indicates that the supplied payload is too large to be accepted by the service.'',
        m_message = ''The supplied payload exceeds the maximum size supported by the service.'',
        m_messageSeverity = ''Critical'', m_numberOfArgs = 0, m_paramTypes = [],
        m_resolution = ''Check that the supplied payload is correct and supported by this service.''\<rparr>),
     (''PreconditionFailed'',
       \<lparr>m_description = ''Indicates that the ETag supplied did not match the current ETag of the resource.'',
        m_message = ''The ETag supplied did not match the ETag required to change this resource.'',
        m_messageSeverity = ''Critical'', m_numberOfArgs = 0, m_paramTypes = [],
        m_resolution = ''Try the operation again using the appropriate ETag.''\<rparr>),
     (''PreconditionRequired'',
       \<lparr>m_description = ''Indicates that the request did not provide the required precondition such as an `If-Match` or `If-None-Match` header, or `@odata.etag` annotations.'',
        m_message = ''A precondition header or annotation is required to change this resource.'',
        m_messageSeverity = ''Critical'', m_numberOfArgs = 0, m_paramTypes = [],
        m_resolution = ''Try the operation again using an If-Match or If-None-Match header and appropriate ETag.''\<rparr>),
     (''PropertyDeprecated'',
       \<lparr>m_description = ''Indicates the property is deprecated.'',
        m_message = ''The deprecated property %1 was included in the request body.'',
        m_messageSeverity = ''Warning'', m_numberOfArgs = 1, m_paramTypes = [''string''],
        m_resolution = ''Refer to the schema guide for more information.''\<rparr>),
     (''PropertyDuplicate'',
       \<lparr>m_description = ''Indicates that a duplicate property was included in the request body.'',
        m_message = ''The property %1 was duplicated in the request.'',
        m_messageSeverity = ''Warning'', m_numberOfArgs = 1, m_paramTypes = [''string''],
        m_resolution = ''Remove the duplicate property from the request body and resubmit the request if the operation failed.''\<rparr>),
     (''PropertyMissing'',
       \<lparr>m_description = ''Indicates that a required property was not supplied as part of the request.'',
        m_message = ''The property %1 is a required property and must be included in the request.'',
        m_messageSeverity = ''Warning'', m_numberOfArgs = 1, m_paramTypes = [''string''],
        m_resolution = ''Ensure that the property is in the request body and has a valid value and resubmit the request if the operation failed.''\<rparr>),
     (''PropertyNotUpdated'',
       \<lparr>m_description = ''Indicates that a property was not updated due to an internal service error, but the service is still functional.'',
        m_message = ''The property %1 was not updated due to an internal service error.  The service is still operational.'',
        m_messageSeverity = ''Critical'', m_numberOfArgs = 1, m_paramTypes = [''string''],
        m_resolution = ''Resubmit the request.  If the problem persists, check for additional messages and consider resetting the service.''\<rparr>),
     (''PropertyNotWritable'',
       \<lparr>m_description = ''Indicates that a property was given a value in the request body, but the property is a readonly property.'',
        m_message = ''The property %1 is a read only property and cannot be assigned a value.'',
        m_messageSeverity = ''Warning'', m_numberOfArgs = 1, m_paramTypes = [''string''],
        m_resolution = ''Remove the property from the request body and resubmit the request if the operation failed.''\<rparr>),
     (''PropertyUnknown'',
       \<lparr>m_description = ''Indicates that an unknown property was included in the request body.'',
        m_message = ''The property %1 is not in the list of valid properties for the resource.'',
        m_messageSeverity = ''Warning'', m_numberOfArgs = 1, m_paramTypes = [''string''],
        m_resolution = ''Remove the unknown property from the request body and resubmit the request if the operation failed.''\<rparr>)]"

definition base_registry_6 :: "message_entry list" where
  "base_registry_6 =
    [(''PropertyValueConflict'',
       \<lparr>m_description = ''Indicates that the requested write of a property value could not be completed, because of a conflict with another property value.'',
        m_message = ''The property '%1' could not be written because its value would conflict with the value of the '%2' property.'',
        m_messageSeverity = ''Warning'', m_numberOfArgs = 2, m_paramTypes = [''string'', ''string''],
        m_resolution = ''No resolution is required.''\<rparr>),
     (''PropertyValueDeprecated'',
       \<lparr>m_description = ''Indicates that a property was given a deprecated value.'',
        m_message = ''The value '%1' for the property %2 is deprecated.'',
        m_messageSeverity = ''Warning'', m_numberOfArgs = 2, m_paramTypes = [''string'', ''string''],
        m_resolution = ''Refer to the schema guide for more information.''\<rparr>),
     (''PropertyValueError'',
       \<lparr>m_description = ''Indicates that a property was given an invalid value.'',
        m_message = ''The value provided for the property %1 is not valid.'',
        m_messageSeverity = ''Warning'', m_numberOfArgs = 1, m_paramTypes = [''string''],
        m_resolution = ''Correct the value for the property in the request body and resubmit the request if the operation failed.''\<rparr>),
     (''PropertyValueExternalConflict'',
       \<lparr>m_description = ''Indicates that the requested write of a property value could not be completed, due to the current state or configuration of the resource.  This can include configuration conflicts with other resources or parameters that are not exposed by this interface.'',
        m_message = ''The property '%1' with the requested value of '%2' could not be written because the value is not available due to a configuration conflict.'',
        m_messageSeverity = ''Warning'', m_numberOfArgs = 2, m_paramTypes = [''string'', ''string''],
        m_resolution = ''No resolution is required.''\<rparr>),
     (''PropertyValueFormatError'',
       \<lparr>m_description = ''Indicates that a property was given the correct value type but the value of that property was not supported.'',
        m_message = ''The value '%1' for the property %2 is of a different format than the property can accept.'',
        m_messageSeverity = ''Warning'', m_numberOfArgs = 2, m_paramTypes = [''string'', ''string''],
        m_resolution = ''Correct the value for the property in the request body and resubmit the request if the operation failed.''\<rparr>),
     (''PropertyValueIncorrect'',
       \<lparr>m_description = ''Indicates that the requested write of a property value could not be completed, because of an incorrect value of the property.  Examples include values that do not match a regular expression requirement or passwords that do not match the implementation constraints.'',
        m_message = ''The property '%1' with the requested value of '%2' could not be written because the value does not meet the constraints of the implementation.'',
        m_messageSeverity = ''Warning'', m_numberOfArgs = 2, m_paramTypes = [''string'', ''string''],
        m_resolution = ''No resolution is required.''\<rparr>),
     (''PropertyValueModified'',
       \<lparr>m_description = ''Indicates that a property was given the correct value type but the value of that property was modified.  Examples are truncated or rounded values.'',
        m_message = ''The property %1 was assigned the value '%2' due to modification by the service.'',
        m_messageSeverity = ''Warning'', m_numberOfArgs = 2, m_paramTypes = [''string'', ''string''],
        m_resolution = ''No resolution is required.''\<rparr>),
     (''PropertyValueNotInList'',
       \<lparr>m_description = ''Indicates that a property was given the correct value type but the value of that property was not supported.  The value is not in an enumeration.'',
        m_message = ''The value '%1' for the property %2 is not in the list of acceptable values.'',
        m_messageSeverity = ''Warning'', m_numberOfArgs = 2, m_paramTypes = [''string'', ''string''],
        m_resolution = ''Choose a value from the enumeration list that the implementation can support and resubmit the request if the operation failed.''\<rparr>),
     (''PropertyValueOutOfRange'',
       \<lparr>m_description = ''Indicates that a property was given the correct value type but the value of that property is outside the supported range.'',
        m_message = ''The value '%1' for the property %2 is not in the supported range of acceptable values.'',
        m_messageSeverity = ''Warning'', m_numberOfArgs = 2, m_paramTypes = [''string'', ''string''],
        m_resolution = ''Correct the value for the property in the request body and resubmit the request if the operation failed.''\<rparr>),
     (''PropertyValueResourceConflict'',
       \<lparr>m_description = ''Indicates that the requested write of a property value could not be completed, due to the current state or configuration of another resource.'',
        m_message = ''The property '%1' with the requested value of '%2' could not be written because the value conflicts with the state or configuration of the resource at '%3'.'',
        m_messageSeverity = ''Warning'', m_numberOfArgs = 3, m_paramTypes = [''string'', ''string'', ''string''],
        m_resolution = ''No resolution is required.''\<rparr>)]"

definition base_registry_7 :: "message_entry list" where
  "base_registry_7 =
    [(''PropertyValueTypeError'',
       \<lparr>m_description = ''Indicates that a property was given the wrong value type, such as when a number is supplied for a property that requires a string.'',
        m_message = ''The value '%1' for the property %2 is of a different type than the property can accept.'',
        m_messageSeverity = ''Warning'', m_numberOfArgs = 2, m_paramTypes = [''string'', ''string''],
        m_resolution = ''Correct the value for the property in the request body and resubmit the request if the operation failed.''\<rparr>),
     (''QueryCombinationInvalid'',
       \<lparr>m_description = ''Indicates the request contains multiple query parameters, and that two or more of them cannot be used together.'',
        m_message = ''Two or more query parameters in the request cannot be used together.'',
        m_messageSeverity = ''Warning'', m_numberOfArgs = 0, m_paramTypes = [],
        m_resolution = ''Remove one or more of the query parameters and resubmit the request if the operation failed.''\<rparr>),
     (''QueryNotSupported'',
       \<lparr>m_description = ''Indicates that query is not supported on the implementation.'',
        m_message = ''Querying is not supported by the implementation.'',
        m_messageSeverity = ''Warning'', m_numberOfArgs = 0, m_paramTypes = [],
        m_resolution = ''Remove the query parameters and resubmit the request if the operation failed.''\<rparr>),
     (''QueryNotSupportedOnOperation'',
       \<lparr>m_description = ''Indicates that query is not supported with the given operation, such as when the `$expand` query is attempted with a PATCH operation.'',
        m_message = ''Querying is not supported with the requested operation.'',
        m_messageSeverity = ''Warning'', m_numberOfArgs = 0, m_paramTypes = [],
        m_resolution = ''Remove the query parameters and resubmit the request if the operation failed.''\<rparr>),
     (''QueryNotSupportedOnResource'',
       \<lparr>m_description = ''Indicates that query is not supported on the given resource, such as when the `$skip` query is attempted on a resource that is not a collection.'',
        m_message = ''Querying is not supported on the requested resource.'',
        m_messageSeverity = ''Warning'', m_numberOfArgs = 0, m_paramTypes = [],
        m_resolution = ''Remove the query parameters and resubmit the request if the operation failed.''\<rparr>),
     (''QueryParameterOutOfRange'',
       \<lparr>m_description = ''Indicates that a query parameter was provided that is out of range for the given resource.  This can happen with values that are too low or beyond that possible for the supplied resource, such as when a page is requested that is beyond the last page.'',
        m_message = ''The value '%1' for the query parameter %2 is out of range %3.'',
        m_messageSeverity = ''Warning'', m_numberOfArgs = 3, m_paramTypes = [''string'', ''string'', ''string''],
        m_resolution = ''Reduce the value for the query parameter to a value that is within range, such as a start or count value that is within bounds of the number of resources in a collection or a page that is within the range of valid pages.''\<rparr>),
     (''QueryParameterUnsupported'',
       \<lparr>m_description = ''Indicates that a query parameter is not supported.'',
        m_message = ''Query parameter '%1' is not supported.'',
        m_messageSeverity = ''Warning'', m_numberOfArgs = 1, m_paramTypes = [''string''],
        m_resolution = ''Correct or remove the query parameter and resubmit the request.''\<rparr>),
     (''QueryParameterValueError'',
       \<lparr>m_description = ''Indicates that a query parameter was given an invalid value.'',
        m_message = ''The value for the parameter %1 is invalid.'',
        m_messageSeverity = ''Warning'', m_numberOfArgs = 1, m_paramTypes = [''string''],
        m_resolution = ''Correct the value for the query parameter in the request and resubmit the request if the operation failed.''\<rparr>),
     (''QueryParameterValueFormatError'',
       \<lparr>m_description = ''Indicates that a query parameter was given the correct value type but the value of that parameter was not supported.  This includes the value size or length has been exceeded.'',
        m_message = ''The value '%1' for the parameter %2 is of a different format than the parameter can accept.'',
        m_messageSeverity = ''Warning'', m_numberOfArgs = 2, m_paramTypes = [''string'', ''string''],
        m_resolution = ''Correct the value for the query parameter in the request and resubmit the request if the operation failed.''\<rparr>),
     (''QueryParameterValueTypeError'',
       \<lparr>m_description = ''Indicates that a query parameter was given the wrong value type, such as when a number is supplied for a query parameter that requires a string.'',
        m_message = ''The value '%1' for the query parameter %2 is of a different type than the parameter can accept.'',
        m_messageSeverity = ''Warning'', m_numberOfArgs = 2, m_paramTypes = [''string'', ''string''],
        m_resolution = ''Correct the value for the query parameter in the request and resubmit the request if the operation failed.''\<rparr>)]"

definition base_registry_8 :: "message_entry list" where
  "base_registry_8 =
    [(''ResetRecommended'',
       \<lparr>m_description = ''Indicates that a component reset is recommended for error recovery while unaffected applications can continue running without any effects on accuracy and performance.'',
        m_message = ''In order to recover from errors, a component reset is recommended with the Reset action URI '%1' and ResetType '%2'.'',
        m_messageSeverity = ''Warning'', m_numberOfArgs = 2, m_paramTypes = [''string'', ''string''],
        m_resolution = ''Perform the recommended reset action on the specified component.''\<rparr>),
     (''ResetRequired'',
       \<lparr>m_description = ''Indicates that a component reset is required for changes, error recovery, or operations to complete.'',
        m_message = ''In order to apply changes, recover from errors, or complete the operation, a component reset is required with the Reset action URI '%1' and ResetType '%2'.'',
        m_messageSeverity = ''Warning'', m_numberOfArgs = 2, m_paramTypes = [''string'', ''string''],
        m_resolution = ''Perform the required reset action on the specified component.''\<rparr>),
     (''ResourceAlreadyExists'',
       \<lparr>m_description = ''Indicates that a resource change or creation was attempted but that the operation cannot proceed because the resource already exists.'',
        m_message = ''The requested resource of type %1 with the property %2 with the value '%3' already exists.'',
        m_messageSeverity = ''Critical'', m_numberOfArgs = 3, m_paramTypes = [''string'', ''string'', ''string''],
        m_resolution = ''Do not repeat the create operation as the resource has already been created.''\<rparr>),
     (''ResourceAtUriInUnknownFormat'',
       \<lparr>m_description = ''Indicates that the URI was valid but the resource or image at that URI was in a format not supported by the service.'',
        m_message = ''The resource at '%1' is in a format not recognized by the service.'',
        m_messageSeverity = ''Critical'', m_numberOfArgs = 1, m_paramTypes = [''string''],
        m_resolution = ''Place an image or resource or file that is recognized by the service at the URI.''\<rparr>),
     (''ResourceAtUriUnauthorized'',
       \<lparr>m_description = ''Indicates that the attempt to access the resource, file, or image at the URI was unauthorized.'',
        m_message = ''While accessing the resource at '%1', the service received an authorization error '%2'.'',
        m_messageSeverity = ''Critical'', m_numberOfArgs = 2, m_paramTypes = [''string'', ''string''],
        m_resolution = ''Ensure that the appropriate access is provided for the service in order for it to access the URI.''\<rparr>),
     (''ResourceCannotBeDeleted'',
       \<lparr>m_description = ''Indicates that a delete operation was attempted on a resource that cannot be deleted.'',
        m_message = ''The delete request failed because the resource requested cannot be deleted.'',
        m_messageSeverity = ''Critical'', m_numberOfArgs = 0, m_paramTypes = [],
        m_resolution = ''Do not attempt to delete a non-deletable resource.''\<rparr>),
     (''ResourceCreationConflict'',
       \<lparr>m_description = ''Indicates that the requested resource creation could not be completed because the service has a resource that conflicts with the request.'',
        m_message = ''The resource could not be created.  The service has a resource at URI '%1' that conflicts with the creation request.'',
        m_messageSeverity = ''Warning'', m_numberOfArgs = 1, m_paramTypes = [''string''],
        m_resolution = ''No resolution is required.''\<rparr>),
     (''ResourceDeprecated'',
       \<lparr>m_description = ''Indicates the resource is deprecated.'',
        m_message = ''The operation was performed on a deprecated resource '%1'.'',
        m_messageSeverity = ''Warning'', m_numberOfArgs = 1, m_paramTypes = [''string''],
        m_resolution = ''Refer to the schema guide for more information.''\<rparr>),
     (''ResourceExhaustion'',
       \<lparr>m_description = ''Indicates that a resource could not satisfy the request due to some unavailability of resources.  An example is that available capacity has been allocated.'',
        m_message = ''The resource '%1' was unable to satisfy the request due to unavailability of resources.'',
        m_messageSeverity = ''Critical'', m_numberOfArgs = 1, m_paramTypes = [''string''],
        m_resolution = ''Ensure that the resources are available and resubmit the request.''\<rparr>),
     (''ResourceInStandby'',
       \<lparr>m_description = ''Indicates that the request could not be performed because the resource is in standby.'',
        m_message = ''The request could not be performed because the resource is in standby.'',
        m_messageSeverity = ''Critical'', m_numberOfArgs = 0, m_paramTypes = [],
        m_resolution = ''Ensure that the resource is in the correct power state and resubmit the request.''\<rparr>)]"

definition base_registry_9 :: "message_entry list" where
  "base_registry_9 =
    [(''ResourceInUse'',
       \<lparr>m_description = ''Indicates that a change was requested to a resource but the change was rejected due to the resource being in use or transition.'',
        m_message = ''The change to the requested resource failed because the resource is in use or in transition.'',
        m_messageSeverity = ''Warning'', m_numberOfArgs = 0, m_paramTypes = [],
        m_resolution = ''Remove the condition and resubmit the request if the operation failed.''\<rparr>),
     (''ResourceMissingAtURI'',
       \<lparr>m_description = ''Indicates that the operation expected an image or other resource at the provided URI but none was found.  Examples of this are in requests that require URIs like firmware update.'',
        m_message = ''The resource at the URI '%1' was not found.'',
        m_messageSeverity = ''Critical'', m_numberOfArgs = 1, m_paramTypes = [''string''],
        m_resolution = ''Place a valid resource at the URI or correct the URI and resubmit the request.''\<rparr>),
     (''ResourceNotFound'',
       \<lparr>m_description = ''Indicates that the operation expected a resource identifier that corresponds to an existing resource but one was not found.'',
        m_message = ''The requested resource of type %1 named '%2' was not found.'',
        m_messageSeverity = ''Critical'', m_numberOfArgs = 2, m_paramTypes = [''string'', ''string''],
        m_resolution = ''Provide a valid resource identifier and resubmit the request.''\<rparr>),
     (''ResourceTypeIncompatible'',
       \<lparr>m_description = ''Indicates that the resource type of the operation does not match that for the operation destination.  Examples of when this can happen include during a POST to a resource collection using the wrong resource type, an update where the `@odata.type` properties do not match, or on a major version incompatibility.'',
        m_message = ''The @odata.type of the request body %1 is incompatible with the @odata.type of the resource, which is %2.'',
        m_messageSeverity = ''Critical'', m_numberOfArgs = 2, m_paramTypes = [''string'', ''string''],
        m_resolution = ''Resubmit the request with a payload compatible with the resource's schema.''\<rparr>),
     (''RestrictedPrivilege'',
       \<lparr>m_description = ''Indicates that the operation was not successful because a privilege is restricted.'',
        m_message = ''The operation was not successful because the privilege '%1' is restricted.'',
        m_messageSeverity = ''Warning'', m_numberOfArgs = 1, m_paramTypes = [''string''],
        m_resolution = ''Remove restricted privileges from the request body and resubmit the request.''\<rparr>),
     (''RestrictedRole'',
       \<lparr>m_description = ''Indicates that the operation was not successful because the role is restricted.'',
        m_message = ''The operation was not successful because the role '%1' is restricted.'',
        m_messageSeverity = ''Warning'', m_numberOfArgs = 1, m_paramTypes = [''string''],
        m_resolution = ''No resolution is required.  For standard roles, consider using the role specified in the AlternateRoleId property in the Role resource.''\<rparr>),
     (''ServiceDisabled'',
       \<lparr>m_description = ''Indicates that the operation failed because the service, such as the account service, is disabled and cannot accept requests.'',
        m_message = ''The operation failed because the service at %1 is disabled and cannot accept requests.'',
        m_messageSeverity = ''Warning'', m_numberOfArgs = 1, m_paramTypes = [''string''],
        m_resolution = ''Enable the service and resubmit the request if the operation failed.''\<rparr>),
     (''ServiceInUnknownState'',
       \<lparr>m_description = ''Indicates that the operation failed because the service is in an unknown state and cannot accept additional requests.'',
        m_message = ''The operation failed because the service is in an unknown state and can no longer take incoming requests.'',
        m_messageSeverity = ''Critical'', m_numberOfArgs = 0, m_paramTypes = [],
        m_resolution = ''Restart the service and resubmit the request if the operation failed.''\<rparr>),
     (''ServiceShuttingDown'',
       \<lparr>m_description = ''Indicates that the operation failed as the service is shutting down, such as when the service reboots.'',
        m_message = ''The operation failed because the service is shutting down and can no longer take incoming requests.'',
        m_messageSeverity = ''Critical'', m_numberOfArgs = 0, m_paramTypes = [],
        m_resolution = ''When the service becomes available, resubmit the request if the operation failed.''\<rparr>),
     (''ServiceTemporarilyUnavailable'',
       \<lparr>m_description = ''Indicates the service is temporarily unavailable.'',
        m_message = ''The service is temporarily unavailable.  Retry in %1 seconds.'',
        m_messageSeverity = ''Critical'', m_numberOfArgs = 1, m_paramTypes = [''string''],
        m_resolution = ''Wait for the indicated retry duration and retry the operation.''\<rparr>)]"

definition base_registry_10 :: "message_entry list" where
  "base_registry_10 =
    [(''SessionLimitExceeded'',
       \<lparr>m_description = ''Indicates that a session establishment has been requested but the operation failed due to the number of simultaneous sessions exceeding the limit of the implementation.'',
        m_message = ''The session establishment failed due to the number of simultaneous sessions exceeding the limit of the implementation.'',
        m_messageSeverity = ''Critical'', m_numberOfArgs = 0, m_paramTypes = [],
        m_resolution = ''Reduce the number of other sessions before trying to establish the session or increase the limit of simultaneous sessions, if supported.''\<rparr>),
     (''SessionTerminated'',
       \<lparr>m_description = ''Indicates that the DELETE operation on the session resource resulted in the successful termination of the session.'',
        m_message = ''The session was successfully terminated.'',
        m_messageSeverity = ''OK'', m_numberOfArgs = 0, m_paramTypes = [],
        m_resolution = ''No resolution is required.''\<rparr>),
     (''SourceDoesNotSupportProtocol'',
       \<lparr>m_description = ''Indicates that while attempting to access, connect to or transfer a resource, file, or image from another location that the other end of the connection did not support the protocol.'',
        m_message = ''The other end of the connection at '%1' does not support the specified protocol %2.'',
        m_messageSeverity = ''Critical'', m_numberOfArgs = 2, m_paramTypes = [''string'', ''string''],
        m_resolution = ''Change protocols or URIs.''\<rparr>),
     (''StrictAccountTypes'',
       \<lparr>m_description = ''Indicates the request failed because a set of `AccountTypes` or `OEMAccountTypes` was not accepted while `StrictAccountTypes` is set to `true`.'',
        m_message = ''The request was not possible to fulfill with the account types included in property '%1' and property StrictAccountTypes set to true.'',
        m_messageSeverity = ''Warning'', m_numberOfArgs = 1, m_paramTypes = [''string''],
        m_resolution = ''Resubmit the request either with an acceptable set of AccountTypes and OEMAccountTypes or with StrictAccountTypes set to false.''\<rparr>),
     (''StringValueTooLong'',
       \<lparr>m_description = ''Indicates that a string value passed to the given resource exceeded its length limit.  An example is when a shorter limit is imposed by an implementation than that allowed by the specification.'',
        m_message = ''The string '%1' exceeds the length limit %2.'',
        m_messageSeverity = ''Warning'', m_numberOfArgs = 2, m_paramTypes = [''string'', ''number''],
        m_resolution = ''Resubmit the request with an appropriate string length.''\<rparr>),
     (''StringValueTooShort'',
       \<lparr>m_description = ''Indicates that a string value passed to the given resource was under its minimum required length.  An example is when a higher minimum length is imposed by an implementation than that allowed by the specification.'',
        m_message = ''The string '%1' was under the minimum required length %2.'',
        m_messageSeverity = ''Warning'', m_numberOfArgs = 2, m_paramTypes = [''string'', ''number''],
        m_resolution = ''Resubmit the request with an appropriate string length.''\<rparr>),
     (''SubscriptionTerminated'',
       \<lparr>m_description = ''An event subscription has been terminated by the service.  No further events will be delivered.'',
        m_message = ''The event subscription has been terminated.'',
        m_messageSeverity = ''OK'', m_numberOfArgs = 0, m_paramTypes = [],
        m_resolution = ''No resolution is required.''\<rparr>),
     (''Success'',
       \<lparr>m_description = ''Indicates that all conditions of a successful operation have been met.'',
        m_message = ''The request completed successfully.'',
        m_messageSeverity = ''OK'', m_numberOfArgs = 0, m_paramTypes = [],
        m_resolution = ''None''\<rparr>),
     (''UndeterminedFault'',
       \<lparr>m_description = ''Indicates that a fault or error condition exists but the source of the fault cannot be determined or is unknown to the service.'',
        m_message = ''A undetermined fault condition has been reported by '%1'.'',
        m_messageSeverity = ''Critical'', m_numberOfArgs = 1, m_paramTypes = [''string''],
        m_resolution = ''None.''\<rparr>),
     (''UnrecognizedRequestBody'',
       \<lparr>m_description = ''Indicates that the service encountered an unrecognizable request body that could not even be interpreted as malformed JSON.'',
        m_message = ''The service detected a malformed request body that it was unable to interpret.'',
        m_messageSeverity = ''Warning'', m_numberOfArgs = 0, m_paramTypes = [],
        m_resolution = ''Correct the request body and resubmit the request if it failed.''\<rparr>)]"

definition base_registry :: "message_entry list" where
  "base_registry =
     base_registry_0 @ base_registry_1 @ base_registry_2 @ base_registry_3 @ base_registry_4 @ base_registry_5 @ base_registry_6 @ base_registry_7 @ base_registry_8 @ base_registry_9 @ base_registry_10"

text \<open>The enumerators of \<open>enum class Index\<close>, by their values.\<close>

type_synonym Index = nat

definition I_accessDenied :: Index where "I_accessDenied = 0"

definition I_accountForSessionNoLongerExists :: Index where "I_accountForSessionNoLongerExists = 1"

definition I_accountModified :: Index where "I_accountModified = 2"

definition I_accountNotModified :: Index where "I_accountNotModified = 3"

definition I_accountRemoved :: Index where "I_accountRemoved = 4"

definition I_actionDeprecated :: Index where "I_actionDeprecated = 5"

definition I_actionNotSupported :: Index where "I_actionNotSupported = 6"

definition I_actionParameterDuplicate :: Index where "I_actionParameterDuplicate = 7"

definition I_actionParameterMissing :: Index where "I_actionParameterMissing = 8"

definition I_actionParameterNotSupported :: Index where "I_actionParameterNotSupported = 9"

definition I_actionParameterUnknown :: Index where "I_actionParameterUnknown = 10"

definition I_actionParameterValueConflict :: Index where "I_actionParameterValueConflict = 11"

definition I_actionParameterValueError :: Index where "I_actionParameterValueError = 12"

definition I_actionParameterValueFormatError :: Index where "I_actionParameterValueFormatError = 13"

definition I_actionParameterValueNotInList :: Index where "I_actionParameterValueNotInList = 14"

definition I_actionParameterValueTypeError :: Index where "I_actionParameterValueTypeError = 15"

definition I_arraySizeTooLong :: Index where "I_arraySizeTooLong = 16"

definition I_arraySizeTooShort :: Index where "I_arraySizeTooShort = 17"

definition I_authenticationTokenRequired :: Index where "I_authenticationTokenRequired = 18"

definition I_chassisPowerStateOffRequired :: Index where "I_chassisPowerStateOffRequired = 19"

definition I_chassisPowerStateOnRequired :: Index where "I_chassisPowerStateOnRequired = 20"

definition I_conditionInRelatedResource :: Index where "I_conditionInRelatedResource = 21"

definition I_couldNotEstablishConnection :: Index where "I_couldNotEstablishConnection = 22"

definition I_createFailedMissingReqProperties :: Index where "I_createFailedMissingReqProperties = 23"

definition I_createLimitReachedForResource :: Index where "I_createLimitReachedForResource = 24"

definition I_created :: Index where "I_created = 25"

definition I_emptyJSON :: Index where "I_emptyJSON = 26"

definition I_eventBufferExceeded :: Index where "I_eventBufferExceeded = 27"

definition I_eventSubscriptionLimitExceeded :: Index where "I_eventSubscriptionLimitExceeded = 28"

definition I_generalError :: Index where "I_generalError = 29"

definition I_headerInvalid :: Index where "I_headerInvalid = 30"

definition I_headerMissing :: Index where "I_headerMissing = 31"

definition I_insufficientPrivilege :: Index where "I_insufficientPrivilege = 32"

definition I_insufficientStorage :: Index where "I_insufficientStorage = 33"

definition I_internalError :: Index where "I_internalError = 34"

definition I_invalidIndex :: Index where "I_invalidIndex = 35"

definition I_invalidJSON :: Index where "I_invalidJSON = 36"

definition I_invalidObject :: Index where "I_invalidObject = 37"

definition I_invalidURI :: Index where "I_invalidURI = 38"

definition I_licenseRequired :: Index where "I_licenseRequired = 39"

definition I_malformedJSON :: Index where "I_malformedJSON = 40"

definition I_maximumErrorsExceeded :: Index where "I_maximumErrorsExceeded = 41"

definition I_missingOrMalformedPart :: Index where "I_missingOrMalformedPart = 42"

definition I_networkNameResolutionNotConfigured :: Index where "I_networkNameResolutionNotConfigured = 43"

definition I_networkNameResolutionNotSupported :: Index where "I_networkNameResolutionNotSupported = 44"

definition I_noOperation :: Index where "I_noOperation = 45"

definition I_noValidSession :: Index where "I_noValidSession = 46"

definition I_operationFailed :: Index where "I_operationFailed = 47"

definition I_operationNotAllowed :: Index where "I_operationNotAllowed = 48"

definition I_operationTimeout :: Index where "I_operationTimeout = 49"

definition I_passwordChangeRequired :: Index where "I_passwordChangeRequired = 50"

definition I_payloadTooLarge :: Index where "I_payloadTooLarge = 51"

definition I_preconditionFailed :: Index where "I_preconditionFailed = 52"

definition I_preconditionRequired :: Index where "I_preconditionRequired = 53"

definition I_propertyDeprecated :: Index where "I_propertyDeprecated = 54"

definition I_propertyDuplicate :: Index where "I_propertyDuplicate = 55"

definition I_propertyMissing :: Index where "I_propertyMissing = 56"

definition I_propertyNotUpdated :: Index where "I_propertyNotUpdated = 57"

definition I_propertyNotWritable :: Index where "I_propertyNotWritable = 58"

definition I_propertyUnknown :: Index where "I_propertyUnknown = 59"

definition I_propertyValueConflict :: Index where "I_propertyValueConflict = 60"

definition I_propertyValueDeprecated :: Index where "I_propertyValueDeprecated = 61"

definition I_propertyValueError :: Index where "I_propertyValueError = 62"

definition I_propertyValueExternalConflict :: Index where "I_propertyValueExternalConflict = 63"

definition I_propertyValueFormatError :: Index where "I_propertyValueFormatError = 64"

definition I_propertyValueIncorrect :: Index where "I_propertyValueIncorrect = 65"

definition I_propertyValueModified :: Index where "I_propertyValueModified = 66"

definition I_propertyValueNotInList :: Index where "I_propertyValueNotInList = 67"

definition I_propertyValueOutOfRange :: Index where "I_propertyValueOutOfRange = 68"

definition I_propertyValueResourceConflict :: Index where "I_propertyValueResourceConflict = 69"

definition I_propertyValueTypeError :: Index where "I_propertyValueTypeError = 70"

definition I_queryCombinationInvalid :: Index where "I_queryCombinationInvalid = 71"

definition I_queryNotSupported :: Index where "I_queryNotSupported = 72"

definition I_queryNotSupportedOnOperation :: Index where "I_queryNotSupportedOnOperation = 73"

definition I_queryNotSupportedOnResource :: Index where "I_queryNotSupportedOnResource = 74"

definition I_queryParameterOutOfRange :: Index where "I_queryParameterOutOfRange = 75"

definition I_queryParameterUnsupported :: Index where "I_queryParameterUnsupported = 76"

definition I_queryParameterValueError :: Index where "I_queryParameterValueError = 77"

definition I_queryParameterValueFormatError :: Index where "I_queryParameterValueFormatError = 78"

definition I_queryParameterValueTypeError :: Index where "I_queryParameterValueTypeError = 79"

definition I_resetRecommended :: Index where "I_resetRecommended = 80"

definition I_resetRequired :: Index where "I_resetRequired = 81"

definition I_resourceAlreadyExists :: Index where "I_resourceAlreadyExists = 82"

definition I_resourceAtUriInUnknownFormat :: Index where "I_resourceAtUriInUnknownFormat = 83"

definition I_resourceAtUriUnauthorized :: Index where "I_resourceAtUriUnauthorized = 84"

definition I_resourceCannotBeDeleted :: Index where "I_resourceCannotBeDeleted = 85"

definition I_resourceCreationConflict :: Index where "I_resourceCreationConflict = 86"

definition I_resourceDeprecated :: Index where "I_resourceDeprecated = 87"

definition I_resourceExhaustion :: Index where "I_resourceExhaustion = 88"

definition I_resourceInStandby :: Index where "I_resourceInStandby = 89"

definition I_resourceInUse :: Index where "I_resourceInUse = 90"

definition I_resourceMissingAtURI :: Index where "I_resourceMissingAtURI = 91"

definition I_resourceNotFound :: Index where "I_resourceNotFound = 92"

definition I_resourceTypeIncompatible :: Index where "I_resourceTypeIncompatible = 93"

definition I_restrictedPrivilege :: Index where "I_restrictedPrivilege = 94"

definition I_restrictedRole :: Index where "I_restrictedRole = 95"

definition I_serviceDisabled :: Index where "I_serviceDisabled = 96"

definition I_serviceInUnknownState :: Index where "I_serviceInUnknownState = 97"

definition I_serviceShuttingDown :: Index where "I_serviceShuttingDown = 98"

definition I_serviceTemporarilyUnavailable :: Index where "I_serviceTemporarilyUnavailable = 99"

definition I_sessionLimitExceeded :: Index where "I_sessionLimitExceeded = 100"

definition I_sessionTerminated :: Index where "I_sessionTerminated = 101"

definition I_sourceDoesNotSupportProtocol :: Index where "I_sourceDoesNotSupportProtocol = 102"

definition I_strictAccountTypes :: Index where "I_strictAccountTypes = 103"

definition I_stringValueTooLong :: Index where "I_stringValueTooLong = 104"

definition I_stringValueTooShort :: Index where "I_stringValueTooShort = 105"

definition I_subscriptionTerminated :: Index where "I_subscriptionTerminated = 106"

definition I_success :: Index where "I_success = 107"

definition I_undeterminedFault :: Index where "I_undeterminedFault = 108"

definition I_unrecognizedRequestBody :: Index where "I_unrecognizedRequestBody = 109"

section \<open>Columns\<close>

lemmas base_registry_defs =
  base_registry_0_def base_registry_1_def base_registry_2_def base_registry_3_def base_registry_4_def
  base_registry_5_def base_registry_6_def base_registry_7_def base_registry_8_def base_registry_9_def
  base_registry_10_def

lemmas Index_defs =
  I_accessDenied_def I_accountForSessionNoLongerExists_def I_accountModified_def
  I_accountNotModified_def I_accountRemoved_def I_actionDeprecated_def
  I_actionNotSupported_def I_actionParameterDuplicate_def I_actionParameterMissing_def
  I_actionParameterNotSupported_def I_actionParameterUnknown_def I_actionParameterValueConflict_def
  I_actionParameterValueError_def I_actionParameterValueFormatError_def I_actionParameterValueNotInList_def
  I_actionParameterValueTypeError_def I_arraySizeTooLong_def I_arraySizeTooShort_def
  I_authenticationTokenRequired_def I_chassisPowerStateOffRequired_def I_chassisPowerStateOnRequired_def
  I_conditionInRelatedResource_def I_couldNotEstablishConnection_def I_createFailedMissingReqProperties_def
  I_createLimitReachedForResource_def I_created_def I_emptyJSON_def
  I_eventBufferExceeded_def I_eventSubscriptionLimitExceeded_def I_generalError_def
  I_headerInvalid_def I_headerMissing_def I_insufficientPrivilege_def
  I_insufficientStorage_def I_internalError_def I_invalidIndex_def
  I_invalidJSON_def I_invalidObject_def I_invalidURI_def
  I_licenseRequired_def I_malformedJSON_def I_maximumErrorsExceeded_def
  I_missingOrMalformedPart_def I_networkNameResolutionNotConfigured_def I_networkNameResolutionNotSupported_def
  I_noOperation_def I_noValidSession_def I_operationFailed_def
  I_operationNotAllowed_def I_operationTimeout_def I_passwordChangeRequired_def
  I_payloadTooLarge_def I_preconditionFailed_def I_preconditionRequired_def
  I_propertyDeprecated_def I_propertyDuplicate_def I_propertyMissing_def
  I_propertyNotUpdated_def I_propertyNotWritable_def I_propertyUnknown_def
  I_propertyValueConflict_def I_propertyValueDeprecated_def I_propertyValueError_def
  I_propertyValueExternalConflict_def I_propertyValueFormatError_def I_propertyValueIncorrect_def
  I_propertyValueModified_def I_propertyValueNotInList_def I_propertyValueOutOfRange_def
  I_propertyValueResourceConflict_def I_propertyValueTypeError_def I_queryCombinationInvalid_def
  I_queryNotSupported_def I_queryNotSupportedOnOperation_def I_queryNotSupportedOnResource_def
  I_queryParameterOutOfRange_def I_queryParameterUnsupported_def I_queryParameterValueError_def
  I_queryParameterValueFormatError_def I_queryParameterValueTypeError_def I_resetRecommended_def
  I_resetRequired_def I_resourceAlreadyExists_def I_resourceAtUriInUnknownFormat_def
  I_resourceAtUriUnauthorized_def I_resourceCannotBeDeleted_def I_resourceCreationConflict_def
  I_resourceDeprecated_def I_resourceExhaustion_def I_resourceInStandby_def
  I_resourceInUse_def I_resourceMissingAtURI_def I_resourceNotFound_def
  I_resourceTypeIncompatible_def I_restrictedPrivilege_def I_restrictedRole_def
  I_serviceDisabled_def I_serviceInUnknownState_def I_serviceShuttingDown_def
  I_serviceTemporarilyUnavailable_def I_sessionLimitExceeded_def I_sessionTerminated_def
  I_sourceDoesNotSupportProtocol_def I_strictAccountTypes_def I_stringValueTooLong_def
  I_stringValueTooShort_def I_subscriptionTerminated_def I_success_def
  I_undeterminedFault_def I_unrecognizedRequestBody_def

text \<open>The number of arguments of every entry, in order.\<close>

definition base_arg_counts :: "nat list" where
  "base_arg_counts =
     [1, 0, 0, 0, 0, 1, 1, 2, 2, 2, 2, 2, 2, 3, 3, 3, 2, 2, 0, 1, 1, 0, 1, 1, 0,
      0, 0, 0, 0, 0, 1, 1, 0, 0, 0, 1, 1, 1, 1, 1, 0, 0, 0, 0, 0, 0, 0, 0, 0, 0,
      1, 0, 0, 0, 1, 1, 1, 1, 1, 1, 2, 2, 1, 2, 2, 2, 2, 2, 2, 3, 2, 0, 0, 0, 0,
      3, 1, 1, 2, 2, 2, 2, 3, 1, 2, 0, 1, 1, 1, 0, 0, 1, 2, 2, 1, 1, 1, 0, 0, 1,
      0, 0, 2, 1, 2, 2, 0, 0, 1, 0]"

lemma base_registry_args: "map (\<lambda>e. m_numberOfArgs (snd e)) base_registry = base_arg_counts"
  by (simp add: base_registry_def base_registry_defs base_arg_counts_def)

lemma length_base_registry: "length base_registry = 110"
  by (simp add: base_registry_def base_registry_defs)

definition base_names :: "string list" where
  "base_names =
     [''AccessDenied'', ''AccountForSessionNoLongerExists'',
      ''AccountModified'', ''AccountNotModified'',
      ''AccountRemoved'', ''ActionDeprecated'',
      ''ActionNotSupported'', ''ActionParameterDuplicate'',
      ''ActionParameterMissing'', ''ActionParameterNotSupported'',
      ''ActionParameterUnknown'', ''ActionParameterValueConflict'',
      ''ActionParameterValueError'', ''ActionParameterValueFormatError'',
      ''ActionParameterValueNotInList'', ''ActionParameterValueTypeError'',
      ''ArraySizeTooLong'', ''ArraySizeTooShort'',
      ''AuthenticationTokenRequired'', ''ChassisPowerStateOffRequired'',
      ''ChassisPowerStateOnRequired'', ''ConditionInRelatedResource'',
      ''CouldNotEstablishConnection'', ''CreateFailedMissingReqProperties'',
      ''CreateLimitReachedForResource'', ''Created'',
      ''EmptyJSON'', ''EventBufferExceeded'',
      ''EventSubscriptionLimitExceeded'', ''GeneralError'',
      ''HeaderInvalid'', ''HeaderMissing'',
      ''InsufficientPrivilege'', ''InsufficientStorage'',
      ''InternalError'', ''InvalidIndex'',
      ''InvalidJSON'', ''InvalidObject'',
      ''InvalidURI'', ''LicenseRequired'',
      ''MalformedJSON'', ''MaximumErrorsExceeded'',
      ''MissingOrMalformedPart'', ''NetworkNameResolutionNotConfigured'',
      ''NetworkNameResolutionNotSupported'', ''NoOperation'',
      ''NoValidSession'', ''OperationFailed'',
      ''OperationNotAllowed'', ''OperationTimeout'',
      ''PasswordChangeRequired'', ''PayloadTooLarge'',
      ''PreconditionFailed'', ''PreconditionRequired'',
      ''PropertyDeprecated'', ''PropertyDuplicate'',
      ''PropertyMissing'', ''PropertyNotUpdated'',
      ''PropertyNotWritable'', ''PropertyUnknown'',
      ''PropertyValueConflict'', ''PropertyValueDeprecated'',
      ''PropertyValueError'', ''PropertyValueExternalConflict'',
      ''PropertyValueFormatError'', ''PropertyValueIncorrect'',
      ''PropertyValueModified'', ''PropertyValueNotInList'',
      ''PropertyValueOutOfRange'', ''PropertyValueResourceConflict'',
      ''PropertyValueTypeError'', ''QueryCombinationInvalid'',
      ''QueryNotSupported'', ''QueryNotSupportedOnOperation'',
      ''QueryNotSupportedOnResource'', ''QueryParameterOutOfRange'',
      ''QueryParameterUnsupported'', ''QueryParameterValueError'',
      ''QueryParameterValueFormatError'', ''QueryParameterValueTypeError'',
      ''ResetRecommended'', ''ResetRequired'',
      ''ResourceAlreadyExists'', ''ResourceAtUriInUnknownFormat'',
      ''ResourceAtUriUnauthorized'', ''ResourceCannotBeDeleted'',
      ''ResourceCreationConflict'', ''ResourceDeprecated'',
      ''ResourceExhaustion'', ''ResourceInStandby'',
      ''ResourceInUse'', ''ResourceMissingAtURI'',
      ''ResourceNotFound'', ''ResourceTypeIncompatible'',
      ''RestrictedPrivilege'', ''RestrictedRole'',
      ''ServiceDisabled'', ''ServiceInUnknownState'',
      ''ServiceShuttingDown'', ''ServiceTemporarilyUnavailable'',
      ''SessionLimitExceeded'', ''SessionTerminated'',
      ''SourceDoesNotSupportProtocol'', ''StrictAccountTypes'',
      ''StringValueTooLong'', ''StringValueTooShort'',
      ''SubscriptionTerminated'', ''Success'',
      ''UndeterminedFault'', ''UnrecognizedRequestBody'']"

lemma base_registry_names: "map fst base_registry = base_names"
  by (simp add: base_registry_def base_registry_defs base_names_def)

end
