(* ===== verification/Registry.thy ===== *)
theory Registry
  imports Json BaseRegistry "HOL-Library.Sublist"
begin

text \<open>
  The functions of \<open>include/registries.hpp\<close> that turn an entry of a message registry into the
  JSON object of a message: the expansion of the placeholders \<open>%1\<close>, \<open>%2\<close>, ... of a message text
  and the object with the six members of a Redfish message. The specification \<open>expand\<close> reads a
  text character by character; \<open>template_ok\<close> says which texts the expansion is meant for, and the
  lemmas show that every text of the base registry is one of them.
\<close>

section \<open>Expansion of the placeholders\<close>

text \<open>
  One round of the loop finds the next \<open>%\<close>, reads the longest run of digits behind it with
  \<open>std::from_chars\<close> (an error when there is none or its value does not fit in a \<open>size_t\<close>), removes
  one character, and appends the argument with that number, counted from 1; the number 0 wraps to
  the largest \<open>size_t\<close>. The result is empty on an error.
\<close>

lemma dropWhile_shorter: "dropWhile P xs = y # ys \<Longrightarrow> length ys < length xs"
  using length_dropWhile_le [of P xs] by simp

function fillLoop :: "string list \<Rightarrow> string \<Rightarrow> string \<Rightarrow> string" where
  "fillLoop messageArgs ret msg =
     (case dropWhile (\<lambda>c. c \<noteq> CHR ''%'') msg of
        [] \<Rightarrow> ret @ msg
      | p # rest \<Rightarrow>
          (let ret1 = ret @ takeWhile (\<lambda>c. c \<noteq> CHR ''%'') msg;
               ds = takeWhile is_digit rest
           in if ds = [] \<or> 2 ^ 64 \<le> dec_value ds then []
              else let number = (word_of_nat (dec_value ds) :: u64) - 1
                   in if length messageArgs \<le> unat number then []
                      else fillLoop messageArgs (ret1 @ messageArgs ! unat number) (drop 1 rest)))"
  by pat_completeness auto

termination
  by (relation "measure (\<lambda>(a, r, m). length m)") (auto dest: dropWhile_shorter)

declare fillLoop.simps [simp del]

definition fillMessageArgs :: "string list \<Rightarrow> string \<Rightarrow> string" where
  "fillMessageArgs messageArgs msg = fillLoop messageArgs [] msg"

section \<open>What a message text means\<close>

text \<open>
  A text is a template for \<open>n\<close> arguments when every \<open>%\<close> is followed by exactly one digit, between
  1 and \<open>n\<close>. Its expansion replaces \<open>%i\<close> by the \<open>i\<close>-th argument and copies the rest.
\<close>

fun template_ok :: "nat \<Rightarrow> string \<Rightarrow> bool" where
  "template_ok n [] = True"
| "template_ok n (c # cs) =
     (if c = CHR ''%'' then
        (case cs of
           [] \<Rightarrow> False
         | d # ds \<Rightarrow> is_digit d \<and> 1 \<le> digit_val d \<and> digit_val d \<le> n \<and>
                    (case ds of [] \<Rightarrow> True | e # es \<Rightarrow> \<not> is_digit e) \<and> template_ok n ds)
      else template_ok n cs)"

fun expand :: "string list \<Rightarrow> string \<Rightarrow> string" where
  "expand args [] = []"
| "expand args (c # cs) =
     (if c = CHR ''%'' then
        (case cs of [] \<Rightarrow> [] | d # ds \<Rightarrow> args ! (digit_val d - 1) @ expand args ds)
      else c # expand args cs)"

text \<open>The numbers of the arguments a text refers to.\<close>

fun placeholders :: "string \<Rightarrow> nat list" where
  "placeholders [] = []"
| "placeholders (c # cs) =
     (if c = CHR ''%'' then
        (case cs of [] \<Rightarrow> [] | d # ds \<Rightarrow> digit_val d # placeholders ds)
      else placeholders cs)"

lemma fillLoop_plain:
  assumes "c \<noteq> CHR ''%''"
  shows "fillLoop args ret (c # cs) = fillLoop args (ret @ [c]) cs"
proof (cases "dropWhile (\<lambda>c. c \<noteq> CHR ''%'') cs")
  case Nil
  then show ?thesis
    by (subst (1 2) fillLoop.simps) (simp add: assms Nil del: dropWhile_eq_Nil_conv)
next
  case (Cons p rest)
  show ?thesis
    by (subst (1 2) fillLoop.simps) (simp add: assms Cons Let_def)
qed

lemma fillLoop_Nil: "fillLoop args ret [] = ret"
  by (subst fillLoop.simps) simp

lemma digit_val_le9: "is_digit d \<Longrightarrow> digit_val d \<le> 9"
  by (auto simp: is_digit_def digit_val_def less_eq_char_def)

lemma fillLoop_place:
  assumes "is_digit d" "1 \<le> digit_val d" "digit_val d \<le> length args"
    and "case ds of [] \<Rightarrow> True | e # es \<Rightarrow> \<not> is_digit e"
  shows "fillLoop args ret (CHR ''%'' # d # ds)
       = fillLoop args (ret @ args ! (digit_val d - 1)) ds"
proof -
  have tw: "takeWhile is_digit ds = []"
    using assms(4) by (cases ds) auto
  have v: "dec_value [d] = digit_val d"
    using dec_value_snoc [of "[]" d] by simp
  have "(word_of_nat (digit_val d) :: u64) - 1 = word_of_nat (digit_val d - 1)"
    using assms(2) by simp
  then have u: "unat ((word_of_nat (digit_val d) :: u64) - 1) = digit_val d - 1"
    using digit_val_le9 [OF assms(1)] by (simp add: unat_of_nat)
  have lt: "\<not> length args \<le> digit_val d - 1"
    using assms(2,3) by linarith
  show ?thesis
    using digit_val_le9 [OF assms(1)] lt
    by (subst fillLoop.simps) (simp add: Let_def tw v u [simplified] assms(1))
qed

lemma fillLoop_missing:
  assumes "is_digit d" "length args < digit_val d"
    and "case ds of [] \<Rightarrow> True | e # es \<Rightarrow> \<not> is_digit e"
  shows "fillLoop args ret (CHR ''%'' # d # ds) = []"
proof -
  have tw: "takeWhile is_digit ds = []"
    using assms(3) by (cases ds) auto
  have v: "dec_value [d] = digit_val d"
    using dec_value_snoc [of "[]" d] by simp
  have "(word_of_nat (digit_val d) :: u64) - 1 = word_of_nat (digit_val d - 1)"
    using assms(2) by simp
  then have u: "unat ((word_of_nat (digit_val d) :: u64) - 1) = digit_val d - 1"
    using digit_val_le9 [OF assms(1)] by (simp add: unat_of_nat)
  have "length args \<le> digit_val d - 1"
    using assms(2) by linarith
  then show ?thesis
    by (subst fillLoop.simps) (simp add: Let_def tw v u [simplified] assms(1))
qed

theorem fillLoop_expand:
  "template_ok (length args) msg \<Longrightarrow> fillLoop args ret msg = ret @ expand args msg"
proof (induction "length args" msg arbitrary: ret rule: template_ok.induct)
  case (2 c cs)
  show ?case
  proof (cases "c = CHR ''%''")
    case True
    with 2 obtain d ds where cs: "cs = d # ds" and "is_digit d" "1 \<le> digit_val d"
      "digit_val d \<le> length args" "case ds of [] \<Rightarrow> True | e # es \<Rightarrow> \<not> is_digit e"
      "template_ok (length args) ds"
      by (auto split: list.splits)
    then show ?thesis
      using True 2(1) [of d ds] by (simp add: fillLoop_place)
  qed (use 2 in \<open>simp add: fillLoop_plain\<close>)
qed (simp add: fillLoop_Nil)

text \<open>\<open>fillMessageArgs\<close> produces exactly the expansion of a well-formed message text.\<close>

theorem fill_is_expand:
  assumes "template_ok (length args) msg"
  shows "fillMessageArgs args msg = expand args msg"
  using assms by (simp add: fillMessageArgs_def fillLoop_expand)

theorem fill_is_expand_witness:
  "fillMessageArgs [''Foo'', ''Bar''] ''The property %2 of %1.'' = ''The property Bar of Foo.''"
  using fill_is_expand [of "[''Foo'', ''Bar'']" "''The property %2 of %1.''"]
  by (simp add: is_digit_def digit_val_def less_eq_char_def)

section \<open>The message object\<close>

text \<open>
  \<open>registry[index]\<close> on a span is unchecked: an index out of range is undefined behaviour, \<open>None\<close>.
\<close>

definition getLogFromRegistry ::
  "registry_header \<Rightarrow> message_entry list \<Rightarrow> nat \<Rightarrow> string list \<Rightarrow> json_object option" where
  "getLogFromRegistry header registry index args =
     (if length registry \<le> index then None
      else let entry = registry ! index;
               msg = fillMessageArgs args (m_message (snd entry));
               jArgs = JArray (map JString args);
               msgId = h_id header @ ''.'' @ fst entry;
               r0 = [];
               r1 = omap_insert_or_assign ''@odata.type'' (JString ''#Message.v1_1_1.Message'') r0;
               r2 = omap_insert_or_assign ''MessageId'' (JString msgId) r1;
               r3 = omap_insert_or_assign ''Message'' (JString msg) r2;
               r4 = omap_insert_or_assign ''MessageArgs'' jArgs r3;
               r5 = omap_insert_or_assign ''MessageSeverity''
                      (JString (m_messageSeverity (snd entry))) r4;
               r6 = omap_insert_or_assign ''Resolution'' (JString (m_resolution (snd entry))) r5
           in Some r6)"

lemma getLogFromRegistry_eq:
  "index < length registry \<Longrightarrow>
   getLogFromRegistry header registry index args = Some
     [(''@odata.type'', JString ''#Message.v1_1_1.Message''),
      (''Message'', JString (fillMessageArgs args (m_message (snd (registry ! index))))),
      (''MessageArgs'', JArray (map JString args)),
      (''MessageId'', JString (h_id header @ ''.'' @ fst (registry ! index))),
      (''MessageSeverity'', JString (m_messageSeverity (snd (registry ! index)))),
      (''Resolution'', JString (m_resolution (snd (registry ! index))))]"
  by (simp add: getLogFromRegistry_def Let_def less_list_code)


section \<open>The texts of the base registry\<close>

text \<open>An entry is sound when its text is a template that uses exactly its declared arguments.\<close>

definition entry_ok :: "message_entry \<Rightarrow> bool" where
  "entry_ok e \<longleftrightarrow>
     (let msg = m_message (snd e); n = m_numberOfArgs (snd e)
      in msg \<noteq> [] \<and> hd msg \<noteq> CHR ''%'' \<and> template_ok n msg
         \<and> (\<forall>i \<in> set [1..<Suc n]. i \<in> set (placeholders msg)) \<and> length (m_paramTypes (snd e)) = n)"

lemma base_registry_0_ok: "list_all entry_ok base_registry_0"
  by code_simp

lemma base_registry_1_ok: "list_all entry_ok base_registry_1"
  by code_simp

lemma base_registry_2_ok: "list_all entry_ok base_registry_2"
  by code_simp

lemma base_registry_3_ok: "list_all entry_ok base_registry_3"
  by code_simp

lemma base_registry_4_ok: "list_all entry_ok base_registry_4"
  by code_simp

lemma base_registry_5_ok: "list_all entry_ok base_registry_5"
  by code_simp

lemma base_registry_6_ok: "list_all entry_ok base_registry_6"
  by code_simp

lemma base_registry_7_ok: "list_all entry_ok base_registry_7"
  by code_simp

lemma base_registry_8_ok: "list_all entry_ok base_registry_8"
  by code_simp

lemma base_registry_9_ok: "list_all entry_ok base_registry_9"
  by code_simp

lemma base_registry_10_ok: "list_all entry_ok base_registry_10"
  by code_simp

lemmas base_registry_ok =
  base_registry_0_ok base_registry_1_ok base_registry_2_ok base_registry_3_ok base_registry_4_ok
  base_registry_5_ok base_registry_6_ok base_registry_7_ok base_registry_8_ok base_registry_9_ok
  base_registry_10_ok

lemma base_registry_all_ok: "list_all entry_ok base_registry"
  by (simp only: base_registry_def list_all_append base_registry_ok simp_thms)

lemma base_entry_ok: "i < length base_registry \<Longrightarrow> entry_ok (base_registry ! i)"
  using base_registry_all_ok by (simp only: list_all_length)

lemma base_arg_count:
  "i < length base_registry \<Longrightarrow> m_numberOfArgs (snd (base_registry ! i)) = base_arg_counts ! i"
  using base_registry_args by (metis nth_map)

lemma base_name: "i < length base_registry \<Longrightarrow> fst (base_registry ! i) = base_names ! i"
  using base_registry_names by (metis nth_map)

lemma entry_uses_args:
  "entry_ok e \<Longrightarrow> k < m_numberOfArgs (snd e) \<Longrightarrow> Suc k \<in> set (placeholders (m_message (snd e)))"
  unfolding entry_ok_def Let_def by (simp only: set_upt) auto

lemma expand_nonempty: "msg \<noteq> [] \<Longrightarrow> hd msg \<noteq> CHR ''%'' \<Longrightarrow> expand args msg \<noteq> []"
  by (cases msg) auto

lemma sublist_prepend: "sublist a b \<Longrightarrow> sublist a (c @ b)"
  by (metis sublist_append)

lemma expand_contains: "i \<in> set (placeholders msg) \<Longrightarrow> sublist (args ! (i - 1)) (expand args msg)"
proof (induction msg rule: placeholders.induct)
  case (2 c cs)
  show ?case
  proof (cases "c = CHR ''%''")
    case True
    with 2(3) obtain d ds where "cs = d # ds" "i = digit_val d \<or> i \<in> set (placeholders ds)"
      by (auto split: list.splits)
    then show ?thesis
      using True 2(1) by (auto intro: sublist_prepend)
  next
    case False
    then show ?thesis
      using 2 sublist_prepend [of _ "expand args cs" "[c]"] by simp
  qed
qed simp

text \<open>The message a registry entry stands for, with its text expanded.\<close>

definition full_message :: "registry_header \<Rightarrow> message_entry \<Rightarrow> string list \<Rightarrow> json" where
  "full_message header e args = JObject
     [(''@odata.type'', JString ''#Message.v1_1_1.Message''),
      (''Message'', JString (expand args (m_message (snd e)))),
      (''MessageArgs'', JArray (map JString args)),
      (''MessageId'', JString (h_id header @ ''.'' @ fst e)),
      (''MessageSeverity'', JString (m_messageSeverity (snd e))),
      (''Resolution'', JString (m_resolution (snd e)))]"

text \<open>The parts of the property below.\<close>

lemma base_messages_full:
  assumes "index < length base_registry"
    and "length args = m_numberOfArgs (snd (base_registry ! index))"
  shows "map_option JObject (getLogFromRegistry base_header base_registry index args)
           = Some (full_message base_header (base_registry ! index) args)"
  using base_entry_ok [OF assms(1)]
  by (simp add: getLogFromRegistry_eq assms full_message_def fillMessageArgs_def fillLoop_expand
      entry_ok_def Let_def)

lemma base_messages_text:
  assumes "index < length base_registry"
    and "length args = m_numberOfArgs (snd (base_registry ! index))" "a \<in> set args"
  shows "sublist a (expand args (m_message (snd (base_registry ! index))))"
proof -
  obtain k where k: "k < length args" "a = args ! k"
    using assms(3) by (auto simp: in_set_conv_nth)
  then show ?thesis
    using expand_contains [OF entry_uses_args [OF base_entry_ok [OF assms(1)], of k], of args] assms(2)
    by simp
qed

text \<open>
  For every entry of the base registry and as many arguments as it declares, the log entry is
  the full message: its text is expanded, is not empty and contains every argument.
\<close>

theorem base_messages_complete:
  assumes "index < length base_registry"
    and "length args = m_numberOfArgs (snd (base_registry ! index))"
  shows "map_option JObject (getLogFromRegistry base_header base_registry index args)
           = Some (full_message base_header (base_registry ! index) args)
       \<and> expand args (m_message (snd (base_registry ! index))) \<noteq> []
       \<and> (\<forall>a \<in> set args. sublist a (expand args (m_message (snd (base_registry ! index)))))"
  using base_messages_full [OF assms] base_messages_text [OF assms] base_entry_ok [OF assms(1)]
  by (auto simp: entry_ok_def Let_def expand_nonempty)

theorem base_messages_complete_witness:
  "map_option JObject (getLogFromRegistry base_header base_registry I_actionNotSupported [''Reset''])
     = Some (full_message base_header (base_registry ! I_actionNotSupported) [''Reset''])"
  using base_messages_complete [of I_actionNotSupported "[''Reset'']"]
  by (simp add: length_base_registry base_arg_count I_actionNotSupported_def base_arg_counts_def)

end
