(* ===== verification/ErrorJson.thy ===== *)
theory ErrorJson
  imports Registry Response
begin

text \<open>
  The placement of Redfish messages in a JSON value, the functions at the head of
  \<open>redfish_event/src/error_messages.cpp\<close>: in the \<open>error\<close> member, in the root, or beside a
  property. A JSON library call that throws (indexing a value that is neither null nor an object)
  is the value \<open>None\<close>. The specification \<open>carries ms j\<close> says that the \<open>error\<close> member of \<open>j\<close> reports
  exactly the messages \<open>ms\<close>; the lemmas show that the functions append to that list.
\<close>

section \<open>Operations\<close>

definition messageVersionPrefix :: string where
  "messageVersionPrefix = ''Base.1.11.0.''"

definition messageAnnotation :: string where
  "messageAnnotation = ''@Message.ExtendedInfo''"

definition generalErrorText :: string where
  "generalErrorText = ''A general error has occurred. See Resolution for information on how to resolve the error.''"

text \<open>\<open>j[key]\<close> as the value a reference to it reads: a missing member is created as null.\<close>

fun json_index :: "json \<Rightarrow> string \<Rightarrow> json option" where
  "json_index JNull k = Some JNull"
| "json_index (JObject m) k = Some (case omap_find m k of None \<Rightarrow> JNull | Some v \<Rightarrow> v)"
| "json_index j k = None"

text \<open>\<open>field.is_array() ? field : array()\<close>, then \<open>push_back\<close>.\<close>

definition push_to :: "json \<Rightarrow> json \<Rightarrow> json" where
  "push_to field message = (case field of JArray xs \<Rightarrow> JArray (xs @ [message]) | _ \<Rightarrow> JArray [message])"

text \<open>\<open>target[key]\<close> made an array when it is none, with the message pushed at its end.\<close>

definition push_at :: "json \<Rightarrow> string \<Rightarrow> json \<Rightarrow> json option" where
  "push_at target key message =
     Option.bind (json_index target key) (\<lambda>field. json_set target key (push_to field message))"

definition addMessageToErrorJson :: "json \<Rightarrow> json \<Rightarrow> json option" where
  "addMessageToErrorJson target message =
     Option.bind (json_index target ''error'') (\<lambda>error.
       let finish = (\<lambda>code text.
             Option.bind (json_set error ''code'' code) (\<lambda>e1.
             Option.bind (json_set e1 ''message'' text) (\<lambda>e2.
             Option.bind (push_at e2 messageAnnotation message) (\<lambda>e3.
             json_set target ''error'' e3))))
       in if \<not> is_object error then
            (case json_at message ''MessageId'' of
               None \<Rightarrow> json_set target ''error'' error
             | Some mid \<Rightarrow>
                 (case json_at message ''Message'' of
                    None \<Rightarrow> json_set target ''error'' error
                  | Some text \<Rightarrow> finish mid text))
          else finish (JString (messageVersionPrefix @ ''GeneralError'')) (JString generalErrorText))"

text \<open>The loop over the messages of the source, each added to the target.\<close>

fun addMessages :: "json \<Rightarrow> json list \<Rightarrow> json option" where
  "addMessages target [] = Some target"
| "addMessages target (m # ms) =
     Option.bind (addMessageToErrorJson target m) (\<lambda>t. addMessages t ms)"

text \<open>The new target and the new source.\<close>

definition moveErrorsToErrorJson :: "json \<Rightarrow> json \<Rightarrow> (json \<times> json) option" where
  "moveErrorsToErrorJson target source =
     (case source of
        JObject m \<Rightarrow>
          (case omap_find m ''error'' of
             None \<Rightarrow> map_option (\<lambda>t. (t, JObject [])) (addMessageToErrorJson target source)
           | Some err \<Rightarrow>
               (case json_at err messageAnnotation of
                  None \<Rightarrow> Some (target, source)
                | Some (JArray ms) \<Rightarrow>
                    map_option (\<lambda>t. (t, JObject (omap_erase ''error'' m))) (addMessages target ms)
                | Some other \<Rightarrow> Some (target, JObject (omap_erase ''error'' m))))
      | _ \<Rightarrow> Some (target, source))"

definition addMessageToJsonRoot :: "json \<Rightarrow> json \<Rightarrow> json option" where
  "addMessageToJsonRoot target message = push_at target messageAnnotation message"

definition addMessageToJson :: "json \<Rightarrow> json \<Rightarrow> string \<Rightarrow> json option" where
  "addMessageToJson target message fieldPath = push_at target (fieldPath @ messageAnnotation) message"

text \<open>\<open>getLog\<close>: an index outside the registry gives null.\<close>

definition getLog :: "Index \<Rightarrow> string list \<Rightarrow> json" where
  "getLog index args =
     (if length base_registry \<le> index then JNull
      else (case getLogFromRegistry base_header base_registry index args of
              None \<Rightarrow> JNull | Some r \<Rightarrow> JObject r))"

section \<open>What the error member reports\<close>

definition message_ok :: "json \<Rightarrow> bool" where
  "message_ok m \<longleftrightarrow> json_ok m \<and> json_at m ''MessageId'' \<noteq> None \<and> json_at m ''Message'' \<noteq> None"

definition error_object :: "json list \<Rightarrow> json" where
  "error_object ms =
     (case ms of
        [m] \<Rightarrow> JObject [(messageAnnotation, JArray ms), (''code'', the (json_at m ''MessageId'')),
                        (''message'', the (json_at m ''Message''))]
      | _ \<Rightarrow> JObject [(messageAnnotation, JArray ms),
                        (''code'', JString (messageVersionPrefix @ ''GeneralError'')),
                        (''message'', JString generalErrorText)])"

definition carries :: "json list \<Rightarrow> json \<Rightarrow> bool" where
  "carries ms j \<longleftrightarrow>
     (case j of
        JNull \<Rightarrow> ms = []
      | JObject m \<Rightarrow> omap_find m ''error'' = (if ms = [] then None else Some (error_object ms))
      | _ \<Rightarrow> False)"

lemma less_members [simp]:
  "messageAnnotation < ''code''" "messageAnnotation < ''message''"
  "\<not> ''code'' < messageAnnotation" "\<not> ''message'' < messageAnnotation"
  "messageAnnotation \<noteq> ''code''" "messageAnnotation \<noteq> ''message''"
  "''code'' \<noteq> messageAnnotation" "''message'' \<noteq> messageAnnotation"
  by (simp_all add: messageAnnotation_def less_list_code)

lemma code_less_message [simp]: "''code'' < ''message''" "\<not> ''message'' < ''code''"
  by (simp_all add: less_list_code)

lemma first_error:
  "message_ok m \<Longrightarrow> json_set target ''error'' (error_object [m]) = Some t \<Longrightarrow>
   json_index target ''error'' = Some JNull \<Longrightarrow> addMessageToErrorJson target m = Some t"
  by (auto simp: addMessageToErrorJson_def message_ok_def push_at_def push_to_def error_object_def Let_def)

lemma next_error:
  assumes "json_index target ''error'' = Some (error_object (m0 # ms))"
    and "json_set target ''error'' (error_object (m0 # ms @ [m])) = Some t"
  shows "addMessageToErrorJson target m = Some t"
proof -
  obtain c s where e: "error_object (m0 # ms)
      = JObject [(messageAnnotation, JArray (m0 # ms)), (''code'', c), (''message'', s)]"
    by (cases ms) (auto simp: error_object_def)
  have f: "error_object (m0 # ms @ [m])
      = JObject [(messageAnnotation, JArray (m0 # ms @ [m])),
          (''code'', JString (messageVersionPrefix @ ''GeneralError'')),
          (''message'', JString generalErrorText)]"
    by (cases ms) (auto simp: error_object_def)
  show ?thesis
    using assms by (simp add: addMessageToErrorJson_def e f push_at_def push_to_def Let_def)
qed

lemma json_ok_at: "json_ok j \<Longrightarrow> json_at j k = Some v \<Longrightarrow> json_ok v"
  by (cases j) (fastforce simp: omap_find_def dest: map_of_SomeD)+

lemma error_object_ok: "list_all message_ok ms \<Longrightarrow> ms \<noteq> [] \<Longrightarrow> json_ok (error_object ms)"
  by (cases ms; cases \<open>tl ms\<close>) (auto simp: error_object_def message_ok_def list_all_iff dest: json_ok_at)

lemma carries_JObject:
  "carries ms (JObject obj) \<longleftrightarrow>
     omap_find obj ''error'' = (if ms = [] then None else Some (error_object ms))"
  by (simp add: carries_def)

lemma carries_object:
  "carries ms j \<Longrightarrow> ms \<noteq> [] \<Longrightarrow> \<exists>obj. j = JObject obj \<and> omap_find obj ''error'' = Some (error_object ms)"
  by (auto simp: carries_def split: json.splits)

text \<open>
  A value in which messages can be placed: null or an object, whose error member, if any, is null
  or an object. No placement throws on it, and none makes it unfit for the next.
\<close>

definition reportable_json :: "json \<Rightarrow> bool" where
  "reportable_json j \<longleftrightarrow> json_ok j
     \<and> (case j of
          JNull \<Rightarrow> True
        | JObject m \<Rightarrow> (case omap_find m ''error'' of None \<Rightarrow> True | Some e \<Rightarrow> e = JNull \<or> is_object e)
        | _ \<Rightarrow> False)"

lemma annotation_not_error [simp]: "path @ messageAnnotation \<noteq> ''error''"
proof
  assume "path @ messageAnnotation = ''error''"
  then have "length (path @ messageAnnotation) = length ''error''"
    by simp
  then show False
    by (simp add: messageAnnotation_def)
qed

lemma json_set_object:
  assumes "json_ok j" "j = JNull \<or> is_object j" "json_ok v"
  shows "\<exists>j'. json_set j k v = Some j' \<and> is_object j' \<and> json_ok j'
           \<and> (\<forall>k'. json_at j' k' = (if k' = k then Some v else json_at j k'))"
proof -
  obtain j' where j': "json_set j k v = Some j'" "is_object j'"
    using assms(2) by (cases j) auto
  then show ?thesis
    using json_at_set [OF assms(1) j'(1)] json_ok_set [OF assms(1,3) j'(1)] by auto
qed

lemma push_to_ok: "json_ok f \<Longrightarrow> json_ok m \<Longrightarrow> json_ok (push_to f m)"
  by (cases f) (auto simp: push_to_def)

lemma json_index_object:
  "json_ok j \<Longrightarrow> j = JNull \<or> is_object j \<Longrightarrow>
   json_index j k = Some (case json_at j k of None \<Rightarrow> JNull | Some v \<Rightarrow> v)"
  by (cases j) auto

lemma push_at_object:
  assumes "json_ok j" "j = JNull \<or> is_object j" "json_ok m"
  shows "\<exists>j'. push_at j key m = Some j' \<and> is_object j' \<and> json_ok j'
           \<and> (\<forall>k'. k' \<noteq> key \<longrightarrow> json_at j' k' = json_at j k')"
proof -
  let ?f = "case json_at j key of None \<Rightarrow> JNull | Some v \<Rightarrow> v"
  have "json_ok ?f"
    using json_ok_at [OF assms(1)] by (auto split: option.split)
  then show ?thesis
    using json_set_object [OF assms(1,2) push_to_ok [OF _ assms(3)], of ?f key]
      json_index_object [OF assms(1,2), of key]
    by (auto simp: push_at_def)
qed

lemma reportable_at:
  "reportable_json j \<longleftrightarrow> json_ok j \<and> (j = JNull \<or> is_object j)
     \<and> (case json_at j ''error'' of None \<Rightarrow> True | Some e \<Rightarrow> e = JNull \<or> is_object e)"
  by (cases j) (auto simp: reportable_json_def)

lemma push_at_ok:
  assumes "reportable_json j" "json_ok m" "key \<noteq> ''error''"
  shows "\<exists>j'. push_at j key m = Some j' \<and> reportable_json j'"
proof -
  have j: "json_ok j" "j = JNull \<or> is_object j"
    using assms(1) unfolding reportable_at by blast+
  obtain j' where j': "push_at j key m = Some j'" "is_object j'" "json_ok j'"
    "json_at j' ''error'' = json_at j ''error''"
    using push_at_object [OF j assms(2), of key] assms(3) by metis
  then have "reportable_json j'"
    using assms(1) unfolding reportable_at by simp
  with j' show ?thesis by blast
qed

lemma add_error_ok:
  assumes "reportable_json j" "message_ok m"
  shows "\<exists>j'. addMessageToErrorJson j m = Some j' \<and> reportable_json j'"
proof -
  let ?e = "case json_at j ''error'' of None \<Rightarrow> JNull | Some v \<Rightarrow> v"
  have j: "json_ok j" "j = JNull \<or> is_object j" and e: "?e = JNull \<or> is_object ?e"
    using assms(1) unfolding reportable_at by (auto split: option.splits)
  have e_ok: "json_ok ?e"
    using json_ok_at [OF j(1)] by (auto split: option.split)
  have m: "json_ok m"
    using assms(2) by (simp add: message_ok_def)
  have finish: "\<exists>j'. Option.bind (json_set ?e ''code'' code) (\<lambda>e1.
      Option.bind (json_set e1 ''message'' words) (\<lambda>e2.
      Option.bind (push_at e2 messageAnnotation m) (\<lambda>e3. json_set j ''error'' e3))) = Some j'
      \<and> reportable_json j'" if c: "json_ok code" and w: "json_ok words" for code words
  proof -
    obtain e1 where e1: "json_set ?e ''code'' code = Some e1" "is_object e1" "json_ok e1"
      using json_set_object [OF e_ok e c] by blast
    obtain e2 where e2: "json_set e1 ''message'' words = Some e2" "is_object e2" "json_ok e2"
      using json_set_object [OF e1(3) _ w] e1(2) by blast
    obtain e3 where e3: "push_at e2 messageAnnotation m = Some e3" "is_object e3" "json_ok e3"
      using push_at_object [OF e2(3) _ m] e2(2) by blast
    obtain j' where j': "json_set j ''error'' e3 = Some j'" "is_object j'" "json_ok j'"
      "json_at j' ''error'' = Some e3"
      using json_set_object [OF j e3(3)] by metis
    then show ?thesis
      using e1 e2 e3 by (simp add: reportable_at)
  qed
  obtain i t where it: "json_at m ''MessageId'' = Some i" "json_at m ''Message'' = Some t"
    using assms(2) by (auto simp: message_ok_def)
  then have "json_ok i" "json_ok t"
    using json_ok_at [OF m] by blast+
  then show ?thesis
    using finish json_index_object [OF j, of "''error''"] it
    by (auto simp: addMessageToErrorJson_def Let_def)
qed

text \<open>One message: the list grows by it, every other member stays.\<close>

lemma add_error:
  assumes j: "json_ok j" "carries ms j" and ms: "list_all message_ok ms" "message_ok m"
  shows "\<exists>j'. addMessageToErrorJson j m = Some j' \<and> carries (ms @ [m]) j' \<and> json_ok j'
           \<and> (\<forall>k. k \<noteq> ''error'' \<longrightarrow> json_at j' k = json_at j k)"
proof -
  obtain t where t: "json_set j ''error'' (error_object (ms @ [m])) = Some t"
    using j(2) by (cases j) (auto simp: carries_def)
  have "addMessageToErrorJson j m = Some t"
  proof (cases ms)
    case Nil
    then have "json_index j ''error'' = Some JNull"
      using j(2) by (cases j) (auto simp: carries_def)
    then show ?thesis
      using Nil t ms(2) by (intro first_error) auto
  next
    case (Cons m0 ms')
    then have "json_index j ''error'' = Some (error_object (m0 # ms'))"
      using carries_object [OF j(2)] by auto
    then show ?thesis
      using Cons t by (intro next_error) auto
  qed
  moreover have "json_ok t"
    using json_ok_set [OF j(1) error_object_ok t] ms by simp
  moreover have at: "json_at t k = (if k = ''error'' then Some (error_object (ms @ [m])) else json_at j k)" for k
    using json_at_set [OF j(1) t] .
  moreover have "carries (ms @ [m]) t"
    using at [of "''error''"] by (cases t) (auto simp: carries_def)
  ultimately show ?thesis
    by auto
qed

lemma add_errors:
  "json_ok j \<Longrightarrow> carries ms j \<Longrightarrow> list_all message_ok ms \<Longrightarrow> list_all message_ok ns \<Longrightarrow>
   \<exists>j'. addMessages j ns = Some j' \<and> carries (ms @ ns) j' \<and> json_ok j'
      \<and> (\<forall>k. k \<noteq> ''error'' \<longrightarrow> json_at j' k = json_at j k)"
proof (induction ns arbitrary: j ms)
  case (Cons n ns)
  obtain t where t: "addMessageToErrorJson j n = Some t" "carries (ms @ [n]) t" "json_ok t"
    "\<forall>k. k \<noteq> ''error'' \<longrightarrow> json_at t k = json_at j k"
    using add_error [OF Cons.prems(1-3)] Cons.prems(4) by auto
  have "list_all message_ok (ms @ [n])" "list_all message_ok ns"
    using Cons.prems by simp_all
  then show ?case
    using Cons.IH [OF t(3,2)] t by fastforce
qed simp

text \<open>
  C5: the errors of a response accumulate in order: after the messages \<open>ns\<close> are added to a value
  that reports \<open>ms\<close>, its error member lists \<open>ms @ ns\<close>, with the code and text of the message
  itself when there is one and the general error when there are more; nothing else changes and
  nothing throws.
\<close>

theorem errors_accumulate:
  assumes "json_ok j" "carries ms j" "list_all message_ok (ms @ ns)"
  shows "\<exists>j'. addMessages j ns = Some j' \<and> carries (ms @ ns) j' \<and> json_ok j'
           \<and> (\<forall>k. k \<noteq> ''error'' \<longrightarrow> json_at j' k = json_at j k)"
  using add_errors [of j ms ns] assms by simp

definition sample_message :: "string \<Rightarrow> json" where
  "sample_message i = JObject [(''Message'', JString ''text''), (''MessageId'', JString i)]"

lemma sample_message_ok [simp]: "message_ok (sample_message i)"
  by (simp add: sample_message_def message_ok_def less_list_code)

theorem errors_accumulate_witness:
  "\<exists>j'. addMessages (JObject [(''Id'', JNull)]) [sample_message ''A'', sample_message ''B''] = Some j'
     \<and> carries [sample_message ''A'', sample_message ''B''] j' \<and> json_at j' ''Id'' = Some JNull"
  using errors_accumulate [of "JObject [(''Id'', JNull)]" "[]" "[sample_message ''A'', sample_message ''B'']"]
  by (auto simp: carries_JObject)

text \<open>
  Moving the errors of one value to another appends the messages of the source to those of
  the target, in order, and takes the error member, and only it, out of the source.
\<close>

theorem move_appends:
  assumes "json_ok target" "carries ms target" "list_all message_ok ms"
    and "json_ok source" "carries ns source" "list_all message_ok ns" "ns \<noteq> []"
  shows "\<exists>t s. moveErrorsToErrorJson target source = Some (t, s)
           \<and> carries (ms @ ns) t \<and> carries [] s
           \<and> (\<forall>k. k \<noteq> ''error'' \<longrightarrow> json_at t k = json_at target k \<and> json_at s k = json_at source k)"
proof -
  obtain m where src: "source = JObject m" "omap_find m ''error'' = Some (error_object ns)"
    using carries_object [OF assms(5,7)] by auto
  have info: "json_at (error_object ns) messageAnnotation = Some (JArray ns)"
    by (auto simp: error_object_def split: list.splits)
  obtain t where "addMessages target ns = Some t" "carries (ms @ ns) t"
    "\<forall>k. k \<noteq> ''error'' \<longrightarrow> json_at t k = json_at target k"
    using add_errors [OF assms(1-3,6)] by auto
  then show ?thesis
    using src info by (auto simp: moveErrorsToErrorJson_def carries_def omap_find_erase)
qed

theorem move_appends_witness:
  "\<exists>t s. moveErrorsToErrorJson (JObject [(''error'', error_object [sample_message ''A''])])
             (JObject [(''error'', error_object [sample_message ''B''])]) = Some (t, s)
       \<and> carries [sample_message ''A'', sample_message ''B''] t \<and> carries [] s"
  using move_appends [of "JObject [(''error'', error_object [sample_message ''A''])]" "[sample_message ''A'']"
      "JObject [(''error'', error_object [sample_message ''B''])]" "[sample_message ''B'']"]
    error_object_ok [of "[sample_message ''A'']"] error_object_ok [of "[sample_message ''B'']"]
  by (auto simp: carries_JObject)

end
