(* ===== verification/ErrorMessages.thy ===== *)
theory ErrorMessages
  imports ErrorJson
begin

text \<open>
  The message builders of \<open>redfish_event/src/error_messages.cpp\<close> and the functions of the same
  names that report a message in a response (named with the suffix \<open>_res\<close> here): the status they
  set, and the place they put the message. A URL argument is its text; the text of a JSON argument
  is given by \<open>dump\<close>, the library's serialiser, with the indentation as its first argument. The
  tables at the end list the functions once more, with the name each should have in the registry;
  the properties quantify over them.
\<close>

definition int_to_string :: "int \<Rightarrow> string" where
  "int_to_string i = (if i < 0 then CHR ''-'' # nat_to_string (nat (- i)) else nat_to_string (nat i))"

text \<open>\<open>res.result(...)\<close> is done before the message is added; \<open>None\<close> is an exception of the library.\<close>

definition error_to :: "response \<Rightarrow> json \<Rightarrow> response option" where
  "error_to res m = map_option (\<lambda>j. res\<lparr>jsonValue := j\<rparr>) (addMessageToErrorJson (jsonValue res) m)"

definition root_to :: "response \<Rightarrow> json \<Rightarrow> response option" where
  "root_to res m = map_option (\<lambda>j. res\<lparr>jsonValue := j\<rparr>) (addMessageToJsonRoot (jsonValue res) m)"

definition field_to :: "response \<Rightarrow> json \<Rightarrow> string \<Rightarrow> response option" where
  "field_to res m fieldPath =
     map_option (\<lambda>j. res\<lparr>jsonValue := j\<rparr>) (addMessageToJson (jsonValue res) m fieldPath)"

section \<open>Builders and setters, in the order of the code\<close>

definition resourceInUse :: "json" where
  "resourceInUse = getLog I_resourceInUse []"

definition resourceInUse_res :: "response \<Rightarrow> response option" where
  "resourceInUse_res res = error_to (set_result 503 res) resourceInUse"

definition malformedJSON :: "json" where
  "malformedJSON = getLog I_malformedJSON []"

definition malformedJSON_res :: "response \<Rightarrow> response option" where
  "malformedJSON_res res = error_to (set_result 400 res) malformedJSON"

definition resourceMissingAtURI :: "string \<Rightarrow> json" where
  "resourceMissingAtURI arg1 = getLog I_resourceMissingAtURI [arg1]"

definition resourceMissingAtURI_res :: "string \<Rightarrow> response \<Rightarrow> response option" where
  "resourceMissingAtURI_res arg1 res = error_to (set_result 400 res) (resourceMissingAtURI arg1)"

definition actionParameterValueFormatError :: "(int \<Rightarrow> json \<Rightarrow> string) \<Rightarrow> json \<Rightarrow> string \<Rightarrow> string \<Rightarrow> json" where
  "actionParameterValueFormatError dump arg1 arg2 arg3 = getLog I_actionParameterValueFormatError [dump 2 arg1, arg2, arg3]"

definition actionParameterValueFormatError_res :: "(int \<Rightarrow> json \<Rightarrow> string) \<Rightarrow> json \<Rightarrow> string \<Rightarrow> string \<Rightarrow> response \<Rightarrow> response option" where
  "actionParameterValueFormatError_res dump arg1 arg2 arg3 res = error_to (set_result 400 res) (actionParameterValueFormatError dump arg1 arg2 arg3)"

definition actionParameterValueNotInList :: "string \<Rightarrow> string \<Rightarrow> string \<Rightarrow> json" where
  "actionParameterValueNotInList arg1 arg2 arg3 = getLog I_actionParameterValueNotInList [arg1, arg2, arg3]"

definition actionParameterValueNotInList_res :: "string \<Rightarrow> string \<Rightarrow> string \<Rightarrow> response \<Rightarrow> response option" where
  "actionParameterValueNotInList_res arg1 arg2 arg3 res = error_to (set_result 400 res) (actionParameterValueNotInList arg1 arg2 arg3)"

definition internalError :: "json" where
  "internalError = getLog I_internalError []"

definition internalError_res :: "response \<Rightarrow> response option" where
  "internalError_res res = error_to (set_result 500 res) internalError"

definition unrecognizedRequestBody :: "json" where
  "unrecognizedRequestBody = getLog I_unrecognizedRequestBody []"

definition unrecognizedRequestBody_res :: "response \<Rightarrow> response option" where
  "unrecognizedRequestBody_res res = error_to (set_result 400 res) unrecognizedRequestBody"

definition resourceAtUriUnauthorized :: "string \<Rightarrow> string \<Rightarrow> json" where
  "resourceAtUriUnauthorized arg1 arg2 = getLog I_resourceAtUriUnauthorized [arg1, arg2]"

definition resourceAtUriUnauthorized_res :: "string \<Rightarrow> string \<Rightarrow> response \<Rightarrow> response option" where
  "resourceAtUriUnauthorized_res arg1 arg2 res = error_to (set_result 401 res) (resourceAtUriUnauthorized arg1 arg2)"

definition actionParameterUnknown :: "string \<Rightarrow> string \<Rightarrow> json" where
  "actionParameterUnknown arg1 arg2 = getLog I_actionParameterUnknown [arg1, arg2]"

definition actionParameterUnknown_res :: "string \<Rightarrow> string \<Rightarrow> response \<Rightarrow> response option" where
  "actionParameterUnknown_res arg1 arg2 res = error_to (set_result 400 res) (actionParameterUnknown arg1 arg2)"

definition resourceCannotBeDeleted :: "json" where
  "resourceCannotBeDeleted = getLog I_resourceCannotBeDeleted []"

definition resourceCannotBeDeleted_res :: "response \<Rightarrow> response option" where
  "resourceCannotBeDeleted_res res = error_to (set_result 405 res) resourceCannotBeDeleted"

definition propertyDuplicate :: "string \<Rightarrow> json" where
  "propertyDuplicate arg1 = getLog I_propertyDuplicate [arg1]"

definition propertyDuplicate_res :: "string \<Rightarrow> response \<Rightarrow> response option" where
  "propertyDuplicate_res arg1 res = field_to (set_result 400 res) (propertyDuplicate arg1) arg1"

definition serviceTemporarilyUnavailable :: "string \<Rightarrow> json" where
  "serviceTemporarilyUnavailable arg1 = getLog I_serviceTemporarilyUnavailable [arg1]"

definition serviceTemporarilyUnavailable_res :: "string \<Rightarrow> response \<Rightarrow> response option" where
  "serviceTemporarilyUnavailable_res arg1 res = error_to (set_result 503 (addHeader ''Retry-After'' arg1 res)) (serviceTemporarilyUnavailable arg1)"

definition resourceAlreadyExists :: "string \<Rightarrow> string \<Rightarrow> string \<Rightarrow> json" where
  "resourceAlreadyExists arg1 arg2 arg3 = getLog I_resourceAlreadyExists [arg1, arg2, arg3]"

definition resourceAlreadyExists_res :: "string \<Rightarrow> string \<Rightarrow> string \<Rightarrow> response \<Rightarrow> response option" where
  "resourceAlreadyExists_res arg1 arg2 arg3 res = field_to (set_result 400 res) (resourceAlreadyExists arg1 arg2 arg3) arg2"

definition accountForSessionNoLongerExists :: "json" where
  "accountForSessionNoLongerExists = getLog I_accountForSessionNoLongerExists []"

definition accountForSessionNoLongerExists_res :: "response \<Rightarrow> response option" where
  "accountForSessionNoLongerExists_res res = error_to (set_result 403 res) accountForSessionNoLongerExists"

definition createFailedMissingReqProperties :: "string \<Rightarrow> json" where
  "createFailedMissingReqProperties arg1 = getLog I_createFailedMissingReqProperties [arg1]"

definition createFailedMissingReqProperties_res :: "string \<Rightarrow> response \<Rightarrow> response option" where
  "createFailedMissingReqProperties_res arg1 res = field_to (set_result 400 res) (createFailedMissingReqProperties arg1) arg1"

definition propertyValueFormatError :: "(int \<Rightarrow> json \<Rightarrow> string) \<Rightarrow> json \<Rightarrow> string \<Rightarrow> json" where
  "propertyValueFormatError dump arg1 arg2 = getLog I_propertyValueFormatError [dump 2 arg1, arg2]"

definition propertyValueFormatError_res :: "(int \<Rightarrow> json \<Rightarrow> string) \<Rightarrow> json \<Rightarrow> string \<Rightarrow> response \<Rightarrow> response option" where
  "propertyValueFormatError_res dump arg1 arg2 res = field_to (set_result 400 res) (propertyValueFormatError dump arg1 arg2) arg2"

definition propertyValueNotInList :: "(int \<Rightarrow> json \<Rightarrow> string) \<Rightarrow> json \<Rightarrow> string \<Rightarrow> json" where
  "propertyValueNotInList dump arg1 arg2 = getLog I_propertyValueNotInList [dump (-1) arg1, arg2]"

definition propertyValueNotInList_res :: "(int \<Rightarrow> json \<Rightarrow> string) \<Rightarrow> json \<Rightarrow> string \<Rightarrow> response \<Rightarrow> response option" where
  "propertyValueNotInList_res dump arg1 arg2 res = field_to (set_result 400 res) (propertyValueNotInList dump arg1 arg2) arg2"

definition propertyValueOutOfRange :: "(int \<Rightarrow> json \<Rightarrow> string) \<Rightarrow> json \<Rightarrow> string \<Rightarrow> json" where
  "propertyValueOutOfRange dump arg1 arg2 = getLog I_propertyValueOutOfRange [dump 2 arg1, arg2]"

definition propertyValueOutOfRange_res :: "(int \<Rightarrow> json \<Rightarrow> string) \<Rightarrow> json \<Rightarrow> string \<Rightarrow> response \<Rightarrow> response option" where
  "propertyValueOutOfRange_res dump arg1 arg2 res = error_to (set_result 400 res) (propertyValueOutOfRange dump arg1 arg2)"

definition resourceAtUriInUnknownFormat :: "string \<Rightarrow> json" where
  "resourceAtUriInUnknownFormat arg1 = getLog I_resourceAtUriInUnknownFormat [arg1]"

definition resourceAtUriInUnknownFormat_res :: "string \<Rightarrow> response \<Rightarrow> response option" where
  "resourceAtUriInUnknownFormat_res arg1 res = error_to (set_result 400 res) (resourceAtUriInUnknownFormat arg1)"

definition serviceDisabled :: "string \<Rightarrow> json" where
  "serviceDisabled arg1 = getLog I_serviceDisabled [arg1]"

definition serviceDisabled_res :: "string \<Rightarrow> response \<Rightarrow> response option" where
  "serviceDisabled_res arg1 res = error_to (set_result 503 res) (serviceDisabled arg1)"

definition serviceInUnknownState :: "json" where
  "serviceInUnknownState = getLog I_serviceInUnknownState []"

definition serviceInUnknownState_res :: "response \<Rightarrow> response option" where
  "serviceInUnknownState_res res = error_to (set_result 503 res) serviceInUnknownState"

definition eventSubscriptionLimitExceeded :: "json" where
  "eventSubscriptionLimitExceeded = getLog I_eventSubscriptionLimitExceeded []"

definition eventSubscriptionLimitExceeded_res :: "response \<Rightarrow> response option" where
  "eventSubscriptionLimitExceeded_res res = error_to (set_result 503 res) eventSubscriptionLimitExceeded"

definition actionParameterMissing :: "string \<Rightarrow> string \<Rightarrow> json" where
  "actionParameterMissing arg1 arg2 = getLog I_actionParameterMissing [arg1, arg2]"

definition actionParameterMissing_res :: "string \<Rightarrow> string \<Rightarrow> response \<Rightarrow> response option" where
  "actionParameterMissing_res arg1 arg2 res = error_to (set_result 400 res) (actionParameterMissing arg1 arg2)"

definition stringValueTooLong :: "string \<Rightarrow> int \<Rightarrow> json" where
  "stringValueTooLong arg1 arg2 = getLog I_stringValueTooLong [arg1, int_to_string arg2]"

definition stringValueTooLong_res :: "string \<Rightarrow> int \<Rightarrow> response \<Rightarrow> response option" where
  "stringValueTooLong_res arg1 arg2 res = error_to (set_result 400 res) (stringValueTooLong arg1 arg2)"

definition sessionTerminated :: "json" where
  "sessionTerminated = getLog I_sessionTerminated []"

definition sessionTerminated_res :: "response \<Rightarrow> response option" where
  "sessionTerminated_res res = root_to (set_result 200 res) sessionTerminated"

definition subscriptionTerminated :: "json" where
  "subscriptionTerminated = getLog I_subscriptionTerminated []"

definition subscriptionTerminated_res :: "response \<Rightarrow> response option" where
  "subscriptionTerminated_res res = root_to (set_result 200 res) subscriptionTerminated"

definition resourceTypeIncompatible :: "string \<Rightarrow> string \<Rightarrow> json" where
  "resourceTypeIncompatible arg1 arg2 = getLog I_resourceTypeIncompatible [arg1, arg2]"

definition resourceTypeIncompatible_res :: "string \<Rightarrow> string \<Rightarrow> response \<Rightarrow> response option" where
  "resourceTypeIncompatible_res arg1 arg2 res = error_to (set_result 400 res) (resourceTypeIncompatible arg1 arg2)"

definition resetRequired :: "string \<Rightarrow> string \<Rightarrow> json" where
  "resetRequired arg1 arg2 = getLog I_resetRequired [arg1, arg2]"

definition resetRequired_res :: "string \<Rightarrow> string \<Rightarrow> response \<Rightarrow> response option" where
  "resetRequired_res arg1 arg2 res = error_to (set_result 400 res) (resetRequired arg1 arg2)"

definition chassisPowerStateOnRequired :: "string \<Rightarrow> json" where
  "chassisPowerStateOnRequired arg1 = getLog I_resetRequired [arg1]"

definition chassisPowerStateOnRequired_res :: "string \<Rightarrow> response \<Rightarrow> response option" where
  "chassisPowerStateOnRequired_res arg1 res = error_to (set_result 400 res) (chassisPowerStateOnRequired arg1)"

definition chassisPowerStateOffRequired :: "string \<Rightarrow> json" where
  "chassisPowerStateOffRequired arg1 = getLog I_chassisPowerStateOffRequired [arg1]"

definition chassisPowerStateOffRequired_res :: "string \<Rightarrow> response \<Rightarrow> response option" where
  "chassisPowerStateOffRequired_res arg1 res = error_to (set_result 400 res) (chassisPowerStateOffRequired arg1)"

definition propertyValueConflict :: "string \<Rightarrow> string \<Rightarrow> json" where
  "propertyValueConflict arg1 arg2 = getLog I_propertyValueConflict [arg1, arg2]"

definition propertyValueConflict_res :: "string \<Rightarrow> string \<Rightarrow> response \<Rightarrow> response option" where
  "propertyValueConflict_res arg1 arg2 res = error_to (set_result 400 res) (propertyValueConflict arg1 arg2)"

definition propertyValueResourceConflict :: "(int \<Rightarrow> json \<Rightarrow> string) \<Rightarrow> string \<Rightarrow> json \<Rightarrow> string \<Rightarrow> json" where
  "propertyValueResourceConflict dump arg1 arg2 arg3 = getLog I_propertyValueResourceConflict [arg1, dump 2 arg2, arg3]"

definition propertyValueResourceConflict_res :: "(int \<Rightarrow> json \<Rightarrow> string) \<Rightarrow> string \<Rightarrow> json \<Rightarrow> string \<Rightarrow> response \<Rightarrow> response option" where
  "propertyValueResourceConflict_res dump arg1 arg2 arg3 res = error_to (set_result 409 res) (propertyValueResourceConflict dump arg1 arg2 arg3)"

definition propertyValueExternalConflict :: "(int \<Rightarrow> json \<Rightarrow> string) \<Rightarrow> string \<Rightarrow> json \<Rightarrow> json" where
  "propertyValueExternalConflict dump arg1 arg2 = getLog I_propertyValueExternalConflict [arg1, dump 2 arg2]"

definition propertyValueExternalConflict_res :: "(int \<Rightarrow> json \<Rightarrow> string) \<Rightarrow> string \<Rightarrow> json \<Rightarrow> response \<Rightarrow> response option" where
  "propertyValueExternalConflict_res dump arg1 arg2 res = error_to (set_result 409 res) (propertyValueExternalConflict dump arg1 arg2)"

definition propertyValueIncorrect :: "(int \<Rightarrow> json \<Rightarrow> string) \<Rightarrow> json \<Rightarrow> string \<Rightarrow> json" where
  "propertyValueIncorrect dump arg1 arg2 = getLog I_propertyValueIncorrect [dump 2 arg1, arg2]"

definition propertyValueIncorrect_res :: "(int \<Rightarrow> json \<Rightarrow> string) \<Rightarrow> json \<Rightarrow> string \<Rightarrow> response \<Rightarrow> response option" where
  "propertyValueIncorrect_res dump arg1 arg2 res = error_to (set_result 400 res) (propertyValueIncorrect dump arg1 arg2)"

definition resourceCreationConflict :: "string \<Rightarrow> json" where
  "resourceCreationConflict arg1 = getLog I_resourceCreationConflict [arg1]"

definition resourceCreationConflict_res :: "string \<Rightarrow> response \<Rightarrow> response option" where
  "resourceCreationConflict_res arg1 res = error_to (set_result 400 res) (resourceCreationConflict arg1)"

definition maximumErrorsExceeded :: "json" where
  "maximumErrorsExceeded = getLog I_maximumErrorsExceeded []"

definition maximumErrorsExceeded_res :: "response \<Rightarrow> response option" where
  "maximumErrorsExceeded_res res = error_to (set_result 500 res) maximumErrorsExceeded"

definition preconditionFailed :: "json" where
  "preconditionFailed = getLog I_preconditionFailed []"

definition preconditionFailed_res :: "response \<Rightarrow> response option" where
  "preconditionFailed_res res = error_to (set_result 412 res) preconditionFailed"

definition preconditionRequired :: "json" where
  "preconditionRequired = getLog I_preconditionRequired []"

definition preconditionRequired_res :: "response \<Rightarrow> response option" where
  "preconditionRequired_res res = error_to (set_result 400 res) preconditionRequired"

definition operationFailed :: "json" where
  "operationFailed = getLog I_operationFailed []"

definition operationFailed_res :: "response \<Rightarrow> response option" where
  "operationFailed_res res = error_to (set_result 502 res) operationFailed"

definition operationTimeout :: "json" where
  "operationTimeout = getLog I_operationTimeout []"

definition operationTimeout_res :: "response \<Rightarrow> response option" where
  "operationTimeout_res res = error_to (set_result 500 res) operationTimeout"

definition propertyValueTypeError :: "(int \<Rightarrow> json \<Rightarrow> string) \<Rightarrow> json \<Rightarrow> string \<Rightarrow> json" where
  "propertyValueTypeError dump arg1 arg2 = getLog I_propertyValueTypeError [dump 2 arg1, arg2]"

definition propertyValueTypeError_res :: "(int \<Rightarrow> json \<Rightarrow> string) \<Rightarrow> json \<Rightarrow> string \<Rightarrow> response \<Rightarrow> response option" where
  "propertyValueTypeError_res dump arg1 arg2 res = field_to (set_result 400 res) (propertyValueTypeError dump arg1 arg2) arg2"

definition resourceNotFound :: "string \<Rightarrow> string \<Rightarrow> json" where
  "resourceNotFound arg1 arg2 = getLog I_resourceNotFound [arg1, arg2]"

definition resourceNotFound_res :: "string \<Rightarrow> string \<Rightarrow> response \<Rightarrow> response option" where
  "resourceNotFound_res arg1 arg2 res = error_to (set_result 404 res) (resourceNotFound arg1 arg2)"

definition couldNotEstablishConnection :: "string \<Rightarrow> json" where
  "couldNotEstablishConnection arg1 = getLog I_couldNotEstablishConnection [arg1]"

definition couldNotEstablishConnection_res :: "string \<Rightarrow> response \<Rightarrow> response option" where
  "couldNotEstablishConnection_res arg1 res = error_to (set_result 404 res) (couldNotEstablishConnection arg1)"

definition propertyNotWritable :: "string \<Rightarrow> json" where
  "propertyNotWritable arg1 = getLog I_propertyNotWritable [arg1]"

definition propertyNotWritable_res :: "string \<Rightarrow> response \<Rightarrow> response option" where
  "propertyNotWritable_res arg1 res = field_to (set_result 403 res) (propertyNotWritable arg1) arg1"

definition queryParameterValueTypeError :: "(int \<Rightarrow> json \<Rightarrow> string) \<Rightarrow> json \<Rightarrow> string \<Rightarrow> json" where
  "queryParameterValueTypeError dump arg1 arg2 = getLog I_queryParameterValueTypeError [dump 2 arg1, arg2]"

definition queryParameterValueTypeError_res :: "(int \<Rightarrow> json \<Rightarrow> string) \<Rightarrow> json \<Rightarrow> string \<Rightarrow> response \<Rightarrow> response option" where
  "queryParameterValueTypeError_res dump arg1 arg2 res = error_to (set_result 400 res) (queryParameterValueTypeError dump arg1 arg2)"

definition serviceShuttingDown :: "json" where
  "serviceShuttingDown = getLog I_serviceShuttingDown []"

definition serviceShuttingDown_res :: "response \<Rightarrow> response option" where
  "serviceShuttingDown_res res = error_to (set_result 503 res) serviceShuttingDown"

definition actionParameterDuplicate :: "string \<Rightarrow> string \<Rightarrow> json" where
  "actionParameterDuplicate arg1 arg2 = getLog I_actionParameterDuplicate [arg1, arg2]"

definition actionParameterDuplicate_res :: "string \<Rightarrow> string \<Rightarrow> response \<Rightarrow> response option" where
  "actionParameterDuplicate_res arg1 arg2 res = error_to (set_result 400 res) (actionParameterDuplicate arg1 arg2)"

definition actionParameterNotSupported :: "string \<Rightarrow> string \<Rightarrow> json" where
  "actionParameterNotSupported arg1 arg2 = getLog I_actionParameterNotSupported [arg1, arg2]"

definition actionParameterNotSupported_res :: "string \<Rightarrow> string \<Rightarrow> response \<Rightarrow> response option" where
  "actionParameterNotSupported_res arg1 arg2 res = error_to (set_result 400 res) (actionParameterNotSupported arg1 arg2)"

definition sourceDoesNotSupportProtocol :: "string \<Rightarrow> string \<Rightarrow> json" where
  "sourceDoesNotSupportProtocol arg1 arg2 = getLog I_sourceDoesNotSupportProtocol [arg1, arg2]"

definition sourceDoesNotSupportProtocol_res :: "string \<Rightarrow> string \<Rightarrow> response \<Rightarrow> response option" where
  "sourceDoesNotSupportProtocol_res arg1 arg2 res = error_to (set_result 400 res) (sourceDoesNotSupportProtocol arg1 arg2)"

definition strictAccountTypes :: "string \<Rightarrow> json" where
  "strictAccountTypes arg1 = getLog I_strictAccountTypes [arg1]"

definition strictAccountTypes_res :: "string \<Rightarrow> response \<Rightarrow> response option" where
  "strictAccountTypes_res arg1 res = error_to (set_result 400 res) (strictAccountTypes arg1)"

definition accountRemoved :: "json" where
  "accountRemoved = getLog I_accountRemoved []"

definition accountRemoved_res :: "response \<Rightarrow> response option" where
  "accountRemoved_res res = root_to (set_result 200 res) accountRemoved"

definition accessDenied :: "string \<Rightarrow> json" where
  "accessDenied arg1 = getLog I_accessDenied [arg1]"

definition accessDenied_res :: "string \<Rightarrow> response \<Rightarrow> response option" where
  "accessDenied_res arg1 res = error_to (set_result 403 res) (accessDenied arg1)"

definition queryNotSupported :: "json" where
  "queryNotSupported = getLog I_queryNotSupported []"

definition queryNotSupported_res :: "response \<Rightarrow> response option" where
  "queryNotSupported_res res = error_to (set_result 400 res) queryNotSupported"

definition createLimitReachedForResource :: "json" where
  "createLimitReachedForResource = getLog I_createLimitReachedForResource []"

definition createLimitReachedForResource_res :: "response \<Rightarrow> response option" where
  "createLimitReachedForResource_res res = error_to (set_result 400 res) createLimitReachedForResource"

definition generalError :: "json" where
  "generalError = getLog I_generalError []"

definition generalError_res :: "response \<Rightarrow> response option" where
  "generalError_res res = error_to (set_result 500 res) generalError"

definition success :: "json" where
  "success = getLog I_success []"

definition success_res :: "response \<Rightarrow> response option" where
  "success_res res = root_to res success"

definition created :: "json" where
  "created = getLog I_created []"

definition created_res :: "response \<Rightarrow> response option" where
  "created_res res = root_to (set_result 201 res) created"

definition noOperation :: "json" where
  "noOperation = getLog I_noOperation []"

definition noOperation_res :: "response \<Rightarrow> response option" where
  "noOperation_res res = error_to (set_result 400 res) noOperation"

definition propertyUnknown :: "string \<Rightarrow> json" where
  "propertyUnknown arg1 = getLog I_propertyUnknown [arg1]"

definition propertyUnknown_res :: "string \<Rightarrow> response \<Rightarrow> response option" where
  "propertyUnknown_res arg1 res = error_to (set_result 400 res) (propertyUnknown arg1)"

definition noValidSession :: "json" where
  "noValidSession = getLog I_noValidSession []"

definition noValidSession_res :: "response \<Rightarrow> response option" where
  "noValidSession_res res = error_to (set_result 403 res) noValidSession"

definition invalidObject :: "string \<Rightarrow> json" where
  "invalidObject arg1 = getLog I_invalidObject [arg1]"

definition invalidObject_res :: "string \<Rightarrow> response \<Rightarrow> response option" where
  "invalidObject_res arg1 res = error_to (set_result 400 res) (invalidObject arg1)"

definition resourceInStandby :: "json" where
  "resourceInStandby = getLog I_resourceInStandby []"

definition resourceInStandby_res :: "response \<Rightarrow> response option" where
  "resourceInStandby_res res = error_to (set_result 503 res) resourceInStandby"

definition actionParameterValueTypeError :: "(int \<Rightarrow> json \<Rightarrow> string) \<Rightarrow> json \<Rightarrow> string \<Rightarrow> string \<Rightarrow> json" where
  "actionParameterValueTypeError dump arg1 arg2 arg3 = getLog I_actionParameterValueTypeError [dump 2 arg1, arg2, arg3]"

definition actionParameterValueTypeError_res :: "(int \<Rightarrow> json \<Rightarrow> string) \<Rightarrow> json \<Rightarrow> string \<Rightarrow> string \<Rightarrow> response \<Rightarrow> response option" where
  "actionParameterValueTypeError_res dump arg1 arg2 arg3 res = error_to (set_result 400 res) (actionParameterValueTypeError dump arg1 arg2 arg3)"

definition sessionLimitExceeded :: "json" where
  "sessionLimitExceeded = getLog I_sessionLimitExceeded []"

definition sessionLimitExceeded_res :: "response \<Rightarrow> response option" where
  "sessionLimitExceeded_res res = error_to (set_result 503 res) sessionLimitExceeded"

definition actionNotSupported :: "string \<Rightarrow> json" where
  "actionNotSupported arg1 = getLog I_actionNotSupported [arg1]"

definition actionNotSupported_res :: "string \<Rightarrow> response \<Rightarrow> response option" where
  "actionNotSupported_res arg1 res = error_to (set_result 400 res) (actionNotSupported arg1)"

definition invalidIndex :: "int \<Rightarrow> json" where
  "invalidIndex arg1 = getLog I_invalidIndex [int_to_string arg1]"

definition invalidIndex_res :: "int \<Rightarrow> response \<Rightarrow> response option" where
  "invalidIndex_res arg1 res = error_to (set_result 400 res) (invalidIndex arg1)"

definition emptyJSON :: "json" where
  "emptyJSON = getLog I_emptyJSON []"

definition emptyJSON_res :: "response \<Rightarrow> response option" where
  "emptyJSON_res res = error_to (set_result 400 res) emptyJSON"

definition queryNotSupportedOnResource :: "json" where
  "queryNotSupportedOnResource = getLog I_queryNotSupportedOnResource []"

definition queryNotSupportedOnResource_res :: "response \<Rightarrow> response option" where
  "queryNotSupportedOnResource_res res = error_to (set_result 400 res) queryNotSupportedOnResource"

definition queryNotSupportedOnOperation :: "json" where
  "queryNotSupportedOnOperation = getLog I_queryNotSupportedOnOperation []"

definition queryNotSupportedOnOperation_res :: "response \<Rightarrow> response option" where
  "queryNotSupportedOnOperation_res res = error_to (set_result 400 res) queryNotSupportedOnOperation"

definition queryCombinationInvalid :: "json" where
  "queryCombinationInvalid = getLog I_queryCombinationInvalid []"

definition queryCombinationInvalid_res :: "response \<Rightarrow> response option" where
  "queryCombinationInvalid_res res = error_to (set_result 400 res) queryCombinationInvalid"

definition insufficientPrivilege :: "json" where
  "insufficientPrivilege = getLog I_insufficientPrivilege []"

definition insufficientPrivilege_res :: "response \<Rightarrow> response option" where
  "insufficientPrivilege_res res = error_to (set_result 403 res) insufficientPrivilege"

definition propertyValueModified :: "(int \<Rightarrow> json \<Rightarrow> string) \<Rightarrow> string \<Rightarrow> json \<Rightarrow> json" where
  "propertyValueModified dump arg1 arg2 = getLog I_propertyValueModified [arg1, dump 2 arg2]"

definition propertyValueModified_res :: "(int \<Rightarrow> json \<Rightarrow> string) \<Rightarrow> string \<Rightarrow> json \<Rightarrow> response \<Rightarrow> response option" where
  "propertyValueModified_res dump arg1 arg2 res = field_to (set_result 200 res) (propertyValueModified dump arg1 arg2) arg1"

definition accountNotModified :: "json" where
  "accountNotModified = getLog I_accountNotModified []"

definition accountNotModified_res :: "response \<Rightarrow> response option" where
  "accountNotModified_res res = error_to (set_result 400 res) accountNotModified"

definition queryParameterValueFormatError :: "(int \<Rightarrow> json \<Rightarrow> string) \<Rightarrow> json \<Rightarrow> string \<Rightarrow> json" where
  "queryParameterValueFormatError dump arg1 arg2 = getLog I_queryParameterValueFormatError [dump 2 arg1, arg2]"

definition queryParameterValueFormatError_res :: "(int \<Rightarrow> json \<Rightarrow> string) \<Rightarrow> json \<Rightarrow> string \<Rightarrow> response \<Rightarrow> response option" where
  "queryParameterValueFormatError_res dump arg1 arg2 res = error_to (set_result 400 res) (queryParameterValueFormatError dump arg1 arg2)"

definition propertyMissing :: "string \<Rightarrow> json" where
  "propertyMissing arg1 = getLog I_propertyMissing [arg1]"

definition propertyMissing_res :: "string \<Rightarrow> response \<Rightarrow> response option" where
  "propertyMissing_res arg1 res = field_to (set_result 400 res) (propertyMissing arg1) arg1"

definition resourceExhaustion :: "string \<Rightarrow> json" where
  "resourceExhaustion arg1 = getLog I_resourceExhaustion [arg1]"

definition resourceExhaustion_res :: "string \<Rightarrow> response \<Rightarrow> response option" where
  "resourceExhaustion_res arg1 res = error_to (set_result 503 res) (resourceExhaustion arg1)"

definition accountModified :: "json" where
  "accountModified = getLog I_accountModified []"

definition accountModified_res :: "response \<Rightarrow> response option" where
  "accountModified_res res = error_to (set_result 200 res) accountModified"

definition queryParameterOutOfRange :: "string \<Rightarrow> string \<Rightarrow> string \<Rightarrow> json" where
  "queryParameterOutOfRange arg1 arg2 arg3 = getLog I_queryParameterOutOfRange [arg1, arg2, arg3]"

definition queryParameterOutOfRange_res :: "string \<Rightarrow> string \<Rightarrow> string \<Rightarrow> response \<Rightarrow> response option" where
  "queryParameterOutOfRange_res arg1 arg2 arg3 res = error_to (set_result 400 res) (queryParameterOutOfRange arg1 arg2 arg3)"

definition passwordChangeRequired :: "string \<Rightarrow> json" where
  "passwordChangeRequired arg1 = getLog I_passwordChangeRequired [arg1]"

definition passwordChangeRequired_res :: "string \<Rightarrow> response \<Rightarrow> response option" where
  "passwordChangeRequired_res arg1 res = root_to res (passwordChangeRequired arg1)"

definition insufficientStorage :: "json" where
  "insufficientStorage = getLog I_insufficientStorage []"

definition insufficientStorage_res :: "response \<Rightarrow> response option" where
  "insufficientStorage_res res = error_to (set_result 507 res) insufficientStorage"

definition operationNotAllowed :: "json" where
  "operationNotAllowed = getLog I_operationNotAllowed []"

definition operationNotAllowed_res :: "response \<Rightarrow> response option" where
  "operationNotAllowed_res res = error_to (set_result 405 res) operationNotAllowed"

definition arraySizeTooLong :: "string \<Rightarrow> nat \<Rightarrow> json" where
  "arraySizeTooLong property len = getLog I_arraySizeTooLong [property, nat_to_string len]"

definition arraySizeTooLong_res :: "string \<Rightarrow> nat \<Rightarrow> response \<Rightarrow> response option" where
  "arraySizeTooLong_res property len res = error_to (set_result 400 res) (arraySizeTooLong property len)"

definition invalidUpload :: "string \<Rightarrow> string \<Rightarrow> json" where
  "invalidUpload arg1 arg2 =
     (let msg = ''Invalid file uploaded to '' @ arg1 @ '': '' @ arg2 @ ''.'';
          r1 = omap_insert_or_assign ''@odata.type'' (JString ''/redfish/v1/$metadata#Message.v1_1_1.Message'') [];
          r2 = omap_insert_or_assign ''MessageId'' (JString ''OpenBMC.0.2.InvalidUpload'') r1;
          r3 = omap_insert_or_assign ''Message'' (JString msg) r2;
          r4 = omap_insert_or_assign ''MessageArgs'' (JArray [JString arg1, JString arg2]) r3;
          r5 = omap_insert_or_assign ''MessageSeverity'' (JString ''Warning'') r4;
          r6 = omap_insert_or_assign ''Resolution'' (JString ''None.'') r5
      in JObject r6)"

definition invalidUpload_res :: "string \<Rightarrow> string \<Rightarrow> response \<Rightarrow> response option" where
  "invalidUpload_res arg1 arg2 res = error_to (set_result 400 res) (invalidUpload arg1 arg2)"

section \<open>The functions as tables\<close>

definition builder_table :: "(int \<Rightarrow> json \<Rightarrow> string) \<Rightarrow> string \<Rightarrow> string \<Rightarrow> string \<Rightarrow> json \<Rightarrow> int \<Rightarrow> nat \<Rightarrow> (string \<times> string list \<times> json) list" where
  "builder_table dump arg1 arg2 arg3 j i u =
    [(''ResourceInUse'', [], resourceInUse),
     (''MalformedJSON'', [], malformedJSON),
     (''ResourceMissingAtURI'', [arg1], resourceMissingAtURI arg1),
     (''ActionParameterValueFormatError'', [dump 2 j, arg2, arg3], actionParameterValueFormatError dump j arg2 arg3),
     (''ActionParameterValueNotInList'', [arg1, arg2, arg3], actionParameterValueNotInList arg1 arg2 arg3),
     (''InternalError'', [], internalError),
     (''UnrecognizedRequestBody'', [], unrecognizedRequestBody),
     (''ResourceAtUriUnauthorized'', [arg1, arg2], resourceAtUriUnauthorized arg1 arg2),
     (''ActionParameterUnknown'', [arg1, arg2], actionParameterUnknown arg1 arg2),
     (''ResourceCannotBeDeleted'', [], resourceCannotBeDeleted),
     (''PropertyDuplicate'', [arg1], propertyDuplicate arg1),
     (''ServiceTemporarilyUnavailable'', [arg1], serviceTemporarilyUnavailable arg1),
     (''ResourceAlreadyExists'', [arg1, arg2, arg3], resourceAlreadyExists arg1 arg2 arg3),
     (''AccountForSessionNoLongerExists'', [], accountForSessionNoLongerExists),
     (''CreateFailedMissingReqProperties'', [arg1], createFailedMissingReqProperties arg1),
     (''PropertyValueFormatError'', [dump 2 j, arg2], propertyValueFormatError dump j arg2),
     (''PropertyValueNotInList'', [dump (-1) j, arg2], propertyValueNotInList dump j arg2),
     (''PropertyValueOutOfRange'', [dump 2 j, arg2], propertyValueOutOfRange dump j arg2),
     (''ResourceAtUriInUnknownFormat'', [arg1], resourceAtUriInUnknownFormat arg1),
     (''ServiceDisabled'', [arg1], serviceDisabled arg1),
     (''ServiceInUnknownState'', [], serviceInUnknownState),
     (''EventSubscriptionLimitExceeded'', [], eventSubscriptionLimitExceeded),
     (''ActionParameterMissing'', [arg1, arg2], actionParameterMissing arg1 arg2),
     (''StringValueTooLong'', [arg1, int_to_string i], stringValueTooLong arg1 i),
     (''SessionTerminated'', [], sessionTerminated),
     (''SubscriptionTerminated'', [], subscriptionTerminated),
     (''ResourceTypeIncompatible'', [arg1, arg2], resourceTypeIncompatible arg1 arg2),
     (''ResetRequired'', [arg1, arg2], resetRequired arg1 arg2),
     (''ChassisPowerStateOffRequired'', [arg1], chassisPowerStateOffRequired arg1),
     (''PropertyValueConflict'', [arg1, arg2], propertyValueConflict arg1 arg2),
     (''PropertyValueResourceConflict'', [arg1, dump 2 j, arg3], propertyValueResourceConflict dump arg1 j arg3),
     (''PropertyValueExternalConflict'', [arg1, dump 2 j], propertyValueExternalConflict dump arg1 j),
     (''PropertyValueIncorrect'', [dump 2 j, arg2], propertyValueIncorrect dump j arg2),
     (''ResourceCreationConflict'', [arg1], resourceCreationConflict arg1),
     (''MaximumErrorsExceeded'', [], maximumErrorsExceeded),
     (''PreconditionFailed'', [], preconditionFailed),
     (''PreconditionRequired'', [], preconditionRequired),
     (''OperationFailed'', [], operationFailed),
     (''OperationTimeout'', [], operationTimeout),
     (''PropertyValueTypeError'', [dump 2 j, arg2], propertyValueTypeError dump j arg2),
     (''ResourceNotFound'', [arg1, arg2], resourceNotFound arg1 arg2),
     (''CouldNotEstablishConnection'', [arg1], couldNotEstablishConnection arg1),
     (''PropertyNotWritable'', [arg1], propertyNotWritable arg1),
     (''QueryParameterValueTypeError'', [dump 2 j, arg2], queryParameterValueTypeError dump j arg2),
     (''ServiceShuttingDown'', [], serviceShuttingDown),
     (''ActionParameterDuplicate'', [arg1, arg2], actionParameterDuplicate arg1 arg2),
     (''ActionParameterNotSupported'', [arg1, arg2], actionParameterNotSupported arg1 arg2),
     (''SourceDoesNotSupportProtocol'', [arg1, arg2], sourceDoesNotSupportProtocol arg1 arg2),
     (''StrictAccountTypes'', [arg1], strictAccountTypes arg1),
     (''AccountRemoved'', [], accountRemoved),
     (''AccessDenied'', [arg1], accessDenied arg1),
     (''QueryNotSupported'', [], queryNotSupported),
     (''CreateLimitReachedForResource'', [], createLimitReachedForResource),
     (''GeneralError'', [], generalError),
     (''Success'', [], success),
     (''Created'', [], created),
     (''NoOperation'', [], noOperation),
     (''PropertyUnknown'', [arg1], propertyUnknown arg1),
     (''NoValidSession'', [], noValidSession),
     (''InvalidObject'', [arg1], invalidObject arg1),
     (''ResourceInStandby'', [], resourceInStandby),
     (''ActionParameterValueTypeError'', [dump 2 j, arg2, arg3], actionParameterValueTypeError dump j arg2 arg3),
     (''SessionLimitExceeded'', [], sessionLimitExceeded),
     (''ActionNotSupported'', [arg1], actionNotSupported arg1),
     (''InvalidIndex'', [int_to_string i], invalidIndex i),
     (''EmptyJSON'', [], emptyJSON),
     (''QueryNotSupportedOnResource'', [], queryNotSupportedOnResource),
     (''QueryNotSupportedOnOperation'', [], queryNotSupportedOnOperation),
     (''QueryCombinationInvalid'', [], queryCombinationInvalid),
     (''InsufficientPrivilege'', [], insufficientPrivilege),
     (''PropertyValueModified'', [arg1, dump 2 j], propertyValueModified dump arg1 j),
     (''AccountNotModified'', [], accountNotModified),
     (''QueryParameterValueFormatError'', [dump 2 j, arg2], queryParameterValueFormatError dump j arg2),
     (''PropertyMissing'', [arg1], propertyMissing arg1),
     (''ResourceExhaustion'', [arg1], resourceExhaustion arg1),
     (''AccountModified'', [], accountModified),
     (''QueryParameterOutOfRange'', [arg1, arg2, arg3], queryParameterOutOfRange arg1 arg2 arg3),
     (''PasswordChangeRequired'', [arg1], passwordChangeRequired arg1),
     (''InsufficientStorage'', [], insufficientStorage),
     (''OperationNotAllowed'', [], operationNotAllowed),
     (''ArraySizeTooLong'', [arg1, nat_to_string u], arraySizeTooLong arg1 u)]"

definition error_table :: "(int \<Rightarrow> json \<Rightarrow> string) \<Rightarrow> string \<Rightarrow> string \<Rightarrow> string \<Rightarrow> json \<Rightarrow> int \<Rightarrow> nat \<Rightarrow> response \<Rightarrow> (json \<times> response option) list" where
  "error_table dump arg1 arg2 arg3 j i u res =
    [(resourceInUse, resourceInUse_res res),
     (malformedJSON, malformedJSON_res res),
     (resourceMissingAtURI arg1, resourceMissingAtURI_res arg1 res),
     (actionParameterValueFormatError dump j arg2 arg3, actionParameterValueFormatError_res dump j arg2 arg3 res),
     (actionParameterValueNotInList arg1 arg2 arg3, actionParameterValueNotInList_res arg1 arg2 arg3 res),
     (internalError, internalError_res res),
     (unrecognizedRequestBody, unrecognizedRequestBody_res res),
     (resourceAtUriUnauthorized arg1 arg2, resourceAtUriUnauthorized_res arg1 arg2 res),
     (actionParameterUnknown arg1 arg2, actionParameterUnknown_res arg1 arg2 res),
     (resourceCannotBeDeleted, resourceCannotBeDeleted_res res),
     (serviceTemporarilyUnavailable arg1, serviceTemporarilyUnavailable_res arg1 res),
     (accountForSessionNoLongerExists, accountForSessionNoLongerExists_res res),
     (propertyValueOutOfRange dump j arg2, propertyValueOutOfRange_res dump j arg2 res),
     (resourceAtUriInUnknownFormat arg1, resourceAtUriInUnknownFormat_res arg1 res),
     (serviceDisabled arg1, serviceDisabled_res arg1 res),
     (serviceInUnknownState, serviceInUnknownState_res res),
     (eventSubscriptionLimitExceeded, eventSubscriptionLimitExceeded_res res),
     (actionParameterMissing arg1 arg2, actionParameterMissing_res arg1 arg2 res),
     (stringValueTooLong arg1 i, stringValueTooLong_res arg1 i res),
     (resourceTypeIncompatible arg1 arg2, resourceTypeIncompatible_res arg1 arg2 res),
     (resetRequired arg1 arg2, resetRequired_res arg1 arg2 res),
     (chassisPowerStateOnRequired arg1, chassisPowerStateOnRequired_res arg1 res),
     (chassisPowerStateOffRequired arg1, chassisPowerStateOffRequired_res arg1 res),
     (propertyValueConflict arg1 arg2, propertyValueConflict_res arg1 arg2 res),
     (propertyValueResourceConflict dump arg1 j arg3, propertyValueResourceConflict_res dump arg1 j arg3 res),
     (propertyValueExternalConflict dump arg1 j, propertyValueExternalConflict_res dump arg1 j res),
     (propertyValueIncorrect dump j arg2, propertyValueIncorrect_res dump j arg2 res),
     (resourceCreationConflict arg1, resourceCreationConflict_res arg1 res),
     (maximumErrorsExceeded, maximumErrorsExceeded_res res),
     (preconditionFailed, preconditionFailed_res res),
     (preconditionRequired, preconditionRequired_res res),
     (operationFailed, operationFailed_res res),
     (operationTimeout, operationTimeout_res res),
     (resourceNotFound arg1 arg2, resourceNotFound_res arg1 arg2 res),
     (couldNotEstablishConnection arg1, couldNotEstablishConnection_res arg1 res),
     (queryParameterValueTypeError dump j arg2, queryParameterValueTypeError_res dump j arg2 res),
     (serviceShuttingDown, serviceShuttingDown_res res),
     (actionParameterDuplicate arg1 arg2, actionParameterDuplicate_res arg1 arg2 res),
     (actionParameterNotSupported arg1 arg2, actionParameterNotSupported_res arg1 arg2 res),
     (sourceDoesNotSupportProtocol arg1 arg2, sourceDoesNotSupportProtocol_res arg1 arg2 res),
     (strictAccountTypes arg1, strictAccountTypes_res arg1 res),
     (accessDenied arg1, accessDenied_res arg1 res),
     (queryNotSupported, queryNotSupported_res res),
     (createLimitReachedForResource, createLimitReachedForResource_res res),
     (generalError, generalError_res res),
     (noOperation, noOperation_res res),
     (propertyUnknown arg1, propertyUnknown_res arg1 res),
     (noValidSession, noValidSession_res res),
     (invalidObject arg1, invalidObject_res arg1 res),
     (resourceInStandby, resourceInStandby_res res),
     (actionParameterValueTypeError dump j arg2 arg3, actionParameterValueTypeError_res dump j arg2 arg3 res),
     (sessionLimitExceeded, sessionLimitExceeded_res res),
     (actionNotSupported arg1, actionNotSupported_res arg1 res),
     (invalidIndex i, invalidIndex_res i res),
     (emptyJSON, emptyJSON_res res),
     (queryNotSupportedOnResource, queryNotSupportedOnResource_res res),
     (queryNotSupportedOnOperation, queryNotSupportedOnOperation_res res),
     (queryCombinationInvalid, queryCombinationInvalid_res res),
     (insufficientPrivilege, insufficientPrivilege_res res),
     (accountNotModified, accountNotModified_res res),
     (queryParameterValueFormatError dump j arg2, queryParameterValueFormatError_res dump j arg2 res),
     (resourceExhaustion arg1, resourceExhaustion_res arg1 res),
     (queryParameterOutOfRange arg1 arg2 arg3, queryParameterOutOfRange_res arg1 arg2 arg3 res),
     (insufficientStorage, insufficientStorage_res res),
     (operationNotAllowed, operationNotAllowed_res res),
     (arraySizeTooLong arg1 u, arraySizeTooLong_res arg1 u res),
     (invalidUpload arg1 arg2, invalidUpload_res arg1 arg2 res)]"

definition annotation_table :: "(int \<Rightarrow> json \<Rightarrow> string) \<Rightarrow> string \<Rightarrow> string \<Rightarrow> string \<Rightarrow> json \<Rightarrow> response \<Rightarrow> (string \<times> json \<times> response option) list" where
  "annotation_table dump arg1 arg2 arg3 j res =
    [(arg1, propertyDuplicate arg1, propertyDuplicate_res arg1 res),
     (arg2, resourceAlreadyExists arg1 arg2 arg3, resourceAlreadyExists_res arg1 arg2 arg3 res),
     (arg1, createFailedMissingReqProperties arg1, createFailedMissingReqProperties_res arg1 res),
     (arg2, propertyValueFormatError dump j arg2, propertyValueFormatError_res dump j arg2 res),
     (arg2, propertyValueNotInList dump j arg2, propertyValueNotInList_res dump j arg2 res),
     ([], sessionTerminated, sessionTerminated_res res),
     ([], subscriptionTerminated, subscriptionTerminated_res res),
     (arg2, propertyValueTypeError dump j arg2, propertyValueTypeError_res dump j arg2 res),
     (arg1, propertyNotWritable arg1, propertyNotWritable_res arg1 res),
     ([], accountRemoved, accountRemoved_res res),
     ([], success, success_res res),
     ([], created, created_res res),
     (arg1, propertyValueModified dump arg1 j, propertyValueModified_res dump arg1 j res),
     (arg1, propertyMissing arg1, propertyMissing_res arg1 res),
     ([], passwordChangeRequired arg1, passwordChangeRequired_res arg1 res)]"

lemmas builder_defs =
    resourceInUse_def malformedJSON_def resourceMissingAtURI_def
  actionParameterValueFormatError_def actionParameterValueNotInList_def internalError_def
  unrecognizedRequestBody_def resourceAtUriUnauthorized_def actionParameterUnknown_def
  resourceCannotBeDeleted_def propertyDuplicate_def serviceTemporarilyUnavailable_def
  resourceAlreadyExists_def accountForSessionNoLongerExists_def
  createFailedMissingReqProperties_def propertyValueFormatError_def propertyValueNotInList_def
  propertyValueOutOfRange_def resourceAtUriInUnknownFormat_def serviceDisabled_def
  serviceInUnknownState_def eventSubscriptionLimitExceeded_def actionParameterMissing_def
  stringValueTooLong_def sessionTerminated_def subscriptionTerminated_def
  resourceTypeIncompatible_def resetRequired_def chassisPowerStateOnRequired_def
  chassisPowerStateOffRequired_def propertyValueConflict_def propertyValueResourceConflict_def
  propertyValueExternalConflict_def propertyValueIncorrect_def resourceCreationConflict_def
  maximumErrorsExceeded_def preconditionFailed_def preconditionRequired_def operationFailed_def
  operationTimeout_def propertyValueTypeError_def resourceNotFound_def
  couldNotEstablishConnection_def propertyNotWritable_def queryParameterValueTypeError_def
  serviceShuttingDown_def actionParameterDuplicate_def actionParameterNotSupported_def
  sourceDoesNotSupportProtocol_def strictAccountTypes_def accountRemoved_def accessDenied_def
  queryNotSupported_def createLimitReachedForResource_def generalError_def success_def created_def
  noOperation_def propertyUnknown_def noValidSession_def invalidObject_def resourceInStandby_def
  actionParameterValueTypeError_def sessionLimitExceeded_def actionNotSupported_def
  invalidIndex_def emptyJSON_def queryNotSupportedOnResource_def queryNotSupportedOnOperation_def
  queryCombinationInvalid_def insufficientPrivilege_def propertyValueModified_def
  accountNotModified_def queryParameterValueFormatError_def propertyMissing_def
  resourceExhaustion_def accountModified_def queryParameterOutOfRange_def
  passwordChangeRequired_def insufficientStorage_def operationNotAllowed_def arraySizeTooLong_def

lemmas setter_defs =
    resourceInUse_res_def malformedJSON_res_def resourceMissingAtURI_res_def
  actionParameterValueFormatError_res_def actionParameterValueNotInList_res_def
  internalError_res_def unrecognizedRequestBody_res_def resourceAtUriUnauthorized_res_def
  actionParameterUnknown_res_def resourceCannotBeDeleted_res_def propertyDuplicate_res_def
  serviceTemporarilyUnavailable_res_def resourceAlreadyExists_res_def
  accountForSessionNoLongerExists_res_def createFailedMissingReqProperties_res_def
  propertyValueFormatError_res_def propertyValueNotInList_res_def propertyValueOutOfRange_res_def
  resourceAtUriInUnknownFormat_res_def serviceDisabled_res_def serviceInUnknownState_res_def
  eventSubscriptionLimitExceeded_res_def actionParameterMissing_res_def stringValueTooLong_res_def
  sessionTerminated_res_def subscriptionTerminated_res_def resourceTypeIncompatible_res_def
  resetRequired_res_def chassisPowerStateOnRequired_res_def chassisPowerStateOffRequired_res_def
  propertyValueConflict_res_def propertyValueResourceConflict_res_def
  propertyValueExternalConflict_res_def propertyValueIncorrect_res_def
  resourceCreationConflict_res_def maximumErrorsExceeded_res_def preconditionFailed_res_def
  preconditionRequired_res_def operationFailed_res_def operationTimeout_res_def
  propertyValueTypeError_res_def resourceNotFound_res_def couldNotEstablishConnection_res_def
  propertyNotWritable_res_def queryParameterValueTypeError_res_def serviceShuttingDown_res_def
  actionParameterDuplicate_res_def actionParameterNotSupported_res_def
  sourceDoesNotSupportProtocol_res_def strictAccountTypes_res_def accountRemoved_res_def
  accessDenied_res_def queryNotSupported_res_def createLimitReachedForResource_res_def
  generalError_res_def success_res_def created_res_def noOperation_res_def propertyUnknown_res_def
  noValidSession_res_def invalidObject_res_def resourceInStandby_res_def
  actionParameterValueTypeError_res_def sessionLimitExceeded_res_def actionNotSupported_res_def
  invalidIndex_res_def emptyJSON_res_def queryNotSupportedOnResource_res_def
  queryNotSupportedOnOperation_res_def queryCombinationInvalid_res_def
  insufficientPrivilege_res_def propertyValueModified_res_def accountNotModified_res_def
  queryParameterValueFormatError_res_def propertyMissing_res_def resourceExhaustion_res_def
  accountModified_res_def queryParameterOutOfRange_res_def passwordChangeRequired_res_def
  insufficientStorage_res_def operationNotAllowed_res_def arraySizeTooLong_res_def
  invalidUpload_res_def

section \<open>Every builder documents its own registry entry\<close>

text \<open>
  \<open>documents name args j\<close>: the registry has an entry of that name taking that many arguments, and
  \<open>j\<close> is its full message. The names in the registry are different, so there is one such entry.
\<close>

definition documents :: "string \<Rightarrow> string list \<Rightarrow> json \<Rightarrow> bool" where
  "documents name args j \<longleftrightarrow>
     list_ex (\<lambda>e. fst e = name \<and> length args = m_numberOfArgs (snd e) \<and> j = full_message base_header e args)
       base_registry"

lemma getLog_full:
  assumes "i < length base_registry" "length args = base_arg_counts ! i"
  shows "getLog i args = full_message base_header (base_registry ! i) args"
  using base_messages_full [of i args] assms
  by (auto simp: getLog_def base_arg_count)

lemma documents_getLog:
  assumes "i < 110" "base_names ! i = name" "length args = base_arg_counts ! i"
  shows "documents name args (getLog i args)"
proof -
  have "base_registry ! i \<in> set base_registry"
    using assms(1) length_base_registry by simp
  moreover have "fst (base_registry ! i) = name"
    using assms base_name length_base_registry by simp
  moreover have "length args = m_numberOfArgs (snd (base_registry ! i))"
    using assms base_arg_count length_base_registry by simp
  moreover have "getLog i args = full_message base_header (base_registry ! i) args"
    using assms getLog_full length_base_registry by simp
  ultimately show ?thesis
    unfolding documents_def list_ex_iff by blast
qed

lemma full_message_ok: "message_ok (full_message h e args)"
  by (simp add: full_message_def message_ok_def less_list_code)

lemma getLog_message_ok: "i < 110 \<Longrightarrow> message_ok (getLog i args)"
  by (simp add: getLog_def getLogFromRegistry_eq length_base_registry message_ok_def less_list_code)

lemma invalidUpload_ok: "message_ok (invalidUpload arg1 arg2)"
  by (simp add: invalidUpload_def Let_def message_ok_def less_list_code)


lemma resetRequired_entry:
  "m_message (snd (base_registry ! I_resetRequired)) =
     ''In order to apply changes, recover from errors, or complete the operation, a component reset is required with the Reset action URI '%1' and ResetType '%2'.''"
  "fst (base_registry ! I_resetRequired) = ''ResetRequired''"
  by code_simp+

lemma resetRequired_one_arg: "fillMessageArgs [arg1] (m_message (snd (base_registry ! I_resetRequired))) = []"
  unfolding resetRequired_entry fillMessageArgs_def
    by (simp add: fillLoop_plain fillLoop_place fillLoop_missing is_digit_def digit_val_def
  less_eq_char_def)

text \<open>
  \<open>chassisPowerStateOnRequired\<close> reports another message, \<open>ResetRequired\<close>, with too few
  arguments for it, so the text of its message is empty.
\<close>

theorem chassis_power_state_message_empty:
  "json_at (chassisPowerStateOnRequired arg1) ''MessageId'' = Some (JString ''Base.1.16.0.ResetRequired'')
   \<and> json_at (chassisPowerStateOnRequired arg1) ''Message'' = Some (JString [])
   \<and> base_names ! I_chassisPowerStateOnRequired = ''ChassisPowerStateOnRequired''"
proof (intro conjI)
  have i: "I_resetRequired < length base_registry"
    by (simp add: I_resetRequired_def length_base_registry)
  show "json_at (chassisPowerStateOnRequired arg1) ''MessageId'' = Some (JString ''Base.1.16.0.ResetRequired'')"
    and "json_at (chassisPowerStateOnRequired arg1) ''Message'' = Some (JString [])"
    using i by (simp_all add: chassisPowerStateOnRequired_def getLog_def getLogFromRegistry_eq
        resetRequired_one_arg resetRequired_entry(2) base_header_def)
  show "base_names ! I_chassisPowerStateOnRequired = ''ChassisPowerStateOnRequired''"
    by (simp add: I_chassisPowerStateOnRequired_def base_names_def)
qed

section \<open>Reporting in a response\<close>

text \<open>
  \<open>reports ms m out\<close>: the setter did not throw, its status is an error status, and the error
  member lists \<open>m\<close> behind \<open>ms\<close>.
\<close>

definition reports :: "json list \<Rightarrow> json \<Rightarrow> response option \<Rightarrow> bool" where
  "reports ms m out \<longleftrightarrow>
     (case out of
        None \<Rightarrow> False
      | Some res' \<Rightarrow> 400 \<le> res_status res' \<and> res_status res' < 600 \<and> carries (ms @ [m]) (jsonValue res'))"

text \<open>Reporting never throws on a response that is fit for it, and leaves it fit.\<close>

definition reportable :: "response \<Rightarrow> bool" where
  "reportable res \<longleftrightarrow> reportable_json (jsonValue res)"

lemma error_to_ok:
  assumes "reportable r" "message_ok m"
  shows "\<exists>r'. error_to r m = Some r' \<and> reportable r' \<and> res_status r' = res_status r"
  using add_error_ok [of "jsonValue r" m] assms by (auto simp: error_to_def reportable_def)

lemma field_to_ok:
  assumes "reportable r" "message_ok m"
  shows "\<exists>r'. field_to r m path = Some r' \<and> reportable r' \<and> res_status r' = res_status r"
  using push_at_ok [of "jsonValue r" m "path @ messageAnnotation"] assms
  by (auto simp: field_to_def reportable_def addMessageToJson_def message_ok_def)

lemma reportable_set_result [simp]: "reportable (set_result s r) = reportable r"
  by (simp add: reportable_def set_result_def)

lemma error_to_reports:
  assumes "json_ok (jsonValue res)" "carries ms (jsonValue res)" "list_all message_ok ms"
    and "message_ok m" "jsonValue r = jsonValue res" "400 \<le> res_status r" "res_status r < 600"
  shows "reports ms m (error_to r m)"
  using add_error [OF assms(1-4)] assms(5-7) by (auto simp: reports_def error_to_def)

lemma setter_parts [simp]:
  "jsonValue (set_result s r) = jsonValue r" "res_status (set_result s r) = s"
  "jsonValue (addHeader k v r) = jsonValue r"
  by (simp_all add: set_result_def addHeader_def)

text \<open>
  C8: each of the 67 setters that report an error in the error member sets an error status, does
  not throw on a response whose JSON is null or an object, and appends the message of its builder
  to the messages already reported there.
\<close>

theorem error_setters_report:
  assumes "json_ok (jsonValue res)" "carries ms (jsonValue res)" "list_all message_ok ms"
  shows "list_all (\<lambda>(m, out). reports ms m out) (error_table dump arg1 arg2 arg3 j i u res)"
  unfolding error_table_def setter_defs list.pred_inject split_conv
  by (intro conjI TrueI error_to_reports [OF assms])
    (simp_all only: builder_defs Index_defs getLog_message_ok invalidUpload_ok setter_parts, simp_all)

theorem error_setters_report_witness:
  "reports [] (resourceNotFound ''Chassis'' ''A'') (resourceNotFound_res ''Chassis'' ''A'' response_init)"
  using error_setters_report [of response_init "[]" undefined "''Chassis''" "''A''"]
  by (simp add: error_table_def response_init_def carries_def)

text \<open>The messages of an annotation, and a setter that appends one to it.\<close>

definition annotated :: "json \<Rightarrow> string \<Rightarrow> json list" where
  "annotated j key = (case json_at j key of Some (JArray xs) \<Rightarrow> xs | _ \<Rightarrow> [])"

definition annotates :: "response \<Rightarrow> string \<Rightarrow> json \<Rightarrow> response option \<Rightarrow> bool" where
  "annotates res path m out \<longleftrightarrow>
     (case out of
        None \<Rightarrow> False
      | Some res' \<Rightarrow>
          res_status res' < 500
          \<and> annotated (jsonValue res') (path @ messageAnnotation)
              = annotated (jsonValue res) (path @ messageAnnotation) @ [m])"

lemma push_at_appends:
  assumes "json_ok j" "j = JNull \<or> is_object j"
  shows "\<exists>j'. push_at j key m = Some j' \<and> annotated j' key = annotated j key @ [m]"
proof -
  obtain field where f: "json_index j key = Some field" "annotated j key = (case field of JArray xs \<Rightarrow> xs | _ \<Rightarrow> [])"
    using assms(2) by (cases j) (auto simp: annotated_def split: option.split)
  obtain j' where j': "json_set j key (push_to field m) = Some j'"
    using assms(2) by (cases j) auto
  then have "json_at j' key = Some (push_to field m)"
    using json_at_set [OF assms(1) j', of key] by simp
  then show ?thesis
    using f j' by (auto simp: push_at_def annotated_def push_to_def split: json.splits)
qed

lemma to_annotates:
  assumes "json_ok (jsonValue res)" "jsonValue res = JNull \<or> is_object (jsonValue res)"
    and "jsonValue r = jsonValue res" "res_status r < 500"
  shows "annotates res path m (field_to r m path)" "annotates res [] m (root_to r m)"
  using push_at_appends [OF assms(1,2), of "path @ messageAnnotation" m]
    push_at_appends [OF assms(1,2), of messageAnnotation m] assms(3,4)
    by (auto simp: annotates_def field_to_def root_to_def addMessageToJson_def
  addMessageToJsonRoot_def)

text \<open>
  Each of the 15 setters that annotate a property or the root appends its message to that
  annotation, keeping the messages there, and never throws on a null or object value.
\<close>

theorem annotation_setters_append:
  assumes "json_ok (jsonValue res)" "jsonValue res = JNull \<or> is_object (jsonValue res)"
    and "res_status res < 500"
  shows "list_all (\<lambda>(path, m, out). annotates res path m out)
           (annotation_table dump arg1 arg2 arg3 j res)"
  unfolding annotation_table_def setter_defs list.pred_inject split_conv
  by (intro conjI TrueI to_annotates [OF assms(1,2)]) (simp_all add: assms(3))

theorem annotation_setters_append_witness:
  "annotates response_init ''Name'' (propertyMissing ''Name'') (propertyMissing_res ''Name'' response_init)"
  using annotation_setters_append [of response_init undefined "''Name''"]
  by (simp add: annotation_table_def response_init_def)

end
