(* ===== verification/HumanSort.thy ===== *)
theory HumanSort
  imports Prelude
begin

text \<open>
  The natural ordering of names of \<open>include/human_sort.hpp\<close>: \<open>alphanumComp\<close> compares two strings
  character by character, and runs of digits by their value. Whether \<open>char\<close> is signed is an
  argument, since it decides how bytes above 127 compare. The specification reads a string as a
  list of tokens with a sort key each; the lemmas show that the comparison is the lexicographic
  order of the keys, hence a strict weak order, as the containers and sorts that use it require.
\<close>

section \<open>The comparison\<close>

text \<open>
  \<open>std::from_chars\<close> into an \<open>int\<close> that is 0 before: the value of the longest run of digits, left
  at 0 when it does not fit, and the rest of the string behind the run in either case.
\<close>

definition from_chars_int :: "string \<Rightarrow> int \<times> string" where
  "from_chars_int s =
     (let n = dec_value (takeWhile is_digit s)
      in (if n < 2 ^ 31 then int n else 0, dropWhile is_digit s))"

definition char_value :: "bool \<Rightarrow> char \<Rightarrow> int" where
  "char_value sgn_char c =
     (let n = (of_char c :: nat) in if sgn_char \<and> 128 \<le> n then int n - 256 else int n)"

text \<open>
  The loop, entered in STRING mode. The two digits that switch it to NUMBER mode are consumed in
  the same round here, since the next test of the loop condition finds both strings as they are.
\<close>

function alphanumComp :: "bool \<Rightarrow> string \<Rightarrow> string \<Rightarrow> int" where
  "alphanumComp sgn_char [] [] = 0"
| "alphanumComp sgn_char (c # l) [] = 1"
| "alphanumComp sgn_char [] (d # r) = -1"
| "alphanumComp sgn_char (c # l) (d # r) =
     (if is_digit c \<and> is_digit d then
        (case (from_chars_int (c # l), from_chars_int (d # r)) of
           ((lInt, l'), (rInt, r')) \<Rightarrow>
             if lInt - rInt \<noteq> 0 then lInt - rInt else alphanumComp sgn_char l' r')
      else if is_digit c then -1
      else if is_digit d then 1
      else let diff = char_value sgn_char c - char_value sgn_char d
           in if diff \<noteq> 0 then diff else alphanumComp sgn_char l r)"
  by pat_completeness auto

termination
  by (relation "measure (\<lambda>(s, l, r). length l)")
    (auto simp: from_chars_int_def Let_def length_dropWhile_le le_imp_less_Suc)

definition alphanumLess :: "bool \<Rightarrow> string \<Rightarrow> string \<Rightarrow> bool" where
  "alphanumLess sgn_char left right \<longleftrightarrow> alphanumComp sgn_char left right < 0"

section \<open>The order it computes\<close>

text \<open>
  The sort keys of a string: the value of each run of digits, and behind all numbers the other
  characters, one by one.
\<close>

definition char_key :: "bool \<Rightarrow> char \<Rightarrow> int" where
  "char_key sgn_char c = 2 ^ 32 + char_value sgn_char c"

function sort_keys :: "bool \<Rightarrow> string \<Rightarrow> int list" where
  "sort_keys sgn_char [] = []"
| "sort_keys sgn_char (c # s) =
     (if is_digit c then fst (from_chars_int (c # s)) # sort_keys sgn_char (dropWhile is_digit s)
      else char_key sgn_char c # sort_keys sgn_char s)"
  by pat_completeness auto

termination
  by (relation "measure (\<lambda>(b, s). length s)") (auto simp: length_dropWhile_le le_imp_less_Suc)

lemma from_chars_int_bounds: "0 \<le> fst (from_chars_int s)" "fst (from_chars_int s) < 2 ^ 31"
  by (auto simp: from_chars_int_def Let_def)

lemma from_chars_int_rest [simp]: "is_digit c \<Longrightarrow> snd (from_chars_int (c # s)) = dropWhile is_digit s"
  by (simp add: from_chars_int_def Let_def)

lemma char_key_ge: "2 ^ 31 \<le> char_key sgn_char c"
  by (simp add: char_key_def char_value_def Let_def)

lemma int_list_less [simp]:
  "([] :: int list) < ys \<longleftrightarrow> ys \<noteq> []" "\<not> xs < ([] :: int list)"
  "((x :: int) # xs < y # ys) \<longleftrightarrow> x < y \<or> x = y \<and> xs < ys"
  by (cases ys; simp add: less_list_code)+ 

lemma alphanumComp_keys:
  "(alphanumComp sgn_char l r < 0 \<longleftrightarrow> sort_keys sgn_char l < sort_keys sgn_char r)
   \<and> (alphanumComp sgn_char l r = 0 \<longleftrightarrow> sort_keys sgn_char l = sort_keys sgn_char r)"
proof (induction sgn_char l r rule: alphanumComp.induct)
  case (4 b c l d r)
  note bl = from_chars_int_bounds [of "c # l"] and br = from_chars_int_bounds [of "d # r"]
  note kc = char_key_ge [of b c] and kd = char_key_ge [of b d]
  show ?case
  proof (cases "is_digit c \<and> is_digit d")
    case True
    obtain x l' y r' where xy: "from_chars_int (c # l) = (x, l')" "from_chars_int (d # r) = (y, r')"
      by (metis surj_pair)
    then have "l' = dropWhile is_digit l" "r' = dropWhile is_digit r"
      using True from_chars_int_rest by (metis snd_conv)+
    then show ?thesis
      using True xy 4(1) [OF True refl] by (auto simp: xy)
  next
    case False
    then show ?thesis
      using 4(2) bl br kc kd by (auto simp: Let_def char_key_def)
  qed
qed auto

text \<open>
  The natural order. \<open>AlphanumLess\<close> orders strings by the lexicographic order of their sort
  keys, and \<open>alphanumComp\<close> is antisymmetric in sign and 0 exactly on strings with the same keys;
  so the comparison is a strict weak order whatever the sign of \<open>char\<close>, and numbers in names are
  compared by value.
\<close>

theorem alphanum_order:
  "(alphanumLess sgn_char l r \<longleftrightarrow> sort_keys sgn_char l < sort_keys sgn_char r)
   \<and> (alphanumComp sgn_char l r < 0 \<longleftrightarrow> 0 < alphanumComp sgn_char r l)
   \<and> (alphanumComp sgn_char l r = 0 \<longleftrightarrow> sort_keys sgn_char l = sort_keys sgn_char r)"
  using alphanumComp_keys [of sgn_char l r] alphanumComp_keys [of sgn_char r l]
    less_linear [of "sort_keys sgn_char l" "sort_keys sgn_char r"]
  unfolding alphanumLess_def by (metis less_asym less_irrefl linorder_neqE_linordered_idom)

text \<open>Numbers that do not fit in an \<open>int\<close> are compared as 0.\<close>

lemma large_numbers_compare_as_zero:
  "alphanumLess sgn_char ''eth9999999999'' ''eth1''"
  using alphanumComp_keys [of sgn_char "''eth9999999999''" "''eth1''"]
  by (simp add: alphanumLess_def from_chars_int_def dec_value_def is_digit_def digit_val_def
      less_eq_char_def)

end
