(* ===== verification/JsonUtils.thy ===== *)
theory JsonUtils
  imports ErrorMessages HumanSort "HOL-Library.Product_Lexorder"
begin

text \<open>
  Reading a request body: \<open>include/utils/json_utils.hpp\<close>, \<open>redfish_event/src/json_utils.cpp\<close> and
  \<open>http/parsing.hpp\<close>. A body is parsed, its members are matched with the properties a handler asks
  for (keys may be paths such as \<open>Boot/Target\<close>), and each value is converted to the type of the
  variable it is read into, with a Redfish message for every member that is unknown, missing, of
  the wrong type or out of range.

  The variables of the caller are a store from numbers to values. The values the code moves out of
  the request are copied here; the request is not looked at again once it has been read. The JSON
  parser, the serialiser, the URL parser and the conversion of integers to doubles are arguments.
\<close>

section \<open>Types and values\<close>

datatype base_type = TU8 | TU16 | TI16 | TU32 | TI32 | TU64 | TI64 | TBool | TDouble | TString | TJson

datatype unpack_type =
    TBase base_type
  | TVector unpack_type
  | TArray nat unpack_type
  | TOptional unpack_type

datatype uvalue =
    VInt int
  | VBool bool
  | VDouble u64
  | VString string
  | VJson json
  | VList "uvalue list"
  | VNone
  | VSome uvalue

datatype UnpackErrorCode = invalidType | outOfRange

text \<open>\<open>get_ptr\<close> of the JSON library: a signed pointer is given for both kinds of integer.\<close>

fun get_int64 :: "json \<Rightarrow> int option" where
  "get_int64 (JInt i) = Some i"
| "get_int64 (JUInt n) = Some (sint (word_of_nat n :: i64))"
| "get_int64 j = None"

fun get_uint64 :: "json \<Rightarrow> int option" where
  "get_uint64 (JUInt n) = Some (int n)"
| "get_uint64 j = None"

fun get_double :: "json \<Rightarrow> u64 option" where
  "get_double (JFloat d) = Some d"
| "get_double j = None"

text \<open>
  \<open>checkRange\<close>: for an integer type its bounds; for \<open>double\<close> the value must be finite, as infinities
  exceed \<open>max\<close> or \<open>lowest\<close> and NaN is tested for (all have an exponent of ones).
\<close>

definition checkRange :: "int \<Rightarrow> int \<Rightarrow> int \<Rightarrow> bool" where
  "checkRange lowest highest from \<longleftrightarrow> \<not> highest < from \<and> \<not> from < lowest"

definition checkRange_double :: "u64 \<Rightarrow> bool" where
  "checkRange_double from \<longleftrightarrow> drop_bit 52 from AND 0x7FF \<noteq> 0x7FF"

fun signed_bits :: "base_type \<Rightarrow> nat option" where
  "signed_bits TI16 = Some 16"
| "signed_bits TI32 = Some 32"
| "signed_bits TI64 = Some 64"
| "signed_bits t = None"

fun unsigned_bits :: "base_type \<Rightarrow> nat option" where
  "unsigned_bits TU8 = Some 8"
| "unsigned_bits TU16 = Some 16"
| "unsigned_bits TU32 = Some 32"
| "unsigned_bits TU64 = Some 64"
| "unsigned_bits t = None"

definition unpackValueWithErrorCode ::
    "(int \<Rightarrow> u64) \<Rightarrow> json \<Rightarrow> base_type \<Rightarrow> UnpackErrorCode + uvalue" where
  "unpackValueWithErrorCode to_double j t =
     (if t = TDouble then
        (case (case get_double j of Some d \<Rightarrow> Some d | None \<Rightarrow> map_option to_double (get_int64 j)) of
           None \<Rightarrow> Inl invalidType
         | Some d \<Rightarrow> if checkRange_double d then Inr (VDouble d) else Inl outOfRange)
      else case signed_bits t of
        Some w \<Rightarrow>
          (case get_int64 j of
             None \<Rightarrow> Inl invalidType
           | Some i \<Rightarrow> if checkRange (- (2 ^ (w - 1))) (2 ^ (w - 1) - 1) i then Inr (VInt i) else Inl outOfRange)
      | None \<Rightarrow>
          (case unsigned_bits t of
             Some w \<Rightarrow>
               (case get_uint64 j of
                  None \<Rightarrow> Inl invalidType
                | Some n \<Rightarrow> if checkRange 0 (2 ^ w - 1) n then Inr (VInt n) else Inl outOfRange)
           | None \<Rightarrow>
               (case (t, j) of
                  (TJson, _) \<Rightarrow> Inr (VJson j)
                | (TBool, JBool b) \<Rightarrow> Inr (VBool b)
                | (TString, JString s) \<Rightarrow> Inr (VString s)
                | _ \<Rightarrow> Inl invalidType)))"

fun default_base :: "base_type \<Rightarrow> uvalue" where
  "default_base TBool = VBool False"
| "default_base TDouble = VDouble 0"
| "default_base TString = VString []"
| "default_base TJson = VJson JNull"
| "default_base t = VInt 0"

primrec default_value :: "unpack_type \<Rightarrow> uvalue" where
  "default_value (TBase t) = default_base t"
| "default_value (TVector t) = VList []"
| "default_value (TArray n t) = VList (replicate n (default_value t))"
| "default_value (TOptional t) = VNone"

fun list_of :: "uvalue \<Rightarrow> uvalue list" where
  "list_of (VList vs) = vs"
| "list_of v = []"

section \<open>Unpacking one value\<close>

text \<open>
  The loop over the elements of an array: each element is unpacked into its slot (a new default
  element of a vector, or the element already in an array), and all of them are, whatever the
  earlier ones gave. The result is the flag, the new values and the response.
\<close>

primrec unpackElements ::
    "(json \<Rightarrow> response \<Rightarrow> uvalue \<Rightarrow> (bool \<times> uvalue \<times> response) option) \<Rightarrow> json list \<Rightarrow> uvalue list
       \<Rightarrow> bool \<Rightarrow> response \<Rightarrow> (bool \<times> uvalue list \<times> response) option" where
  "unpackElements f [] slots ret res = Some (ret, [], res)"
| "unpackElements f (x # xs) slots ret res =
     (case f x res (hd slots) of
        None \<Rightarrow> None
      | Some (ok, v, res1) \<Rightarrow>
          (case unpackElements f xs (tl slots) (ok \<and> ret) res1 of
             None \<Rightarrow> None
           | Some (ret', vs, res') \<Rightarrow> Some (ret', v # vs, res')))"

text \<open>The overload that reports in the response. \<open>old\<close> is the value of the variable before.\<close>

primrec unpackValue ::
    "unpack_type \<Rightarrow> (int \<Rightarrow> u64) \<Rightarrow> (int \<Rightarrow> json \<Rightarrow> string) \<Rightarrow> string \<Rightarrow> json \<Rightarrow> response \<Rightarrow> uvalue
       \<Rightarrow> (bool \<times> uvalue \<times> response) option" where
  "unpackValue (TBase t) = (\<lambda>to_double dump key j res old.
     (case unpackValueWithErrorCode to_double j t of
        Inr v \<Rightarrow> Some (True, v, res)
      | Inl invalidType \<Rightarrow> map_option (\<lambda>r. (False, old, r)) (propertyValueTypeError_res dump j key res)
      | Inl outOfRange \<Rightarrow> map_option (\<lambda>r. (False, old, r)) (propertyValueNotInList_res dump j key res)))"
| "unpackValue (TVector t) = (\<lambda>to_double dump key j res old.
     (case j of
        JArray xs \<Rightarrow>
          map_option (\<lambda>(ret, vs, r). (ret, VList (list_of old @ vs), r))
            (unpackElements (unpackValue t to_double dump key) xs
               (replicate (length xs) (default_value t)) True res)
      | _ \<Rightarrow> map_option (\<lambda>r. (False, old, r)) (propertyValueTypeError_res dump (jsonValue res) key res)))"
| "unpackValue (TArray n t) = (\<lambda>to_double dump key j res old.
     (case j of
        JArray xs \<Rightarrow>
          if length xs \<noteq> n
          then map_option (\<lambda>r. (False, old, r)) (propertyValueTypeError_res dump (jsonValue res) key res)
          else map_option (\<lambda>(ret, vs, r). (ret, VList vs, r))
            (unpackElements (unpackValue t to_double dump key) xs (list_of old) True res)
      | _ \<Rightarrow> map_option (\<lambda>r. (False, old, r)) (propertyValueTypeError_res dump (jsonValue res) key res)))"
| "unpackValue (TOptional t) = (\<lambda>to_double dump key j res old.
     map_option (\<lambda>(ret, v, r). (ret, VSome v, r))
       (unpackValue t to_double dump key j res (default_value t)))"

text \<open>The overload that only answers whether the value has the type.\<close>

primrec quietElements ::
    "(json \<Rightarrow> uvalue \<Rightarrow> bool \<times> uvalue) \<Rightarrow> json list \<Rightarrow> uvalue list \<Rightarrow> bool \<Rightarrow> bool \<times> uvalue list" where
  "quietElements f [] slots ret = (ret, [])"
| "quietElements f (x # xs) slots ret =
     (case f x (hd slots) of
        (ok, v) \<Rightarrow> (case quietElements f xs (tl slots) (ok \<and> ret) of (ret', vs) \<Rightarrow> (ret', v # vs)))"

primrec unpackValueQuiet :: "unpack_type \<Rightarrow> (int \<Rightarrow> u64) \<Rightarrow> json \<Rightarrow> uvalue \<Rightarrow> bool \<times> uvalue" where
  "unpackValueQuiet (TBase t) = (\<lambda>to_double j old.
     (case unpackValueWithErrorCode to_double j t of Inr v \<Rightarrow> (True, v) | Inl e \<Rightarrow> (False, old)))"
| "unpackValueQuiet (TVector t) = (\<lambda>to_double j old.
     (case j of
        JArray xs \<Rightarrow>
          (case quietElements (unpackValueQuiet t to_double) xs (replicate (length xs) (default_value t)) True of
             (ret, vs) \<Rightarrow> (ret, VList (list_of old @ vs)))
      | _ \<Rightarrow> (False, old)))"
| "unpackValueQuiet (TArray n t) = (\<lambda>to_double j old.
     (case j of
        JArray xs \<Rightarrow>
          if length xs \<noteq> n then (False, old)
          else (case quietElements (unpackValueQuiet t to_double) xs (list_of old) True of
                  (ret, vs) \<Rightarrow> (ret, VList vs))
      | _ \<Rightarrow> (False, old)))"
| "unpackValueQuiet (TOptional t) = (\<lambda>to_double j old.
     (case unpackValueQuiet t to_double j (default_value t) of (ret, v) \<Rightarrow> (ret, VSome v)))"

section \<open>Matching the members of an object\<close>

text \<open>
  A property a handler asks for: its key, the type and the place of its variable, and whether a
  member was already matched with it.
\<close>

record per_unpack =
  pu_key :: string
  pu_type :: unpack_type
  pu_target :: nat
  pu_complete :: bool

type_synonym store = "nat \<Rightarrow> uvalue"

text \<open>The part of a key before the first \<open>/\<close>, and the part behind it.\<close>

definition key_head :: "string \<Rightarrow> string" where
  "key_head key = takeWhile (\<lambda>c. c \<noteq> CHR ''/'') key"

definition key_leftover :: "string \<Rightarrow> string" where
  "key_leftover key = drop 1 (dropWhile (\<lambda>c. c \<noteq> CHR ''/'') key)"

fun find_spec :: "string \<Rightarrow> per_unpack list \<Rightarrow> nat option" where
  "find_spec k [] = None"
| "find_spec k (s # specs) =
     (if key_head (pu_key s) \<noteq> k \<or> pu_complete s then map_option Suc (find_spec k specs) else Some 0)"

definition nextLevel :: "string \<Rightarrow> per_unpack list \<Rightarrow> per_unpack list" where
  "nextLevel key specs =
     map (\<lambda>p. p\<lparr>pu_key := drop (length key) (pu_key p), pu_complete := False\<rparr>)
       (filter (\<lambda>p. prefix key (pu_key p)) specs)"

definition completeLevel :: "string \<Rightarrow> per_unpack list \<Rightarrow> per_unpack list" where
  "completeLevel key specs =
     map (\<lambda>p. if prefix key (pu_key p) then p\<lparr>pu_complete := True\<rparr> else p) specs"

fun is_optional :: "unpack_type \<Rightarrow> bool" where
  "is_optional (TOptional t) = True"
| "is_optional t = False"

text \<open>The second loop: a message for every property that is missing and not optional.\<close>

fun readMissing :: "per_unpack list \<Rightarrow> bool \<Rightarrow> response \<Rightarrow> (bool \<times> response) option" where
  "readMissing [] result res = Some (result, res)"
| "readMissing (p # ps) result res =
     (if pu_complete p \<or> is_optional (pu_type p) then readMissing ps result res
      else (case propertyMissing_res (pu_key p) res of
              None \<Rightarrow> None
            | Some res1 \<Rightarrow> readMissing ps False res1))"

text \<open>
  \<open>readJsonHelper\<close> and its first loop, over the members of the object. The loop yields whether the
  function returns at once (a path is met after an earlier error), the flag, the response, the
  properties with their marks, and the variables.
\<close>

function readJsonHelper ::
    "(int \<Rightarrow> u64) \<Rightarrow> (int \<Rightarrow> json \<Rightarrow> string) \<Rightarrow> json \<Rightarrow> response \<Rightarrow> per_unpack list \<Rightarrow> store
       \<Rightarrow> (bool \<times> response \<times> store) option"
  and readItems ::
    "(int \<Rightarrow> u64) \<Rightarrow> (int \<Rightarrow> json \<Rightarrow> string) \<Rightarrow> json_object \<Rightarrow> bool \<Rightarrow> response \<Rightarrow> per_unpack list \<Rightarrow> store
       \<Rightarrow> (bool \<times> bool \<times> response \<times> per_unpack list \<times> store) option" where
  "readJsonHelper to_double dump jsonRequest res toUnpack vars =
     (case jsonRequest of
        JObject obj \<Rightarrow>
          (case readItems to_double dump obj True res toUnpack vars of
             None \<Rightarrow> None
           | Some (returned, result, res1, specs, vars1) \<Rightarrow>
               if returned then Some (result, res1, vars1)
               else map_option (\<lambda>(result', res2). (result', res2, vars1)) (readMissing specs result res1))
      | _ \<Rightarrow> map_option (\<lambda>r. (False, r, vars)) (unrecognizedRequestBody_res res))"
| "readItems to_double dump [] result res specs vars = Some (False, result, res, specs, vars)"
| "readItems to_double dump ((k, v) # items) result res specs vars =
     (case find_spec k specs of
        None \<Rightarrow>
          (case propertyUnknown_res k res of
             None \<Rightarrow> None
           | Some res1 \<Rightarrow> readItems to_double dump items False res1 specs vars)
      | Some i \<Rightarrow>
          (let s = specs ! i
           in if key_leftover (pu_key s) \<noteq> [] then
                if \<not> result then Some (True, False, res, specs, vars)
                else let key = key_head (pu_key s) @ ''/''
                     in (case readJsonHelper to_double dump v res (nextLevel key specs) vars of
                           None \<Rightarrow> None
                         | Some (ok, res1, vars1) \<Rightarrow>
                             readItems to_double dump items (ok \<and> result) res1 (completeLevel key specs) vars1)
              else (case unpackValue (pu_type s) to_double dump (pu_key s) v res (vars (pu_target s)) of
                      None \<Rightarrow> None
                    | Some (ok, val, res1) \<Rightarrow>
                        readItems to_double dump items (ok \<and> result) res1 (specs[i := s\<lparr>pu_complete := True\<rparr>])
                          (vars(pu_target s := val)))))"
  by pat_completeness auto

termination
  by (relation "measure (case_sum (\<lambda>(td, d, j, r, s, v). size j)
       (\<lambda>(td, d, items, b, r, s, v). size_list (size_prod (\<lambda>_. 0) size) items))") auto

declare readJsonHelper.simps [simp del]

definition packVariant :: "(string \<times> unpack_type \<times> nat) list \<Rightarrow> per_unpack list" where
  "packVariant = map (\<lambda>(key, t, target). \<lparr>pu_key = key, pu_type = t, pu_target = target, pu_complete = False\<rparr>)"

definition readJson ::
    "(int \<Rightarrow> u64) \<Rightarrow> (int \<Rightarrow> json \<Rightarrow> string) \<Rightarrow> json \<Rightarrow> response \<Rightarrow> (string \<times> unpack_type \<times> nat) list \<Rightarrow> store
       \<Rightarrow> (bool \<times> response \<times> store) option" where
  "readJson to_double dump jsonRequest res wanted vars =
     readJsonHelper to_double dump jsonRequest res (packVariant wanted) vars"

section \<open>From a request to JSON\<close>

text \<open>
  \<open>parse\<close> is the JSON parser (\<open>None\<close> for a discarded value) and \<open>ignore_type\<close> the build option
  that accepts any content type. \<open>processJsonFromRequest\<close> parses the body a second time itself.
\<close>

datatype JsonParseResult = BadContentType | BadJsonData | ParseSuccess json

definition parseRequestAsJson ::
    "(string \<Rightarrow> json option) \<Rightarrow> bool \<Rightarrow> 's request \<Rightarrow> JsonParseResult" where
  "parseRequestAsJson parse ignore_type req =
     (let contentType = rq_getHeaderValue req ''Content-Type''
      in if \<not> iequals contentType ''application/json''
            \<and> \<not> iequals contentType ''application/json; charset=utf-8'' \<and> \<not> ignore_type
         then BadContentType
         else (case parse (rq_body req) of None \<Rightarrow> BadJsonData | Some j \<Rightarrow> ParseSuccess j))"

definition processJsonFromRequest ::
    "(string \<Rightarrow> json option) \<Rightarrow> bool \<Rightarrow> response \<Rightarrow> 's request \<Rightarrow> (json option \<times> response) option" where
  "processJsonFromRequest parse ignore_type res req =
     (if parseRequestAsJson parse ignore_type req = BadContentType
      then map_option (\<lambda>r. (None, r)) (unrecognizedRequestBody_res res)
      else (case parse (rq_body req) of
              None \<Rightarrow> map_option (\<lambda>r. (None, r)) (malformedJSON_res res)
            | Some j \<Rightarrow> Some (Some j, res)))"

definition readJsonPatchHelper ::
    "(string \<Rightarrow> json option) \<Rightarrow> bool \<Rightarrow> 's request \<Rightarrow> response \<Rightarrow> (json option \<times> response) option" where
  "readJsonPatchHelper parse ignore_type req res =
     (case processJsonFromRequest parse ignore_type res req of
        None \<Rightarrow> None
      | Some (None, res1) \<Rightarrow> Some (None, res1)
      | Some (Some j, res1) \<Rightarrow>
          (case j of
             JObject obj \<Rightarrow>
               if obj = [] then map_option (\<lambda>r. (None, r)) (emptyJSON_res res1)
               else let obj1 = filter (\<lambda>p. \<not> prefix ''@odata.'' (fst p)) obj
                    in if obj1 = [] then map_option (\<lambda>r. (None, r)) (noOperation_res res1)
                       else Some (Some (JObject obj1), res1)
           | _ \<Rightarrow> map_option (\<lambda>r. (None, r)) (emptyJSON_res res1)))"

definition readJsonPatch ::
    "(int \<Rightarrow> u64) \<Rightarrow> (int \<Rightarrow> json \<Rightarrow> string) \<Rightarrow> (string \<Rightarrow> json option) \<Rightarrow> bool \<Rightarrow> 's request \<Rightarrow> response
       \<Rightarrow> (string \<times> unpack_type \<times> nat) list \<Rightarrow> store \<Rightarrow> (bool \<times> response \<times> store) option" where
  "readJsonPatch to_double dump parse ignore_type req res wanted vars =
     (case readJsonPatchHelper parse ignore_type req res of
        None \<Rightarrow> None
      | Some (None, res1) \<Rightarrow> Some (False, res1, vars)
      | Some (Some j, res1) \<Rightarrow> readJson to_double dump j res1 wanted vars)"

definition readJsonAction ::
    "(int \<Rightarrow> u64) \<Rightarrow> (int \<Rightarrow> json \<Rightarrow> string) \<Rightarrow> (string \<Rightarrow> json option) \<Rightarrow> bool \<Rightarrow> 's request \<Rightarrow> response
       \<Rightarrow> (string \<times> unpack_type \<times> nat) list \<Rightarrow> store \<Rightarrow> (bool \<times> response \<times> store) option" where
  "readJsonAction to_double dump parse ignore_type req res wanted vars =
     (case processJsonFromRequest parse ignore_type res req of
        None \<Rightarrow> None
      | Some (None, res1) \<Rightarrow> Some (False, res1, vars)
      | Some (Some j, res1) \<Rightarrow> readJson to_double dump j res1 wanted vars)"

section \<open>Order and size of JSON values\<close>

text \<open>The loop over the segments of two URLs.\<close>

fun compareSegments :: "bool \<Rightarrow> string list \<Rightarrow> string list \<Rightarrow> int" where
  "compareSegments sgn_char [] [] = 0"
| "compareSegments sgn_char [] (b # bs) = -1"
| "compareSegments sgn_char (a # as) [] = 1"
| "compareSegments sgn_char (a # as) (b # bs) =
     (let res = alphanumComp sgn_char a b in if res \<noteq> 0 then res else compareSegments sgn_char as bs)"

text \<open>
  \<open>odataObjectCmp\<close>; \<open>segments\<close> parses a URL into its segments, and the constructor of the URL view
  throws (\<open>None\<close>) when it cannot.
\<close>

definition odataObjectCmp :: "bool \<Rightarrow> (string \<Rightarrow> string list option) \<Rightarrow> json \<Rightarrow> json \<Rightarrow> int option" where
  "odataObjectCmp sgn_char segments a b =
     (case (a, b) of
        (JObject aObj, JObject bObj) \<Rightarrow>
          (case (omap_find aObj ''@odata.id'', omap_find bObj ''@odata.id'') of
             (None, None) \<Rightarrow> Some 0
           | (None, Some y) \<Rightarrow> Some (-1)
           | (Some x, None) \<Rightarrow> Some 1
           | (Some (JString nameA), Some (JString nameB)) \<Rightarrow>
               (case segments nameA of
                  None \<Rightarrow> None
                | Some sa \<Rightarrow> (case segments nameB of None \<Rightarrow> None | Some sb \<Rightarrow> Some (compareSegments sgn_char sa sb)))
           | (Some (JString nameA), Some y) \<Rightarrow> Some 1
           | (Some x, Some (JString nameB)) \<Rightarrow> Some (-1)
           | (Some x, Some y) \<Rightarrow> Some 0)
      | (JObject aObj, _) \<Rightarrow> Some 1
      | (_, JObject bObj) \<Rightarrow> Some (-1)
      | _ \<Rightarrow> Some 0)"

definition ODataObjectLess :: "bool \<Rightarrow> (string \<Rightarrow> string list option) \<Rightarrow> json \<Rightarrow> json \<Rightarrow> bool option" where
  "ODataObjectLess sgn_char segments left right =
     map_option (\<lambda>c. c < 0) (odataObjectCmp sgn_char segments left right)"

text \<open>\<open>getEstimatedJsonSize\<close>, in 64 bit arithmetic.\<close>

fun getEstimatedJsonSize :: "json \<Rightarrow> u64" where
  "getEstimatedJsonSize JNull = 4"
| "getEstimatedJsonSize (JInt i) = 8"
| "getEstimatedJsonSize (JUInt n) = 8"
| "getEstimatedJsonSize (JFloat d) = 8"
| "getEstimatedJsonSize (JBool b) = 5"
| "getEstimatedJsonSize (JString s) = word_of_nat (length s) + 2"
| "getEstimatedJsonSize (JBinary b) = word_of_nat (length b)"
| "getEstimatedJsonSize (JArray xs) = fold (\<lambda>x sum. sum + getEstimatedJsonSize x) xs 0"
| "getEstimatedJsonSize (JObject m) =
     fold (\<lambda>p sum. sum + (word_of_nat (length (fst p)) + getEstimatedJsonSize (snd p) + 4)) m 0"

section \<open>Every failure is reported\<close>

text \<open>
  \<open>progress ret res ret' res'\<close>: either the flag and the response are as before, or the flag is
  false and the response has status 400; it can take further messages in both cases.
\<close>

definition progress :: "bool \<Rightarrow> response \<Rightarrow> bool \<Rightarrow> response \<Rightarrow> bool" where
  "progress ret res ret' res' \<longleftrightarrow> reportable res'
     \<and> (ret' = ret \<and> res' = res \<or> \<not> ret' \<and> res_status res' = 400)"

lemma progress_refl [simp]: "reportable res \<Longrightarrow> progress ret res ret res"
  by (simp add: progress_def)

lemma progress_trans:
  "progress ret res ret1 res1 \<Longrightarrow> progress ret1 res1 ret2 res2 \<Longrightarrow> progress ret res ret2 res2"
  by (auto simp: progress_def)

lemma progress_and: "progress True res ok res1 \<Longrightarrow> progress ret res (ok \<and> ret) res1"
  by (auto simp: progress_def)

lemma progress_reportable: "progress ret res ret' res' \<Longrightarrow> reportable res'"
  by (simp add: progress_def)

lemma unpack_messages_ok [simp]:
  "message_ok (propertyValueTypeError dump j key)" "message_ok (propertyValueNotInList dump j key)"
  "message_ok (propertyUnknown key)" "message_ok (propertyMissing key)"
  "message_ok unrecognizedRequestBody" "message_ok malformedJSON" "message_ok emptyJSON" "message_ok noOperation"
  by (simp_all add: builder_defs Index_defs getLog_message_ok)

lemma report_400:
  assumes "reportable res" "message_ok m"
  shows "\<exists>r. error_to (set_result 400 res) m = Some r \<and> progress ret res False r"
    and "\<exists>r. field_to (set_result 400 res) m path = Some r \<and> progress ret res False r"
  using error_to_ok [of "set_result 400 res" m] field_to_ok [of "set_result 400 res" m path] assms
  by (auto simp: progress_def)

lemma failing_setters:
  assumes "reportable res"
  shows "\<exists>r. propertyValueTypeError_res dump j key res = Some r \<and> progress ret res False r"
    and "\<exists>r. propertyValueNotInList_res dump j key res = Some r \<and> progress ret res False r"
    and "\<exists>r. propertyUnknown_res key res = Some r \<and> progress ret res False r"
    and "\<exists>r. propertyMissing_res key res = Some r \<and> progress ret res False r"
    and "\<exists>r. unrecognizedRequestBody_res res = Some r \<and> progress ret res False r"
    and "\<exists>r. malformedJSON_res res = Some r \<and> progress ret res False r"
    and "\<exists>r. emptyJSON_res res = Some r \<and> progress ret res False r"
    and "\<exists>r. noOperation_res res = Some r \<and> progress ret res False r"
  unfolding setter_defs by (rule report_400 [OF assms unpack_messages_ok(1)]
    report_400 [OF assms unpack_messages_ok(2)] report_400 [OF assms unpack_messages_ok(3)]
    report_400 [OF assms unpack_messages_ok(4)] report_400 [OF assms unpack_messages_ok(5)]
    report_400 [OF assms unpack_messages_ok(6)] report_400 [OF assms unpack_messages_ok(7)]
    report_400 [OF assms unpack_messages_ok(8)])+

lemma unpackElements_progress:
  assumes "\<And>x r old. x \<in> set xs \<Longrightarrow> reportable r \<Longrightarrow>
      \<exists>ok v r'. f x r old = Some (ok, v, r') \<and> progress True r ok r'"
    and "reportable res"
  shows "\<exists>ret' vs r'. unpackElements f xs slots ret res = Some (ret', vs, r') \<and> progress ret res ret' r'"
  using assms
proof (induction xs arbitrary: slots ret res)
  case (Cons x xs)
  obtain ok v r1 where 1: "f x res (hd slots) = Some (ok, v, r1)" "progress True res ok r1"
    using Cons.prems by fastforce
  then have "reportable r1"
    by (simp add: progress_def)
  then obtain ret' vs r' where 2: "unpackElements f xs (tl slots) (ok \<and> ret) r1 = Some (ret', vs, r')"
    "progress (ok \<and> ret) r1 ret' r'"
    using Cons.IH [of r1 "tl slots" "ok \<and> ret"] Cons.prems(1) by auto
  then show ?case
    using 1 progress_trans [OF progress_and [OF 1(2)] 2(2)] by simp
qed simp

lemma unpackValue_progress:
  "reportable res \<Longrightarrow>
   \<exists>ok v r'. unpackValue t to_double dump key j res old = Some (ok, v, r') \<and> progress True res ok r'"
proof (induction t arbitrary: j res old)
  case (TBase t)
  obtain r1 where r1: "propertyValueTypeError_res dump j key res = Some r1" "progress True res False r1"
    using failing_setters(1) [OF TBase] by blast
  obtain r2 where r2: "propertyValueNotInList_res dump j key res = Some r2" "progress True res False r2"
    using failing_setters(2) [OF TBase] by blast
  show ?case
  proof (cases "unpackValueWithErrorCode to_double j t")
    case (Inl e)
    then show ?thesis
      using r1 r2 by (cases e) auto
  next
    case (Inr v)
    then have "unpackValue (TBase t) to_double dump key j res old = Some (True, v, res)"
      by simp
    then show ?thesis
      using progress_refl [OF TBase] by blast
  qed
next
  case (TVector t)
  show ?case
  proof (cases j)
    case (JArray xs)
    then show ?thesis
      using unpackElements_progress [of xs "unpackValue t to_double dump key" res
          "replicate (length xs) (default_value t)" True] TVector by auto
  qed (use failing_setters(1) [OF TVector.prems, of dump "jsonValue res" key True] in auto)
next
  case (TArray n t)
  show ?case
  proof (cases j)
    case (JArray xs)
    then show ?thesis
      using unpackElements_progress [of xs "unpackValue t to_double dump key" res "list_of old" True]
        failing_setters(1) [OF TArray.prems, of dump "jsonValue res" key True] TArray by auto
  qed (use failing_setters(1) [OF TArray.prems, of dump "jsonValue res" key True] in auto)
next
  case (TOptional t)
  then show ?case
    by fastforce
qed

lemma readMissing_progress:
  "reportable res \<Longrightarrow>
   \<exists>ret' r'. readMissing specs ret res = Some (ret', r') \<and> progress ret res ret' r'"
proof (induction specs arbitrary: ret res)
  case (Cons p ps)
  obtain r where r: "propertyMissing_res (pu_key p) res = Some r" "progress ret res False r"
    using failing_setters(4) [OF Cons.prems] by blast
  obtain ret' r' where m: "readMissing ps False r = Some (ret', r')" "progress False r ret' r'"
    using Cons.IH [OF progress_reportable [OF r(2)]] by blast
  show ?case
  proof (cases "pu_complete p \<or> is_optional (pu_type p)")
    case True
    then show ?thesis
      using Cons.IH [OF Cons.prems, of ret] by simp
  next
    case False
    then show ?thesis
      using r m progress_trans [OF r(2) m(2)] by (auto simp: progress_def)
  qed
qed simp

lemma read_progress:
  "reportable res \<Longrightarrow>
     \<exists>ok r' vars'. readJsonHelper to_double dump j res specs vars = Some (ok, r', vars') \<and> progress True res ok r'"
  "reportable res \<Longrightarrow>
     \<exists>returned ret' r' specs' vars'. readItems to_double dump items ret res specs vars
        = Some (returned, ret', r', specs', vars') \<and> progress ret res ret' r'"
proof (induction to_double dump j res specs vars and to_double dump items ret res specs vars
    rule: readJsonHelper_readItems.induct)
  case (1 to_double dump j res specs vars)
  show ?case
  proof (cases "is_object j")
    case True
    then obtain obj where j: "j = JObject obj"
      by (cases j) auto
    obtain returned ret r1 specs' vars' where items: "readItems to_double dump obj True res specs vars
        = Some (returned, ret, r1, specs', vars')" "progress True res ret r1"
      using 1(1) [OF j] "1.prems" by blast
    obtain ret' r' where "readMissing specs' ret r1 = Some (ret', r')" "progress ret r1 ret' r'"
      using readMissing_progress [OF progress_reportable [OF items(2)]] by blast
    then show ?thesis
      using items progress_trans [OF items(2)] by (simp add: readJsonHelper.simps j)
  next
    case False
    then show ?thesis
      using failing_setters(5) [OF "1.prems", of True] by (cases j) (auto simp: readJsonHelper.simps)
  qed
next
  case (2 to_double dump result res specs vars)
  have "readItems to_double dump [] result res specs vars = Some (False, result, res, specs, vars)"
    by simp
  then show ?case
    using progress_refl [OF 2] by blast
next
  case (3 to_double dump k v items result res specs vars)
  show ?case
  proof (cases "find_spec k specs")
    case None
    obtain r1 where r1: "propertyUnknown_res k res = Some r1" "progress result res False r1"
      using failing_setters(3) [OF "3.prems"] by blast
    then show ?thesis
      using 3(1) [OF None r1(1)] None progress_trans [OF r1(2)] by (fastforce simp: progress_def)
  next
    case (Some i)
    let ?s = "specs ! i" and ?key = "key_head (pu_key (specs ! i)) @ ''/''"
    show ?thesis
    proof (cases "key_leftover (pu_key ?s) = []")
      case True
      obtain ok val r1 where 1: "unpackValue (pu_type ?s) to_double dump (pu_key ?s) v res (vars (pu_target ?s))
          = Some (ok, val, r1)" "progress True res ok r1"
        using unpackValue_progress [OF "3.prems"] by blast
      then show ?thesis
        using 3(4) [OF Some refl _ 1(1) refl refl] True Some progress_trans [OF progress_and [OF 1(2)]]
        by (fastforce simp: Let_def progress_def)
    next
      case False
      show ?thesis
      proof (cases result)
        case res: True
        obtain ok r1 vars1 where 1: "readJsonHelper to_double dump v res (nextLevel ?key specs) vars
            = Some (ok, r1, vars1)" "progress True res ok r1"
          using 3(2) [OF Some refl False _ refl "3.prems"] res by blast
        then show ?thesis
          using 3(3) [OF Some refl False _ refl 1(1) refl refl] res False Some
            progress_trans [OF progress_and [OF 1(2)]]
          by (fastforce simp: Let_def progress_def)
      next
        case res: False
        then have "readItems to_double dump ((k, v) # items) result res specs vars = Some (True, False, res, specs, vars)"
          using False Some by (simp add: Let_def)
        moreover have "progress result res False res"
          using progress_refl [OF "3.prems", of result] res by simp
        ultimately show ?thesis
          by blast
      qed
    qed
  qed
qed

text \<open>
  C15: no failure is silent. Reading a request never throws on a response fit for messages; when it
  succeeds the response is untouched, and when it fails the response has status 400.
\<close>

theorem readJson_reports:
  assumes "reportable res"
  shows "\<exists>ok res' vars'. readJson to_double dump j res wanted vars = Some (ok, res', vars')
    \<and> reportable res' \<and> (if ok then res' = res else res_status res' = 400)"
  using read_progress(1) [OF assms] unfolding readJson_def progress_def by fastforce

theorem readJson_reports_witness:
  "\<exists>ok res' vars'. readJson (\<lambda>i. 0) (\<lambda>n j. []) (JObject [(''Id'', JNull)]) response_init
      [(''Name'', TBase TString, 0)] (\<lambda>x. VNone) = Some (ok, res', vars')
    \<and> reportable res' \<and> (if ok then res' = response_init else res_status res' = 400)"
  by (rule readJson_reports) (simp add: reportable_def response_init_def reportable_json_def)

section \<open>The variables keep their types\<close>

fun int_range :: "base_type \<Rightarrow> int \<Rightarrow> bool" where
  "int_range t i =
     (case (signed_bits t, unsigned_bits t) of
        (Some w, _) \<Rightarrow> - (2 ^ (w - 1)) \<le> i \<and> i < 2 ^ (w - 1)
      | (None, Some w) \<Rightarrow> 0 \<le> i \<and> i < 2 ^ w
      | (None, None) \<Rightarrow> False)"

fun base_typed :: "base_type \<Rightarrow> uvalue \<Rightarrow> bool" where
  "base_typed t (VInt i) = int_range t i"
| "base_typed t (VBool b) = (t = TBool)"
| "base_typed t (VDouble d) = (t = TDouble \<and> checkRange_double d)"
| "base_typed t (VString s) = (t = TString)"
| "base_typed t (VJson j) = (t = TJson)"
| "base_typed t v = False"

primrec has_type :: "unpack_type \<Rightarrow> uvalue \<Rightarrow> bool" where
  "has_type (TBase t) = base_typed t"
| "has_type (TVector t) = (\<lambda>v. case v of VList vs \<Rightarrow> list_all (has_type t) vs | _ \<Rightarrow> False)"
| "has_type (TArray n t) = (\<lambda>v. case v of VList vs \<Rightarrow> length vs = n \<and> list_all (has_type t) vs | _ \<Rightarrow> False)"
| "has_type (TOptional t) = (\<lambda>v. case v of VNone \<Rightarrow> True | VSome w \<Rightarrow> has_type t w | _ \<Rightarrow> False)"

lemma unpack_base_typed: "unpackValueWithErrorCode to_double j t = Inr v \<Longrightarrow> base_typed t v"
  by (cases t; cases j) (auto simp: unpackValueWithErrorCode_def checkRange_def split: option.splits if_splits)

lemma default_typed: "has_type t (default_value t)"
proof (induction t)
  case (TBase t)
  then show ?case by (cases t) (simp_all add: checkRange_double_def)
qed (auto simp: list_all_iff)

lemma unpackElements_typed:
  assumes "\<And>x r old ok v r'. x \<in> set xs \<Longrightarrow> P old \<Longrightarrow> f x r old = Some (ok, v, r') \<Longrightarrow> P v"
    and "unpackElements f xs slots ret res = Some (ret', vs, res')"
    and "list_all P slots" "length xs \<le> length slots"
  shows "list_all P vs \<and> length vs = length xs"
  using assms
proof (induction xs arbitrary: slots ret res vs)
  case (Cons x xs)
  then obtain old slots' where sl: "slots = old # slots'"
    by (cases slots) auto
  obtain ok v r1 vs' where f: "f x res old = Some (ok, v, r1)"
    and e: "unpackElements f xs slots' (ok \<and> ret) r1 = Some (ret', vs', res')" "vs = v # vs'"
    using Cons.prems(2) by (auto simp: sl split: option.splits)
  have "list_all P vs' \<and> length vs' = length xs"
  proof (rule Cons.IH [OF _ e(1)])
    show "P v" if "x' \<in> set xs" "P old" "f x' r old = Some (ok, v, r')" for x' r old ok v r'
      using Cons.prems(1) [OF _ that(2,3)] that(1) by simp
  qed (use Cons.prems(3,4) sl in auto)
  moreover have "P v"
    using Cons.prems(1) [OF _ _ f] Cons.prems(3) sl by simp
  ultimately show ?case
    using e(2) by simp
qed simp

lemma unpackValue_typed:
  "has_type t old \<Longrightarrow> unpackValue t to_double dump key j res old = Some (ok, v, res') \<Longrightarrow> has_type t v"
proof (induction t arbitrary: j res old ok v res')
  case (TBase t)
  then show ?case
    using unpack_base_typed [of to_double j t] by (auto split: sum.splits UnpackErrorCode.splits)
next
  case (TVector t)
  show ?case
  proof (cases j)
    case (JArray xs)
    then obtain vs where "unpackElements (unpackValue t to_double dump key) xs
        (replicate (length xs) (default_value t)) True res = Some (ok, vs, res')" "v = VList (list_of old @ vs)"
      using TVector.prems(2) by auto
    moreover from this(1) have "list_all (has_type t) vs \<and> length vs = length xs"
      by (rule unpackElements_typed [rotated]) (auto simp: list_all_iff default_typed intro: TVector.IH)
    ultimately show ?thesis
      using TVector.prems(1) by (auto split: uvalue.splits)
  qed (use TVector.prems in auto)
next
  case (TArray n t)
  show ?case
  proof (cases "\<exists>xs. j = JArray xs \<and> length xs = n")
    case True
    then obtain xs where xs: "j = JArray xs" "length xs = n"
      by blast
    obtain ws where ws: "old = VList ws" "length ws = n" "list_all (has_type t) ws"
      using TArray.prems(1) by (auto split: uvalue.splits)
    obtain vs where "unpackElements (unpackValue t to_double dump key) xs ws True res = Some (ok, vs, res')"
      "v = VList vs"
      using TArray.prems(2) xs ws by auto
    moreover from this(1) have "list_all (has_type t) vs \<and> length vs = length xs"
      by (rule unpackElements_typed [rotated]) (use ws xs in \<open>auto intro: TArray.IH\<close>)
    ultimately show ?thesis
      using xs by simp
  next
    case False
    then have "v = old"
      using TArray.prems(2) by (cases j) auto
    with TArray.prems(1) show ?thesis by simp
  qed
next
  case (TOptional t)
  then show ?case
    using default_typed [of t] by auto
qed

definition store_typed :: "(nat \<Rightarrow> unpack_type) \<Rightarrow> store \<Rightarrow> bool" where
  "store_typed \<Gamma> vars \<longleftrightarrow> (\<forall>x. has_type (\<Gamma> x) (vars x))"

definition specs_typed :: "(nat \<Rightarrow> unpack_type) \<Rightarrow> per_unpack list \<Rightarrow> bool" where
  "specs_typed \<Gamma> specs \<longleftrightarrow> list_all (\<lambda>s. pu_type s = \<Gamma> (pu_target s)) specs"

lemma find_spec_Some: "find_spec k specs = Some i \<Longrightarrow>
  i < length specs \<and> key_head (pu_key (specs ! i)) = k \<and> \<not> pu_complete (specs ! i)"
  by (induction specs arbitrary: i) (auto split: if_splits)

lemma specs_typed_parts [simp]:
  "specs_typed \<Gamma> specs \<Longrightarrow> specs_typed \<Gamma> (nextLevel key specs)"
  "specs_typed \<Gamma> specs \<Longrightarrow> specs_typed \<Gamma> (completeLevel key specs)"
  "specs_typed \<Gamma> specs \<Longrightarrow> i < length specs \<Longrightarrow> specs_typed \<Gamma> (specs[i := (specs ! i)\<lparr>pu_complete := True\<rparr>])"
  by (auto simp: specs_typed_def nextLevel_def completeLevel_def list_all_iff
      dest!: set_update_subset_insert [THEN subsetD])

lemma read_typed:
  "store_typed \<Gamma> vars \<Longrightarrow> specs_typed \<Gamma> specs \<Longrightarrow>
     readJsonHelper to_double dump j res specs vars = Some (ok, res', vars') \<Longrightarrow> store_typed \<Gamma> vars'"
  "store_typed \<Gamma> vars \<Longrightarrow> specs_typed \<Gamma> specs \<Longrightarrow>
     readItems to_double dump items ret res specs vars = Some (returned, ret', res', specs', vars') \<Longrightarrow>
     store_typed \<Gamma> vars'"
proof (induction to_double dump j res specs vars and to_double dump items ret res specs vars
    arbitrary: ok res' vars' and returned ret' res' specs' vars'
    rule: readJsonHelper_readItems.induct)
  case (1 to_double dump j res specs vars)
  then show ?case
    by (cases j) (auto simp: readJsonHelper.simps split: option.splits prod.splits if_splits)
next
  case (3 to_double dump k v items result res specs vars)
  show ?case
  proof (cases "find_spec k specs")
    case None
    then show ?thesis
      using 3(1) [OF None] "3.prems" by (auto split: option.splits)
  next
    case (Some i)
    let ?s = "specs ! i" and ?key = "key_head (pu_key (specs ! i)) @ ''/''"
    have i: "i < length specs"
      using find_spec_Some [OF Some] by simp
    show ?thesis
    proof (cases "key_leftover (pu_key ?s) = []")
      case True
      obtain ok val r1 where u: "unpackValue (pu_type ?s) to_double dump (pu_key ?s) v res (vars (pu_target ?s))
          = Some (ok, val, r1)"
        and r: "readItems to_double dump items (ok \<and> result) r1 (specs[i := ?s\<lparr>pu_complete := True\<rparr>])
          (vars(pu_target ?s := val)) = Some (returned, ret', res', specs', vars')"
        using "3.prems"(3) True Some by (auto simp: Let_def split: option.splits)
      have "has_type (\<Gamma> (pu_target ?s)) val"
        using unpackValue_typed [OF _ u] "3.prems"(1,2) i
        by (simp add: store_typed_def specs_typed_def list_all_length)
      then have st: "store_typed \<Gamma> (vars(pu_target ?s := val))"
        using "3.prems"(1) by (simp add: store_typed_def)
      show ?thesis
        by (rule 3(4) [OF Some refl _ u refl refl st _ r]) (use True "3.prems"(2) i in simp_all)
    next
      case False
      show ?thesis
      proof (cases result)
        case res: True
        obtain ok r1 vars1 where h: "readJsonHelper to_double dump v res (nextLevel ?key specs) vars
            = Some (ok, r1, vars1)"
          and r: "readItems to_double dump items (ok \<and> result) r1 (completeLevel ?key specs) vars1
            = Some (returned, ret', res', specs', vars')"
          using "3.prems"(3) False res Some by (auto simp: Let_def split: option.splits)
        have "store_typed \<Gamma> vars1"
          using 3(2) [OF Some refl False _ refl _ _ h] res "3.prems"(1,2) by simp
        then show ?thesis
          using 3(3) [OF Some refl False _ refl h refl refl _ _ r] res "3.prems"(2) by simp
      qed (use "3.prems" False Some in \<open>auto simp: Let_def\<close>)
    qed
  qed
qed simp



text \<open>
  An unsigned number of 2\<open>^\<close>63 or more is accepted for a signed 64 bit variable, as a negative
  value: the signed pointer the library gives reads the same bits.
\<close>

lemma unsigned_read_as_negative:
  assumes "2 ^ 63 \<le> n" "n < 2 ^ 64"
  shows "unpackValueWithErrorCode to_double (JUInt n) TI64 = Inr (VInt (int n - 2 ^ 64))"
proof -
  have "(int n + 2 ^ 63) mod 2 ^ 64 = (int n - 2 ^ 63) mod 2 ^ 64"
    using mod_add_self2 [of "int n - 2 ^ 63" "2 ^ 64"] by (simp add: add.commute)
  also have "\<dots> = int n - 2 ^ 63"
    using assms by (intro mod_pos_pos_trivial) simp_all
  finally have "sint (word_of_nat n :: i64) = int n - 2 ^ 64"
    by (simp add: signed_of_nat signed_take_bit_eq_take_bit_shift take_bit_eq_mod)
  then show ?thesis
    using assms by (simp add: unpackValueWithErrorCode_def checkRange_def)
qed

section \<open>The order of objects\<close>

text \<open>
  The key of a value: what it is, and for an object with an id the sort keys of its segments.
\<close>

definition odata_key :: "bool \<Rightarrow> (string \<Rightarrow> string list) \<Rightarrow> json \<Rightarrow> nat \<times> int list list" where
  "odata_key sgn_char segs j =
     (case j of
        JObject m \<Rightarrow>
          (case omap_find m ''@odata.id'' of
             None \<Rightarrow> (1, [])
           | Some (JString s) \<Rightarrow> (3, map (sort_keys sgn_char) (segs s))
           | Some v \<Rightarrow> (2, []))
      | _ \<Rightarrow> (0, []))"

lemma list_list_less:
  "([] :: int list list) < ys \<longleftrightarrow> ys \<noteq> []" "\<not> xs < ([] :: int list list)"
  "((x :: int list) # xs < y # ys) \<longleftrightarrow> x < y \<or> x = y \<and> xs < ys"
  by (cases ys; simp add: less_list_code)+

lemma compareSegments_keys:
  "(compareSegments b l r < 0 \<longleftrightarrow> map (sort_keys b) l < map (sort_keys b) r)
   \<and> (compareSegments b l r = 0 \<longleftrightarrow> map (sort_keys b) l = map (sort_keys b) r)"
proof (induction b l r rule: compareSegments.induct)
  case (4 b x l y r)
  then show ?case
    using alphanumComp_keys [of b x y] by (auto simp: list_list_less Let_def)
qed (simp_all add: list_list_less)

text \<open>
  Sorting of collections. When every id is a URL, \<open>odataObjectCmp\<close> never throws and orders any
  two JSON values by their keys: values that are not objects first, then objects without an id,
  then those whose id is no string, then the others by the natural order of the segments of their
  ids. So the comparison is a strict weak order, as \<open>std::sort\<close> requires.
\<close>

theorem odata_order:
  "\<exists>c. odataObjectCmp sgn_char (\<lambda>s. Some (segs s)) x y = Some c
     \<and> (c < 0 \<longleftrightarrow> odata_key sgn_char segs x < odata_key sgn_char segs y)
     \<and> (c = 0 \<longleftrightarrow> odata_key sgn_char segs x = odata_key sgn_char segs y)
     \<and> (0 < c \<longleftrightarrow> odata_key sgn_char segs y < odata_key sgn_char segs x)
     \<and> ODataObjectLess sgn_char (\<lambda>s. Some (segs s)) x y
          = Some (odata_key sgn_char segs x < odata_key sgn_char segs y)"
proof -
  have "\<exists>c. odataObjectCmp sgn_char (\<lambda>s. Some (segs s)) x y = Some c
     \<and> (c < 0 \<longleftrightarrow> odata_key sgn_char segs x < odata_key sgn_char segs y)
     \<and> (c = 0 \<longleftrightarrow> odata_key sgn_char segs x = odata_key sgn_char segs y)"
    using compareSegments_keys
    by (cases x; cases y) (auto simp: odataObjectCmp_def odata_key_def split: option.split json.split)
  then show ?thesis
    using less_linear [of "odata_key sgn_char segs x" "odata_key sgn_char segs y"]
    by (auto simp: ODataObjectLess_def)
qed

end
