(* ===== verification/Sessions.thy ===== *)
theory Sessions
  imports JsonUtils "HOL-Library.AList"
begin

text \<open>
  The session store of \<open>sessions.hpp\<close>: sessions by token, their expiry, and the configuration of
  the authentication methods. The map is an association list, in
  an iteration order of the hash table (new entries last; no property depends on it). The code
  keeps pointers to sessions; an operation that returns one returns its value here, and the one
  update through such a pointer (the time of the last use) is made in the store.

  Readings of the steady clock are arguments, in nanoseconds, and so are the indexes drawn by the
  random generator (\<open>None\<close> when it reports an error) and the printed address of a client.
\<close>

section \<open>Sessions\<close>

datatype PersistenceType = TIMEOUT | SINGLE_REQUEST

record UserSession =
  us_uniqueId :: string
  us_sessionToken :: string
  us_username :: string
  us_csrfToken :: string
  us_clientId :: "string option"
  us_clientIp :: string
  us_lastUpdated :: int
  us_persistence :: PersistenceType
  us_cookieAuth :: bool
  us_isConfigureSelfOnly :: bool
  us_userRole :: string
  us_userGroups :: "string list"

definition session_init :: UserSession where
  "session_init =
     \<lparr>us_uniqueId = [], us_sessionToken = [], us_username = [], us_csrfToken = [], us_clientId = None,
      us_clientIp = [], us_lastUpdated = 0, us_persistence = TIMEOUT, us_cookieAuth = False,
      us_isConfigureSelfOnly = False, us_userRole = [], us_userGroups = []\<rparr>"

text \<open>
  \<open>items()\<close> of a JSON value: the members of an object, the elements of an array under their
  printed indexes, and any other value but null as its own single element under the empty key;
  \<open>json_values\<close> are the values that \<open>begin()\<close> to \<open>end()\<close> goes over.
\<close>

fun json_items :: "json \<Rightarrow> (string \<times> json) list" where
  "json_items (JObject m) = m"
| "json_items (JArray xs) = zip (map nat_to_string [0..<length xs]) xs"
| "json_items JNull = []"
| "json_items j = [([], j)]"

definition json_values :: "json \<Rightarrow> json list" where
  "json_values j = map snd (json_items j)"

definition session_element :: "string \<times> json \<Rightarrow> UserSession \<Rightarrow> UserSession" where
  "session_element element userSession =
     (case snd element of
        JString thisValue \<Rightarrow>
          (if fst element = ''unique_id'' then userSession\<lparr>us_uniqueId := thisValue\<rparr>
           else if fst element = ''session_token'' then userSession\<lparr>us_sessionToken := thisValue\<rparr>
           else if fst element = ''csrf_token'' then userSession\<lparr>us_csrfToken := thisValue\<rparr>
           else if fst element = ''username'' then userSession\<lparr>us_username := thisValue\<rparr>
           else if fst element = ''client_id'' then userSession\<lparr>us_clientId := Some thisValue\<rparr>
           else if fst element = ''client_ip'' then userSession\<lparr>us_clientIp := thisValue\<rparr>
           else userSession)
      | _ \<Rightarrow> userSession)"

definition session_fromJson :: "int \<Rightarrow> json \<Rightarrow> UserSession option" where
  "session_fromJson now j =
     (let userSession = fold session_element (json_items j) session_init
      in if us_uniqueId userSession = [] \<or> us_username userSession = []
            \<or> us_sessionToken userSession = [] \<or> us_csrfToken userSession = []
         then None
         else Some (userSession\<lparr>us_lastUpdated := now, us_persistence := TIMEOUT\<rparr>))"

section \<open>Authentication methods\<close>

text \<open>The initial values are build options.\<close>

record AuthConfigMethods =
  am_basic :: bool
  am_sessionToken :: bool
  am_xtoken :: bool
  am_cookie :: bool
  am_tls :: bool

definition auth_element :: "string \<times> json \<Rightarrow> AuthConfigMethods \<Rightarrow> AuthConfigMethods" where
  "auth_element element c =
     (case snd element of
        JBool value \<Rightarrow>
          (if fst element = ''XToken'' then c\<lparr>am_xtoken := value\<rparr>
           else if fst element = ''Cookie'' then c\<lparr>am_cookie := value\<rparr>
           else if fst element = ''SessionToken'' then c\<lparr>am_sessionToken := value\<rparr>
           else if fst element = ''BasicAuth'' then c\<lparr>am_basic := value\<rparr>
           else if fst element = ''TLS'' then c\<lparr>am_tls := value\<rparr>
           else c)
      | _ \<Rightarrow> c)"

definition auth_fromJson :: "json \<Rightarrow> AuthConfigMethods \<Rightarrow> AuthConfigMethods" where
  "auth_fromJson j c = fold auth_element (json_items j) c"

section \<open>The store\<close>

record SessionStore =
  authTokens :: "(string \<times> UserSession) list"
  lastTimeoutUpdate :: int
  needWrite :: bool
  timeoutInSeconds :: int
  authMethodsConfig :: AuthConfigMethods

definition store_init :: "AuthConfigMethods \<Rightarrow> SessionStore" where
  "store_init config =
     \<lparr>authTokens = [], lastTimeoutUpdate = 0, needWrite = False, timeoutInSeconds = 1800,
      authMethodsConfig = config\<rparr>"

definition sessionTokenSize :: nat where
  "sessionTokenSize = 20"

text \<open>A count of seconds, converted to nanoseconds in 64 bits for a comparison.\<close>

definition nanoseconds :: "int \<Rightarrow> int" where
  "nanoseconds s = sint (word_of_int (s * 1000000000) :: i64)"

definition applySessionTimeouts :: "int \<Rightarrow> SessionStore \<Rightarrow> SessionStore" where
  "applySessionTimeouts timeNow st =
     (if timeNow - lastTimeoutUpdate st > nanoseconds 1 then
        let expired = (\<lambda>p. timeNow - us_lastUpdated (snd p) \<ge> nanoseconds (timeoutInSeconds st))
        in st\<lparr>lastTimeoutUpdate := timeNow,
              authTokens := filter (\<lambda>p. \<not> expired p) (authTokens st),
              needWrite := list_ex expired (authTokens st) \<or> needWrite st\<rparr>
      else st)"

text \<open>\<open>emplace\<close> keeps an entry that is there; the result is the entry of the token.\<close>

definition emplaceSession :: "UserSession \<Rightarrow> SessionStore \<Rightarrow> UserSession \<times> SessionStore" where
  "emplaceSession session st =
     (case map_of (authTokens st) (us_sessionToken session) of
        Some old \<Rightarrow> (old, st)
      | None \<Rightarrow> (session, st\<lparr>authTokens := authTokens st @ [(us_sessionToken session, session)]\<rparr>))"

definition alphanum :: string where
  "alphanum = ''0123456789ABCDEFGHIJKLMNOPQRSTUVWXYZabcdefghijklmnopqrstuvwxyz''"

text \<open>
  The loop that draws the characters of an identifier; \<open>draw k\<close> is the index of the k-th one,
  at most 61.
\<close>

fun drawChars :: "(nat \<Rightarrow> nat option) \<Rightarrow> nat \<Rightarrow> nat \<Rightarrow> string option" where
  "drawChars draw k 0 = Some []"
| "drawChars draw k (Suc n) =
     (case draw k of
        None \<Rightarrow> None
      | Some i \<Rightarrow> map_option (\<lambda>s. alphanum ! i # s) (drawChars draw (Suc k) n))"

definition generateUserSession ::
    "(nat \<Rightarrow> nat option) \<Rightarrow> int \<Rightarrow> string \<Rightarrow> string \<Rightarrow> string option \<Rightarrow> PersistenceType \<Rightarrow> bool
       \<Rightarrow> SessionStore \<Rightarrow> UserSession option \<times> SessionStore" where
  "generateUserSession draw now username clientIp clientId persistence isConfigureSelfOnly st =
     (case drawChars draw 0 sessionTokenSize of
        None \<Rightarrow> (None, st)
      | Some sessionToken \<Rightarrow>
          (case drawChars draw sessionTokenSize sessionTokenSize of
             None \<Rightarrow> (None, st)
           | Some csrfToken \<Rightarrow>
               (case drawChars draw (2 * sessionTokenSize) 10 of
                  None \<Rightarrow> (None, st)
                | Some uniqueId \<Rightarrow>
                    let session = session_init\<lparr>us_uniqueId := uniqueId, us_sessionToken := sessionToken,
                          us_username := username, us_csrfToken := csrfToken, us_clientId := clientId,
                          us_clientIp := clientIp, us_lastUpdated := now, us_persistence := persistence,
                          us_isConfigureSelfOnly := isConfigureSelfOnly\<rparr>;
                        (s, st1) = emplaceSession session st
                    in (Some s, st1\<lparr>needWrite := (persistence = TIMEOUT)\<rparr>))))"

text \<open>\<open>timeNow\<close> is the reading of the expiry and \<open>now\<close> the one for the session.\<close>

definition loginSessionByToken ::
    "int \<Rightarrow> int \<Rightarrow> string \<Rightarrow> SessionStore \<Rightarrow> UserSession option \<times> SessionStore" where
  "loginSessionByToken timeNow now token st =
     (let st1 = applySessionTimeouts timeNow st
      in if length token \<noteq> sessionTokenSize then (None, st1)
         else (case map_of (authTokens st1) token of
                 None \<Rightarrow> (None, st1)
               | Some userSession \<Rightarrow>
                   (Some (userSession\<lparr>us_lastUpdated := now\<rparr>),
                    st1\<lparr>authTokens := AList.map_entry token (\<lambda>s. s\<lparr>us_lastUpdated := now\<rparr>) (authTokens st1)\<rparr>)))"

definition getSessionByUid :: "int \<Rightarrow> string \<Rightarrow> SessionStore \<Rightarrow> UserSession option \<times> SessionStore" where
  "getSessionByUid timeNow uid st =
     (let st1 = applySessionTimeouts timeNow st
      in (map_option snd (List.find (\<lambda>p. us_uniqueId (snd p) = uid) (authTokens st1)), st1))"

definition removeSession :: "UserSession \<Rightarrow> SessionStore \<Rightarrow> SessionStore" where
  "removeSession session st =
     st\<lparr>authTokens := AList.delete (us_sessionToken session) (authTokens st), needWrite := True\<rparr>"

definition getUniqueIds ::
    "int \<Rightarrow> bool \<Rightarrow> PersistenceType \<Rightarrow> SessionStore \<Rightarrow> string list \<times> SessionStore" where
  "getUniqueIds timeNow getAll type st =
     (let st1 = applySessionTimeouts timeNow st
      in (map (\<lambda>p. us_uniqueId (snd p))
            (filter (\<lambda>p. getAll \<or> type = us_persistence (snd p)) (authTokens st1)), st1))"

definition removeSessionsByUsername :: "string \<Rightarrow> SessionStore \<Rightarrow> SessionStore" where
  "removeSessionsByUsername username st =
     st\<lparr>authTokens := filter (\<lambda>p. \<not> us_username (snd p) = username) (authTokens st)\<rparr>"

text \<open>The flag says whether \<open>SIGHUP\<close> is raised, so that connections are made anew.\<close>

definition updateAuthMethodsConfig :: "AuthConfigMethods \<Rightarrow> SessionStore \<Rightarrow> bool \<times> SessionStore" where
  "updateAuthMethodsConfig config st =
     (am_tls (authMethodsConfig st) \<noteq> am_tls config,
      st\<lparr>authMethodsConfig := config, needWrite := True\<rparr>)"

definition updateSessionTimeout :: "int \<Rightarrow> SessionStore \<Rightarrow> SessionStore" where
  "updateSessionTimeout newTimeoutInSeconds st =
     st\<lparr>timeoutInSeconds := newTimeoutInSeconds, needWrite := True\<rparr>"

section \<open>Runs of the store\<close>

text \<open>
  The operations as a data type, each with its readings of the clock, and a run of them. \<open>timed t\<close>
  says that the clock never goes back, from \<open>t\<close> on.
\<close>

datatype session_op =
    Generate "nat \<Rightarrow> nat option" int string string "string option" PersistenceType bool
  | Restore int json
  | Login int int string
  | GetByUid int string
  | Remove UserSession
  | UniqueIds int bool PersistenceType
  | RemoveByUsername string
  | UpdateAuth AuthConfigMethods
  | UpdateTimeout int
  | Expire int

fun session_step :: "session_op \<Rightarrow> SessionStore \<Rightarrow> SessionStore" where
  "session_step (Generate draw now username ip cid pt self) st =
     snd (generateUserSession draw now username ip cid pt self st)"
| "session_step (Restore now j) st =
     (case session_fromJson now j of None \<Rightarrow> st | Some s \<Rightarrow> snd (emplaceSession s st))"
| "session_step (Login timeNow now token) st = snd (loginSessionByToken timeNow now token st)"
| "session_step (GetByUid timeNow uid) st = snd (getSessionByUid timeNow uid st)"
| "session_step (Remove s) st = removeSession s st"
| "session_step (UniqueIds timeNow all pt) st = snd (getUniqueIds timeNow all pt st)"
| "session_step (RemoveByUsername username) st = removeSessionsByUsername username st"
| "session_step (UpdateAuth config) st = snd (updateAuthMethodsConfig config st)"
| "session_step (UpdateTimeout t) st = updateSessionTimeout t st"
| "session_step (Expire timeNow) st = applySessionTimeouts timeNow st"

definition session_run :: "session_op list \<Rightarrow> SessionStore \<Rightarrow> SessionStore" where
  "session_run ops st = fold session_step ops st"

fun op_times :: "session_op \<Rightarrow> int list" where
  "op_times (Generate draw now username ip cid pt self) = [now]"
| "op_times (Restore now j) = [now]"
| "op_times (Login timeNow now token) = [timeNow, now]"
| "op_times (GetByUid timeNow uid) = [timeNow]"
| "op_times (UniqueIds timeNow all pt) = [timeNow]"
| "op_times (Expire timeNow) = [timeNow]"
| "op_times _ = []"

definition timed :: "int \<Rightarrow> session_op list \<Rightarrow> int \<Rightarrow> bool" where
  "timed t ops t' \<longleftrightarrow> sorted (t # concat (map op_times ops) @ [t'])"

definition timeouts_within :: "int \<Rightarrow> session_op list \<Rightarrow> bool" where
  "timeouts_within M ops \<longleftrightarrow> list_all (\<lambda>a. case a of UpdateTimeout t \<Rightarrow> \<bar>t\<bar> \<le> M | _ \<Rightarrow> True) ops"

lemma timed_Nil [simp]: "timed t [] t' \<longleftrightarrow> t \<le> t'"
  by (simp add: timed_def)

lemma timed_Cons: "timed t (a # ops) t' \<longleftrightarrow> (\<exists>u. timed t [a] u \<and> timed u ops t')"
proof
  assume h: "timed t (a # ops) t'"
  have "timed t [a] (last (t # op_times a)) \<and> timed (last (t # op_times a)) ops t'"
    using h by (cases a) (auto simp: timed_def)
  then show "\<exists>u. timed t [a] u \<and> timed u ops t'"
    by blast
next
  assume "\<exists>u. timed t [a] u \<and> timed u ops t'"
  then show "timed t (a # ops) t'"
    by (fastforce simp: timed_def sorted_append)
qed

section \<open>The invariant of the store\<close>

text \<open>
  The keys are distinct and are the tokens of their sessions; no session was used after \<open>now\<close>,
  and none was idle for \<open>M\<close> seconds at the last expiry.
\<close>

definition tokens_ok :: "(string \<times> UserSession) list \<Rightarrow> bool" where
  "tokens_ok m \<longleftrightarrow> distinct (map fst m) \<and> list_all (\<lambda>p. us_sessionToken (snd p) = fst p \<and> fst p \<noteq> []) m"

definition store_ok :: "int \<Rightarrow> int \<Rightarrow> SessionStore \<Rightarrow> bool" where
  "store_ok M now st \<longleftrightarrow> tokens_ok (authTokens st) \<and> lastTimeoutUpdate st \<le> now
     \<and> \<bar>timeoutInSeconds st\<bar> \<le> M
     \<and> list_all (\<lambda>p. us_lastUpdated (snd p) \<le> now
          \<and> lastTimeoutUpdate st - us_lastUpdated (snd p) < M * 1000000000) (authTokens st)"

lemma nanoseconds_eq: "\<bar>s\<bar> \<le> 9223372036 \<Longrightarrow> nanoseconds s = s * 1000000000"
proof -
  assume "\<bar>s\<bar> \<le> 9223372036"
  then have "(s * 1000000000 + 2 ^ 63) mod 2 ^ 64 = s * 1000000000 + 2 ^ 63"
    by (intro mod_pos_pos_trivial) auto
  then show ?thesis
    by (simp add: nanoseconds_def signed_of_int signed_take_bit_eq_take_bit_shift take_bit_eq_mod
        del: of_int_mult)
qed

lemma nanoseconds_1 [simp]: "nanoseconds 1 = 1000000000"
  by (simp add: nanoseconds_eq)

lemma tokens_ok_filter: "tokens_ok m \<Longrightarrow> tokens_ok (filter P m)"
  by (auto simp: tokens_ok_def list_all_iff distinct_map inj_on_def)

lemma map_of_filter_distinct:
  "distinct (map fst m) \<Longrightarrow>
     map_of (filter P m) k = (case map_of m k of Some v \<Rightarrow> if P (k, v) then Some v else None | None \<Rightarrow> None)"
  by (induction m) (auto simp: map_of_eq_None_iff split: option.split dest: map_of_SomeD)

lemma map_entry_map:
  "distinct (map fst m) \<Longrightarrow> AList.map_entry k f m = map (\<lambda>p. if fst p = k then (k, f (snd p)) else p) m"
proof (induction m)
  case (Cons p m)
  obtain a b where p: "p = (a, b)"
    by (cases p)
  then have "a \<notin> fst ` set m"
    using Cons.prems by simp
  then have "map (\<lambda>q. if fst q = k then (k, f (snd q)) else q) m = m" if "a = k"
    using that by (intro map_idI) force
  with Cons show ?case by (cases "a = k") (simp_all add: p)
qed simp

lemma store_ok_later: "store_ok M now st \<Longrightarrow> now \<le> now' \<Longrightarrow> store_ok M now' st"
  by (auto simp: store_ok_def list_all_iff)

lemma store_ok_expire:
  assumes "store_ok M now st" "now \<le> timeNow" "M \<le> 9223372036"
  shows "store_ok M timeNow (applySessionTimeouts timeNow st)"
proof -
  have "nanoseconds (timeoutInSeconds st) = timeoutInSeconds st * 1000000000"
    using assms by (intro nanoseconds_eq) (simp add: store_ok_def)
  then show ?thesis
    using assms tokens_ok_filter [of "authTokens st"]
    by (auto simp: store_ok_def applySessionTimeouts_def list_all_iff Let_def)
qed

lemma store_ok_emplace:
  assumes "store_ok M now st" "us_sessionToken s \<noteq> []" "us_lastUpdated s = now" "0 < M"
  shows "store_ok M now (snd (emplaceSession s st))"
proof (cases "map_of (authTokens st) (us_sessionToken s)")
  case None
  then have "us_sessionToken s \<notin> fst ` set (authTokens st)"
    by (simp add: map_of_eq_None_iff)
  then show ?thesis
    using assms None by (auto simp: emplaceSession_def store_ok_def tokens_ok_def)
qed (use assms in \<open>simp add: emplaceSession_def\<close>)

lemma store_ok_simps [simp]:
  "store_ok M now (st\<lparr>needWrite := b\<rparr>) = store_ok M now st"
  "store_ok M now (st\<lparr>authMethodsConfig := c\<rparr>) = store_ok M now st"
  by (simp_all add: store_ok_def)

lemma store_ok_filter: "store_ok M now st \<Longrightarrow> store_ok M now (st\<lparr>authTokens := filter P (authTokens st)\<rparr>)"
  using tokens_ok_filter [of "authTokens st" P] by (simp add: store_ok_def list_all_iff)

lemma delete_filter: "AList.delete k m = filter (\<lambda>p. fst p \<noteq> k) m"
  by (auto simp: AList.delete_eq case_prod_unfold intro: filter_cong)

lemma drawChars_length: "drawChars draw k n = Some s \<Longrightarrow> length s = n"
  by (induction draw k n arbitrary: s rule: drawChars.induct) (auto split: option.splits)

lemma drawChars_first: "drawChars (\<lambda>k. Some 0) k n = Some (replicate n (CHR ''0''))"
  by (induction n arbitrary: k) (simp_all add: alphanum_def)

lemma store_ok_generate:
  assumes "store_ok M now st" "0 < M"
  shows "store_ok M now (snd (generateUserSession draw now username ip cid pt self st))"
proof (cases "drawChars draw 0 sessionTokenSize")
  case (Some tok)
  then have "tok \<noteq> []"
    by (auto dest: drawChars_length simp: sessionTokenSize_def)
  then show ?thesis
    using Some assms
    by (auto simp: generateUserSession_def Let_def case_prod_unfold split: option.split intro!: store_ok_emplace)
qed (use assms in \<open>simp add: generateUserSession_def\<close>)

lemma store_ok_login:
  assumes "store_ok M timeNow st" "timeNow \<le> now" "M \<le> 9223372036"
  shows "store_ok M now (snd (loginSessionByToken timeNow now token st))"
proof -
  let ?st = "applySessionTimeouts timeNow st"
  have ok: "store_ok M timeNow ?st"
    using store_ok_expire [OF assms(1) order_refl assms(3)] .
  have d: "distinct (map fst (authTokens ?st))"
    using ok by (simp add: store_ok_def tokens_ok_def)
  have keys: "fst \<circ> (\<lambda>p. if fst p = token then (token, f (snd p)) else p) = fst" for f :: "UserSession \<Rightarrow> UserSession"
    by (auto simp: fun_eq_iff)
  have "store_ok M now (?st\<lparr>authTokens := AList.map_entry token (\<lambda>s. s\<lparr>us_lastUpdated := now\<rparr>) (authTokens ?st)\<rparr>)"
    using ok assms(2) d by (auto simp: store_ok_def tokens_ok_def map_entry_map keys list_all_iff)
  then show ?thesis
    using store_ok_later [OF ok assms(2)]
    by (auto simp: loginSessionByToken_def Let_def split: option.split)
qed

lemma session_fromJson_ok:
  "session_fromJson now j = Some s \<Longrightarrow> us_sessionToken s \<noteq> [] \<and> us_lastUpdated s = now"
  by (auto simp: session_fromJson_def Let_def split: if_splits)

lemma store_ok_step:
  assumes "store_ok M t st" "timed t [a] t'" "timeouts_within M [a]" "0 < M" "M \<le> 9223372036"
  shows "store_ok M t' (session_step a st)"
proof -
  have le: "t \<le> t'"
    using assms(2) by (cases a) (auto simp: timed_def)
  note later = store_ok_later [OF assms(1)]
  show ?thesis
  proof (cases a)
    case (Generate draw now username ip cid pt self)
    then show ?thesis
      using assms(2) later store_ok_later [OF store_ok_generate [OF later assms(4)]]
      by (simp add: timed_def)
  next
    case (Restore now j)
    then show ?thesis
      using assms(2) later store_ok_later [OF store_ok_emplace [OF later _ _ assms(4)]]
      by (auto simp: timed_def split: option.split dest!: session_fromJson_ok)
  next
    case (Login timeNow now token)
    then show ?thesis
      using assms(2) later store_ok_later [OF store_ok_login [OF later _ assms(5)]]
      by (simp add: timed_def)
  next
    case (UpdateTimeout x)
    then show ?thesis
      using later [OF le] assms(3) by (simp add: updateSessionTimeout_def store_ok_def timeouts_within_def)
  next
    case (Remove s)
    then show ?thesis
      using store_ok_filter [OF later [OF le]] by (simp add: removeSession_def delete_filter)
  next
    case (RemoveByUsername u)
    then show ?thesis
      using store_ok_filter [OF later [OF le]] by (simp add: removeSessionsByUsername_def)
  next
    case (UpdateAuth c)
    then show ?thesis
      using later [OF le] by (simp add: updateAuthMethodsConfig_def)
  qed (use assms(2,5) later in \<open>auto simp: timed_def getSessionByUid_def getUniqueIds_def Let_def
      intro: store_ok_later [OF store_ok_expire [OF assms(1)]]\<close>)
qed

lemma store_ok_run:
  assumes "store_ok M t st" "timed t ops t'" "timeouts_within M ops" "0 < M" "M \<le> 9223372036"
  shows "store_ok M t' (session_run ops st)"
  using assms(1-3)
proof (induction ops arbitrary: t st)
  case Nil
  then show ?case
    by (simp add: session_run_def store_ok_later)
next
  case (Cons a ops)
  then obtain u where u: "timed t [a] u" "timed u ops t'"
    using timed_Cons by blast
  have "store_ok M u (session_step a st)"
    by (rule store_ok_step [OF Cons.prems(1) u(1) _ assms(4,5)])
      (use Cons.prems(3) in \<open>simp add: timeouts_within_def\<close>)
  then show ?case
    using Cons.IH [OF _ u(2)] Cons.prems(3) by (simp add: session_run_def timeouts_within_def)
qed

lemma store_ok_init: "1800 \<le> M \<Longrightarrow> store_ok M 0 (store_init config)"
  by (simp add: store_ok_def store_init_def tokens_ok_def)

text \<open>
  C25: the invariant of the session store. Whatever operations are run on it in whatever order, as
  long as the clock does not go back and no timeout is beyond \<open>M\<close> seconds, the keys of the store
  are distinct and are the tokens of their sessions, no session was used in the future, and at the
  last expiry none had been idle for \<open>M\<close> seconds.
\<close>

theorem session_store_invariant:
  assumes "timed 0 ops now" "timeouts_within M ops" "1800 \<le> M" "M \<le> 9223372036"
  shows "store_ok M now (session_run ops (store_init config))"
  using store_ok_run [OF store_ok_init [OF assms(3)] assms(1,2) _ assms(4)] assms(3) by simp

theorem session_store_invariant_witness:
  "store_ok 1800 5 (session_run [Generate (\<lambda>k. Some (k mod 62)) 3 ''root'' ''::1'' None TIMEOUT False, Expire 4]
      (store_init (AuthConfigMethods.make True True True True False)))"
  by (rule session_store_invariant) (simp_all add: timed_def timeouts_within_def)



section \<open>Sessions in use stay alive\<close>

text \<open>The time of the last use of a token, and the operations that leave its session alone.\<close>

fun last_use :: "string \<Rightarrow> int \<Rightarrow> session_op \<Rightarrow> int" where
  "last_use token used (Login timeNow now tok) = (if tok = token then now else used)"
| "last_use token used a = used"

fun spares :: "string \<Rightarrow> string \<Rightarrow> int \<Rightarrow> session_op \<Rightarrow> bool" where
  "spares token user m (Remove s) = (us_sessionToken s \<noteq> token)"
| "spares token user m (RemoveByUsername u) = (u \<noteq> user)"
| "spares token user m (UpdateTimeout t) = (m \<le> t \<and> t \<le> 9223372036)"
| "spares token user m a = True"

text \<open>Each reading of the clock comes less than \<open>m\<close> seconds after the last use of the token.\<close>

fun used_regularly :: "string \<Rightarrow> string \<Rightarrow> int \<Rightarrow> int \<Rightarrow> session_op list \<Rightarrow> bool" where
  "used_regularly token user m used [] = True"
| "used_regularly token user m used (a # ops) =
     (list_all (\<lambda>t. t < used + m * 1000000000) (op_times a) \<and> spares token user m a
      \<and> used_regularly token user m (last_use token used a) ops)"

definition alive :: "string \<Rightarrow> string \<Rightarrow> int \<Rightarrow> int \<Rightarrow> SessionStore \<Rightarrow> bool" where
  "alive token user m used st \<longleftrightarrow> length token = sessionTokenSize \<and> 0 \<le> m
     \<and> m \<le> timeoutInSeconds st \<and> timeoutInSeconds st \<le> 9223372036
     \<and> (\<exists>s. map_of (authTokens st) token = Some s \<and> us_username s = user \<and> us_lastUpdated s = used)"

lemma map_of_filter_keep: "map_of m k = Some v \<Longrightarrow> P (k, v) \<Longrightarrow> map_of (filter P m) k = Some v"
  by (induction m) auto

lemma alive_simps [simp]:
  "alive token user m used (st\<lparr>needWrite := b\<rparr>) = alive token user m used st"
  "alive token user m used (st\<lparr>authMethodsConfig := c\<rparr>) = alive token user m used st"
  by (simp_all add: alive_def)

lemma alive_filter:
  "alive token user m used st \<Longrightarrow> (\<And>s. us_username s = user \<Longrightarrow> P (token, s)) \<Longrightarrow>
     alive token user m used (st\<lparr>authTokens := filter P (authTokens st)\<rparr>)"
  by (auto simp: alive_def) (metis map_of_filter_keep)

lemma alive_expire:
  assumes "alive token user m used st" "timeNow < used + m * 1000000000"
  shows "alive token user m used (applySessionTimeouts timeNow st)"
proof -
  have "nanoseconds (timeoutInSeconds st) = timeoutInSeconds st * 1000000000"
    using assms by (intro nanoseconds_eq) (simp add: alive_def)
  moreover have "m * 1000000000 \<le> timeoutInSeconds st * 1000000000"
    using assms by (simp add: alive_def)
  ultimately show ?thesis
    using assms by (auto simp: alive_def applySessionTimeouts_def Let_def intro!: map_of_filter_keep)
qed

lemma alive_emplace: "alive token user m used st \<Longrightarrow> alive token user m used (snd (emplaceSession s st))"
  by (auto simp: alive_def emplaceSession_def map_add_Some_iff split: option.split)

lemma alive_login:
  assumes "alive token user m used st" "timeNow < used + m * 1000000000"
  shows "alive token user m (if tok = token then now else used) (snd (loginSessionByToken timeNow now tok st))"
    and "fst (loginSessionByToken timeNow now token st) \<noteq> None"
  using alive_expire [OF assms]
  by (auto simp: alive_def loginSessionByToken_def Let_def map_of_map_entry split: option.split)

lemma alive_step:
  assumes "alive token user m used st" "list_all (\<lambda>t. t < used + m * 1000000000) (op_times a)"
    "spares token user m a"
  shows "alive token user m (last_use token used a) (session_step a st)"
proof (cases a)
  case (Generate draw now username ip cid pt self)
  then show ?thesis
    using assms by (auto simp: generateUserSession_def Let_def case_prod_unfold alive_emplace split: option.split)
next
  case (Remove s)
  then show ?thesis
    using assms by (auto simp: removeSession_def delete_filter intro: alive_filter)
next
  case (RemoveByUsername u)
  then show ?thesis
    using assms by (auto simp: removeSessionsByUsername_def intro: alive_filter)
next
  case (UpdateTimeout t)
  then show ?thesis
    using assms by (simp add: updateSessionTimeout_def alive_def)
qed (use assms alive_login(1) [of token user m used st] in
  \<open>auto simp: alive_emplace alive_expire getSessionByUid_def getUniqueIds_def updateAuthMethodsConfig_def
     Let_def split: option.split\<close>)

text \<open>
  C24: a session in use stays alive. Whatever other clients do, as long as the session is not
  removed, its user is not, and the timeout stays at least \<open>m\<close> seconds, a session whose token is used
  before \<open>m\<close> seconds have passed since its last use can be used again.
\<close>

theorem session_stays_alive:
  assumes "alive token user m used st" "used_regularly token user m used (ops @ [Login timeNow now token])"
  shows "\<exists>s st'. loginSessionByToken timeNow now token (session_run ops st) = (Some s, st')
    \<and> us_username s = user"
proof -
  have "\<exists>used'. alive token user m used' (session_run ops st) \<and> timeNow < used' + m * 1000000000"
    using assms
  proof (induction ops arbitrary: used st)
    case (Cons a ops)
    then show ?case
      using Cons.IH [OF alive_step [OF Cons.prems(1), of a]] by (simp add: session_run_def)
  qed (auto simp: session_run_def)
  then obtain used' where u: "alive token user m used' (session_run ops st)" "timeNow < used' + m * 1000000000"
    by blast
  then obtain s st' where "loginSessionByToken timeNow now token (session_run ops st) = (Some s, st')"
    using alive_login(2) by (metis not_Some_eq prod.collapse)
  moreover have "us_username s = user"
    using calculation alive_expire [OF u]
    by (auto simp: alive_def loginSessionByToken_def Let_def split: if_splits option.splits)
  ultimately show ?thesis
    by blast
qed

theorem session_stays_alive_witness:
  "\<exists>s st'. loginSessionByToken 5 5 (replicate 20 (CHR ''0'')) (session_run [Expire 4]
      (session_run [Generate (\<lambda>k. Some 0) 3 ''root'' ''::1'' None TIMEOUT False]
        (store_init (AuthConfigMethods.make True True True True False)))) = (Some s, st')
    \<and> us_username s = ''root''"
proof (rule session_stays_alive [where m = 1800 and used = 3])
  show "alive (replicate 20 (CHR ''0'')) ''root'' 1800 3
      (session_run [Generate (\<lambda>k. Some 0) 3 ''root'' ''::1'' None TIMEOUT False]
        (store_init (AuthConfigMethods.make True True True True False)))"
    by (simp add: alive_def session_run_def generateUserSession_def sessionTokenSize_def drawChars_first
        emplaceSession_def store_init_def session_init_def Let_def)
qed simp

end
