(* ===== verification/Persist.thy ===== *)
theory Persist
  imports Sessions
begin

text \<open>
  The persistent configuration: \<open>http/event_service_store.hpp\<close> and \<open>http/persistent_data.hpp\<close>. The
  file \<open>bmcweb_persistent_data.json\<close> holds the authentication methods, the event service settings
  and its subscriptions, the session timeout and the sessions that outlive a request; it is read
  at the start and written at the end when the session store asks for it.

  The contents of a file are of a type of their own; \<open>dump\<close> and \<open>parse\<close> are the JSON library's
  serialiser (\<open>None\<close> when it throws, on a string that is not UTF-8) and parser (\<open>None\<close> for a
  discarded value). \<open>clock k\<close> is the reading of the clock for the k-th session read, \<open>uuid\<close> the
  random identifier. Setting the permissions of the file is not modelled.
\<close>

section \<open>Subscriptions\<close>

record UserSubscription =
  sub_id :: string
  sub_destinationUrl :: string
  sub_protocol :: string
  sub_retryPolicy :: string
  sub_customText :: string
  sub_eventFormatType :: string
  sub_subscriptionType :: string
  sub_registryMsgIds :: "string list"
  sub_registryPrefixes :: "string list"
  sub_resourceTypes :: "string list"
  sub_httpHeaders :: fields
  sub_metricReportDefinitions :: "string list"

definition subscription_init :: UserSubscription where
  "subscription_init =
     \<lparr>sub_id = [], sub_destinationUrl = [], sub_protocol = [], sub_retryPolicy = [], sub_customText = [],
      sub_eventFormatType = [], sub_subscriptionType = [], sub_registryMsgIds = [], sub_registryPrefixes = [],
      sub_resourceTypes = [], sub_httpHeaders = [], sub_metricReportDefinitions = []\<rparr>"

fun get_string :: "json \<Rightarrow> string option" where
  "get_string (JString s) = Some s"
| "get_string j = None"

text \<open>The loops over the elements of a member: the strings are appended, or set as headers.\<close>

definition append_strings :: "json \<Rightarrow> string list \<Rightarrow> string list" where
  "append_strings obj xs =
     fold (\<lambda>val acc. case get_string (snd val) of None \<Rightarrow> acc | Some value \<Rightarrow> acc @ [value]) (json_items obj) xs"

definition set_headers :: "json \<Rightarrow> fields \<Rightarrow> fields" where
  "set_headers obj h =
     fold (\<lambda>val acc. case get_string (snd val) of None \<Rightarrow> acc | Some value \<Rightarrow> set_field (fst val) value acc)
       (json_items obj) h"

definition subscription_element :: "string \<times> json \<Rightarrow> UserSubscription \<Rightarrow> UserSubscription" where
  "subscription_element element subvalue =
     (let key = fst element;
          with_string = (\<lambda>upd. case get_string (snd element) of None \<Rightarrow> subvalue | Some value \<Rightarrow> upd value subvalue)
      in if key = ''Id'' then with_string (\<lambda>v. sub_id_update (\<lambda>_. v))
         else if key = ''Destination'' then with_string (\<lambda>v. sub_destinationUrl_update (\<lambda>_. v))
         else if key = ''Protocol'' then with_string (\<lambda>v. sub_protocol_update (\<lambda>_. v))
         else if key = ''DeliveryRetryPolicy'' then with_string (\<lambda>v. sub_retryPolicy_update (\<lambda>_. v))
         else if key = ''Context'' then with_string (\<lambda>v. sub_customText_update (\<lambda>_. v))
         else if key = ''EventFormatType'' then with_string (\<lambda>v. sub_eventFormatType_update (\<lambda>_. v))
         else if key = ''SubscriptionType'' then with_string (\<lambda>v. sub_subscriptionType_update (\<lambda>_. v))
         else if key = ''MessageIds'' then sub_registryMsgIds_update (append_strings (snd element)) subvalue
         else if key = ''RegistryPrefixes'' then sub_registryPrefixes_update (append_strings (snd element)) subvalue
         else if key = ''ResourceTypes'' then sub_resourceTypes_update (append_strings (snd element)) subvalue
         else if key = ''HttpHeaders'' then sub_httpHeaders_update (set_headers (snd element)) subvalue
         else if key = ''MetricReportDefinitions'' then
           sub_metricReportDefinitions_update (append_strings (snd element)) subvalue
         else subvalue)"

definition subscription_fromJson :: "bool \<Rightarrow> json \<Rightarrow> UserSubscription option" where
  "subscription_fromJson loadFromOldConfig j =
     (let subvalue = fold subscription_element (json_items j) subscription_init
      in if sub_id subvalue = [] \<and> \<not> loadFromOldConfig \<or> sub_destinationUrl subvalue = []
            \<or> sub_protocol subvalue = [] \<or> sub_retryPolicy subvalue = [] \<or> sub_eventFormatType subvalue = []
            \<or> sub_subscriptionType subvalue = []
         then None else Some subvalue)"

record EventServiceConfig =
  ec_enabled :: bool
  ec_retryAttempts :: u32
  ec_retryTimeoutInterval :: u32

definition event_config_init :: EventServiceConfig where
  "event_config_init = \<lparr>ec_enabled = True, ec_retryAttempts = 3, ec_retryTimeoutInterval = 30\<rparr>"

definition get_u32 :: "json \<Rightarrow> u32 option" where
  "get_u32 j =
     (case get_uint64 j of
        None \<Rightarrow> None
      | Some value \<Rightarrow> if value > 2 ^ 32 - 1 then None else Some (word_of_int value))"

definition event_config_element :: "string \<times> json \<Rightarrow> EventServiceConfig \<Rightarrow> EventServiceConfig" where
  "event_config_element element c =
     (if fst element = ''ServiceEnabled'' then
        (case snd element of JBool value \<Rightarrow> c\<lparr>ec_enabled := value\<rparr> | _ \<Rightarrow> c)
      else if fst element = ''DeliveryRetryAttempts'' then
        (case get_u32 (snd element) of None \<Rightarrow> c | Some value \<Rightarrow> c\<lparr>ec_retryAttempts := value\<rparr>)
      else if fst element = ''DeliveryRetryIntervalSeconds'' then
        (case get_u32 (snd element) of None \<Rightarrow> c | Some value \<Rightarrow> c\<lparr>ec_retryTimeoutInterval := value\<rparr>)
      else c)"

definition event_config_fromJson :: "json \<Rightarrow> EventServiceConfig \<Rightarrow> EventServiceConfig" where
  "event_config_fromJson j c = fold event_config_element (json_items j) c"

section \<open>Reading and writing the file\<close>

record config =
  cf_sessions :: SessionStore
  cf_event :: EventServiceConfig
  cf_subscriptions :: "(string, UserSubscription) omap"
  cf_uuid :: string

definition config_init :: "AuthConfigMethods \<Rightarrow> config" where
  "config_init auth =
     \<lparr>cf_sessions = store_init auth, cf_event = event_config_init, cf_subscriptions = [], cf_uuid = []\<rparr>"

definition jsonRevision :: nat where
  "jsonRevision = 1"

text \<open>An object filled member by member.\<close>

definition omap_of :: "(string \<times> 'v) list \<Rightarrow> (string, 'v) omap" where
  "omap_of kvs = fold (\<lambda>p. omap_insert_or_assign (fst p) (snd p)) kvs []"

definition authJson :: "AuthConfigMethods \<Rightarrow> json" where
  "authJson c = JObject (omap_of
     [(''XToken'', JBool (am_xtoken c)), (''Cookie'', JBool (am_cookie c)),
      (''SessionToken'', JBool (am_sessionToken c)), (''BasicAuth'', JBool (am_basic c)), (''TLS'', JBool (am_tls c))])"

definition eventJson :: "EventServiceConfig \<Rightarrow> json" where
  "eventJson c = JObject (omap_of
     [(''ServiceEnabled'', JBool (ec_enabled c)), (''DeliveryRetryAttempts'', JUInt (unat (ec_retryAttempts c))),
      (''DeliveryRetryIntervalSeconds'', JUInt (unat (ec_retryTimeoutInterval c)))])"

definition sessionJson :: "UserSession \<Rightarrow> json" where
  "sessionJson s = JObject (omap_of
     ([(''unique_id'', JString (us_uniqueId s)), (''session_token'', JString (us_sessionToken s)),
       (''username'', JString (us_username s)), (''csrf_token'', JString (us_csrfToken s)),
       (''client_ip'', JString (us_clientIp s))]
      @ (case us_clientId s of None \<Rightarrow> [] | Some c \<Rightarrow> [(''client_id'', JString c)])))"

definition sessionsJson :: "(string \<times> UserSession) list \<Rightarrow> json" where
  "sessionsJson m =
     JArray (map (\<lambda>p. sessionJson (snd p)) (filter (\<lambda>p. us_persistence (snd p) \<noteq> SINGLE_REQUEST) m))"

definition stringsJson :: "string list \<Rightarrow> json" where
  "stringsJson xs = JArray (map JString xs)"

definition headersJson :: "fields \<Rightarrow> json" where
  "headersJson h = JObject (omap_of (map (\<lambda>p. (fst p, JString (snd p))) h))"

definition subscriptionJson :: "UserSubscription \<Rightarrow> json" where
  "subscriptionJson s = JObject (omap_of
     [(''Id'', JString (sub_id s)), (''Context'', JString (sub_customText s)),
      (''DeliveryRetryPolicy'', JString (sub_retryPolicy s)), (''Destination'', JString (sub_destinationUrl s)),
      (''EventFormatType'', JString (sub_eventFormatType s)), (''HttpHeaders'', headersJson (sub_httpHeaders s)),
      (''MessageIds'', stringsJson (sub_registryMsgIds s)), (''Protocol'', JString (sub_protocol s)),
      (''RegistryPrefixes'', stringsJson (sub_registryPrefixes s)),
      (''ResourceTypes'', stringsJson (sub_resourceTypes s)),
      (''SubscriptionType'', JString (sub_subscriptionType s)),
      (''MetricReportDefinitions'', stringsJson (sub_metricReportDefinitions s))])"

definition subscriptionsJson :: "(string, UserSubscription) omap \<Rightarrow> json" where
  "subscriptionsJson m =
     JArray (map (\<lambda>p. subscriptionJson (snd p)) (filter (\<lambda>p. sub_subscriptionType (snd p) \<noteq> ''SSE'') m))"

definition configJson :: "config \<Rightarrow> json" where
  "configJson c = JObject (omap_of
     [(''auth_config'', authJson (authMethodsConfig (cf_sessions c))),
      (''eventservice_config'', eventJson (cf_event c)),
      (''system_uuid'', JString (cf_uuid c)),
      (''revision'', JUInt jsonRevision),
      (''timeout'', JInt (timeoutInSeconds (cf_sessions c))),
      (''sessions'', sessionsJson (authTokens (cf_sessions c))),
      (''subscriptions'', subscriptionsJson (cf_subscriptions c))])"

definition writeData :: "(json \<Rightarrow> 'file option) \<Rightarrow> config \<Rightarrow> 'file option" where
  "writeData dump c = dump (configJson c)"

fun restoreSessions :: "(nat \<Rightarrow> int) \<Rightarrow> nat \<Rightarrow> json list \<Rightarrow> SessionStore \<Rightarrow> SessionStore" where
  "restoreSessions clock k [] st = st"
| "restoreSessions clock k (e # es) st =
     restoreSessions clock (Suc k) es
       (case session_fromJson (clock k) e of None \<Rightarrow> st | Some s \<Rightarrow> snd (emplaceSession s st))"

definition restoreSubscription :: "json \<Rightarrow> (string, UserSubscription) omap \<Rightarrow> (string, UserSubscription) omap" where
  "restoreSubscription e m =
     (case subscription_fromJson False e of None \<Rightarrow> m | Some s \<Rightarrow> omap_emplace (sub_id s) s m)"

text \<open>One member of the file; the state is the revision read so far and the configuration.\<close>

definition config_element :: "(nat \<Rightarrow> int) \<Rightarrow> string \<times> json \<Rightarrow> int \<times> config \<Rightarrow> int \<times> config" where
  "config_element clock item state =
     (let key = fst item; v = snd item; rev = fst state; c = snd state
      in if key = ''revision'' then ((case get_uint64 v of None \<Rightarrow> 0 | Some n \<Rightarrow> n), c)
         else if key = ''system_uuid'' then
           (rev, case get_string v of None \<Rightarrow> c | Some s \<Rightarrow> c\<lparr>cf_uuid := s\<rparr>)
         else if key = ''auth_config'' then
           (rev, c\<lparr>cf_sessions := (cf_sessions c)
                     \<lparr>authMethodsConfig := auth_fromJson v (authMethodsConfig (cf_sessions c))\<rparr>\<rparr>)
         else if key = ''sessions'' then
           (rev, c\<lparr>cf_sessions := restoreSessions clock 0 (json_values v) (cf_sessions c)\<rparr>)
         else if key = ''timeout'' then
           (rev, case get_int64 v of
                   None \<Rightarrow> c
                 | Some t \<Rightarrow> c\<lparr>cf_sessions := updateSessionTimeout t (cf_sessions c)\<rparr>)
         else if key = ''eventservice_config'' then
           (rev, c\<lparr>cf_event := event_config_fromJson v (cf_event c)\<rparr>)
         else if key = ''subscriptions'' then
           (rev, c\<lparr>cf_subscriptions := fold restoreSubscription (json_values v) (cf_subscriptions c)\<rparr>)
         else (rev, c))"

text \<open>
  \<open>readData\<close>: \<open>file\<close> is the file before (\<open>None\<close> when it cannot be opened); the result is the
  configuration and the file afterwards, or \<open>None\<close> when writing it throws.
\<close>

definition readData ::
    "(json \<Rightarrow> 'file option) \<Rightarrow> ('file \<Rightarrow> json option) \<Rightarrow> (nat \<Rightarrow> int) \<Rightarrow> string \<Rightarrow> 'file option \<Rightarrow> config
       \<Rightarrow> (config \<times> 'file option) option" where
  "readData dump parse clock uuid file c =
     (let (fileRevision, c1) =
            (case file of
               None \<Rightarrow> (0, c)
             | Some f \<Rightarrow> (case parse f of
                           None \<Rightarrow> (0, c)
                         | Some data \<Rightarrow> fold (config_element clock) (json_items data) (0, c)));
          noUuid = (cf_uuid c1 = []);
          c2 = (if noUuid then c1\<lparr>cf_uuid := uuid\<rparr> else c1)
      in if noUuid \<or> fileRevision < int jsonRevision
         then map_option (\<lambda>f. (c2, Some f)) (writeData dump c2)
         else Some (c2, file))"

text \<open>The destructor: expire the sessions, and write when the session store needs it.\<close>

definition config_exit :: "(json \<Rightarrow> 'file option) \<Rightarrow> int \<Rightarrow> 'file option \<Rightarrow> config \<Rightarrow> (config \<times> 'file option) option" where
  "config_exit dump timeNow file c =
     (let c1 = c\<lparr>cf_sessions := applySessionTimeouts timeNow (cf_sessions c)\<rparr>
      in if needWrite (cf_sessions c1)
         then map_option (\<lambda>f. (c1, Some f)) (writeData dump c1)
         else Some (c1, file))"

section \<open>What the text of a JSON value keeps\<close>

text \<open>
  Reading back the text of a value gives the value, except that integers that are not negative
  come back as unsigned ones. The law is what the library documents for values without floating
  point numbers and binaries.
\<close>

fun as_parsed :: "json \<Rightarrow> json" where
  "as_parsed (JInt i) = (if 0 \<le> i then JUInt (nat i) else JInt i)"
| "as_parsed (JArray xs) = JArray (map as_parsed xs)"
| "as_parsed (JObject m) = JObject (map (\<lambda>p. (fst p, as_parsed (snd p))) m)"
| "as_parsed j = j"

fun plain_json :: "json \<Rightarrow> bool" where
  "plain_json (JFloat d) = False"
| "plain_json (JBinary b) = False"
| "plain_json (JArray xs) = (\<forall>x \<in> set xs. plain_json x)"
| "plain_json (JObject m) = (\<forall>p \<in> set m. plain_json (snd p))"
| "plain_json j = True"

definition json_text_law :: "(json \<Rightarrow> 'file option) \<Rightarrow> ('file \<Rightarrow> json option) \<Rightarrow> bool" where
  "json_text_law dump parse \<longleftrightarrow>
     (\<forall>j f. json_ok j \<and> plain_json j \<and> dump j = Some f \<longrightarrow> parse f = Some (as_parsed j))"

lemma omap_of_ok [simp]: "omap_ok (omap_of kvs)"
proof -
  have "omap_ok m \<Longrightarrow> omap_ok (fold (\<lambda>p. omap_insert_or_assign (fst p) (snd p)) kvs m)" for m
    by (induction kvs arbitrary: m) simp_all
  then show ?thesis by (simp add: omap_of_def)
qed

lemma set_omap_of: "set (omap_of kvs) \<subseteq> set kvs"
proof -
  have "omap_ok m \<Longrightarrow> set (fold (\<lambda>p. omap_insert_or_assign (fst p) (snd p)) kvs m) \<subseteq> set m \<union> set kvs" for m
  proof (induction kvs arbitrary: m)
    case (Cons p kvs)
    have "set (omap_insert_or_assign (fst p) (snd p) m) \<subseteq> set m \<union> {p}"
      using Cons.prems by (auto simp: set_insert_or_assign)
    then show ?case
      using Cons.IH [of "omap_insert_or_assign (fst p) (snd p) m"] Cons.prems by fastforce
  qed simp
  from this [of "[]"] show ?thesis by (simp add: omap_of_def)
qed

text \<open>Pairs in order are kept as they are.\<close>

lemma insert_or_assign_last: "(\<forall>a \<in> set (omap_keys m). a < k) \<Longrightarrow> omap_insert_or_assign k v m = m @ [(k, v)]"
  by (induction k v m rule: omap_insert_or_assign.induct) (auto dest: less_imp_not_less)

lemma omap_of_sorted: "omap_ok m \<Longrightarrow> omap_of m = m"
proof -
  have "omap_ok (acc @ m) \<Longrightarrow> fold (\<lambda>p. omap_insert_or_assign (fst p) (snd p)) m acc = acc @ m" for acc
  proof (induction m arbitrary: acc)
    case (Cons p m)
    have "omap_insert_or_assign (fst p) (snd p) acc = acc @ [p]"
      using Cons.prems by (simp add: omap_ok_def sorted_wrt_append insert_or_assign_last)
    with Cons show ?case by simp
  qed simp
  from this [of "[]"] show "omap_ok m \<Longrightarrow> omap_of m = m"
    by (simp add: omap_of_def)
qed

named_theorems config_json \<open>the members of the written objects, in order\<close>

lemma authJson_members [config_json]:
  "authJson c = JObject
     [(''BasicAuth'', JBool (am_basic c)), (''Cookie'', JBool (am_cookie c)),
      (''SessionToken'', JBool (am_sessionToken c)), (''TLS'', JBool (am_tls c)), (''XToken'', JBool (am_xtoken c))]"
  by (simp add: authJson_def omap_of_def less_list_code less_char_def)

lemma eventJson_members [config_json]:
  "eventJson c = JObject
     [(''DeliveryRetryAttempts'', JUInt (unat (ec_retryAttempts c))),
      (''DeliveryRetryIntervalSeconds'', JUInt (unat (ec_retryTimeoutInterval c))),
      (''ServiceEnabled'', JBool (ec_enabled c))]"
  by (simp add: eventJson_def omap_of_def less_list_code less_char_def)

lemma sessionJson_members [config_json]:
  "sessionJson s = JObject
     ((case us_clientId s of None \<Rightarrow> [] | Some c \<Rightarrow> [(''client_id'', JString c)])
      @ [(''client_ip'', JString (us_clientIp s)), (''csrf_token'', JString (us_csrfToken s)),
         (''session_token'', JString (us_sessionToken s)), (''unique_id'', JString (us_uniqueId s)),
         (''username'', JString (us_username s))])"
  by (simp add: sessionJson_def omap_of_def less_list_code less_char_def split: option.split)

lemma subscriptionJson_members [config_json]:
  "subscriptionJson s = JObject
     [(''Context'', JString (sub_customText s)), (''DeliveryRetryPolicy'', JString (sub_retryPolicy s)),
      (''Destination'', JString (sub_destinationUrl s)), (''EventFormatType'', JString (sub_eventFormatType s)),
      (''HttpHeaders'', headersJson (sub_httpHeaders s)), (''Id'', JString (sub_id s)),
      (''MessageIds'', stringsJson (sub_registryMsgIds s)),
      (''MetricReportDefinitions'', stringsJson (sub_metricReportDefinitions s)),
      (''Protocol'', JString (sub_protocol s)), (''RegistryPrefixes'', stringsJson (sub_registryPrefixes s)),
      (''ResourceTypes'', stringsJson (sub_resourceTypes s)), (''SubscriptionType'', JString (sub_subscriptionType s))]"
  by (simp add: subscriptionJson_def omap_of_def less_list_code less_char_def)

lemma configJson_members [config_json]:
  "configJson c = JObject
     [(''auth_config'', authJson (authMethodsConfig (cf_sessions c))),
      (''eventservice_config'', eventJson (cf_event c)), (''revision'', JUInt jsonRevision),
      (''sessions'', sessionsJson (authTokens (cf_sessions c))),
      (''subscriptions'', subscriptionsJson (cf_subscriptions c)), (''system_uuid'', JString (cf_uuid c)),
      (''timeout'', JInt (timeoutInSeconds (cf_sessions c)))]"
  by (simp add: configJson_def omap_of_def less_list_code less_char_def)

section \<open>Each part comes back\<close>

lemma auth_back: "auth_fromJson (as_parsed (authJson c)) c0 = c"
  by (simp add: config_json auth_fromJson_def auth_element_def)

lemma event_back: "event_config_fromJson (as_parsed (eventJson c)) c0 = c"
proof -
  have "\<not> 4294967295 < uint (w :: u32)" for w
    using unsigned_less [of w, where ?'a = int] by simp
  then show ?thesis
    by (simp add: config_json event_config_fromJson_def event_config_element_def get_u32_def)
qed

text \<open>A session as it is restored, with the reading of the clock at that time.\<close>

definition restored :: "int \<Rightarrow> UserSession \<Rightarrow> UserSession" where
  "restored now s = s\<lparr>us_lastUpdated := now, us_persistence := TIMEOUT, us_cookieAuth := False,
     us_isConfigureSelfOnly := False, us_userRole := [], us_userGroups := []\<rparr>"

definition session_complete :: "UserSession \<Rightarrow> bool" where
  "session_complete s \<longleftrightarrow> us_uniqueId s \<noteq> [] \<and> us_username s \<noteq> [] \<and> us_csrfToken s \<noteq> []"

lemma session_back:
  assumes "session_complete s" "us_sessionToken s \<noteq> []"
  shows "session_fromJson now (as_parsed (sessionJson s)) = Some (restored now s)"
  using assms
  by (cases "us_clientId s")
    (simp_all add: config_json session_fromJson_def session_element_def session_init_def restored_def session_complete_def)

lemma strings_back: "append_strings (as_parsed (stringsJson xs)) [] = xs"
proof -
  have "fold (\<lambda>val acc. case get_string (snd val) of None \<Rightarrow> acc | Some value \<Rightarrow> acc @ [value])
      (zip ks (map JString xs)) acc = acc @ xs" if "length ks = length xs" for ks :: "string list" and acc
    using that by (induction ks xs arbitrary: acc rule: list_induct2) simp_all
  then show ?thesis
    by (simp add: append_strings_def stringsJson_def comp_def)
qed

text \<open>Header lists that are sorted by name and have no two names that differ in case only.\<close>

definition headers_ok :: "fields \<Rightarrow> bool" where
  "headers_ok h \<longleftrightarrow> omap_ok h \<and> distinct (map (\<lambda>p. map to_lower (fst p)) h)"

lemma headers_back:
  assumes "headers_ok h"
  shows "set_headers (as_parsed (headersJson h)) [] = h"
proof -
  have "omap_ok (map (\<lambda>p. (fst p, JString (snd p))) h)"
    using assms by (simp add: headers_ok_def omap_ok_def comp_def)
  then have j: "as_parsed (headersJson h) = JObject (map (\<lambda>p. (fst p, JString (snd p))) h)"
    by (simp add: headersJson_def omap_of_sorted comp_def)
  have "fold (\<lambda>p acc. set_field (fst p) (snd p) acc) h acc = acc @ h"
    if "distinct (map (\<lambda>p. map to_lower (fst p)) (acc @ h))" for acc
    using that
  proof (induction h arbitrary: acc)
    case (Cons p h)
    then have "filter (\<lambda>q. \<not> iequals (fst q) (fst p)) acc = acc"
      by (auto simp: iequals_def filter_id_conv image_iff)
    then have "set_field (fst p) (snd p) acc = acc @ [p]"
      by (simp add: set_field_def fields_erase_def)
    with Cons show ?case by simp
  qed simp
  from this [of "[]"] show ?thesis
    using assms by (simp add: set_headers_def j fold_map comp_def headers_ok_def)
qed

definition subscription_complete :: "UserSubscription \<Rightarrow> bool" where
  "subscription_complete s \<longleftrightarrow> sub_id s \<noteq> [] \<and> sub_destinationUrl s \<noteq> [] \<and> sub_protocol s \<noteq> []
     \<and> sub_retryPolicy s \<noteq> [] \<and> sub_eventFormatType s \<noteq> [] \<and> sub_subscriptionType s \<noteq> []
     \<and> headers_ok (sub_httpHeaders s)"

lemma subscription_back:
  assumes "subscription_complete s"
  shows "subscription_fromJson False (as_parsed (subscriptionJson s)) = Some s"
proof -
  have "fold subscription_element (json_items (as_parsed (subscriptionJson s))) subscription_init = s"
    using assms headers_back [of "sub_httpHeaders s"]
    by (simp add: config_json subscription_element_def subscription_init_def strings_back
        subscription_complete_def)
  then show ?thesis
    using assms by (simp add: subscription_fromJson_def subscription_complete_def Let_def)
qed

lemma json_values_array [simp]: "json_values (JArray xs) = xs"
  by (simp add: json_values_def)

definition restored_tokens ::
    "(nat \<Rightarrow> int) \<Rightarrow> nat \<Rightarrow> (string \<times> UserSession) list \<Rightarrow> (string \<times> UserSession) list" where
  "restored_tokens clock k ps = map (\<lambda>(i, p). (fst p, restored (clock i) (snd p))) (enumerate k ps)"

lemma restoreSessions_back:
  assumes "list_all (\<lambda>p. us_sessionToken (snd p) = fst p \<and> fst p \<noteq> [] \<and> session_complete (snd p)) ps"
    and "distinct (map fst (authTokens st) @ map fst ps)"
  shows "restoreSessions clock k (map (\<lambda>p. as_parsed (sessionJson (snd p))) ps) st
    = st\<lparr>authTokens := authTokens st @ restored_tokens clock k ps\<rparr>"
  using assms
proof (induction ps arbitrary: k st)
  case (Cons p ps)
  have "session_fromJson (clock k) (as_parsed (sessionJson (snd p))) = Some (restored (clock k) (snd p))"
    using Cons.prems(1) by (intro session_back) auto
  moreover have "map_of (authTokens st) (fst p) = None"
    using Cons.prems(2) by (auto simp: map_of_eq_None_iff)
  moreover have "us_sessionToken (restored (clock k) (snd p)) = fst p"
    using Cons.prems(1) by (simp add: restored_def)
  ultimately show ?case
    using Cons.IH [of "st\<lparr>authTokens := authTokens st @ [(fst p, restored (clock k) (snd p))]\<rparr>" "Suc k"] Cons.prems
    by (simp add: emplaceSession_def restored_tokens_def)
qed (simp add: restored_tokens_def)

lemma subscriptions_back:
  assumes "list_all (\<lambda>p. sub_id (snd p) = fst p \<and> subscription_complete (snd p)) ps" "omap_ok (acc @ ps)"
  shows "fold restoreSubscription (map (\<lambda>p. as_parsed (subscriptionJson (snd p))) ps) acc = acc @ ps"
  using assms
proof (induction ps arbitrary: acc)
  case (Cons p ps)
  have "subscription_fromJson False (as_parsed (subscriptionJson (snd p))) = Some (snd p)"
    using Cons.prems(1) by (intro subscription_back) simp
  moreover have "omap_find acc (fst p) = None" "\<forall>a \<in> set (omap_keys acc). a < fst p"
    using Cons.prems(2) by (auto simp: omap_find_None_iff omap_ok_def sorted_wrt_append)
  ultimately have "restoreSubscription (as_parsed (subscriptionJson (snd p))) acc = acc @ [p]"
    using Cons.prems(1) by (simp add: restoreSubscription_def omap_emplace_def insert_or_assign_last)
  with Cons show ?case by simp
qed simp

section \<open>Reading what was written\<close>

lemma persistent_iff: "pt \<noteq> SINGLE_REQUEST \<longleftrightarrow> pt = TIMEOUT"
  by (cases pt) simp_all

lemma omap_ok_filter: "omap_ok m \<Longrightarrow> omap_ok (filter P m)"
  by (simp add: omap_ok_def sorted_wrt_map sorted_wrt_filter)

text \<open>A configuration whose parts can be restored.\<close>

definition config_ok :: "config \<Rightarrow> bool" where
  "config_ok c \<longleftrightarrow> tokens_ok (authTokens (cf_sessions c))
     \<and> list_all (\<lambda>p. us_persistence (snd p) = TIMEOUT \<longrightarrow> session_complete (snd p)) (authTokens (cf_sessions c))
     \<and> - (2 ^ 63) \<le> timeoutInSeconds (cf_sessions c) \<and> timeoutInSeconds (cf_sessions c) < 2 ^ 63
     \<and> omap_ok (cf_subscriptions c)
     \<and> list_all (\<lambda>p. sub_id (snd p) = fst p \<and> subscription_complete (snd p)) (cf_subscriptions c)
     \<and> cf_uuid c \<noteq> []"

definition restored_config :: "(nat \<Rightarrow> int) \<Rightarrow> config \<Rightarrow> config" where
  "restored_config clock c =
     \<lparr>cf_sessions = \<lparr>authTokens = restored_tokens clock 0
            (filter (\<lambda>p. us_persistence (snd p) \<noteq> SINGLE_REQUEST) (authTokens (cf_sessions c))),
        lastTimeoutUpdate = 0, needWrite = True, timeoutInSeconds = timeoutInSeconds (cf_sessions c),
        authMethodsConfig = authMethodsConfig (cf_sessions c)\<rparr>,
      cf_event = cf_event c,
      cf_subscriptions = filter (\<lambda>p. sub_subscriptionType (snd p) \<noteq> ''SSE'') (cf_subscriptions c),
      cf_uuid = cf_uuid c\<rparr>"

lemma plain_parts:
  "plain_json (authJson a)" "plain_json (eventJson e)" "plain_json (sessionJson s)"
  "plain_json (stringsJson xs)" "plain_json (headersJson h)" "plain_json (subscriptionJson b)"
proof -
  show strings: "plain_json (stringsJson xs)" for xs
    by (auto simp: stringsJson_def)
  show headers: "plain_json (headersJson h)"  for h
    using set_omap_of [of "map (\<lambda>p. (fst p, JString (snd p))) h"] by (auto simp: headersJson_def)
  show "plain_json (subscriptionJson b)"
    using strings headers by (simp add: config_json)
qed (auto simp: config_json split: option.split)

lemma ok_parts:
  "json_ok (authJson a)" "json_ok (eventJson e)" "json_ok (sessionJson s)"
  "json_ok (stringsJson xs)" "json_ok (headersJson h)" "json_ok (subscriptionJson b)"
proof -
  show strings: "json_ok (stringsJson xs)" for xs
    by (auto simp: stringsJson_def)
  show headers: "json_ok (headersJson h)" for h
    using set_omap_of [of "map (\<lambda>p. (fst p, JString (snd p))) h"] by (auto simp: headersJson_def)
  show "json_ok (subscriptionJson b)" "json_ok (authJson a)" "json_ok (eventJson e)" "json_ok (sessionJson s)"
    using strings headers set_omap_of
    by (auto simp: subscriptionJson_def authJson_def eventJson_def sessionJson_def dest!: subsetD [OF set_omap_of] split: option.splits)
qed

lemma config_plain: "plain_json (configJson c) \<and> json_ok (configJson c)"
proof
  show "plain_json (configJson c)"
    by (auto simp: configJson_members sessionsJson_def subscriptionsJson_def plain_parts)
  show "json_ok (configJson c)"
    unfolding configJson_def
    by (auto simp: sessionsJson_def subscriptionsJson_def ok_parts dest!: subsetD [OF set_omap_of])
qed

lemma timeout_back: "- (2 ^ 63) \<le> t \<Longrightarrow> t < 2 ^ 63 \<Longrightarrow> get_int64 (as_parsed (JInt t)) = Some t"
proof -
  assume t: "- (2 ^ 63) \<le> t" "t < 2 ^ 63"
  then have "(t + 2 ^ 63) mod 2 ^ 64 = t + 2 ^ 63"
    by (intro mod_pos_pos_trivial) auto
  then have "sint (word_of_int t :: i64) = t"
    by (simp add: signed_of_int signed_take_bit_eq_take_bit_shift take_bit_eq_mod)
  then show ?thesis
    by simp
qed

lemma config_element_members:
  "config_element clock (''auth_config'', v) (r, c) =
     (r, c\<lparr>cf_sessions := (cf_sessions c)\<lparr>authMethodsConfig := auth_fromJson v (authMethodsConfig (cf_sessions c))\<rparr>\<rparr>)"
  "config_element clock (''eventservice_config'', v) (r, c) = (r, c\<lparr>cf_event := event_config_fromJson v (cf_event c)\<rparr>)"
  "config_element clock (''revision'', v) (r, c) = ((case get_uint64 v of None \<Rightarrow> 0 | Some n \<Rightarrow> n), c)"
  "config_element clock (''sessions'', v) (r, c) =
     (r, c\<lparr>cf_sessions := restoreSessions clock 0 (json_values v) (cf_sessions c)\<rparr>)"
  "config_element clock (''subscriptions'', v) (r, c) =
     (r, c\<lparr>cf_subscriptions := fold restoreSubscription (json_values v) (cf_subscriptions c)\<rparr>)"
  "config_element clock (''system_uuid'', v) (r, c) =
     (r, case get_string v of None \<Rightarrow> c | Some s \<Rightarrow> c\<lparr>cf_uuid := s\<rparr>)"
  "config_element clock (''timeout'', v) (r, c) =
     (r, case get_int64 v of None \<Rightarrow> c | Some t \<Rightarrow> c\<lparr>cf_sessions := updateSessionTimeout t (cf_sessions c)\<rparr>)"
  by (simp_all add: config_element_def Let_def)

lemma json_values_written:
  "json_values (as_parsed (sessionsJson m)) =
     map (\<lambda>p. as_parsed (sessionJson (snd p))) (filter (\<lambda>p. us_persistence (snd p) \<noteq> SINGLE_REQUEST) m)"
  "json_values (as_parsed (subscriptionsJson b)) =
     map (\<lambda>p. as_parsed (subscriptionJson (snd p))) (filter (\<lambda>p. sub_subscriptionType (snd p) \<noteq> ''SSE'') b)"
  by (simp_all add: sessionsJson_def subscriptionsJson_def comp_def)

lemma as_parsed_config:
  "json_items (as_parsed (configJson c)) =
     [(''auth_config'', as_parsed (authJson (authMethodsConfig (cf_sessions c)))),
      (''eventservice_config'', as_parsed (eventJson (cf_event c))), (''revision'', JUInt jsonRevision),
      (''sessions'', as_parsed (sessionsJson (authTokens (cf_sessions c)))),
      (''subscriptions'', as_parsed (subscriptionsJson (cf_subscriptions c))), (''system_uuid'', JString (cf_uuid c)),
      (''timeout'', as_parsed (JInt (timeoutInSeconds (cf_sessions c))))]"
  by (simp add: configJson_members)

text \<open>
  C17: the configuration survives a restart. Reading the file that \<open>writeData\<close> wrote, into the
  initial configuration, yields the authentication methods, the event service settings, the
  timeout, the identifier, the subscriptions but the SSE ones, and the sessions but those of a
  single request, each under its token, its idle time starting anew; the file stays as it is.
\<close>

theorem config_roundtrip:
  assumes "json_text_law dump parse" "config_ok c" "writeData dump c = Some f"
  shows "readData dump parse clock uuid (Some f) (config_init auth) = Some (restored_config clock c, Some f)"
proof -
  have p: "parse f = Some (as_parsed (configJson c))"
    using assms config_plain unfolding json_text_law_def writeData_def by blast
  let ?ps = "filter (\<lambda>p. us_persistence (snd p) \<noteq> SINGLE_REQUEST) (authTokens (cf_sessions c))"
  let ?subs = "filter (\<lambda>p. sub_subscriptionType (snd p) \<noteq> ''SSE'') (cf_subscriptions c)"
  have "distinct (map fst ?ps)"
    using assms(2) tokens_ok_filter by (auto simp: config_ok_def tokens_ok_def distinct_map_filter)
  moreover have "list_all (\<lambda>p. us_sessionToken (snd p) = fst p \<and> fst p \<noteq> [] \<and> session_complete (snd p)) ?ps"
    using assms(2) by (auto simp: config_ok_def tokens_ok_def list_all_iff persistent_iff)
  ultimately have sessions: "restoreSessions clock 0 (map (\<lambda>p. as_parsed (sessionJson (snd p))) ?ps) st
      = st\<lparr>authTokens := restored_tokens clock 0 ?ps\<rparr>" if "authTokens st = []" for st
    using restoreSessions_back [of ?ps st clock 0] that by simp
  have "omap_ok ?subs"
    using assms(2) by (intro omap_ok_filter) (simp add: config_ok_def)
  moreover have "list_all (\<lambda>p. sub_id (snd p) = fst p \<and> subscription_complete (snd p)) ?subs"
    using assms(2) by (auto simp: config_ok_def list_all_iff)
  ultimately have subs: "fold restoreSubscription (map (\<lambda>p. as_parsed (subscriptionJson (snd p))) ?subs) [] = ?subs"
    using subscriptions_back [of ?subs "[]"] by simp
  have timeout: "get_int64 (as_parsed (JInt (timeoutInSeconds (cf_sessions c)))) = Some (timeoutInSeconds (cf_sessions c))"
    using assms(2) by (intro timeout_back) (simp_all add: config_ok_def)
  have "fold (config_element clock) (json_items (as_parsed (configJson c))) (0, config_init auth)
      = (1, restored_config clock c)"
    unfolding as_parsed_config
    by (simp only: fold_simps comp_apply config_element_members json_values_written auth_back event_back
        timeout option.case get_string.simps get_uint64.simps)
      (simp add: sessions subs config_init_def store_init_def restored_config_def updateSessionTimeout_def
        jsonRevision_def)
  moreover have "cf_uuid (restored_config clock c) \<noteq> []"
    using assms(2) by (simp add: restored_config_def config_ok_def)
  ultimately show ?thesis
    by (simp add: readData_def p jsonRevision_def)
qed

theorem config_roundtrip_witness:
  "\<exists>c. cf_uuid c = ''42'' \<and> readData Some (\<lambda>j. Some (as_parsed j)) (\<lambda>k. 7) [] (Some (configJson c))
      (config_init (AuthConfigMethods.make True True True True False))
    = Some (restored_config (\<lambda>k. 7) c, Some (configJson c))"
proof -
  let ?s = "session_init\<lparr>us_uniqueId := ''a'', us_sessionToken := ''t'', us_username := ''root'', us_csrfToken := ''c''\<rparr>"
  let ?b = "subscription_init\<lparr>sub_id := ''1'', sub_destinationUrl := ''u'', sub_protocol := ''Redfish'',
    sub_retryPolicy := ''r'', sub_eventFormatType := ''Event'', sub_subscriptionType := ''RedfishEvent'',
    sub_httpHeaders := [(''A'', ''1''), (''B'', ''2'')]\<rparr>"
  let ?auth = "AuthConfigMethods.make True True True True False"
  let ?c = "config_init ?auth\<lparr>cf_uuid := ''42'', cf_subscriptions := [(''1'', ?b)],
    cf_sessions := store_init ?auth\<lparr>authTokens := [(''t'', ?s)]\<rparr>\<rparr>"
  have "config_ok ?c"
    by (simp add: config_ok_def config_init_def store_init_def tokens_ok_def session_complete_def session_init_def
        subscription_complete_def subscription_init_def headers_ok_def less_list_code less_char_def to_lower_def)
  then have "readData Some (\<lambda>j. Some (as_parsed j)) (\<lambda>k. 7) [] (Some (configJson ?c)) (config_init ?auth)
    = Some (restored_config (\<lambda>k. 7) ?c, Some (configJson ?c))"
    by (intro config_roundtrip) (simp_all add: json_text_law_def writeData_def)
  then show ?thesis
    by (intro exI [of _ ?c]) simp
qed

section \<open>What the end of the program saves\<close>

text \<open>The operations that do not take back the request to write.\<close>

fun saving_op :: "session_op \<Rightarrow> bool" where
  "saving_op (Generate draw now username ip cid pt self) = (pt = TIMEOUT)"
| "saving_op (Restore now j) = False"
| "saving_op (RemoveByUsername u) = False"
| "saving_op a = True"

definition same_content :: "SessionStore \<Rightarrow> SessionStore \<Rightarrow> bool" where
  "same_content st st' \<longleftrightarrow> sessionsJson (authTokens st) = sessionsJson (authTokens st')
     \<and> authMethodsConfig st = authMethodsConfig st' \<and> timeoutInSeconds st = timeoutInSeconds st'"

lemma same_content_login:
  "sessionsJson (AList.map_entry token (\<lambda>s. s\<lparr>us_lastUpdated := now\<rparr>) m) = sessionsJson m"
  by (induction m) (auto simp: sessionsJson_def sessionJson_def)

lemma expire_saves:
  "needWrite (applySessionTimeouts t st) \<or> same_content st (applySessionTimeouts t st)"
  "needWrite st \<Longrightarrow> needWrite (applySessionTimeouts t st)"
  by (auto simp: applySessionTimeouts_def same_content_def Let_def list_ex_iff intro!: arg_cong [where f = sessionsJson] filter_True [symmetric])

lemma step_saves:
  "saving_op a \<Longrightarrow> needWrite (session_step a st) \<or> same_content st (session_step a st)"
  using expire_saves [where st = st]
  by (cases a) (auto simp: same_content_def generateUserSession_def
    loginSessionByToken_def getSessionByUid_def getUniqueIds_def removeSession_def updateAuthMethodsConfig_def
    updateSessionTimeout_def same_content_login Let_def case_prod_unfold split: option.splits)

lemma step_keeps_request:
  "saving_op a \<Longrightarrow> needWrite st \<Longrightarrow> needWrite (session_step a st)"
  using expire_saves(2) [where st = st]
  by (cases a) (auto simp: generateUserSession_def
    loginSessionByToken_def getSessionByUid_def getUniqueIds_def removeSession_def updateAuthMethodsConfig_def
    updateSessionTimeout_def Let_def case_prod_unfold split: option.splits)

lemma run_saves:
  "list_all saving_op ops \<Longrightarrow> needWrite (session_run ops st) \<or> same_content st (session_run ops st)"
proof (induction ops arbitrary: st)
  case (Cons a ops)
  have "needWrite st' \<Longrightarrow> needWrite (session_run ops st')" for st'
    using Cons.prems unfolding session_run_def
    by (induction ops arbitrary: st') (simp_all add: step_keeps_request)
  then show ?case
    using step_saves [of a st] Cons.IH [of "session_step a st"] Cons.prems
    by (auto simp: session_run_def same_content_def)
qed (simp add: session_run_def same_content_def)



text \<open>
  A session of a single request takes the request to write back: the session that was generated
  before it is then not in the file when the program ends.
\<close>

lemma single_request_drops_write:
  assumes "drawChars draw 0 20 \<noteq> None" "drawChars draw 20 20 \<noteq> None" "drawChars draw 40 10 \<noteq> None"
  shows "\<not> needWrite (snd (generateUserSession draw now username ip cid SINGLE_REQUEST self st))"
  using assms by (auto simp: generateUserSession_def sessionTokenSize_def Let_def case_prod_unfold split: option.split)

end
