(* ===== verification/Connection.thy ===== *)
theory Connection
  imports Router Sessions
begin

text \<open>
  The life of a connection, \<open>http/http_connection.hpp\<close>, and the accept loop of \<open>http/http_server.hpp\<close>.
  A connection is a state with the one operation it waits for; each completion of an operation is
  an event, and a step yields the new state and what was started, written or called. The model is
  of the compiled variant: authentication and client certificates are switched off by the build
  options (\<open>BMCWEB_INSECURE_DISABLE_AUTHX\<close>), HTTP/2 by \<open>bmcwebEnableHTTP2\<close>.

  The parser's message, the outcome of each operation, and the library's adjustment of the
  \<open>Connection\<close> field are inputs. The parser is always there: it is replaced, never reset.
\<close>

section \<open>State\<close>

text \<open>What the code takes from the library, and the build option for the security headers.\<close>

record env =
  parse_relative_ref :: "string \<Rightarrow> string option"
  json_hash :: "json \<Rightarrow> u64"
  json_dump :: "json \<Rightarrow> string"
  json_cbor :: "json \<Rightarrow> string"
  xss_disabled :: bool
  keep_alive_field :: "bool \<Rightarrow> fields \<Rightarrow> fields"

record message =
  msg_method :: boost_verb
  msg_target :: string
  msg_fields :: fields
  msg_body :: string
  msg_version :: nat
  msg_keepAlive :: bool
  msg_isUpgrade :: bool

datatype waiting = WNothing | WHandshake | WHeader | WBody | WHandler bool | WWrite

record connection =
  cn_tls :: bool
  cn_open :: bool
  cn_wait :: waiting
  cn_req :: "UserSession request option"
  cn_res :: response
  cn_keepAlive :: bool
  tm_started :: bool
  tm_armed :: bool
  tm_cancelled :: nat

datatype cn_out =
    StartHandshake
  | ReadHeader
  | ReadSome
  | WriteOut response
  | CallHandler "UserSession request" response
  | CallUpgrade "UserSession request" response

definition connection_init :: "bool \<Rightarrow> connection" where
  "connection_init tls =
     \<lparr>cn_tls = tls, cn_open = True, cn_wait = WNothing, cn_req = None, cn_res = response_init,
      cn_keepAlive = True, tm_started = False, tm_armed = False, tm_cancelled = 0\<rparr>"

section \<open>The deadline timer\<close>

text \<open>
  \<open>cancel()\<close> lets the handler of a pending wait run later with \<open>operation_aborted\<close>, and only that
  handler resets \<open>timerStarted\<close>: until it has run, \<open>startDeadline\<close> does nothing.
\<close>

definition startDeadline :: "connection \<Rightarrow> connection" where
  "startDeadline c = (if tm_started c then c else c\<lparr>tm_armed := True, tm_started := True\<rparr>)"

definition cancelDeadlineTimer :: "connection \<Rightarrow> connection" where
  "cancelDeadlineTimer c =
     (if tm_armed c then c\<lparr>tm_armed := False, tm_cancelled := tm_cancelled c + 1\<rparr> else c)"

section \<open>Operations\<close>

definition cn_isAlive :: "connection \<Rightarrow> bool" where
  "cn_isAlive c = (if cn_tls c then cn_open c else True)"

definition cn_close :: "connection \<Rightarrow> connection" where
  "cn_close c = c\<lparr>cn_open := False, cn_wait := WNothing\<rparr>"

definition set_keepAlive :: "env \<Rightarrow> bool \<Rightarrow> response \<Rightarrow> response" where
  "set_keepAlive env b r = r\<lparr>res_fields := keep_alive_field env b (res_fields r)\<rparr>"

definition dropHandler :: "response \<Rightarrow> response" where
  "dropHandler r = r\<lparr>completeRequestHandler := None, completed := False\<rparr>"

text \<open>
  \<open>completeRequest\<close>; \<open>own\<close> is the response after the move, which is the connection's own when it is
  passed itself. Writing moves the message out of the response, which is cleared before it is used
  again, so what is left of it is not modelled.
\<close>

definition completeRequest :: "env \<Rightarrow> response \<Rightarrow> connection \<Rightarrow> connection \<times> cn_out list" where
  "completeRequest env own c =
     (case cn_req c of
        None \<Rightarrow> (c, [])
      | Some req \<Rightarrow>
          let r1 = set_keepAlive env (cn_keepAlive c) own;
              r2 = completeResponseFields (json_hash env) (json_dump env) (json_cbor env) (xss_disabled env) req r1
          in if \<not> cn_isAlive c then (c\<lparr>cn_res := dropHandler r2, cn_wait := WNothing\<rparr>, [])
             else
               let r3 = preparePayload r2
               in ((startDeadline c)\<lparr>cn_res := dropHandler r3, cn_wait := WWrite\<rparr>, [WriteOut r3]))"

text \<open>The numbers stand for the lambdas the connection hands out.\<close>

definition completion_lambda :: nat where "completion_lambda = 1"
definition upgrade_lambda :: nat where "upgrade_lambda = 2"
definition alive_lambda :: nat where "alive_lambda = 0"

definition is_websocket :: "message \<Rightarrow> bool" where
  "is_websocket msg \<longleftrightarrow> msg_isUpgrade msg \<and> iequals (fields_get (msg_fields msg) ''Upgrade'') ''websocket''"

definition is_sse :: "message \<Rightarrow> bool" where
  "is_sse msg = isContentTypeAllowed (fields_get (msg_fields msg) ''Accept'') EventStream False"

definition cn_handle :: "env \<Rightarrow> message \<Rightarrow> connection \<Rightarrow> connection \<times> cn_out list" where
  "cn_handle env msg c =
     (let (req, reqEc) = makeRequest (parse_relative_ref env) (msg_method msg) (msg_target msg)
                           (msg_fields msg) (msg_body msg);
          c1 = c\<lparr>cn_req := Some req\<rparr>
      in if reqEc then
           completeRequest env (set_result 400 (cn_res c1)) c1
         else if msg_version msg = 11 \<and> rq_getHeaderValue req ''Host'' = [] then
           completeRequest env (set_result 400 (cn_res c1)) c1
         else
           let c2 = c1\<lparr>cn_res := setIsAliveHelper alive_lambda (cn_res c1)\<rparr>
           in if completed (cn_res c2) then completeRequest env (cn_res c2) c2
              else
                let c3 = c2\<lparr>cn_keepAlive := msg_keepAlive msg\<rparr>;
                    asyncResp = setCompleteRequestHandler completion_lambda response_init
                in if is_websocket msg \<or> is_sse msg then
                     (c3\<lparr>cn_wait := WHandler True\<rparr>,
                      [CallUpgrade req (setCompleteRequestHandler upgrade_lambda asyncResp)])
                   else
                     let expected = rq_getHeaderValue req ''If-None-Match'';
                         c4 = (if expected \<noteq> [] then c3\<lparr>cn_res := setExpectedHash expected (cn_res c3)\<rparr> else c3)
                     in (c4\<lparr>cn_wait := WHandler False\<rparr>, [CallHandler req asyncResp]))"

definition doReadHeaders :: "connection \<Rightarrow> connection \<times> cn_out list" where
  "doReadHeaders c = (c\<lparr>cn_wait := WHeader\<rparr>, [ReadHeader])"

definition doRead :: "connection \<Rightarrow> connection \<times> cn_out list" where
  "doRead c = ((startDeadline c)\<lparr>cn_wait := WBody\<rparr>, [ReadSome])"

text \<open>\<open>count\<close> is the number of connections there are, this one included.\<close>

definition cn_start :: "nat \<Rightarrow> connection \<Rightarrow> connection \<times> cn_out list" where
  "cn_start count c =
     (if count \<ge> 100 then (c, [])
      else let c1 = startDeadline c
           in if cn_tls c1 then (c1\<lparr>cn_wait := WHandshake\<rparr>, [StartHandshake]) else doReadHeaders c1)"

section \<open>Completions\<close>

definition afterHandshake :: "bool \<Rightarrow> connection \<Rightarrow> connection \<times> cn_out list" where
  "afterHandshake ec c = (if ec then (c\<lparr>cn_wait := WNothing\<rparr>, []) else doReadHeaders c)"

definition afterReadHeaders :: "env \<Rightarrow> bool \<Rightarrow> bool \<Rightarrow> message \<Rightarrow> connection \<Rightarrow> connection \<times> cn_out list" where
  "afterReadHeaders env ec is_done msg c =
     (let errorWhileReading = (if ec then True else \<not> cn_isAlive c \<and> \<not> msg_isUpgrade msg);
          c1 = cancelDeadlineTimer c
      in if errorWhileReading then (cn_close c1, [])
         else if is_done then cn_handle env msg c1
         else doRead c1)"

definition afterRead :: "env \<Rightarrow> bool \<Rightarrow> bool \<Rightarrow> message \<Rightarrow> connection \<Rightarrow> connection \<times> cn_out list" where
  "afterRead env ec is_done msg c =
     (if ec then (cn_close c, [])
      else if \<not> is_done then doRead c
      else cn_handle env msg (cancelDeadlineTimer c))"

text \<open>The completion handler of the response that was passed to the request handler.\<close>

definition afterHandler :: "env \<Rightarrow> response \<Rightarrow> connection \<Rightarrow> connection \<times> cn_out list" where
  "afterHandler env thisRes c =
     (if cn_wait c = WHandler True \<and> res_status thisRes = 200 then (c\<lparr>cn_wait := WNothing\<rparr>, [])
      else completeRequest env (fst (move_assign (cn_res c) thisRes)) c)"

definition afterDoWrite :: "bool \<Rightarrow> connection \<Rightarrow> connection \<times> cn_out list" where
  "afterDoWrite ec c =
     (let c1 = cancelDeadlineTimer c
      in if ec then (c1\<lparr>cn_wait := WNothing\<rparr>, [])
         else if \<not> cn_keepAlive c1 then (cn_close c1, [])
         else doReadHeaders (c1\<lparr>cn_res := res_clear (cn_res c1), cn_req := None\<rparr>))"

text \<open>The handler of the timer: aborted, or expired (or failed), which closes the socket.\<close>

definition afterTimer :: "bool \<Rightarrow> connection \<Rightarrow> connection" where
  "afterTimer aborted c =
     (let c1 = (if tm_cancelled c > 0 then c\<lparr>tm_cancelled := tm_cancelled c - 1\<rparr> else c\<lparr>tm_armed := False\<rparr>);
          c2 = c1\<lparr>tm_started := False\<rparr>
      in if aborted then c2 else c2\<lparr>cn_open := False\<rparr>)"

text \<open>
  Events, and when they can happen. Only a cancelled wait is aborted; a cancelled wait whose
  expiry was queued before the cancellation still reports it.
\<close>

datatype cn_event =
    HandshakeDone bool
  | HeadersRead bool bool message
  | SomeRead bool bool message
  | HandlerDone response
  | Written bool
  | TimerFired bool

fun cn_enabled :: "cn_event \<Rightarrow> connection \<Rightarrow> bool" where
  "cn_enabled (HandshakeDone ec) c = (cn_wait c = WHandshake)"
| "cn_enabled (HeadersRead ec is_done msg) c = (cn_wait c = WHeader)"
| "cn_enabled (SomeRead ec is_done msg) c = (cn_wait c = WBody)"
| "cn_enabled (HandlerDone r) c = (cn_wait c = WHandler True \<or> cn_wait c = WHandler False)"
| "cn_enabled (Written ec) c = (cn_wait c = WWrite)"
| "cn_enabled (TimerFired aborted) c = (if aborted then tm_cancelled c > 0 else tm_armed c \<or> tm_cancelled c > 0)"

fun cn_step :: "env \<Rightarrow> cn_event \<Rightarrow> connection \<Rightarrow> connection \<times> cn_out list" where
  "cn_step env (HandshakeDone ec) c = afterHandshake ec c"
| "cn_step env (HeadersRead ec is_done msg) c = afterReadHeaders env ec is_done msg c"
| "cn_step env (SomeRead ec is_done msg) c = afterRead env ec is_done msg c"
| "cn_step env (HandlerDone r) c = afterHandler env r c"
| "cn_step env (Written ec) c = afterDoWrite ec c"
| "cn_step env (TimerFired aborted) c = (afterTimer aborted c, [])"

section \<open>Runs\<close>

text \<open>
  The message an event hands to \<open>handle()\<close>, the responses among the outputs, and the runs of a
  connection with the messages handled and the responses written so far.
\<close>

fun handled_message :: "cn_event \<Rightarrow> connection \<Rightarrow> message list" where
  "handled_message (HeadersRead ec is_done msg) c =
     (if \<not> ec \<and> (cn_isAlive c \<or> msg_isUpgrade msg) \<and> is_done then [msg] else [])"
| "handled_message (SomeRead ec is_done msg) c = (if \<not> ec \<and> is_done then [msg] else [])"
| "handled_message ev c = []"

fun written :: "cn_out list \<Rightarrow> response list" where
  "written [] = []"
| "written (WriteOut r # os) = r # written os"
| "written (x # os) = written os"

inductive cn_run :: "env \<Rightarrow> connection \<Rightarrow> message list \<Rightarrow> response list \<Rightarrow> bool" for env where
  run_start: "count < 100 \<Longrightarrow> cn_run env (fst (cn_start count (connection_init tls))) [] []"
| run_step: "cn_run env c ms rs \<Longrightarrow> cn_enabled ev c \<Longrightarrow> cn_step env ev c = (c', os) \<Longrightarrow>
     cn_run env c' (ms @ handled_message ev c) (rs @ written os)"

definition timer_ok :: "connection \<Rightarrow> bool" where
  "timer_ok c \<longleftrightarrow> (tm_started c \<longleftrightarrow> tm_armed c \<or> tm_cancelled c > 0)
     \<and> (tm_armed c \<longrightarrow> tm_cancelled c = 0) \<and> tm_cancelled c \<le> 1"

lemma timer_ok_steps:
  "timer_ok c \<Longrightarrow> timer_ok (startDeadline c)"
  "timer_ok c \<Longrightarrow> timer_ok (cancelDeadlineTimer c)"
  "timer_ok c \<Longrightarrow> timer_ok (afterTimer a c)"
  by (auto simp: timer_ok_def startDeadline_def cancelDeadlineTimer_def afterTimer_def Let_def)

lemma timer_ok_updates [simp]:
  "timer_ok (c\<lparr>cn_open := b\<rparr>) = timer_ok c" "timer_ok (c\<lparr>cn_wait := w\<rparr>) = timer_ok c"
  "timer_ok (c\<lparr>cn_req := q\<rparr>) = timer_ok c" "timer_ok (c\<lparr>cn_res := r\<rparr>) = timer_ok c"
  "timer_ok (c\<lparr>cn_keepAlive := b\<rparr>) = timer_ok c"
  by (simp_all add: timer_ok_def)

lemma timer_fields [simp]:
  "cn_tls (startDeadline c) = cn_tls c" "cn_open (startDeadline c) = cn_open c"
  "cn_req (startDeadline c) = cn_req c" "cn_res (startDeadline c) = cn_res c"
  "cn_keepAlive (startDeadline c) = cn_keepAlive c" "cn_wait (startDeadline c) = cn_wait c"
  "cn_tls (cancelDeadlineTimer c) = cn_tls c" "cn_open (cancelDeadlineTimer c) = cn_open c"
  "cn_req (cancelDeadlineTimer c) = cn_req c" "cn_res (cancelDeadlineTimer c) = cn_res c"
  "cn_keepAlive (cancelDeadlineTimer c) = cn_keepAlive c" "cn_wait (cancelDeadlineTimer c) = cn_wait c"
  "cn_tls (afterTimer a c) = cn_tls c" "cn_req (afterTimer a c) = cn_req c" "cn_res (afterTimer a c) = cn_res c"
  "cn_keepAlive (afterTimer a c) = cn_keepAlive c" "cn_wait (afterTimer a c) = cn_wait c"
  by (simp_all add: startDeadline_def cancelDeadlineTimer_def afterTimer_def Let_def)

section \<open>Each request gets its own answer\<close>

text \<open>
  A response with nothing of an earlier request in it; and what is written for a message: a plain
  400 when the request is malformed, otherwise the completion of some response of the handler.
  Both are functions of the message alone (and of the handler's response).
\<close>

definition fresh :: "response \<Rightarrow> bool" where
  "fresh r \<longleftrightarrow> r\<lparr>isAliveHelper := None\<rparr> = response_init"

definition complete_with :: "env \<Rightarrow> UserSession request \<Rightarrow> bool \<Rightarrow> response \<Rightarrow> response" where
  "complete_with env req keep r =
     preparePayload (completeResponseFields (json_hash env) (json_dump env) (json_cbor env) (xss_disabled env) req
       (set_keepAlive env keep r))"

definition request_of :: "env \<Rightarrow> message \<Rightarrow> UserSession request \<times> bool" where
  "request_of env msg = makeRequest (parse_relative_ref env) (msg_method msg) (msg_target msg) (msg_fields msg) (msg_body msg)"

definition malformed :: "env \<Rightarrow> message \<Rightarrow> bool" where
  "malformed env msg \<longleftrightarrow> parse_relative_ref env (msg_target msg) = None
     \<or> msg_version msg = 11 \<and> fields_get (msg_fields msg) ''Host'' = []"

text \<open>The own response a handler's response is moved into: only the expected hash is set in it.\<close>

definition awaiting :: "message \<Rightarrow> bool \<Rightarrow> response" where
  "awaiting msg upgrade =
     (let expected = fields_get (msg_fields msg) ''If-None-Match''
      in response_init\<lparr>isAliveHelper := Some alive_lambda,
           expectedHash := (if upgrade \<or> expected = [] then None else Some expected)\<rparr>)"

definition answers :: "env \<Rightarrow> message \<Rightarrow> response \<Rightarrow> bool" where
  "answers env msg r \<longleftrightarrow>
     (let req = (fst (request_of env msg) :: UserSession request)
      in if malformed env msg
         then \<exists>a. r = complete_with env req True (set_result 400 (response_init\<lparr>isAliveHelper := a\<rparr>))
         else \<exists>h. r = complete_with env req (msg_keepAlive msg)
                (fst (move_assign (awaiting msg (is_websocket msg \<or> is_sse msg)) h)))"


text \<open>The invariant; \<open>last\<close> is the message that is being handled, if any.\<close>

definition reading :: "connection \<Rightarrow> bool" where
  "reading c \<longleftrightarrow> cn_wait c \<in> {WHandshake, WHeader, WBody}"

definition handling :: "env \<Rightarrow> message \<Rightarrow> connection \<Rightarrow> bool" where
  "handling env msg c \<longleftrightarrow> \<not> malformed env msg \<and> cn_req c = Some (fst (request_of env msg))
     \<and> cn_keepAlive c = msg_keepAlive msg \<and> cn_res c = awaiting msg (is_websocket msg \<or> is_sse msg)"

definition run_ok :: "env \<Rightarrow> connection \<Rightarrow> message list \<Rightarrow> response list \<Rightarrow> bool" where
  "run_ok env c ms rs \<longleftrightarrow> timer_ok c
     \<and> list_all2 (answers env) (take (length rs) ms) rs \<and> length rs \<le> length ms
     \<and> (reading c \<longrightarrow> length ms = length rs \<and> cn_req c = None \<and> fresh (cn_res c) \<and> cn_keepAlive c)
     \<and> (\<forall>u. cn_wait c = WHandler u \<longrightarrow> length ms = Suc (length rs) \<and> handling env (last ms) c)
     \<and> (cn_wait c = WWrite \<longrightarrow> length ms = length rs \<and> (\<exists>r. cn_res c = r \<and> completeRequestHandler r = None))
     \<and> length ms \<le> Suc (length rs)"

lemma request_of_malformed:
  "snd (request_of env msg) \<longleftrightarrow> parse_relative_ref env (msg_target msg) = None"
  "rq_fields (fst (request_of env msg)) = msg_fields msg"
  by (auto simp: request_of_def makeRequest_def setUrlInfo_def split: option.split)

lemma written_step:
  "cn_req c = Some req \<Longrightarrow> completeRequest env own c =
     (if cn_isAlive c
      then ((startDeadline c)\<lparr>cn_res := dropHandler (complete_with env req (cn_keepAlive c) own), cn_wait := WWrite\<rparr>,
            [WriteOut (complete_with env req (cn_keepAlive c) own)])
      else (c\<lparr>cn_res := dropHandler (completeResponseFields (json_hash env) (json_dump env) (json_cbor env)
               (xss_disabled env) req (set_keepAlive env (cn_keepAlive c) own)), cn_wait := WNothing\<rparr>, []))"
  by (simp add: completeRequest_def complete_with_def Let_def)

text \<open>What \<open>handle\<close> does from a state in which a request is read.\<close>

lemma cn_handle_malformed:
  assumes "fresh (cn_res c)" "cn_keepAlive c" "malformed env msg"
  shows "cn_handle env msg c = completeRequest env (set_result 400 (cn_res c)) (c\<lparr>cn_req := Some (fst (request_of env msg))\<rparr>)"
  using assms(3) request_of_malformed [of env msg] unfolding request_of_def malformed_def cn_handle_def rq_getHeaderValue_def
  by (auto simp: Let_def case_prod_unfold)

lemma fresh_completed: "fresh r \<Longrightarrow> \<not> completed r"
  by (metis fresh_def response.select_convs(6) response.surjective response.update_convs(8) response_init_def)

lemma cn_handle_ok:
  assumes "fresh (cn_res c)" "\<not> malformed env msg"
  shows "cn_handle env msg c =
    (c\<lparr>cn_req := Some (fst (request_of env msg)), cn_keepAlive := msg_keepAlive msg,
       cn_res := awaiting msg (is_websocket msg \<or> is_sse msg), cn_wait := WHandler (is_websocket msg \<or> is_sse msg)\<rparr>,
     [if is_websocket msg \<or> is_sse msg
      then CallUpgrade (fst (request_of env msg)) (setCompleteRequestHandler upgrade_lambda response_init)
      else CallHandler (fst (request_of env msg)) (setCompleteRequestHandler completion_lambda response_init)])"
proof -
  have "setIsAliveHelper alive_lambda (cn_res c) = response_init\<lparr>isAliveHelper := Some alive_lambda\<rparr>"
    using assms(1) unfolding fresh_def setIsAliveHelper_def by (metis response.update_convs(8) response.surjective)
  then show ?thesis
    using assms(2) request_of_malformed [of env msg]
    unfolding request_of_def malformed_def cn_handle_def rq_getHeaderValue_def
    by (auto simp: Let_def case_prod_unfold awaiting_def setExpectedHash_def setCompleteRequestHandler_def response_init_def)
qed

lemma answers_snoc:
  "list_all2 (answers env) (take (length rs) ms) rs \<Longrightarrow> length ms = Suc (length rs) \<Longrightarrow> answers env (last ms) r \<Longrightarrow>
     list_all2 (answers env) (take (length (rs @ [r])) ms) (rs @ [r])"
proof -
  assume h: "list_all2 (answers env) (take (length rs) ms) rs" "length ms = Suc (length rs)" "answers env (last ms) r"
  then obtain ms' m where "ms = ms' @ [m]" "length ms' = length rs"
    by (cases ms rule: rev_cases) auto
  with h show ?thesis
    by (simp add: list_all2_appendI)
qed

text \<open>A request is completed: its answer is written, or the connection is dead.\<close>

lemma run_ok_complete:
  assumes "timer_ok c" "list_all2 (answers env) (take (length rs) ms) rs" "length ms = Suc (length rs)"
    and "cn_req c = Some req"
    and "answers env (last ms) (complete_with env req (cn_keepAlive c) own)"
  shows "run_ok env (fst (completeRequest env own c)) ms (rs @ written (snd (completeRequest env own c)))"
proof (cases "cn_isAlive c")
  case True
  then show ?thesis
    using assms answers_snoc [OF assms(2,3,5)] timer_ok_steps(1) [OF assms(1)]
    by (simp add: written_step [OF assms(4)] run_ok_def reading_def dropHandler_def)
next
  case False
  then show ?thesis
    using assms by (simp add: written_step [OF assms(4)] run_ok_def reading_def)
qed

lemma run_ok_handle:
  assumes "timer_ok c" "list_all2 (answers env) (take (length rs) ms) rs" "length ms = length rs"
    and "fresh (cn_res c)" "cn_keepAlive c"
  shows "run_ok env (fst (cn_handle env msg c)) (ms @ [msg]) (rs @ written (snd (cn_handle env msg c)))"
proof (cases "malformed env msg")
  case True
  let ?c = "c\<lparr>cn_req := Some (fst (request_of env msg))\<rparr>"
  have own: "cn_res c = response_init\<lparr>isAliveHelper := isAliveHelper (cn_res c)\<rparr>"
    using assms(4) unfolding fresh_def by (metis response.surjective response.update_convs(8))
  have "answers env msg (complete_with env (fst (request_of env msg)) True (set_result 400 (cn_res c)))"
    using True by (subst own) (auto simp: answers_def Let_def)
  then show ?thesis
    using run_ok_complete [of ?c env rs "ms @ [msg]" "fst (request_of env msg)" "set_result 400 (cn_res c)"]
      assms True by (simp add: cn_handle_malformed)
next
  case False
  then show ?thesis
    using assms by (auto simp: cn_handle_ok run_ok_def reading_def handling_def)
qed

lemma fresh_clear: "completeRequestHandler r = None \<Longrightarrow> fresh (res_clear r)"
  by (simp add: fresh_def res_clear_def response_init_def)

lemma run_ok_step:
  assumes "run_ok env c ms rs" "cn_enabled ev c"
  shows "run_ok env (fst (cn_step env ev c)) (ms @ handled_message ev c) (rs @ written (snd (cn_step env ev c)))"
proof (cases ev)
  case (HandshakeDone ec)
  then show ?thesis
    using assms by (auto simp: run_ok_def afterHandshake_def doReadHeaders_def reading_def)
next
  case (HeadersRead ec d msg)
  have c: "timer_ok (cancelDeadlineTimer c)" "reading c"
    using assms HeadersRead timer_ok_steps(2) [of c] by (auto simp: run_ok_def reading_def)
  show ?thesis
    using assms HeadersRead c run_ok_handle [OF c(1), of env rs ms msg] timer_ok_steps(1) [OF c(1)]
    by (auto simp: run_ok_def afterReadHeaders_def reading_def cn_close_def doRead_def Let_def cn_isAlive_def)
next
  case (SomeRead ec d msg)
  have c: "timer_ok (cancelDeadlineTimer c)" "timer_ok c" "reading c"
    using assms SomeRead timer_ok_steps(2) [of c] by (auto simp: run_ok_def reading_def)
  show ?thesis
    using assms SomeRead c run_ok_handle [OF c(1), of env rs ms msg] timer_ok_steps(1) [OF c(2)]
    by (auto simp: run_ok_def afterRead_def reading_def cn_close_def doRead_def)
next
  case (HandlerDone r)
  then obtain u where u: "cn_wait c = WHandler u" "length ms = Suc (length rs)" "handling env (last ms) c"
    using assms by (auto simp: run_ok_def)
  let ?own = "fst (move_assign (cn_res c) r)"
  have "answers env (last ms) (complete_with env (fst (request_of env (last ms))) (cn_keepAlive c) ?own)"
    using u(3) by (auto simp: handling_def answers_def Let_def)
  then have "run_ok env (fst (completeRequest env ?own c)) ms (rs @ written (snd (completeRequest env ?own c)))"
    using assms u by (intro run_ok_complete) (auto simp: run_ok_def handling_def)
  then show ?thesis
    using HandlerDone assms u by (auto simp: afterHandler_def run_ok_def reading_def)
next
  case (Written ec)
  have "timer_ok (cancelDeadlineTimer c)"
    using assms timer_ok_steps(2) [of c] by (simp add: run_ok_def)
  then show ?thesis
    using assms Written
    by (auto simp: run_ok_def afterDoWrite_def reading_def cn_close_def doReadHeaders_def Let_def fresh_clear)
next
  case (TimerFired a)
  have "timer_ok (afterTimer a c)"
    using assms timer_ok_steps(3) [of c] by (simp add: run_ok_def)
  then show ?thesis
    using assms TimerFired by (auto simp: run_ok_def reading_def handling_def)
qed

lemma run_ok_run: "cn_run env c ms rs \<Longrightarrow> run_ok env c ms rs"
proof (induction rule: cn_run.induct)
  case (run_start count tls)
  then show ?case
    by (auto simp: run_ok_def cn_start_def connection_init_def startDeadline_def doReadHeaders_def timer_ok_def
        reading_def fresh_def response_init_def Let_def)
next
  case (run_step c ms rs ev c' os)
  then show ?case
    using run_ok_step [of env c ms rs ev] by simp
qed

text \<open>
  C7: each request gets its own answer. In any run of a connection, whatever its client, its
  handlers and its timer do, responses are written in the order of the requests, at most one for
  each and never two requests ahead; every response is the completion of that request alone, with
  nothing left of an earlier one; and while the connection reads, all requests are answered.
\<close>

theorem connection_answers:
  assumes "cn_run env c ms rs"
  shows "list_all2 (answers env) (take (length rs) ms) rs \<and> length rs \<le> length ms
    \<and> length ms \<le> Suc (length rs) \<and> (cn_wait c \<in> {WHandshake, WHeader, WBody} \<longrightarrow> length ms = length rs)"
  using run_ok_run [OF assms] by (simp add: run_ok_def reading_def)

definition sample_env :: env where
  "sample_env = \<lparr>parse_relative_ref = Some, json_hash = (\<lambda>j. 7), json_dump = (\<lambda>j. ''{}''),
     json_cbor = (\<lambda>j. []), xss_disabled = False, keep_alive_field = (\<lambda>b f. f)\<rparr>"

definition sample_get :: "fields \<Rightarrow> message" where
  "sample_get f = \<lparr>msg_method = verb_get, msg_target = ''/'', msg_fields = f, msg_body = [],
     msg_version = 10, msg_keepAlive = True, msg_isUpgrade = False\<rparr>"

lemma sample_handled:
  "cn_run sample_env (fst (cn_handle sample_env (sample_get f)
      (cancelDeadlineTimer (fst (cn_start 1 (connection_init False)))))) [sample_get f]
    (written (snd (cn_handle sample_env (sample_get f)
      (cancelDeadlineTimer (fst (cn_start 1 (connection_init False)))))))"
proof -
  let ?c = "fst (cn_start 1 (connection_init False))"
  have "cn_run sample_env ?c [] []"
    by (rule run_start) simp
  moreover have "cn_enabled (HeadersRead False True (sample_get f)) ?c" "cn_isAlive ?c"
    by (simp_all add: cn_start_def connection_init_def startDeadline_def doReadHeaders_def cn_isAlive_def Let_def)
  ultimately show ?thesis
    using run_step [of sample_env ?c "[]" "[]" "HeadersRead False True (sample_get f)"]
    by (simp add: afterReadHeaders_def)
qed

lemma complete_plain: "jsonValue r = JNull \<Longrightarrow> res_status (complete_with env req keep r) = res_status r"
  by (simp add: complete_with_def preparePayload_def completeResponseFields_def cleanupTempSession_def
      setHashAndHandleNotModified_def writeJsonBody_def set_keepAlive_def)

lemma no_event_stream: "\<not> isContentTypeAllowed [] EventStream False"
  by code_simp

theorem connection_answers_witness:
  "\<exists>r. list_all2 (answers sample_env) (take 1 [sample_get []]) [r] \<and> res_status r = 200"
proof -
  let ?m = "sample_get []"
  let ?c0 = "cancelDeadlineTimer (fst (cn_start 1 (connection_init False)))"
  have h: "\<not> malformed sample_env ?m" "\<not> is_websocket ?m" "\<not> is_sse ?m" "fresh (cn_res ?c0)"
    by (simp_all add: malformed_def sample_env_def sample_get_def is_websocket_def is_sse_def fields_get_def
        no_event_stream cn_start_def connection_init_def
        doReadHeaders_def fresh_def response_init_def Let_def)
  obtain c1 o1 where c1: "cn_handle sample_env ?m ?c0 = (c1, o1)"
    by fastforce
  have run1: "cn_run sample_env c1 [?m] (written o1)"
    using sample_handled [of "[]"] by (simp only: c1 fst_conv snd_conv)
  have c: "cn_wait c1 = WHandler False" "cn_isAlive c1" "cn_req c1 \<noteq> None" "cn_res c1 = awaiting ?m False"
    "written o1 = []"
    using c1 h by (auto simp: cn_handle_ok cn_isAlive_def cn_start_def connection_init_def doReadHeaders_def Let_def)
  then obtain req where "cn_req c1 = Some req"
    by blast
  then have "\<exists>c2 r. cn_step sample_env (HandlerDone response_init) c1 = (c2, [WriteOut r]) \<and> res_status r = 200"
    using c by (simp add: afterHandler_def written_step complete_plain move_assign_def response_init_def)
  then obtain c2 r where s: "cn_step sample_env (HandlerDone response_init) c1 = (c2, [WriteOut r])" "res_status r = 200"
    by blast
  have "cn_run sample_env c2 [?m] [r]"
    using run_step [OF run1 _ s(1)] c by simp
  from connection_answers [OF this] s(2) show ?thesis
    by auto
qed

section \<open>Conditional requests end to end\<close>

lemma nat_to_string_0: "nat_to_string 0 = ''0''"
  by code_simp

text \<open>
  C27: a client that has the current version gets 304. When a well-formed request arrives whose
  \<open>If-None-Match\<close> is the tag of the value its handler reports with status 200, the connection calls
  the handler with it, and when the handler is done it writes status 304 and no content, whatever
  went over the connection before.
\<close>

theorem current_version_not_sent:
  assumes "cn_run env c ms rs" "cn_wait c = WHeader" "cn_isAlive c"
    and "\<not> malformed env msg" "\<not> is_websocket msg" "\<not> is_sse msg"
    and "fields_get (msg_fields msg) ''If-None-Match'' = hashEtag (json_hash env (jsonValue h))"
    and "res_status h = 200" "\<not> json_empty (jsonValue h)" "res_body h = StringBody []"
    and "cn_step env (HeadersRead False True msg) c = (c1, os1)" "cn_step env (HandlerDone h) c1 = (c2, os2)"
  shows "os1 = [CallHandler (fst (request_of env msg)) (setCompleteRequestHandler completion_lambda response_init)]
    \<and> (\<exists>r. os2 = [WriteOut r] \<and> res_status r = 304 \<and> res_body r = StringBody []
          \<and> (''Content-Length'', ''0'') \<in> set (res_fields r))"
proof -
  have ok: "fresh (cn_res (cancelDeadlineTimer c))"
    using run_ok_run [OF assms(1)] assms(2) by (simp add: run_ok_def reading_def)
  have c1: "(c1, os1) = cn_handle env msg (cancelDeadlineTimer c)"
    using assms(3,11) by (simp add: afterReadHeaders_def)
  have alive: "cn_isAlive c1" "cn_req c1 = Some (fst (request_of env msg))" "cn_wait c1 = WHandler False"
    "cn_res c1 = awaiting msg False"
    using c1 cn_handle_ok [OF ok assms(4)] assms(3,5,6) by (auto simp: cn_isAlive_def)
  have "os2 = [WriteOut (complete_with env (fst (request_of env msg)) (cn_keepAlive c1) (fst (move_assign (awaiting msg False) h)))]"
    using assms(12) alive by (simp add: afterHandler_def written_step)
  moreover have "expectedHash (awaiting msg False) = Some (hashEtag (json_hash env (jsonValue h)))"
    using assms(7) by (simp add: awaiting_def)
  ultimately show ?thesis
    using c1 cn_handle_ok [OF ok assms(4)] assms(5,6,8-10)
    by (simp add: complete_with_def move_assign_def set_keepAlive_def completeResponseFields_def cleanupTempSession_def
        setHashAndHandleNotModified_def writeJsonBody_def preparePayload_def set_field_def getContentLength_def
        payload_size_def set_result_def nat_to_string_0 Let_def)
qed

theorem current_version_not_sent_witness:
  "\<exists>r. res_status r = 304 \<and> (''Content-Length'', ''0'') \<in> set (res_fields r)
     \<and> snd (cn_step sample_env (HandlerDone (response_init\<lparr>jsonValue := JArray [JNull]\<rparr>))
         (fst (cn_step sample_env (HeadersRead False True (sample_get [(''If-None-Match'', hashEtag 7)]))
            (fst (cn_start 1 (connection_init False)))))) = [WriteOut r]"
proof -
  let ?m = "sample_get [(''If-None-Match'', hashEtag 7)]"
  let ?c = "fst (cn_start 1 (connection_init False))"
  have run: "cn_run sample_env ?c [] []"
    by (rule run_start) simp
  have c: "cn_wait ?c = WHeader" "cn_isAlive ?c"
    by (simp_all add: cn_start_def connection_init_def doReadHeaders_def cn_isAlive_def startDeadline_def Let_def)
  have m: "\<not> malformed sample_env ?m" "\<not> is_websocket ?m" "\<not> is_sse ?m"
    by (simp_all add: malformed_def sample_env_def sample_get_def is_websocket_def is_sse_def fields_get_def
        no_event_stream iequals_def to_lower_def)
  from current_version_not_sent [OF run c m, where h = "response_init\<lparr>jsonValue := JArray [JNull]\<rparr>",
      OF _ _ _ _ surjective_pairing surjective_pairing]
  show ?thesis
    by (auto simp: sample_env_def sample_get_def fields_get_def response_init_def)
qed

section \<open>The deadline is not restarted\<close>

text \<open>
  When the headers of the first request have been read and the body has not, the deadline is
  cancelled and started again at once; the second start finds \<open>timerStarted\<close> still set and does
  nothing. Once the handler of the cancelled wait has run, the connection waits for its client
  without any deadline.
\<close>

lemma body_read_without_deadline:
  assumes "cn_run env c ms rs" "cn_wait c = WHeader" "tm_armed c" "cn_isAlive c"
    and "cn_step env (HeadersRead False False msg) c = (c1, os)"
  shows "cn_enabled (TimerFired True) c1 \<and> (let c2 = afterTimer True c1
     in cn_wait c2 = WBody \<and> (\<forall>a. \<not> cn_enabled (TimerFired a) c2))"
  using assms run_ok_run [OF assms(1)]
  by (auto simp: afterReadHeaders_def doRead_def run_ok_def timer_ok_def startDeadline_def cancelDeadlineTimer_def
      afterTimer_def Let_def)

section \<open>The accept loop\<close>

text \<open>
  The connections of a server: the one made for the next client, those accepted whose \<open>start()\<close> is
  posted, and those that run. \<open>connectionCount\<close> counts all of them. An accept that fails (also when
  a reload of the certificate cancels it) drops the connection that was made for it.
\<close>

record server =
  sv_posted :: nat
  sv_running :: nat
  sv_stopped :: bool

definition connectionCount :: "server \<Rightarrow> nat" where
  "connectionCount sv = 1 + sv_posted sv + sv_running sv"

definition server_init :: server where
  "server_init = \<lparr>sv_posted = 0, sv_running = 0, sv_stopped = False\<rparr>"

definition doAccept :: "bool \<Rightarrow> server \<Rightarrow> server" where
  "doAccept ec sv = (if ec then sv else sv\<lparr>sv_posted := sv_posted sv + 1\<rparr>)"

text \<open>The posted call: a refused connection has no operation to wait for and is destroyed.\<close>

definition server_start :: "bool \<Rightarrow> server \<Rightarrow> server" where
  "server_start tls sv =
     (let started = snd (cn_start (connectionCount sv) (connection_init tls)) \<noteq> []
      in sv\<lparr>sv_posted := sv_posted sv - 1, sv_running := sv_running sv + (if started then 1 else 0)\<rparr>)"

definition connection_closed :: "server \<Rightarrow> server" where
  "connection_closed sv = sv\<lparr>sv_running := sv_running sv - 1\<rparr>"

text \<open>A signal: \<open>SIGHUP\<close> reloads the certificate and cancels the accept, any other stops the loop.\<close>

definition server_signal :: "bool \<Rightarrow> server \<Rightarrow> server" where
  "server_signal hup sv = (if hup then doAccept True sv else sv\<lparr>sv_stopped := True\<rparr>)"

inductive server_run :: "server \<Rightarrow> bool" where
  sv_init: "server_run server_init"
| sv_accept: "server_run sv \<Longrightarrow> \<not> sv_stopped sv \<Longrightarrow> server_run (doAccept ec sv)"
| sv_start: "server_run sv \<Longrightarrow> \<not> sv_stopped sv \<Longrightarrow> sv_posted sv > 0 \<Longrightarrow> server_run (server_start tls sv)"
| sv_close: "server_run sv \<Longrightarrow> sv_running sv > 0 \<Longrightarrow> server_run (connection_closed sv)"
| sv_signal: "server_run sv \<Longrightarrow> server_run (server_signal hup sv)"

lemma cn_start_refuses: "snd (cn_start count (connection_init tls)) \<noteq> [] \<longleftrightarrow> count < 100"
  by (simp add: cn_start_def doReadHeaders_def Let_def)

text \<open>
  The number of connections is bounded. Whatever is accepted, refused, closed or signalled in
  whatever order, at most 98 connections are served at a time: the limit of 100 counts the
  starting connection and the one that waits for the next client too.
\<close>

theorem connections_bounded:
  assumes "server_run sv"
  shows "sv_running sv \<le> 98"
  using assms
proof (induction rule: server_run.induct)
  case (sv_start sv tls)
  then show ?case
    by (auto simp: server_start_def cn_start_refuses connectionCount_def Let_def)
qed (auto simp: server_init_def doAccept_def connection_closed_def server_signal_def)

theorem connections_bounded_witness:
  "sv_running (server_start True (doAccept False server_init)) \<le> 98
   \<and> sv_running (server_start True (doAccept False server_init)) = 1"
  using connections_bounded [OF sv_start [OF sv_accept [OF sv_init]], of False True]
  by (auto simp: server_init_def doAccept_def server_start_def cn_start_refuses connectionCount_def Let_def)

end
