(* ===== verification/HttpClient.thy ===== *)
theory HttpClient
  imports Response
begin

text \<open>
  The client that sends events: \<open>redfish_event/http/http_client.hpp\<close>, \<open>http_client_pool.hpp\<close>,
  \<open>http_subscriber.hpp\<close> and \<open>http_expected.hpp\<close>. A session is a state machine over an asynchronous
  stream (TLS or plain); its stream has at most one operation outstanding besides the idle wait,
  and the completion of an operation is an event. The subscriber keeps a pool of sessions, a
  buffer for events that find no session, and the requests that wait to be sent again.

  The synchronous streams are in \<open>SyncClient\<close>. The library's adjustment of the
  \<open>Connection\<close> field, its version text and the parsed destination are arguments.
\<close>

section \<open>Requests\<close>

record client_request =
  cq_method :: boost_verb
  cq_target :: string
  cq_version :: nat
  cq_fields :: fields
  cq_body :: string

definition client_request_init :: client_request where
  "client_request_init = \<lparr>cq_method = verb_get, cq_target = [], cq_version = 11, cq_fields = [], cq_body = []\<rparr>"

text \<open>\<open>prepare_payload\<close> of a string body.\<close>

definition prepare_payload :: "client_request \<Rightarrow> client_request" where
  "prepare_payload r =
     r\<lparr>cq_fields :=
         (if cq_body r \<noteq> [] \<or> cq_method r \<in> {verb_options, verb_put, verb_post}
          then set_field ''Content-Length'' (nat_to_string (length (cq_body r))) (cq_fields r)
          else fields_erase ''Content-Length'' (cq_fields r))\<rparr>"

section \<open>The session\<close>

datatype connection_state = Monostate | InUse | Idle | Disconnected

datatype stream_op = SResolve | SConnect | SHandshake | SWrite | SRead

text \<open>
  \<open>hs_op\<close> is the outstanding operation of the stream and \<open>hs_waits\<close> the number of idle waits; the
  handler is one of the owner's, by number.
\<close>

record session =
  hs_tls :: bool
  hs_state :: connection_state
  hs_op :: "stream_op option"
  hs_waits :: nat
  hs_req :: client_request
  hs_host :: string
  hs_port :: string
  hs_keepAlive :: bool
  hs_handler :: "nat option"

definition session_create :: "bool \<Rightarrow> session" where
  "session_create tls =
     \<lparr>hs_tls = tls, hs_state = Monostate, hs_op = None, hs_waits = 0, hs_req = client_request_init,
      hs_host = [], hs_port = [], hs_keepAlive = False, hs_handler = None\<rparr>"

text \<open>What a session does: start an operation (a write with its request), report an error, shut down.\<close>

datatype session_out =
    Begin stream_op client_request
  | Report nat client_request
  | ShutDown

datatype session_option =
    OBody string
  | OTarget string
  | OPort string
  | OHost string
  | OVerb boost_verb
  | OVersion nat
  | OKeepAlive bool
  | OContentType string

fun setOption :: "session_option \<Rightarrow> session \<Rightarrow> session" where
  "setOption (OBody body) s = s\<lparr>hs_req := prepare_payload ((hs_req s)\<lparr>cq_body := body\<rparr>)\<rparr>"
| "setOption (OTarget t) s = s\<lparr>hs_req := (hs_req s)\<lparr>cq_target := t\<rparr>\<rparr>"
| "setOption (OPort p) s = s\<lparr>hs_port := p\<rparr>"
| "setOption (OHost h) s = s\<lparr>hs_host := h\<rparr>"
| "setOption (OVerb v) s = s\<lparr>hs_req := (hs_req s)\<lparr>cq_method := v\<rparr>\<rparr>"
| "setOption (OVersion v) s = s\<lparr>hs_req := (hs_req s)\<lparr>cq_version := v\<rparr>\<rparr>"
| "setOption (OKeepAlive k) s = s\<lparr>hs_keepAlive := k\<rparr>"
| "setOption (OContentType t) s = s\<lparr>hs_req := (hs_req s)\<lparr>cq_fields := set_field ''Content-Type'' t (cq_fields (hs_req s))\<rparr>\<rparr>"

definition setOptions :: "session_option list \<Rightarrow> session \<Rightarrow> session" where
  "setOptions opts s = fold setOption opts s"

definition begin_op :: "stream_op \<Rightarrow> session \<Rightarrow> session \<times> session_out list" where
  "begin_op p s = (s\<lparr>hs_op := Some p\<rparr>, [Begin p (hs_req s)])"

text \<open>
  The calls that the visited state answers: \<open>InUse\<close> ignores them, \<open>Idle\<close> starts a write or read,
  \<open>Disconnected\<close> resolves first; without a state the visit does nothing.
\<close>

definition state_resolve :: "session \<Rightarrow> session \<times> session_out list" where
  "state_resolve s = (if hs_state s = Disconnected then begin_op SResolve (s\<lparr>hs_state := InUse\<rparr>) else (s, []))"

definition state_write :: "session \<Rightarrow> session \<times> session_out list" where
  "state_write s =
     (case hs_state s of
        Idle \<Rightarrow> begin_op SWrite (s\<lparr>hs_state := InUse\<rparr>)
      | Disconnected \<Rightarrow> state_resolve s
      | other \<Rightarrow> (s, []))"

definition state_read :: "session \<Rightarrow> session \<times> session_out list" where
  "state_read s =
     (case hs_state s of
        Idle \<Rightarrow> begin_op SRead (s\<lparr>hs_state := InUse\<rparr>)
      | Disconnected \<Rightarrow> state_resolve s
      | other \<Rightarrow> (s, []))"

definition execute :: "session \<Rightarrow> session \<times> session_out list" where
  "execute s = (if hs_state s = Monostate then state_resolve (s\<lparr>hs_state := Disconnected\<rparr>) else state_write s)"

definition run_request :: "client_request \<Rightarrow> session \<Rightarrow> session \<times> session_out list" where
  "run_request req s = execute (s\<lparr>hs_req := prepare_payload req\<rparr>)"

definition run_session :: "(bool \<Rightarrow> fields \<Rightarrow> fields) \<Rightarrow> string \<Rightarrow> session \<Rightarrow> session \<times> session_out list" where
  "run_session keep_alive agent s =
     (let f = set_field ''User-Agent'' agent (set_field ''port'' (hs_port s) (set_field ''Host'' (hs_host s)
                (cq_fields (hs_req s))))
      in execute (s\<lparr>hs_req := prepare_payload ((hs_req s)\<lparr>cq_fields := keep_alive (hs_keepAlive s) f\<rparr>)\<rparr>))"

text \<open>The error handler: the response handler, if there is one, is told, and the stream shut down.\<close>

definition session_fail :: "session \<Rightarrow> session \<times> session_out list" where
  "session_fail s =
     (s\<lparr>hs_op := None\<rparr>, (case hs_handler s of None \<Rightarrow> [] | Some h \<Rightarrow> [Report h (hs_req s)]) @ [ShutDown])"

text \<open>\<open>HttpSession::on_connect\<close>: the session is idle and writes.\<close>

definition on_connect :: "session \<Rightarrow> session \<times> session_out list" where
  "on_connect s = state_write (s\<lparr>hs_state := Idle, hs_op := None\<rparr>)"

definition stream_on_resolve :: "bool \<Rightarrow> session \<Rightarrow> session \<times> session_out list" where
  "stream_on_resolve ec s = (if ec then session_fail s else begin_op SConnect s)"

definition stream_on_connect :: "bool \<Rightarrow> session \<Rightarrow> session \<times> session_out list" where
  "stream_on_connect ec s =
     (if ec then session_fail s else if hs_tls s then begin_op SHandshake s else on_connect s)"

definition stream_on_handshake :: "bool \<Rightarrow> session \<Rightarrow> session \<times> session_out list" where
  "stream_on_handshake ec s = (if ec then session_fail s else on_connect s)"

definition on_write :: "bool \<Rightarrow> session \<Rightarrow> session \<times> session_out list" where
  "on_write ec s = (if ec then session_fail s else state_read (s\<lparr>hs_state := Idle, hs_op := None\<rparr>))"

text \<open>
  \<open>on_read\<close>: the call of the response handler is commented out; \<open>keep\<close> is the response's \<open>keep_alive()\<close>.
\<close>

definition on_read :: "bool \<Rightarrow> bool \<Rightarrow> session \<Rightarrow> session \<times> session_out list" where
  "on_read ec keep s =
     (if ec then session_fail s
      else if \<not> keep then (s\<lparr>hs_state := Monostate, hs_op := None\<rparr>, [ShutDown])
      else (s\<lparr>hs_state := Idle, hs_op := None, hs_waits := hs_waits s + 1\<rparr>, []))"

text \<open>The idle wait ends; an error goes to the error handler like one of an operation.\<close>

definition on_error :: "bool \<Rightarrow> session \<Rightarrow> session \<times> session_out list" where
  "on_error ec s =
     (let s1 = s\<lparr>hs_waits := hs_waits s - 1\<rparr>
      in if ec then (s1, (case hs_handler s of None \<Rightarrow> [] | Some h \<Rightarrow> [Report h (hs_req s)]) @ [ShutDown])
         else (s1, []))"

datatype session_event = OpDone bool bool | WaitDone bool

fun session_enabled :: "session_event \<Rightarrow> session \<Rightarrow> bool" where
  "session_enabled (OpDone ec keep) s = (hs_op s \<noteq> None)"
| "session_enabled (WaitDone ec) s = (hs_waits s > 0)"

fun session_done :: "session_event \<Rightarrow> session \<Rightarrow> session \<times> session_out list" where
  "session_done (OpDone ec keep) s =
     (case hs_op s of
        None \<Rightarrow> (s, [])
      | Some SResolve \<Rightarrow> stream_on_resolve ec s
      | Some SConnect \<Rightarrow> stream_on_connect ec s
      | Some SHandshake \<Rightarrow> stream_on_handshake ec s
      | Some SWrite \<Rightarrow> on_write ec s
      | Some SRead \<Rightarrow> on_read ec keep s)"
| "session_done (WaitDone ec) s = on_error ec s"

definition inUse :: "session \<Rightarrow> bool" where
  "inUse s \<longleftrightarrow> hs_state s = InUse"

definition session_clone :: "session \<Rightarrow> session" where
  "session_clone s = session_create (hs_tls s)"

section \<open>The subscriber\<close>

record retry_policy =
  maxRetries :: int
  retryCount :: nat
  retryDelay :: nat

definition default_policy :: retry_policy where
  "default_policy = \<lparr>maxRetries = 3, retryCount = 0, retryDelay = 15\<rparr>"

definition retryNeeded :: "retry_policy \<Rightarrow> bool" where
  "retryNeeded p \<longleftrightarrow> maxRetries p < 0 \<or> int (retryCount p) < maxRetries p"

definition incrementRetryCount :: "retry_policy \<Rightarrow> retry_policy" where
  "incrementRetryCount p = p\<lparr>retryCount := retryCount p + 1\<rparr>"

record retry_request =
  rr_req :: client_request
  rr_policy :: retry_policy
  rr_armed :: bool

text \<open>
  Sessions and retry requests are numbered in the order of their creation. Handler 0 of a session
  is \<open>handleResponse\<close>, handler \<open>r + 1\<close> is \<open>handleRetryResponse\<close> of retry request \<open>r\<close>. The sessions in the
  pool are listed by number, front first.
\<close>

record subscriber =
  sb_host :: string
  sb_port :: string
  sb_path :: string
  sb_sessions :: "session list"
  sb_pool :: "nat list"
  sb_poolSize :: nat
  sb_policy :: retry_policy
  sb_buffer :: "string list"
  sb_retries :: "retry_request list"

definition buffer_capacity :: nat where
  "buffer_capacity = 100"

text \<open>The constructor; the destination is parsed by the URL library when it is used.\<close>

definition subscriber_init :: "string \<Rightarrow> string \<Rightarrow> string \<Rightarrow> subscriber" where
  "subscriber_init host port path =
     \<lparr>sb_host = host, sb_port = port, sb_path = path, sb_sessions = [], sb_pool = [], sb_poolSize = 5,
      sb_policy = default_policy, sb_buffer = [], sb_retries = []\<rparr>"

definition withPolicy :: "retry_policy \<Rightarrow> subscriber \<Rightarrow> subscriber" where
  "withPolicy p sb = sb\<lparr>sb_policy := p\<rparr>"

definition withPoolSize :: "nat \<Rightarrow> subscriber \<Rightarrow> subscriber" where
  "withPoolSize n sb = sb\<lparr>sb_poolSize := n\<rparr>"

definition acquire :: "(session \<Rightarrow> session) \<Rightarrow> subscriber \<Rightarrow> nat option \<times> subscriber" where
  "acquire initializer sb =
     (case List.find (\<lambda>i. \<not> inUse (sb_sessions sb ! i)) (sb_pool sb) of
        Some i \<Rightarrow> (Some i, sb)
      | None \<Rightarrow>
          if length (sb_pool sb) < sb_poolSize sb then
            let i = length (sb_sessions sb)
            in (Some i, sb\<lparr>sb_sessions := sb_sessions sb @ [initializer (session_create True)], sb_pool := sb_pool sb @ [i]\<rparr>)
          else (None, sb))"

definition release :: "nat \<Rightarrow> subscriber \<Rightarrow> subscriber" where
  "release i sb = sb\<lparr>sb_pool := remove1 i (sb_pool sb)\<rparr>"

text \<open>\<open>push_back\<close> of the circular buffer drops the oldest element when it is full.\<close>

definition buffer_push :: "string \<Rightarrow> string list \<Rightarrow> string list" where
  "buffer_push x b = (if length b < buffer_capacity then b @ [x] else drop 1 b @ [x])"

definition event_session :: "subscriber \<Rightarrow> session \<Rightarrow> session" where
  "event_session sb s =
     (setOptions [OHost (sb_host sb), OPort (sb_port sb), OTarget (sb_path sb), OVersion 11, OVerb verb_post,
        OKeepAlive True, OContentType ''application/json''] s)\<lparr>hs_handler := Some 0\<rparr>"

definition set_session :: "nat \<Rightarrow> session \<Rightarrow> subscriber \<Rightarrow> subscriber" where
  "set_session i s sb = sb\<lparr>sb_sessions := (sb_sessions sb)[i := s]\<rparr>"

definition sendEvent ::
    "(bool \<Rightarrow> fields \<Rightarrow> fields) \<Rightarrow> string \<Rightarrow> string \<Rightarrow> subscriber \<Rightarrow> subscriber \<times> session_out list" where
  "sendEvent keep_alive agent data sb =
     (case acquire (event_session sb) sb of
        (Some i, sb1) \<Rightarrow>
          (case run_session keep_alive agent (setOption (OBody data) (sb_sessions sb1 ! i)) of
             (s, os) \<Rightarrow> (set_session i s sb1, os))
      | (None, sb1) \<Rightarrow> (sb1\<lparr>sb_buffer := buffer_push data (sb_buffer sb1)\<rparr>, []))"

text \<open>\<open>processResponse\<close> and \<open>sendNext\<close>: what a response would lead to; \<open>on_read\<close> reports none.\<close>

definition sendNext ::
    "(bool \<Rightarrow> fields \<Rightarrow> fields) \<Rightarrow> string \<Rightarrow> subscriber \<Rightarrow> subscriber \<times> session_out list" where
  "sendNext keep_alive agent sb =
     (case sb_buffer sb of
        [] \<Rightarrow> (sb, [])
      | next # rest \<Rightarrow> sendEvent keep_alive agent next (sb\<lparr>sb_buffer := rest\<rparr>))"

definition processResponse ::
    "(bool \<Rightarrow> fields \<Rightarrow> fields) \<Rightarrow> string \<Rightarrow> nat \<Rightarrow> bool \<Rightarrow> subscriber \<Rightarrow> subscriber \<times> session_out list" where
  "processResponse keep_alive agent i keep sb =
     sendNext keep_alive agent (if \<not> keep then release i sb else sb)"

text \<open>\<open>RetryRequest::waitAndRetry\<close>.\<close>

definition waitAndRetry :: "retry_request \<Rightarrow> retry_request" where
  "waitAndRetry r =
     (if retryNeeded (rr_policy r) then r\<lparr>rr_policy := incrementRetryCount (rr_policy r), rr_armed := True\<rparr> else r)"

definition retryIfNeeded :: "client_request \<Rightarrow> subscriber \<Rightarrow> subscriber" where
  "retryIfNeeded req sb =
     (if \<not> retryNeeded (sb_policy sb) then sb
      else sb\<lparr>sb_retries := sb_retries sb @ [waitAndRetry \<lparr>rr_req = req, rr_policy = sb_policy sb, rr_armed = False\<rparr>]\<rparr>)"

text \<open>The two handlers, for an error of session \<open>i\<close>.\<close>

definition handleResponse_error :: "nat \<Rightarrow> client_request \<Rightarrow> subscriber \<Rightarrow> subscriber" where
  "handleResponse_error i req sb = retryIfNeeded req (release i sb)"

definition handleRetryResponse_error :: "nat \<Rightarrow> nat \<Rightarrow> client_request \<Rightarrow> subscriber \<Rightarrow> subscriber" where
  "handleRetryResponse_error r i req sb =
     release i (sb\<lparr>sb_retries := (sb_retries sb)[r := waitAndRetry ((sb_retries sb ! r)\<lparr>rr_req := req\<rparr>)]\<rparr>)"

definition handle_report :: "nat \<Rightarrow> nat \<Rightarrow> client_request \<Rightarrow> subscriber \<Rightarrow> subscriber" where
  "handle_report i h req sb =
     (if h = 0 then handleResponse_error i req sb else handleRetryResponse_error (h - 1) i req sb)"

fun handle_outs :: "nat \<Rightarrow> session_out list \<Rightarrow> subscriber \<Rightarrow> subscriber" where
  "handle_outs i [] sb = sb"
| "handle_outs i (Report h req # os) sb = handle_outs i os (handle_report i h req sb)"
| "handle_outs i (x # os) sb = handle_outs i os sb"

text \<open>
  The function a retry timer runs. A session that was in the pool keeps its handler; when there is
  none to be had, the null pointer is followed (\<open>None\<close>).
\<close>

definition retry_session :: "nat \<Rightarrow> client_request \<Rightarrow> session \<Rightarrow> session" where
  "retry_session r req s =
     (setOptions [OHost (fields_get (cq_fields req) ''Host''), OPort (fields_get (cq_fields req) ''port'')] s)
       \<lparr>hs_handler := Some (r + 1)\<rparr>"

definition retryFunction :: "nat \<Rightarrow> subscriber \<Rightarrow> (subscriber \<times> session_out list) option" where
  "retryFunction r sb =
     (let req = rr_req (sb_retries sb ! r)
      in case acquire (retry_session r req) sb of
           (None, sb1) \<Rightarrow> None
         | (Some i, sb1) \<Rightarrow>
             (case run_request req (sb_sessions sb1 ! i) of (s, os) \<Rightarrow> Some (set_session i s sb1, os)))"

section \<open>Runs\<close>

datatype subscriber_event =
    Send string
  | SessionEvent nat session_event
  | RetryTimer nat

fun subscriber_enabled :: "subscriber_event \<Rightarrow> subscriber \<Rightarrow> bool" where
  "subscriber_enabled (Send data) sb = True"
| "subscriber_enabled (SessionEvent i ev) sb = (i < length (sb_sessions sb) \<and> session_enabled ev (sb_sessions sb ! i))"
| "subscriber_enabled (RetryTimer r) sb = (r < length (sb_retries sb) \<and> rr_armed (sb_retries sb ! r))"

fun subscriber_step ::
    "(bool \<Rightarrow> fields \<Rightarrow> fields) \<Rightarrow> string \<Rightarrow> subscriber_event \<Rightarrow> subscriber \<Rightarrow> (subscriber \<times> session_out list) option" where
  "subscriber_step keep_alive agent (Send data) sb = Some (sendEvent keep_alive agent data sb)"
| "subscriber_step keep_alive agent (SessionEvent i ev) sb =
     (case session_done ev (sb_sessions sb ! i) of
        (s, os) \<Rightarrow> Some (handle_outs i os (set_session i s sb), os))"
| "subscriber_step keep_alive agent (RetryTimer r) sb =
     retryFunction r (sb\<lparr>sb_retries := (sb_retries sb)[r := (sb_retries sb ! r)\<lparr>rr_armed := False\<rparr>]\<rparr>)"

inductive subscriber_run :: "(bool \<Rightarrow> fields \<Rightarrow> fields) \<Rightarrow> string \<Rightarrow> subscriber \<Rightarrow> bool" for keep_alive agent where
  sb_start: "subscriber_run keep_alive agent (withPoolSize n (withPolicy p (subscriber_init host port path)))"
| sb_step: "subscriber_run keep_alive agent sb \<Longrightarrow> subscriber_enabled ev sb \<Longrightarrow>
     subscriber_step keep_alive agent ev sb = Some (sb', os) \<Longrightarrow> subscriber_run keep_alive agent sb'"

text \<open>The library's \<open>keep_alive(b)\<close> adjusts the \<open>Connection\<close> field only.\<close>

definition keep_alive_law :: "(bool \<Rightarrow> fields \<Rightarrow> fields) \<Rightarrow> bool" where
  "keep_alive_law keep_alive \<longleftrightarrow>
     (\<forall>b f k. \<not> iequals k ''Connection'' \<longrightarrow> fields_get (keep_alive b f) k = fields_get f k)"

section \<open>The invariant\<close>

text \<open>A request of this subscriber: where it goes and what it is.\<close>

definition addressed :: "subscriber \<Rightarrow> client_request \<Rightarrow> bool" where
  "addressed sb r \<longleftrightarrow> cq_method r = verb_post \<and> cq_target r = sb_path sb
     \<and> fields_get (cq_fields r) ''Host'' = sb_host sb \<and> fields_get (cq_fields r) ''port'' = sb_port sb"

definition session_ok :: "subscriber \<Rightarrow> session \<Rightarrow> bool" where
  "session_ok sb s \<longleftrightarrow> addressed sb (hs_req s) \<and> hs_host s = sb_host sb \<and> hs_port s = sb_port sb
     \<and> (hs_op s \<noteq> None \<longrightarrow> inUse s)
     \<and> (\<exists>h. hs_handler s = Some h \<and> h \<le> length (sb_retries sb))"

definition policy_ok :: "retry_policy \<Rightarrow> retry_policy \<Rightarrow> bool" where
  "policy_ok limit p \<longleftrightarrow> maxRetries p = maxRetries limit
     \<and> (maxRetries p < 0 \<or> int (retryCount p) \<le> max (maxRetries p) (int (retryCount limit)))"

definition retry_ok :: "subscriber \<Rightarrow> retry_request \<Rightarrow> bool" where
  "retry_ok sb r \<longleftrightarrow> addressed sb (rr_req r) \<and> policy_ok (sb_policy sb) (rr_policy r)"

definition pool_ok :: "subscriber \<Rightarrow> bool" where
  "pool_ok sb \<longleftrightarrow> distinct (sb_pool sb) \<and> length (sb_pool sb) \<le> sb_poolSize sb
     \<and> list_all (\<lambda>i. i < length (sb_sessions sb) \<and> (inUse (sb_sessions sb ! i) \<longrightarrow> hs_op (sb_sessions sb ! i) \<noteq> None)) (sb_pool sb)"

definition subscriber_ok :: "subscriber \<Rightarrow> bool" where
  "subscriber_ok sb \<longleftrightarrow> pool_ok sb \<and> list_all (session_ok sb) (sb_sessions sb)
     \<and> list_all (retry_ok sb) (sb_retries sb) \<and> length (sb_buffer sb) \<le> buffer_capacity"

lemma fields_get_set [simp]: "fields_get (set_field k v f) k' = (if iequals k k' then v else fields_get f k')"
proof -
  have "List.find P (filter (\<lambda>p. \<not> Q p) f @ [q]) = (if P q then Some q else List.find P f)"
    if "\<And>p. P p \<Longrightarrow> Q p = P q" "P q \<or> (\<forall>p. P p \<longrightarrow> \<not> Q p)" for P Q and q :: "string \<times> string"
    using that by (induction f) auto
  from this [of "\<lambda>p. iequals (fst p) k'" "\<lambda>p. iequals (fst p) k" "(k, v)"]
  show ?thesis
    by (auto simp: fields_get_def set_field_def fields_erase_def iequals_def)
qed

lemma fields_get_erase: "\<not> iequals k k' \<Longrightarrow> fields_get (fields_erase k f) k' = fields_get f k'"
  by (induction f) (auto simp: fields_get_def fields_erase_def iequals_def)

lemma header_names [simp]:
  "\<not> iequals ''Content-Length'' ''Host''" "\<not> iequals ''Content-Length'' ''port''" "\<not> iequals ''port'' ''Host''"
  "\<not> iequals ''User-Agent'' ''Host''" "\<not> iequals ''User-Agent'' ''port''" "\<not> iequals ''Host'' ''port''"
  "\<not> iequals ''Host'' ''Connection''" "\<not> iequals ''port'' ''Connection''"
  by (simp_all add: iequals_def to_lower_def)

lemma prepare_parts [simp]:
  "cq_method (prepare_payload r) = cq_method r" "cq_target (prepare_payload r) = cq_target r"
  "cq_body (prepare_payload r) = cq_body r" "cq_version (prepare_payload r) = cq_version r"
  by (simp_all add: prepare_payload_def)

lemma addressed_prepare [simp]: "addressed sb (prepare_payload r) = addressed sb r"
  by (simp add: addressed_def) (simp add: prepare_payload_def fields_get_erase)

text \<open>Executing a session that is not in use starts an operation with its request.\<close>

lemma execute_begins:
  "\<not> inUse s \<Longrightarrow> \<exists>p. execute s = (s\<lparr>hs_state := InUse, hs_op := Some p\<rparr>, [Begin p (hs_req s)])
     \<and> (p = SResolve \<or> p = SWrite)"
  by (cases "hs_state s") (simp_all add: inUse_def execute_def state_resolve_def state_write_def begin_op_def)

lemma run_session_begins:
  assumes "keep_alive_law keep_alive" "\<not> inUse s" "cq_method (hs_req s) = verb_post" "cq_target (hs_req s) = sb_path sb"
    "hs_host s = sb_host sb" "hs_port s = sb_port sb"
  shows "\<exists>p req. run_session keep_alive agent s = (s\<lparr>hs_req := req, hs_state := InUse, hs_op := Some p\<rparr>, [Begin p req])
    \<and> addressed sb req \<and> cq_body req = cq_body (hs_req s) \<and> (p = SResolve \<or> p = SWrite)"
proof -
  let ?f = "set_field ''User-Agent'' agent (set_field ''port'' (hs_port s) (set_field ''Host'' (hs_host s) (cq_fields (hs_req s))))"
  let ?req = "prepare_payload ((hs_req s)\<lparr>cq_fields := keep_alive (hs_keepAlive s) ?f\<rparr>)"
  have "addressed sb ?req"
    using assms unfolding addressed_prepare by (simp add: addressed_def keep_alive_law_def)
  moreover have "\<not> inUse (s\<lparr>hs_req := ?req\<rparr>)"
    using assms(2) by (simp add: inUse_def)
  ultimately show ?thesis
    using execute_begins [of "s\<lparr>hs_req := ?req\<rparr>"] by (fastforce simp: run_session_def Let_def)
qed

section \<open>Every step keeps it\<close>

lemma same_address [simp]:
  "addressed (sb\<lparr>sb_sessions := x\<rparr>) = addressed sb" "addressed (sb\<lparr>sb_pool := y\<rparr>) = addressed sb"
  "addressed (sb\<lparr>sb_retries := z\<rparr>) = addressed sb" "addressed (sb\<lparr>sb_buffer := w\<rparr>) = addressed sb"
  by (simp_all add: addressed_def fun_eq_iff)

lemma same_session_ok [simp]:
  "session_ok (sb\<lparr>sb_sessions := x\<rparr>) = session_ok sb" "session_ok (sb\<lparr>sb_pool := y\<rparr>) = session_ok sb"
  "session_ok (sb\<lparr>sb_buffer := w\<rparr>) = session_ok sb"
  by (simp_all add: session_ok_def fun_eq_iff)

lemma same_retry_ok [simp]:
  "retry_ok (sb\<lparr>sb_sessions := x\<rparr>) = retry_ok sb" "retry_ok (sb\<lparr>sb_pool := y\<rparr>) = retry_ok sb"
  "retry_ok (sb\<lparr>sb_retries := z\<rparr>) = retry_ok sb" "retry_ok (sb\<lparr>sb_buffer := w\<rparr>) = retry_ok sb"
  by (simp_all add: retry_ok_def fun_eq_iff)

lemma session_ok_more:
  "session_ok sb s \<Longrightarrow> length (sb_retries sb) \<le> length z \<Longrightarrow> session_ok (sb\<lparr>sb_retries := z\<rparr>) s"
  by (auto simp: session_ok_def)

lemma pool_ok_release: "pool_ok sb \<Longrightarrow> pool_ok (release i sb)"
  using set_remove1_subset [of i "sb_pool sb"] length_remove1 [of i "sb_pool sb"]
  by (auto simp: pool_ok_def release_def list_all_iff split: if_splits)

lemma pool_ok_set_session:
  "pool_ok sb \<Longrightarrow> (i \<in> set (sb_pool sb) \<longrightarrow> inUse s \<longrightarrow> hs_op s \<noteq> None) \<Longrightarrow> pool_ok (set_session i s sb)"
  by (cases "i < length (sb_sessions sb)")
    (auto simp: pool_ok_def set_session_def list_all_iff nth_list_update split: if_splits)

lemma release_parts [simp]:
  "sb_sessions (release i sb) = sb_sessions sb" "sb_retries (release i sb) = sb_retries sb"
  "sb_buffer (release i sb) = sb_buffer sb" "addressed (release i sb) = addressed sb"
  "session_ok (release i sb) = session_ok sb" "retry_ok (release i sb) = retry_ok sb"
  "sb_policy (release i sb) = sb_policy sb"
  by (simp_all add: release_def)

text \<open>What \<open>acquire\<close> yields: a session of the pool that is not in use, or a new one.\<close>

lemma acquire_Some:
  assumes "acquire f sb = (Some i, sb1)" "pool_ok sb"
  shows "i < length (sb_sessions sb1) \<and> i \<in> set (sb_pool sb1)
    \<and> (sb1 = sb \<and> \<not> inUse (sb_sessions sb ! i)
       \<or> sb1 = sb\<lparr>sb_sessions := sb_sessions sb @ [f (session_create True)], sb_pool := sb_pool sb @ [i]\<rparr>
         \<and> i = length (sb_sessions sb) \<and> length (sb_pool sb) < sb_poolSize sb)"
  using assms by (auto simp: acquire_def pool_ok_def list_all_iff Let_def find_Some_iff split: option.splits if_splits)

lemma acquire_None:
  assumes "acquire f sb = (None, sb1)"
  shows "sb1 = sb \<and> sb_poolSize sb \<le> length (sb_pool sb) \<and> list_all (\<lambda>i. inUse (sb_sessions sb ! i)) (sb_pool sb)"
  using assms by (auto simp: acquire_def list_all_iff Let_def find_None_iff split: option.splits if_splits)

text \<open>After an acquired session was given work, the pool is as it must be.\<close>

lemma pool_ok_acquired:
  assumes "acquire f sb = (Some i, sb1)" "pool_ok sb" "inUse s \<longrightarrow> hs_op s \<noteq> None"
  shows "pool_ok (set_session i s sb1)"
  using acquire_Some [OF assms(1,2)]
proof (elim conjE disjE)
  assume "sb1 = sb"
  then show ?thesis
    using pool_ok_set_session [OF assms(2)] assms(3) by simp
next
  assume "sb1 = sb\<lparr>sb_sessions := sb_sessions sb @ [f (session_create True)], sb_pool := sb_pool sb @ [i]\<rparr>"
    "i = length (sb_sessions sb)" "length (sb_pool sb) < sb_poolSize sb"
  then show ?thesis
    using assms(2,3) by (auto simp: pool_ok_def set_session_def list_all_iff nth_append)
qed

lemma list_all_update: "list_all P xs \<Longrightarrow> P x \<Longrightarrow> list_all P (xs[i := x])"
  by (auto simp: list_all_iff dest!: set_update_subset_insert [THEN subsetD])

lemma list_all_acquired:
  assumes "acquire f sb = (Some i, sb1)" "pool_ok sb" "list_all P (sb_sessions sb)" "P s"
  shows "list_all P ((sb_sessions sb1)[i := s])"
  using acquire_Some [OF assms(1,2)] assms(3,4) by (auto simp: list_all_update)

lemma acquired_parts:
  assumes "acquire f sb = (Some i, sb1)" "pool_ok sb"
  shows "sb_retries sb1 = sb_retries sb" "sb_buffer sb1 = sb_buffer sb" "session_ok sb1 = session_ok sb"
    "retry_ok sb1 = retry_ok sb" "addressed sb1 = addressed sb"
  using acquire_Some [OF assms] by auto

lemma event_session_fields:
  "\<not> inUse (event_session sb (session_create True))"
  "cq_method (hs_req (event_session sb (session_create True))) = verb_post"
  "cq_target (hs_req (event_session sb (session_create True))) = sb_path sb"
  "hs_host (event_session sb (session_create True)) = sb_host sb"
  "hs_port (event_session sb (session_create True)) = sb_port sb"
  "hs_handler (event_session sb (session_create True)) = Some 0"
  by (simp_all add: event_session_def setOptions_def session_create_def client_request_init_def inUse_def)

lemma sendEvent_session:
  assumes "keep_alive_law keep_alive" "subscriber_ok sb" "acquire (event_session sb) sb = (Some i, sb1)"
  shows "\<exists>p req s. sendEvent keep_alive agent data sb = (set_session i s sb1, [Begin p req])
    \<and> addressed sb req \<and> cq_body req = data \<and> (p = SResolve \<or> p = SWrite)
    \<and> hs_req s = req \<and> hs_state s = InUse \<and> hs_op s = Some p \<and> session_ok sb s
    \<and> i < length (sb_sessions sb1) \<and> i \<in> set (sb_pool sb1)"
proof -
  let ?s = "setOption (OBody data) (sb_sessions sb1 ! i)"
  have pool: "pool_ok sb" and all: "list_all (session_ok sb) (sb_sessions sb)"
    using assms(2) by (simp_all add: subscriber_ok_def)
  have a: "\<not> inUse ?s \<and> cq_method (hs_req ?s) = verb_post \<and> cq_target (hs_req ?s) = sb_path sb
      \<and> hs_host ?s = sb_host sb \<and> hs_port ?s = sb_port sb \<and> cq_body (hs_req ?s) = data
      \<and> (\<exists>h. hs_handler ?s = Some h \<and> h \<le> length (sb_retries sb))"
    using acquire_Some [OF assms(3) pool]
  proof (elim conjE disjE)
    assume "sb1 = sb" "\<not> inUse (sb_sessions sb ! i)" "i < length (sb_sessions sb1)"
    then show ?thesis
      using all by (auto simp: list_all_length session_ok_def addressed_def inUse_def)
  next
    assume "sb1 = sb\<lparr>sb_sessions := sb_sessions sb @ [event_session sb (session_create True)], sb_pool := sb_pool sb @ [i]\<rparr>"
      "i = length (sb_sessions sb)"
    then show ?thesis
      using event_session_fields [of sb] by (simp add: inUse_def)
  qed
  then obtain p req where r: "run_session keep_alive agent ?s = (?s\<lparr>hs_req := req, hs_state := InUse, hs_op := Some p\<rparr>, [Begin p req])"
    "addressed sb req" "cq_body req = data" "p = SResolve \<or> p = SWrite"
    using run_session_begins [OF assms(1), of ?s sb agent] by auto
  let ?s' = "?s\<lparr>hs_req := req, hs_state := InUse, hs_op := Some p\<rparr>"
  have "session_ok sb ?s'"
    using a r(2) by (auto simp: session_ok_def inUse_def)
  moreover have "sendEvent keep_alive agent data sb = (set_session i ?s' sb1, [Begin p req])"
    using assms(3) r(1) by (simp add: sendEvent_def)
  ultimately show ?thesis
    using r(2-4) acquire_Some [OF assms(3) pool]
    by (intro exI [of _ p] exI [of _ req] exI [of _ ?s']) simp
qed

lemma subscriber_ok_acquired:
  assumes "acquire f sb = (Some i, sb1)" "subscriber_ok sb" "session_ok sb s" "inUse s \<longrightarrow> hs_op s \<noteq> None"
  shows "subscriber_ok (set_session i s sb1)"
proof -
  have pool: "pool_ok sb" and all: "list_all (session_ok sb) (sb_sessions sb)"
    using assms(2) by (simp_all add: subscriber_ok_def)
  then show ?thesis
    using assms pool_ok_acquired [OF assms(1) pool assms(4)] list_all_acquired [OF assms(1) pool all assms(3)]
      acquired_parts [OF assms(1) pool]
    by (simp add: subscriber_ok_def set_session_def)
qed

lemma subscriber_ok_send:
  assumes "keep_alive_law keep_alive" "subscriber_ok sb"
  shows "subscriber_ok (fst (sendEvent keep_alive agent data sb))"
proof (cases "acquire (event_session sb) sb")
  case (Pair found sb1)
  show ?thesis
  proof (cases found)
    case None
    then show ?thesis
      using Pair acquire_None [of "event_session sb" sb sb1] assms(2)
      by (auto simp: sendEvent_def subscriber_ok_def pool_ok_def buffer_push_def buffer_capacity_def)
  next
    case (Some i)
    then show ?thesis
      using sendEvent_session [OF assms, of i sb1 agent data] subscriber_ok_acquired [of "event_session sb" sb i sb1] Pair assms(2)
      by fastforce
  qed
qed

text \<open>
  The completion of an operation or of an idle wait: the request of the session stays, a failed
  operation leaves a session in use without an operation, and only that is reported.
\<close>

lemma session_done_ok:
  assumes "session_ok sb s" "session_enabled ev s" "session_done ev s = (s', os)"
  shows "session_ok sb s' \<and> hs_req s' = hs_req s \<and> hs_handler s' = hs_handler s
    \<and> (inUse s' \<longrightarrow> hs_op s' \<noteq> None \<or> inUse s \<and> hs_op s = None
        \<or> inUse s \<and> hs_op s \<noteq> None \<and> os = [Report (the (hs_handler s)) (hs_req s), ShutDown])
    \<and> ((\<exists>p. os = [Begin p (hs_req s)]) \<or> os = [] \<or> os = [ShutDown]
        \<or> os = [Report (the (hs_handler s)) (hs_req s), ShutDown])"
proof -
  obtain h where h: "hs_handler s = Some h"
    using assms(1) by (auto simp: session_ok_def)
  show ?thesis
    using assms h
    by (cases ev; cases "hs_op s"; simp add: session_ok_def inUse_def session_fail_def on_connect_def state_write_def
          state_read_def state_resolve_def begin_op_def on_error_def Let_def)
      (auto simp: session_ok_def inUse_def session_fail_def stream_on_resolve_def stream_on_connect_def
        stream_on_handshake_def on_connect_def on_write_def on_read_def state_write_def state_read_def
        begin_op_def split: stream_op.splits if_splits)
qed

lemma waitAndRetry_ok: "retry_ok sb r \<Longrightarrow> retry_ok sb (waitAndRetry r)"
  by (auto simp: retry_ok_def waitAndRetry_def policy_ok_def retryNeeded_def incrementRetryCount_def)

lemma policy_ok_refl: "policy_ok p p"
  by (simp add: policy_ok_def)

lemma retries_ok_report:
  assumes "list_all (retry_ok sb) (sb_retries sb)" "addressed sb req" "h \<le> length (sb_retries sb)"
  shows "list_all (retry_ok sb) (sb_retries (handle_report i h req sb))
    \<and> length (sb_retries sb) \<le> length (sb_retries (handle_report i h req sb))"
proof (cases "h = 0")
  case True
  have "retry_ok sb (waitAndRetry \<lparr>rr_req = req, rr_policy = sb_policy sb, rr_armed = False\<rparr>)"
    using assms(2) policy_ok_refl by (intro waitAndRetry_ok) (simp add: retry_ok_def)
  then show ?thesis
    using assms True by (simp add: handle_report_def handleResponse_error_def retryIfNeeded_def)
next
  case False
  have "retry_ok sb (waitAndRetry ((sb_retries sb ! (h - 1))\<lparr>rr_req := req\<rparr>))"
    using assms False by (intro waitAndRetry_ok) (simp add: retry_ok_def list_all_length)
  then show ?thesis
    using assms False by (simp add: handle_report_def handleRetryResponse_error_def list_all_update)
qed

lemma report_parts [simp]:
  "sb_sessions (handle_report i h req sb) = sb_sessions sb" "sb_pool (handle_report i h req sb) = remove1 i (sb_pool sb)"
  "sb_poolSize (handle_report i h req sb) = sb_poolSize sb" "sb_buffer (handle_report i h req sb) = sb_buffer sb"
  "retry_ok (handle_report i h req sb) = retry_ok sb" "sb_policy (handle_report i h req sb) = sb_policy sb"
  "sb_host (handle_report i h req sb) = sb_host sb" "sb_port (handle_report i h req sb) = sb_port sb"
  "sb_path (handle_report i h req sb) = sb_path sb" "addressed (handle_report i h req sb) = addressed sb"
  by (auto simp: handle_report_def handleResponse_error_def handleRetryResponse_error_def retryIfNeeded_def release_def
      retry_ok_def fun_eq_iff addressed_def)

lemma subscriber_ok_session_event:
  assumes "subscriber_ok sb" "i < length (sb_sessions sb)" "session_enabled ev (sb_sessions sb ! i)"
    and "session_done ev (sb_sessions sb ! i) = (s', os)"
  shows "subscriber_ok (handle_outs i os (set_session i s' sb))"
proof -
  let ?s = "sb_sessions sb ! i" and ?sb = "set_session i s' sb"
  have ok: "session_ok sb ?s" "pool_ok sb" "list_all (session_ok sb) (sb_sessions sb)"
    "list_all (retry_ok sb) (sb_retries sb)"
    using assms(1,2) by (simp_all add: subscriber_ok_def list_all_length)
  note fin = session_done_ok [OF ok(1) assms(3,4)]
  obtain h where h: "hs_handler ?s = Some h" "h \<le> length (sb_retries sb)" "addressed sb (hs_req ?s)"
    using ok(1) by (auto simp: session_ok_def)
  have all: "list_all (session_ok sb) ((sb_sessions sb)[i := s'])"
    using ok(3) fin by (simp add: list_all_update)
  show ?thesis
  proof (cases "os = [Report h (hs_req ?s), ShutDown]")
    case True
    have r: "list_all (retry_ok ?sb) (sb_retries (handle_report i h (hs_req ?s) ?sb))"
      "length (sb_retries sb) \<le> length (sb_retries (handle_report i h (hs_req ?s) ?sb))"
      using retries_ok_report [of ?sb "hs_req ?s" h i] ok(4) h by (simp_all add: set_session_def)
    have "pool_ok (handle_report i h (hs_req ?s) ?sb)"
      using ok(2) by (auto simp: pool_ok_def set_session_def list_all_iff length_remove1 nth_list_update
          dest!: set_remove1_subset [THEN subsetD])
    moreover have "list_all (session_ok (handle_report i h (hs_req ?s) ?sb)) ((sb_sessions sb)[i := s'])"
      using all r(2) by (fastforce simp: list_all_iff session_ok_def set_session_def)
    ultimately show ?thesis
      using True r assms(1) by (simp add: subscriber_ok_def set_session_def)
  next
    case False
    then have "handle_outs i os ?sb = ?sb"
      using fin h by auto
    moreover have "pool_ok ?sb"
      using fin False h ok(2) by (intro pool_ok_set_session [OF ok(2)]) (auto simp: pool_ok_def list_all_iff)
    ultimately show ?thesis
      using all assms(1) by (simp add: subscriber_ok_def set_session_def)
  qed
qed

lemma subscriber_ok_retry:
  assumes "subscriber_ok sb" "r < length (sb_retries sb)" "retryFunction r sb = Some (sb', os)"
  shows "subscriber_ok sb'"
proof -
  let ?req = "rr_req (sb_retries sb ! r)"
  have req: "addressed sb ?req"
    using assms(1,2) by (simp add: subscriber_ok_def retry_ok_def list_all_length)
  obtain i sb1 where a: "acquire (retry_session r ?req) sb = (Some i, sb1)"
    and sb': "sb' = set_session i (fst (run_request ?req (sb_sessions sb1 ! i))) sb1"
    using assms(3) by (auto simp: retryFunction_def Let_def split: prod.splits option.splits)
  let ?s = "sb_sessions sb1 ! i"
  have pool: "pool_ok sb"
    using assms(1) by (simp add: subscriber_ok_def)
  have s: "\<not> inUse ?s \<and> hs_host ?s = sb_host sb \<and> hs_port ?s = sb_port sb
      \<and> (\<exists>h. hs_handler ?s = Some h \<and> h \<le> length (sb_retries sb))"
    using acquire_Some [OF a pool]
  proof (elim conjE disjE)
    assume "sb1 = sb" "\<not> inUse (sb_sessions sb ! i)" "i < length (sb_sessions sb1)"
    then show ?thesis
      using assms(1) by (auto simp: subscriber_ok_def list_all_length session_ok_def)
  next
    assume "sb1 = sb\<lparr>sb_sessions := sb_sessions sb @ [retry_session r ?req (session_create True)], sb_pool := sb_pool sb @ [i]\<rparr>"
      "i = length (sb_sessions sb)"
    then show ?thesis
      using req assms(2) by (simp add: retry_session_def setOptions_def session_create_def inUse_def addressed_def)
  qed
  then have "\<not> inUse (?s\<lparr>hs_req := prepare_payload ?req\<rparr>)"
    by (simp add: inUse_def)
  from execute_begins [OF this] obtain p where
    "fst (run_request ?req ?s) = ?s\<lparr>hs_req := prepare_payload ?req, hs_state := InUse, hs_op := Some p\<rparr>"
    by (auto simp: run_request_def)
  then show ?thesis
    using s req subscriber_ok_acquired [OF a assms(1), of "fst (run_request ?req ?s)"]
    by (simp add: sb' session_ok_def inUse_def)
qed

lemma subscriber_ok_start: "subscriber_ok (withPoolSize n (withPolicy p (subscriber_init host port path)))"
  by (simp add: subscriber_ok_def pool_ok_def withPoolSize_def withPolicy_def subscriber_init_def)

lemma subscriber_ok_run:
  assumes "keep_alive_law keep_alive" "subscriber_run keep_alive agent sb"
  shows "subscriber_ok sb"
  using assms(2)
proof (induction rule: subscriber_run.induct)
  case (sb_start n p host port path)
  then show ?case
    by (rule subscriber_ok_start)
next
  case (sb_step sb ev sb' os)
  show ?case
  proof (cases ev)
    case (Send data)
    then show ?thesis
      using subscriber_ok_send [OF assms(1) sb_step.IH, of agent data] sb_step.hyps(3) by simp
  next
    case (SessionEvent i e)
    then show ?thesis
      using sb_step.hyps(2,3) subscriber_ok_session_event [OF sb_step.IH, of i e]
      by (auto split: prod.splits)
  next
    case (RetryTimer r)
    let ?sb = "sb\<lparr>sb_retries := (sb_retries sb)[r := (sb_retries sb ! r)\<lparr>rr_armed := False\<rparr>]\<rparr>"
    have "retry_ok sb (sb_retries sb ! r)"
      using sb_step RetryTimer by (simp add: subscriber_ok_def list_all_length)
    then have "retry_ok sb ((sb_retries sb ! r)\<lparr>rr_armed := False\<rparr>)"
      by (simp add: retry_ok_def)
    then have "list_all (retry_ok ?sb) (sb_retries ?sb)"
      using sb_step.IH by (simp add: subscriber_ok_def list_all_update)
    moreover have "session_ok ?sb = session_ok sb"
      by (simp add: session_ok_def fun_eq_iff)
    ultimately have "subscriber_ok ?sb"
      using sb_step.IH by (simp add: subscriber_ok_def pool_ok_def)
    then show ?thesis
      using subscriber_ok_retry [of ?sb r sb' os] sb_step.hyps(2,3) RetryTimer by simp
  qed
qed

section \<open>Properties\<close>



text \<open>The completions of a session's operations while nothing fails, and the requests written.\<close>

fun complete_all :: "nat \<Rightarrow> session \<Rightarrow> session \<times> session_out list" where
  "complete_all 0 s = (s, [])"
| "complete_all (Suc n) s =
     (if hs_op s = None then (s, [])
      else (case session_done (OpDone False True) s of (s1, os1) \<Rightarrow>
              (case complete_all n s1 of (s2, os2) \<Rightarrow> (s2, os1 @ os2))))"

fun writes :: "session_out list \<Rightarrow> client_request list" where
  "writes [] = []"
| "writes (Begin p req # os) = (if p = SWrite then req # writes os else writes os)"
| "writes (x # os) = writes os"

lemma complete_all_writes:
  assumes "hs_op s = Some p" "p = SResolve \<or> p = SWrite"
  shows "writes (Begin p (hs_req s) # snd (complete_all 5 s)) = [hs_req s]
    \<and> hs_state (fst (complete_all 5 s)) = Idle \<and> hs_op (fst (complete_all 5 s)) = None"
proof (cases "p = SWrite")
  case True
  then show ?thesis
    using assms by (simp add: numeral_eq_Suc on_write_def on_read_def state_read_def begin_op_def)
next
  case False
  then have "hs_op s = Some SResolve"
    using assms by simp
  then show ?thesis
    by (cases "hs_tls s") (simp_all add: numeral_eq_Suc stream_on_resolve_def stream_on_connect_def stream_on_handshake_def
        on_connect_def state_write_def on_write_def on_read_def state_read_def begin_op_def False)
qed

lemma sendEvent_posts_or_keeps:
  assumes "keep_alive_law keep_alive" "subscriber_run keep_alive agent sb"
    and "sendEvent keep_alive agent data sb = (sb', os)"
  shows "(\<exists>i \<in> set (sb_pool sb'). \<exists>req.
        writes (os @ snd (complete_all 5 (sb_sessions sb' ! i))) = [req] \<and> addressed sb req \<and> cq_body req = data
        \<and> hs_state (fst (complete_all 5 (sb_sessions sb' ! i))) = Idle)
    \<or> os = [] \<and> sb' = sb\<lparr>sb_buffer := buffer_push data (sb_buffer sb)\<rparr>
      \<and> sb_poolSize sb \<le> length (sb_pool sb) \<and> list_all (\<lambda>i. inUse (sb_sessions sb ! i)) (sb_pool sb)"
proof (cases "acquire (event_session sb) sb")
  case (Pair found sb1)
  show ?thesis
  proof (cases found)
    case None
    then show ?thesis
      using Pair assms(3) acquire_None [of "event_session sb" sb sb1] by (auto simp: sendEvent_def)
  next
    case (Some i)
    obtain p req s where s: "sendEvent keep_alive agent data sb = (set_session i s sb1, [Begin p req])"
      "addressed sb req" "cq_body req = data" "p = SResolve \<or> p = SWrite"
      "hs_req s = req" "hs_op s = Some p" "i < length (sb_sessions sb1)" "i \<in> set (sb_pool sb1)"
      using sendEvent_session [OF assms(1) subscriber_ok_run [OF assms(1,2)], of i sb1 agent data] Pair Some by auto
    have "i \<in> set (sb_pool sb')" "sb_sessions sb' ! i = s" "os = [Begin p req]"
      using s assms(3) by (auto simp: set_session_def)
    then have "writes (os @ snd (complete_all 5 (sb_sessions sb' ! i))) = [req]
        \<and> hs_state (fst (complete_all 5 (sb_sessions sb' ! i))) = Idle" "i \<in> set (sb_pool sb')"
      using complete_all_writes [OF s(6,4)] s(5) by (simp_all only: append.simps)
    then show ?thesis
      using s(2,3) by blast
  qed
qed



section \<open>What goes wrong\<close>

text \<open>No step takes an event out of the buffer, but for the one that a full buffer drops.\<close>

lemma handle_outs_buffer: "sb_buffer (handle_outs i os sb) = sb_buffer sb"
  by (induction i os sb rule: handle_outs.induct) simp_all

lemma buffered_events_stay:
  assumes "subscriber_step keep_alive agent ev sb = Some (sb', os)" "pool_ok sb"
  shows "sb_buffer sb' = sb_buffer sb \<or> (\<exists>d. sb_buffer sb' = buffer_push d (sb_buffer sb))"
proof (cases ev)
  case (Send data)
  then show ?thesis
    using assms acquired_parts(2) [OF _ assms(2)]
    by (auto simp: sendEvent_def set_session_def acquire_def Let_def split: prod.splits option.splits if_splits)
next
  case (SessionEvent i e)
  then show ?thesis
    using assms by (auto simp: handle_outs_buffer set_session_def split: prod.splits)
next
  case (RetryTimer r)
  then show ?thesis
    using assms by (auto simp: retryFunction_def set_session_def acquire_def Let_def split: prod.splits option.splits if_splits)
qed

text \<open>A retry timer that finds all sessions of a full pool in use follows a null pointer.\<close>

lemma retry_with_full_pool:
  assumes "sb_poolSize sb \<le> length (sb_pool sb)" "list_all (\<lambda>i. inUse (sb_sessions sb ! i)) (sb_pool sb)"
  shows "retryFunction r sb = None"
proof -
  have "List.find (\<lambda>i. \<not> inUse (sb_sessions sb ! i)) (sb_pool sb) = None"
    using assms(2) by (auto simp: find_None_iff list_all_iff)
  then show ?thesis
    using assms(1) by (simp add: retryFunction_def acquire_def Let_def)
qed

text \<open>
  A retry that finds an idle session leaves it the handler it has: a failure is then handled by
  \<open>handleResponse\<close>, whose new retry request starts to count from the beginning.
\<close>

lemma retry_through_idle_session:
  assumes "List.find (\<lambda>i. \<not> inUse (sb_sessions sb ! i)) (sb_pool sb) = Some i" "i < length (sb_sessions sb)"
    and "retryFunction r sb = Some (sb', os)"
  shows "hs_handler (sb_sessions sb' ! i) = hs_handler (sb_sessions sb ! i)"
proof -
  have "\<not> inUse ((sb_sessions sb ! i)\<lparr>hs_req := prepare_payload (rr_req (sb_retries sb ! r))\<rparr>)"
    using assms(1) by (auto simp: find_Some_iff inUse_def)
  from execute_begins [OF this] show ?thesis
    using assms by (auto simp: retryFunction_def acquire_def set_session_def run_request_def Let_def)
qed

end
