(* ===== verification/HtmlEscape.thy ===== *)
theory HtmlEscape
  imports Prelude
begin

text \<open>
  Escaping text for HTML: \<open>decode\<close> and \<open>dumpEscaped\<close> of \<open>include/json_html_serializer.hpp\<close>. A string is
  decoded as UTF-8 by a table driven automaton and escaped into a buffer of 512 bytes; a write beyond
  its end is the value \<open>None\<close>. The table is shown to be an automaton over classes of bytes, any output
  is shown free of the characters of markup, and text in UTF-8 is shown to be escaped completely.
\<close>

section \<open>Decoding\<close>

definition utf8Accept :: nat where "utf8Accept = 0"
definition utf8Reject :: nat where "utf8Reject = 1"

definition utf8d :: "nat list" where
  "utf8d =
    [
     0, 0, 0, 0, 0, 0, 0, 0, 0, 0, 0, 0, 0, 0, 0, 0, 0, 0, 0, 0, 0, 0, 0, 0, 0, 0, 0, 0, 0, 0, 0, 0,
     0, 0, 0, 0, 0, 0, 0, 0, 0, 0, 0, 0, 0, 0, 0, 0, 0, 0, 0, 0, 0, 0, 0, 0, 0, 0, 0, 0, 0, 0, 0, 0,
     0, 0, 0, 0, 0, 0, 0, 0, 0, 0, 0, 0, 0, 0, 0, 0, 0, 0, 0, 0, 0, 0, 0, 0, 0, 0, 0, 0, 0, 0, 0, 0,
     0, 0, 0, 0, 0, 0, 0, 0, 0, 0, 0, 0, 0, 0, 0, 0, 0, 0, 0, 0, 0, 0, 0, 0, 0, 0, 0, 0, 0, 0, 0, 0,
     1, 1, 1, 1, 1, 1, 1, 1, 1, 1, 1, 1, 1, 1, 1, 1, 9, 9, 9, 9, 9, 9, 9, 9, 9, 9, 9, 9, 9, 9, 9, 9,
     7, 7, 7, 7, 7, 7, 7, 7, 7, 7, 7, 7, 7, 7, 7, 7, 7, 7, 7, 7, 7, 7, 7, 7, 7, 7, 7, 7, 7, 7, 7, 7,
     8, 8, 2, 2, 2, 2, 2, 2, 2, 2, 2, 2, 2, 2, 2, 2, 2, 2, 2, 2, 2, 2, 2, 2, 2, 2, 2, 2, 2, 2, 2, 2,
     10, 3, 3, 3, 3, 3, 3, 3, 3, 3, 3, 3, 3, 4, 3, 3,
     11, 6, 6, 6, 5, 8, 8, 8, 8, 8, 8, 8, 8, 8, 8, 8,
     0, 1, 2, 3, 5, 8, 7, 1, 1, 1, 4, 6, 1, 1, 1, 1,
     1, 1, 1, 1, 1, 1, 1, 1, 1, 1, 1, 1, 1, 1, 1, 1, 1, 0, 1, 1, 1, 1, 1, 0, 1, 0, 1, 1, 1, 1, 1, 1,
     1, 2, 1, 1, 1, 1, 1, 2, 1, 2, 1, 1, 1, 1, 1, 1, 1, 1, 1, 1, 1, 1, 1, 2, 1, 1, 1, 1, 1, 1, 1, 1,
     1, 2, 1, 1, 1, 1, 1, 1, 1, 2, 1, 1, 1, 1, 1, 1, 1, 1, 1, 1, 1, 1, 1, 3, 1, 3, 1, 1, 1, 1, 1, 1,
     1, 3, 1, 1, 1, 1, 1, 3, 1, 3, 1, 1, 1, 1, 1, 1, 1, 3, 1, 1, 1, 1, 1, 1, 1, 1, 1, 1, 1, 1, 1, 1
    ]"

text \<open>The new state, and the code point read so far in 32 bits.\<close>

definition decode :: "nat \<Rightarrow> u32 \<Rightarrow> u8 \<Rightarrow> nat \<times> u32" where
  "decode state codePoint b =
     (if state > 8 then (state, codePoint)
      else
        let type = utf8d ! unat b;
            codePoint' = (if state \<noteq> utf8Accept
                          then (ucast b AND 0x3f) OR push_bit 6 codePoint
                          else drop_bit type 0xff AND ucast b)
        in (utf8d ! (256 + state * 16 + type), codePoint'))"

section \<open>Escaping\<close>

text \<open>\<open>stringBuffer\<close> holds 512 bytes; writing beyond its end is undefined.\<close>

definition emit :: "string \<Rightarrow> string \<Rightarrow> string option" where
  "emit s buf = (if length buf + length s \<le> 512 then Some (buf @ s) else None)"

text \<open>\<open>snprintf\<close> also writes the terminating zero.\<close>

definition emit_printf :: "string \<Rightarrow> string \<Rightarrow> string option" where
  "emit_printf s buf = (if length buf + length s + 1 \<le> 512 then Some (buf @ s) else None)"

definition hex_digit :: "nat \<Rightarrow> char" where
  "hex_digit n = ''0123456789abcdef'' ! (n mod 16)"

text \<open>\<open>\u%04x\<close> of a 16 bit value.\<close>

definition unicode_escape :: "u16 \<Rightarrow> string" where
  "unicode_escape w =
     (let n = unat w in [CHR 0x5C, CHR ''u'', hex_digit (n div 4096), hex_digit (n div 256), hex_digit (n div 16), hex_digit n])"

definition emit_code_point :: "u32 \<Rightarrow> char \<Rightarrow> string \<Rightarrow> string option" where
  "emit_code_point codePoint c buf =
     (if codePoint = 0x08 then emit [CHR 0x5C, CHR ''b''] buf
      else if codePoint = 0x09 then emit [CHR 0x5C, CHR ''t''] buf
      else if codePoint = 0x0A then emit [CHR 0x5C, CHR ''n''] buf
      else if codePoint = 0x0C then emit [CHR 0x5C, CHR ''f''] buf
      else if codePoint = 0x0D then emit [CHR 0x5C, CHR ''r''] buf
      else if codePoint = 0x22 then emit ''&quot;'' buf
      else if codePoint = 0x27 then emit ''&apos;'' buf
      else if codePoint = 0x26 then emit ''&amp;'' buf
      else if codePoint = 0x3C then emit (CHR 0x5C # ''lt;'') buf
      else if codePoint = 0x3E then emit (CHR 0x5C # ''gt;'') buf
      else if codePoint \<le> 0x1F \<or> codePoint \<ge> 0x7F then
        (if codePoint \<le> 0xFFFF then emit_printf (unicode_escape (ucast codePoint)) buf
         else emit_printf (unicode_escape (ucast (0xD7C0 + drop_bit 10 codePoint))
                @ unicode_escape (ucast (0xDC00 + (codePoint AND 0x3FF)))) buf)
      else emit [c] buf)"

record escaper =
  es_out :: string
  es_buffer :: string
  es_state :: nat
  es_codePoint :: u32
  es_lastAccept :: nat
  es_undumped :: nat

definition escaper_init :: escaper where
  "escaper_init = \<lparr>es_out = [], es_buffer = [], es_state = utf8Accept, es_codePoint = 0,
     es_lastAccept = 0, es_undumped = 0\<rparr>"

definition replacement :: string where
  "replacement = CHR 0x5C # ''ufffd''"

text \<open>After a code point: the buffer is written out unless 13 bytes are left for the next one.\<close>

definition accept_buffer :: "escaper \<Rightarrow> escaper" where
  "accept_buffer e =
     (let e1 = (if 512 - length (es_buffer e) < 13
                then e\<lparr>es_out := es_out e @ es_buffer e, es_buffer := []\<rparr> else e)
      in e1\<lparr>es_lastAccept := length (es_buffer e1), es_undumped := 0\<rparr>)"

text \<open>The body of the loop, and whether the byte is done with; \<open>--i\<close> has it read again.\<close>

definition escapeByte :: "char \<Rightarrow> escaper \<Rightarrow> (bool \<times> escaper) option" where
  "escapeByte c e =
     (let (state, codePoint) = decode (es_state e) (es_codePoint e) (byte c);
          e1 = e\<lparr>es_state := state, es_codePoint := codePoint\<rparr>
      in if state = utf8Accept then
           map_option (\<lambda>buf. (True, accept_buffer (e1\<lparr>es_buffer := buf\<rparr>)))
             (emit_code_point codePoint c (es_buffer e1))
         else if state = utf8Reject then
           map_option (\<lambda>buf. (es_undumped e1 = 0,
               e1\<lparr>es_buffer := buf, es_lastAccept := length buf, es_undumped := 0, es_state := utf8Accept\<rparr>))
             (emit replacement (take (es_lastAccept e1) (es_buffer e1)))
         else Some (True, e1\<lparr>es_undumped := es_undumped e1 + 1\<rparr>))"

lemma escapeByte_again: "escapeByte c e = Some (False, e') \<Longrightarrow> 0 < es_undumped e \<and> es_undumped e' = 0"
  by (auto simp: escapeByte_def Let_def split: prod.splits if_splits)

function escapeLoop :: "string \<Rightarrow> escaper \<Rightarrow> escaper option" where
  "escapeLoop [] e = Some e"
| "escapeLoop (c # cs) e =
     (case escapeByte c e of
        None \<Rightarrow> None
      | Some (next, e') \<Rightarrow> if next then escapeLoop cs e' else escapeLoop (c # cs) e')"
  by pat_completeness auto

termination
  by (relation "measure (\<lambda>(s, e). 2 * length s + (if es_undumped e > 0 then 1 else 0))")
    (auto dest: escapeByte_again)

declare escapeLoop.simps(2) [simp del]

text \<open>What \<open>dumpEscaped\<close> appends to its output.\<close>

definition dumpEscaped :: "string \<Rightarrow> string option" where
  "dumpEscaped str =
     map_option (\<lambda>e. if es_state e = utf8Accept then es_out e @ es_buffer e
                     else es_out e @ take (es_lastAccept e) (es_buffer e) @ replacement)
       (escapeLoop str escaper_init)"

section \<open>The decoder\<close>

text \<open>The table read as ranges of bytes, and as an automaton over the twelve classes of bytes.\<close>

definition byte_class :: "nat \<Rightarrow> nat" where
  "byte_class n =
     (if n < 128 then 0 else if n < 144 then 1 else if n < 160 then 9 else if n < 192 then 7
      else if n < 194 then 8 else if n < 224 then 2 else if n = 224 then 10 else if n = 237 then 4
      else if n < 240 then 3 else if n = 240 then 11 else if n < 244 then 6 else if n = 244 then 5 else 8)"

definition next_state :: "nat \<Rightarrow> nat \<Rightarrow> nat" where
  "next_state st t =
     (if st = 0 then (if t = 0 then 0 else if t = 2 then 2 else if t = 3 then 3 else if t = 4 then 5
         else if t = 5 then 8 else if t = 6 then 7 else if t = 10 then 4 else if t = 11 then 6 else 1)
      else if st = 2 \<and> t \<in> {1, 7, 9} then 0
      else if st = 3 \<and> t \<in> {1, 7, 9} then 2
      else if st = 4 \<and> t = 7 then 2
      else if st = 5 \<and> t \<in> {1, 9} then 2
      else if st = 6 \<and> t \<in> {7, 9} then 3
      else if st = 7 \<and> t \<in> {1, 7, 9} then 3
      else if st = 8 \<and> t = 1 then 3
      else 1)"

lemma byte_class_table: "n < 256 \<Longrightarrow> utf8d ! n = byte_class n"
proof -
  assume n: "n < 256"
  have "take 256 utf8d = map byte_class [0..<256]"
    by code_simp
  then have "take 256 utf8d ! n = byte_class n"
    using n by simp
  then show ?thesis
    using n by simp
qed

lemma byte_class_less: "byte_class n < 12"
  by (simp add: byte_class_def)

lemma next_state_table: "st < 9 \<Longrightarrow> t < 12 \<Longrightarrow> utf8d ! (256 + st * 16 + t) = next_state st t"
proof -
  assume b: "st < 9" "t < 12"
  have "list_all (\<lambda>st. list_all (\<lambda>t. drop 256 utf8d ! (st * 16 + t) = next_state st t) [0..<12]) [0..<9]"
    by code_simp
  then have "drop 256 utf8d ! (st * 16 + t) = next_state st t"
    using b by (simp add: list_all_iff)
  moreover have "256 + st * 16 + t = 256 + (st * 16 + t)" "256 \<le> length utf8d"
    by (simp, simp add: utf8d_def)
  ultimately show ?thesis
    by (metis nth_drop)
qed

lemma decode_states:
  assumes "st < 9"
  shows "decode st cp b =
     (next_state st (byte_class (unat b)),
      if st \<noteq> 0 then (ucast b AND 0x3f) OR push_bit 6 cp else drop_bit (byte_class (unat b)) 0xff AND ucast b)"
  using assms by (simp add: decode_def utf8Accept_def byte_class_table next_state_table byte_class_less Let_def)

lemma unat_wide: "unat (ucast (b :: u8) :: u32) = unat b"
proof -
  have "unat b < 2 ^ 32"
    by (rule less_trans [OF unat_u8_less]) simp
  then show ?thesis
    by (simp add: unsigned_ucast_eq take_bit_nat_eq_self)
qed

lemma unat_first: "unat (drop_bit t (0xff :: u32) AND ucast (b :: u8)) = unat b mod 2 ^ (8 - t)"
proof -
  have "(0xff :: u32) = mask 8"
    by (simp add: mask_eq_exp_minus_1)
  moreover have "drop_bit t (mask 8 :: u32) = mask (8 - t)"
    by (rule bit_word_eqI) (auto simp: bit_simps)
  ultimately show ?thesis
    using unat_and_mask [of "ucast b :: u32" "8 - t"] by (simp only: and.commute unat_wide)
qed

lemma mask_6_word: "mask 6 = (0x3f :: u32)"
  by (simp add: mask_eq_exp_minus_1)

lemma word_of_nat_unat: "word_of_nat (unat w) = w"
  by simp

lemma unat_next:
  assumes "unat cp < 2 ^ 26"
  shows "unat (((ucast (b :: u8)) AND 0x3f) OR push_bit 6 (cp :: u32)) = 64 * unat cp + unat b mod 64"
proof -
  have "unat ((ucast b :: u32) AND mask 6) = unat b mod 64"
    using unat_and_mask [of "ucast b :: u32" 6] by (simp only: unat_wide) simp
  then have "(ucast b :: u32) AND 0x3f = word_of_nat (unat b mod 64)"
    by (metis mask_6_word word_of_nat_unat)
  then have e: "(ucast b AND 0x3f) OR push_bit 6 cp = word_of_nat (2 ^ 6 * unat cp + unat b mod 64)"
    using join_bits [of "unat b mod 64" 6 "unat cp", where ?'w = 32] by (simp add: ac_simps)
  have "2 ^ 6 * unat cp + unat b mod 64 < 2 ^ LENGTH(32)"
    using assms mod_less_divisor [of 64 "unat b"] by simp
  then show ?thesis
    unfolding e unat_of_nat by (simp only: mod_less) simp
qed

text \<open>The states a decoder can be in between two bytes, with the part of the code point read so far.\<close>

definition decoding :: "nat \<Rightarrow> nat \<Rightarrow> bool" where
  "decoding st n \<longleftrightarrow>
     st = 0 \<or> st = 2 \<and> 2 \<le> n \<and> n < 2 ^ 15 \<or> st = 3 \<and> 1 \<le> n \<and> n < 2 ^ 9 \<or> st = 4 \<and> n = 0
     \<or> st = 5 \<and> n = 13 \<or> st = 6 \<and> n = 0 \<or> st = 7 \<and> 1 \<le> n \<and> n \<le> 3 \<or> st = 8 \<and> n = 4"

lemma byte_class_iff:
  "byte_class n = 0 \<longleftrightarrow> n < 128"
  "byte_class n = Suc 0 \<longleftrightarrow> 128 \<le> n \<and> n < 144"
  "byte_class n = 9 \<longleftrightarrow> 144 \<le> n \<and> n < 160"
  "byte_class n = 7 \<longleftrightarrow> 160 \<le> n \<and> n < 192"
  "byte_class n = 2 \<longleftrightarrow> 194 \<le> n \<and> n < 224"
  "byte_class n = 3 \<longleftrightarrow> 225 \<le> n \<and> n < 240 \<and> n \<noteq> 237"
  "byte_class n = 4 \<longleftrightarrow> n = 237"
  "byte_class n = 5 \<longleftrightarrow> n = 244"
  "byte_class n = 6 \<longleftrightarrow> 241 \<le> n \<and> n < 244"
  "byte_class n = 10 \<longleftrightarrow> n = 224"
  "byte_class n = 11 \<longleftrightarrow> n = 240"
  by (auto simp: byte_class_def)

lemma mod_offset: "k * m \<le> n \<Longrightarrow> n < k * m + m \<Longrightarrow> n mod m = n - k * (m :: nat)"
  by (metis add_less_cancel_left le_add_diff_inverse mod_less mod_mult_self3)

text \<open>The first byte of a sequence.\<close>

lemma utf8_first:
  assumes "decode 0 cp b = (st, cp')"
  shows "st = 1 \<or> decoding st (unat cp')"
    and "st = 0 \<Longrightarrow> unat cp' = unat b \<and> unat b < 128"
proof -
  have st: "st = next_state 0 (byte_class (unat b))"
    and cp: "unat cp' = unat b mod 2 ^ (8 - byte_class (unat b))"
    using assms by (auto simp: decode_states [of 0] unat_first)
  have b: "unat b < 256"
    by simp
  have "byte_class n = 2 \<Longrightarrow> 2 \<le> n mod 64 \<and> n mod 64 < 32"
    "byte_class n = 3 \<Longrightarrow> 1 \<le> n mod 32 \<and> n mod 32 < 16"
    "byte_class n = 6 \<Longrightarrow> 1 \<le> n mod 4" for n :: nat
    using mod_offset [of 3 64 n] mod_offset [of 7 32 n] mod_offset [of 60 4 n]
    by (auto simp: byte_class_iff)
  note rng = this [of "unat b"]
  have "next_state 0 (byte_class (unat b)) = 1 \<or> byte_class (unat b) \<in> {0, 2, 3, 4, 5, 6, 10, 11}"
    by (simp add: next_state_def)
  then consider "st = 1" | "byte_class (unat b) = 0" | "byte_class (unat b) = 2" | "byte_class (unat b) = 3"
    | "byte_class (unat b) = 4" | "byte_class (unat b) = 5" | "byte_class (unat b) = 6"
    | "byte_class (unat b) = 10" | "byte_class (unat b) = 11"
    using st by auto
  then show "st = 1 \<or> decoding st (unat cp')"
  proof cases
    case 5
    moreover have "unat b = 237" using 5 byte_class_iff(7) by blast
    ultimately show ?thesis using st cp by (simp add: next_state_def decoding_def)
  next
    case 6
    moreover have "unat b = 244" using 6 byte_class_iff(8) by blast
    ultimately show ?thesis using st cp by (simp add: next_state_def decoding_def)
  next
    case 7
    have "unat b mod 4 \<le> 3"
      by presburger
    then show ?thesis using 7 st cp rng(3) by (simp add: next_state_def decoding_def)
  qed (use st cp rng in \<open>simp_all add: next_state_def decoding_def\<close>)
  show "unat cp' = unat b \<and> unat b < 128" if "st = 0"
  proof -
    have "byte_class (unat b) = 0"
      using that st by (auto simp: next_state_def split: if_splits)
    then show ?thesis
      using cp b byte_class_iff(1) [of "unat b"] by simp
  qed
qed

text \<open>A later byte.\<close>

lemma utf8_later:
  assumes "decode s cp b = (st, cp')" "decoding s (unat cp)" "s \<noteq> 0"
  shows "st = 1 \<or> decoding st (unat cp')"
    and "st \<noteq> 1 \<Longrightarrow> unat cp' = 64 * unat cp + unat b mod 64"
    and "st = 0 \<Longrightarrow> 128 \<le> unat cp'"
proof -
  have s: "s < 9" "s \<noteq> 1" and small: "unat cp < 2 ^ 26"
    using assms(2,3) by (auto simp: decoding_def)
  have st: "st = next_state s (byte_class (unat b))" and cp: "unat cp' = 64 * unat cp + unat b mod 64"
    using assms(1,3) s(1) by (auto simp: decode_states unat_next [OF small])
  then show "st \<noteq> 1 \<Longrightarrow> unat cp' = 64 * unat cp + unat b mod 64"
    by simp
  have m: "unat b mod 64 < 64"
    by simp
  have rng: "byte_class (unat b) = 9 \<Longrightarrow> 16 \<le> unat b mod 64" "byte_class (unat b) = 7 \<Longrightarrow> 32 \<le> unat b mod 64"
    "byte_class (unat b) = 1 \<Longrightarrow> unat b mod 64 < 16"
    using mod_offset [of 2 64 "unat b"] by (auto simp: byte_class_iff)
  show "st = 1 \<or> decoding st (unat cp')"
    using assms(2,3) st cp m rng s(2)
    by (auto simp: next_state_def decoding_def split: if_splits)
  show "128 \<le> unat cp'" if "st = 0"
    using that assms(2,3) st cp
    by (auto simp: next_state_def decoding_def split: if_splits)
qed

section \<open>Escaped text\<close>

text \<open>What a code point is written as.\<close>

definition hex4 :: "nat \<Rightarrow> string" where
  "hex4 n = map (\<lambda>d. ''0123456789abcdef'' ! (d mod 16)) [n div 4096, n div 256, n div 16, n]"

definition escaped_form :: "nat \<Rightarrow> string" where
  "escaped_form n =
     (if n = 8 then CHR 0x5C # ''b'' else if n = 9 then CHR 0x5C # ''t'' else if n = 10 then CHR 0x5C # ''n''
      else if n = 12 then CHR 0x5C # ''f'' else if n = 13 then CHR 0x5C # ''r''
      else if n = 34 then ''&quot;'' else if n = 39 then ''&apos;'' else if n = 38 then ''&amp;''
      else if n = 60 then CHR 0x5C # ''lt;'' else if n = 62 then CHR 0x5C # ''gt;''
      else if 32 \<le> n \<and> n < 127 then [char_of n]
      else if n < 65536 then [CHR 0x5C, CHR ''u''] @ hex4 n
      else [CHR 0x5C, CHR ''u''] @ hex4 (55296 + (n - 65536) div 1024)
        @ [CHR 0x5C, CHR ''u''] @ hex4 (56320 + (n - 65536) mod 1024))"

definition safe_char :: "char \<Rightarrow> bool" where
  "safe_char c \<longleftrightarrow> CHR '' '' \<le> c \<and> c \<le> CHR ''~'' \<and> c \<notin> {CHR ''<'', CHR ''>'', CHR 0x22, CHR 0x27}"

lemma safe_code: "safe_char c \<longleftrightarrow> (let n = of_char c :: nat in 32 \<le> n \<and> n < 127 \<and> n \<notin> {34, 39, 60, 62})"
  using of_char_eq_iff [of c "CHR ''<''", where ?'a = nat] of_char_eq_iff [of c "CHR ''>''", where ?'a = nat]
    of_char_eq_iff [of c "CHR 0x22", where ?'a = nat] of_char_eq_iff [of c "CHR 0x27", where ?'a = nat]
  by (auto simp: safe_char_def less_eq_char_def Let_def simp del: of_char_eq_iff)

lemma hex_digit_safe: "safe_char (''0123456789abcdef'' ! (d mod 16))"
proof -
  have "list_all safe_char ''0123456789abcdef''"
    by code_simp
  then show ?thesis
    by (simp add: list_all_length)
qed

lemma hex4_safe: "list_all safe_char (hex4 n)"
  unfolding hex4_def by (simp only: list.map list.pred_inject hex_digit_safe simp_thms)

lemma length_escaped_form: "length (escaped_form n) \<le> 12"
  by (simp add: escaped_form_def hex4_def)

lemma escaped_form_safe: "list_all safe_char (escaped_form n)"
proof -
  have "list_all safe_char ([CHR 0x5C, CHR ''u''] @ ''bfnrt&;lgapoqm'')"
    by code_simp
  then show ?thesis
    by (auto simp: escaped_form_def hex4_safe) (simp_all add: safe_code)
qed

lemma unicode_escape_hex4: "unicode_escape w = [CHR 0x5C, CHR ''u''] @ hex4 (unat w)"
  by (simp add: unicode_escape_def hex4_def hex_digit_def Let_def)

lemma surrogates:
  assumes "65536 \<le> unat w" "unat w < 2 ^ 21"
  shows "unat (ucast (0xD7C0 + drop_bit 10 (w :: u32)) :: u16) = 55296 + (unat w - 65536) div 1024"
    and "unat (ucast (0xDC00 + (w AND 0x3FF)) :: u16) = 56320 + (unat w - 65536) mod 1024"
proof -
  have d: "unat w div 1024 = 64 + (unat w - 65536) div 1024" "unat w mod 1024 = (unat w - 65536) mod 1024"
    using assms(1) by (simp_all add: le_div_geq le_mod_geq)
  have u: "unat (ucast x :: u16) = unat x" if "unat x < 65536" for x :: u32
    using that by (simp add: unsigned_ucast_eq take_bit_nat_eq_self)
  have small: "unat w div 1024 < 2048"
    using assms(2) by (simp add: div_less_iff_less_mult)
  have "unat (0xD7C0 + drop_bit 10 w) = (55232 + unat w div 1024) mod 2 ^ 32"
    by (simp add: unat_word_ariths unat_drop_bit)
  then have hi: "unat (0xD7C0 + drop_bit 10 w) = 55232 + unat w div 1024"
    using small by simp
  then show "unat (ucast (0xD7C0 + drop_bit 10 w) :: u16) = 55296 + (unat w - 65536) div 1024"
    using small d(1) by (simp add: u)
  have "unat (w AND mask 10) = unat w mod 1024"
    by (simp add: unat_and_mask)
  then have "unat (w AND 0x3FF) = unat w mod 1024"
    by (simp add: mask_eq_exp_minus_1)
  moreover have "unat (0xDC00 + (w AND 0x3FF)) = (56320 + unat (w AND 0x3FF)) mod 2 ^ 32"
    by (simp add: unat_word_ariths)
  moreover have "unat w mod 1024 < 1024"
    by simp
  ultimately have lo: "unat (0xDC00 + (w AND 0x3FF)) = 56320 + unat w mod 1024"
    by simp
  then show "unat (ucast (0xDC00 + (w AND 0x3FF)) :: u16) = 56320 + (unat w - 65536) mod 1024"
    using u [of "0xDC00 + (w AND 0x3FF)"] d(2) \<open>unat w mod 1024 < 1024\<close> by simp
qed

lemma emit_code_point_form:
  assumes "unat w < 32 \<or> 127 \<le> unat w \<or> c = char_of (unat w)" "unat w < 2 ^ 21"
    and "emit_code_point w c buf = Some buf'"
  shows "buf' = buf @ escaped_form (unat w)"
proof -
  have u: "unat (ucast w :: u16) = unat w" if "unat w < 65536"
    using that by (simp add: unsigned_ucast_eq take_bit_nat_eq_self)
  show ?thesis
    using assms u surrogates [of w]
    by (auto simp: emit_code_point_def escaped_form_def emit_def emit_printf_def unicode_escape_hex4
        word_unat_eq_iff word_le_nat_alt split: if_splits)
qed

lemma emit_code_point_ok:
  assumes "length buf < 500"
  shows "emit_code_point w c buf \<noteq> None"
  using assms by (simp add: emit_code_point_def emit_def emit_printf_def unicode_escape_hex4 hex4_def)

text \<open>What the bytes read so far come to, whatever the decoder says about them.\<close>

lemma decode_decoding:
  assumes "decode s cp (byte c) = (st, cp')" "decoding s (unat cp)"
  shows "st = 1 \<or> decoding st (unat cp')"
    and "st = 0 \<Longrightarrow> (unat cp' < 32 \<or> 127 \<le> unat cp' \<or> c = char_of (unat cp')) \<and> unat cp' < 2 ^ 21"
proof -
  have first: "st = 0 \<Longrightarrow> s = 0 \<Longrightarrow> unat cp' = of_char c"
    using assms(1) utf8_first(2) [of cp "byte c" st cp'] by (simp add: unat_byte)
  show "st = 1 \<or> decoding st (unat cp')"
    using assms utf8_first(1) utf8_later(1) by metis
  show "(unat cp' < 32 \<or> 127 \<le> unat cp' \<or> c = char_of (unat cp')) \<and> unat cp' < 2 ^ 21" if st: "st = 0"
  proof (cases "s = 0")
    case True
    moreover have "unat cp' < 128"
      using assms(1) utf8_first(2) [of cp "byte c" st cp'] True st by simp
    ultimately show ?thesis
      using first st by simp
  next
    case False
    have "unat cp < 2 ^ 15"
      using assms(2) False by (auto simp: decoding_def)
    moreover have "unat (byte c) mod 64 < 64"
      by simp
    moreover have "unat cp' = 64 * unat cp + unat (byte c) mod 64" "128 \<le> unat cp'"
      using utf8_later(2,3) [OF assms(1,2) False] st by simp_all
    ultimately show ?thesis
      by simp
  qed
qed

definition text_ok :: "escaper \<Rightarrow> bool" where
  "text_ok e \<longleftrightarrow> list_all safe_char (es_out e) \<and> list_all safe_char (es_buffer e)
     \<and> decoding (es_state e) (unat (es_codePoint e))"

lemma replacement_safe: "list_all safe_char replacement"
  by code_simp

lemma list_all_take: "list_all P xs \<Longrightarrow> list_all P (take n xs)"
  by (auto simp: list_all_iff dest: in_set_takeD)

text \<open>An invariant of the body is one of the loop.\<close>

lemma escapeLoop_invariant:
  assumes "\<And>c e next e'. escapeByte c e = Some (next, e') \<Longrightarrow> P e \<Longrightarrow> P e'"
  shows "escapeLoop s e = Some e' \<Longrightarrow> P e \<Longrightarrow> P e'"
proof (induction s e rule: escapeLoop.induct)
  case (2 c cs e)
  then show ?case
    using assms by (subst (asm) escapeLoop.simps) (auto split: option.splits if_splits)
qed simp

lemma emit_Some: "emit s buf = Some buf' \<Longrightarrow> buf' = buf @ s"
  by (simp add: emit_def split: if_splits)

text \<open>The three ways through the body.\<close>

lemma escapeByte_accept:
  "decode (es_state e) (es_codePoint e) (byte c) = (0, cp) \<Longrightarrow>
   escapeByte c e = map_option (\<lambda>buf. (True, accept_buffer (e\<lparr>es_state := 0, es_codePoint := cp, es_buffer := buf\<rparr>)))
     (emit_code_point cp c (es_buffer e))"
  by (simp add: escapeByte_def utf8Accept_def Let_def)

lemma escapeByte_reject:
  "decode (es_state e) (es_codePoint e) (byte c) = (1, cp) \<Longrightarrow>
   escapeByte c e = map_option (\<lambda>buf. (es_undumped e = 0,
       e\<lparr>es_codePoint := cp, es_buffer := buf, es_lastAccept := length buf, es_undumped := 0, es_state := 0\<rparr>))
     (emit replacement (take (es_lastAccept e) (es_buffer e)))"
  by (simp add: escapeByte_def utf8Accept_def utf8Reject_def Let_def)

lemma escapeByte_pending:
  "decode (es_state e) (es_codePoint e) (byte c) = (st, cp) \<Longrightarrow> st \<noteq> 0 \<Longrightarrow> st \<noteq> 1 \<Longrightarrow>
   escapeByte c e = Some (True, e\<lparr>es_state := st, es_codePoint := cp, es_undumped := es_undumped e + 1\<rparr>)"
  by (simp add: escapeByte_def utf8Accept_def utf8Reject_def Let_def)

lemma accept_buffer_safe:
  "list_all safe_char (es_out e) \<Longrightarrow> list_all safe_char (es_buffer e) \<Longrightarrow> es_state e = 0 \<Longrightarrow> text_ok (accept_buffer e)"
  by (simp add: accept_buffer_def text_ok_def decoding_def Let_def)

lemma escapeByte_safe:
  assumes "escapeByte c e = Some (next, e')" "text_ok e"
  shows "text_ok e'"
proof -
  obtain st cp where d: "decode (es_state e) (es_codePoint e) (byte c) = (st, cp)"
    by fastforce
  have dec: "decoding (es_state e) (unat (es_codePoint e))"
    and safe: "list_all safe_char (es_out e)" "list_all safe_char (es_buffer e)"
    using assms(2) by (auto simp: text_ok_def)
  note steps = decode_decoding [OF d dec]
  consider (accept) "st = 0" | (reject) "st = 1" | (pending) "st \<noteq> 0" "st \<noteq> 1"
    by blast
  then show ?thesis
  proof cases
    case accept
    then obtain buf where em: "emit_code_point cp c (es_buffer e) = Some buf"
      and e': "e' = accept_buffer (e\<lparr>es_state := 0, es_codePoint := cp, es_buffer := buf\<rparr>)"
      using assms(1) escapeByte_accept d by auto
    have "buf = es_buffer e @ escaped_form (unat cp)"
      using emit_code_point_form [OF _ _ em] steps(2) [OF accept] by blast
    then have "list_all safe_char buf"
      using safe escaped_form_safe by simp
    then show ?thesis
      unfolding e' using safe by (intro accept_buffer_safe) simp_all
  next
    case reject
    then obtain buf where em: "emit replacement (take (es_lastAccept e) (es_buffer e)) = Some buf"
      and e': "e' = e\<lparr>es_codePoint := cp, es_buffer := buf, es_lastAccept := length buf, es_undumped := 0, es_state := 0\<rparr>"
      using assms(1) d by (auto simp: escapeByte_reject)
    have "list_all safe_char buf"
      using emit_Some [OF em] safe replacement_safe by (simp add: list_all_take)
    then show ?thesis
      using safe by (simp add: e' text_ok_def decoding_def)
  next
    case pending
    then have "e' = e\<lparr>es_state := st, es_codePoint := cp, es_undumped := es_undumped e + 1\<rparr>"
      using assms(1) escapeByte_pending [OF d pending] by simp
    moreover have "decoding st (unat cp)"
      using steps(1) pending by blast
    ultimately show ?thesis
      using safe by (simp add: text_ok_def)
  qed
qed

lemma dumpEscaped_safe:
  assumes "dumpEscaped s = Some out"
  shows "list_all safe_char out"
proof -
  obtain e where loop: "escapeLoop s escaper_init = Some e"
    and out: "out = (if es_state e = utf8Accept then es_out e @ es_buffer e
                     else es_out e @ take (es_lastAccept e) (es_buffer e) @ replacement)"
    using assms by (auto simp: dumpEscaped_def)
  have "text_ok escaper_init"
    by (simp add: escaper_init_def text_ok_def decoding_def utf8Accept_def)
  then have "text_ok e"
    by (rule escapeLoop_invariant [where P = text_ok, OF _ loop, rotated]) (rule escapeByte_safe)
  then show ?thesis
    using replacement_safe by (simp add: out text_ok_def list_all_take)
qed

section \<open>Text in UTF-8\<close>

text \<open>UTF-8 as RFC 3629 has it: the bytes of a scalar value.\<close>

definition scalar_value :: "nat \<Rightarrow> bool" where
  "scalar_value n \<longleftrightarrow> n < 1114112 \<and> \<not> (55296 \<le> n \<and> n < 57344)"

definition utf8_encode :: "nat \<Rightarrow> string" where
  "utf8_encode n =
     map char_of
       (if n < 128 then [n]
        else if n < 2048 then [192 + n div 64, 128 + n mod 64]
        else if n < 65536 then [224 + n div 4096, 128 + n div 64 mod 64, 128 + n mod 64]
        else [240 + n div 262144, 128 + n div 4096 mod 64, 128 + n div 64 mod 64, 128 + n mod 64])"

lemma escapeLoop_append:
  "escapeLoop (s @ t) e = (case escapeLoop s e of None \<Rightarrow> None | Some e' \<Rightarrow> escapeLoop t e')"
proof (induction s e rule: escapeLoop.induct)
  case (2 c cs e)
  then show ?case
    by (simp add: escapeLoop.simps(2) split: option.split)
qed simp

text \<open>Where a decoder stands in the middle of a code point; nothing of it is written yet.\<close>

definition reading :: "escaper \<Rightarrow> nat \<Rightarrow> nat \<Rightarrow> escaper \<Rightarrow> bool" where
  "reading e st k e' \<longleftrightarrow> es_state e' = st \<and> unat (es_codePoint e') = k \<and> decoding st k
     \<and> es_out e' = es_out e \<and> es_buffer e' = es_buffer e"

definition fresh :: "escaper \<Rightarrow> bool" where
  "fresh e \<longleftrightarrow> es_state e = 0 \<and> length (es_buffer e) < 500"

lemma decode_char:
  assumes "n < 256"
  shows "\<exists>w. decode 0 cp (byte (char_of n)) = (next_state 0 (byte_class n), w) \<and> unat w = n mod 2 ^ (8 - byte_class n)"
  using assms by (simp add: decode_states unat_first unat_byte)

lemma utf8_cont:
  assumes "decoding s (unat cp)" "s \<noteq> 0" "m < 64"
  shows "\<exists>w. decode s cp (byte (char_of (128 + m))) = (next_state s (byte_class (128 + m)), w) \<and> unat w = 64 * unat cp + m"
proof -
  have "s < 9" "unat cp < 2 ^ 26"
    using assms(1,2) by (auto simp: decoding_def)
  then show ?thesis
    using assms(2,3) mod_offset [of 2 64 "128 + m"] by (simp add: decode_states unat_next unat_byte)
qed

lemma read_lead:
  assumes "fresh e" "n < 256" "next_state 0 (byte_class n) = st" "st \<noteq> 0" "st \<noteq> 1"
    and "n mod 2 ^ (8 - byte_class n) = k"
  shows "\<exists>e'. escapeLoop [char_of n] e = Some e' \<and> reading e st k e'"
proof -
  obtain w where "decode 0 (es_codePoint e) (byte (char_of n)) = (st, w)" "unat w = k"
    using decode_char [OF assms(2), of "es_codePoint e"] assms(3,6) by auto
  then show ?thesis
    using assms utf8_first(1) [of "es_codePoint e" "byte (char_of n)" st w]
    by (simp add: escapeLoop.simps(2) escapeByte_pending [of _ _ st w] fresh_def reading_def)
qed

lemma read_more:
  assumes "reading e s k e1" "s \<noteq> 0" "m < 64" "next_state s (byte_class (128 + m)) = st" "st \<noteq> 0" "st \<noteq> 1"
  shows "\<exists>e'. escapeLoop [char_of (128 + m)] e1 = Some e' \<and> reading e st (64 * k + m) e'"
proof -
  have r: "es_state e1 = s" "unat (es_codePoint e1) = k" "decoding s k"
    using assms(1) by (simp_all add: reading_def)
  obtain w where d: "decode s (es_codePoint e1) (byte (char_of (128 + m))) = (st, w)" "unat w = 64 * k + m"
    using utf8_cont [of s "es_codePoint e1" m] assms r by auto
  then have "decoding st (unat w)"
    using utf8_later(1) [OF d(1)] assms r by simp
  then show ?thesis
    using assms d r by (simp add: escapeLoop.simps(2) escapeByte_pending [of _ _ st w] reading_def)
qed

lemma accept_text:
  assumes "decode (es_state e) (es_codePoint e) (byte c) = (0, w)" "length (es_buffer e) < 500"
    and "unat w < 32 \<or> 127 \<le> unat w \<or> c = char_of (unat w)" "unat w < 2 ^ 21"
  shows "\<exists>e'. escapeLoop [c] e = Some e' \<and> fresh e'
     \<and> es_out e' @ es_buffer e' = es_out e @ es_buffer e @ escaped_form (unat w)"
proof -
  obtain buf where em: "emit_code_point w c (es_buffer e) = Some buf"
    using emit_code_point_ok [OF assms(2)] by blast
  then have b: "buf = es_buffer e @ escaped_form (unat w)"
    by (rule emit_code_point_form [OF assms(3,4)])
  define e' where "e' = accept_buffer (e\<lparr>es_state := 0, es_codePoint := w, es_buffer := buf\<rparr>)"
  have "escapeLoop [c] e = Some e'"
    by (simp add: escapeLoop.simps(2) escapeByte_accept [OF assms(1)] em e'_def)
  moreover have "fresh e'" "es_out e' @ es_buffer e' = es_out e @ buf"
    by (auto simp: e'_def accept_buffer_def fresh_def Let_def)
  ultimately show ?thesis
    using b by auto
qed

lemma read_last:
  assumes "reading e 2 k e1" "m < 64" "length (es_buffer e) < 500"
  shows "\<exists>e'. escapeLoop [char_of (128 + m)] e1 = Some e' \<and> fresh e'
     \<and> es_out e' @ es_buffer e' = es_out e @ es_buffer e @ escaped_form (64 * k + m)"
proof -
  have r: "es_state e1 = 2" "unat (es_codePoint e1) = k" "2 \<le> k" "k < 2 ^ 15"
      "es_out e1 = es_out e" "es_buffer e1 = es_buffer e"
    using assms(1) by (auto simp: reading_def decoding_def)
  have "next_state 2 (byte_class (128 + m)) = 0"
    using assms(2) by (simp add: next_state_def byte_class_def)
  then obtain w where "decode 2 (es_codePoint e1) (byte (char_of (128 + m))) = (0, w)" "unat w = 64 * k + m"
    using utf8_cont [of 2 "es_codePoint e1" m] assms r by (auto simp: decoding_def)
  then show ?thesis
    using accept_text [of e1 "char_of (128 + m)" w] assms r by simp
qed

lemma escapeLoop_Cons:
  "cs \<noteq> [] \<Longrightarrow> escapeLoop (c # cs) e = (case escapeLoop [c] e of None \<Rightarrow> None | Some e' \<Rightarrow> escapeLoop cs e')"
  using escapeLoop_append [of "[c]" cs e] by simp

text \<open>A scalar value of one to four bytes is written as its escaped form.\<close>

lemma escape_1:
  assumes "fresh e" "n < 128"
  shows "\<exists>e'. escapeLoop (utf8_encode n) e = Some e' \<and> fresh e'
     \<and> es_out e' @ es_buffer e' = es_out e @ es_buffer e @ escaped_form n"
proof -
  obtain w where "decode 0 (es_codePoint e) (byte (char_of n)) = (0, w)" "unat w = n"
    using decode_char [of n "es_codePoint e"] assms(2) by (auto simp: byte_class_def next_state_def)
  then show ?thesis
    using accept_text [of e "char_of n" w] assms by (simp add: utf8_encode_def fresh_def)
qed

lemma escape_2:
  assumes "fresh e" "128 \<le> n" "n < 2048"
  shows "\<exists>e'. escapeLoop (utf8_encode n) e = Some e' \<and> fresh e'
     \<and> es_out e' @ es_buffer e' = es_out e @ es_buffer e @ escaped_form n"
proof -
  define k where "k = n div 64"
  have k: "2 \<le> k" "k < 32"
    using assms(2,3) by (auto simp: k_def less_eq_div_iff_mult_less_eq div_less_iff_less_mult)
  have "\<exists>e'. escapeLoop [char_of (192 + k)] e = Some e' \<and> reading e 2 k e'"
    using k mod_offset [of 3 64 "192 + k"]
    by (intro read_lead assms(1)) (simp_all add: byte_class_def next_state_def)
  then obtain e1 where e1: "escapeLoop [char_of (192 + k)] e = Some e1" "reading e 2 k e1"
    by blast
  then show ?thesis
    using read_last [OF e1(2), of "n mod 64"] assms
    by (simp add: utf8_encode_def escapeLoop_Cons k_def fresh_def)
qed

text \<open>The last two bytes.\<close>

lemma escape_rest:
  assumes "reading e 3 k e1" "m < 64" "l < 64" "length (es_buffer e) < 500"
  shows "\<exists>e'. escapeLoop [char_of (128 + m), char_of (128 + l)] e1 = Some e' \<and> fresh e'
     \<and> es_out e' @ es_buffer e' = es_out e @ es_buffer e @ escaped_form (64 * (64 * k + m) + l)"
proof -
  have "next_state 3 (byte_class (128 + m)) = 2"
    using assms(2) by (simp add: next_state_def byte_class_def)
  then obtain e2 where "escapeLoop [char_of (128 + m)] e1 = Some e2" "reading e 2 (64 * k + m) e2"
    using read_more [OF assms(1), of m 2] assms(2) by auto
  then show ?thesis
    using read_last [of e "64 * k + m" e2 l] assms(3,4) by (simp add: escapeLoop_Cons)
qed

lemma escape_3:
  assumes "fresh e" "2048 \<le> n" "n < 65536" "scalar_value n"
  shows "\<exists>e'. escapeLoop (utf8_encode n) e = Some e' \<and> fresh e'
     \<and> es_out e' @ es_buffer e' = es_out e @ es_buffer e @ escaped_form n"
proof -
  define k where "k = n div 4096"
  define m where "m = n div 64 mod 64"
  have "n div 4096 = n div 64 div 64"
    using div_mult2_eq [of n 64 64] by simp
  then have km: "64 * k + m = n div 64"
    by (simp add: k_def m_def)
  have k16: "k < 16" and m64: "m < 64"
    using assms(3) by (simp_all add: k_def m_def div_less_iff_less_mult)
  have "32 \<le> n div 64"
    using assms(2) by (simp add: less_eq_div_iff_mult_less_eq)
  then have low: "k = 0 \<Longrightarrow> 32 \<le> m"
    using km by simp
  have high: "m < 32" if "k = 13"
  proof (rule ccontr)
    assume "\<not> m < 32"
    then have "864 \<le> n div 64" "n div 64 < 896"
      using that km m64 by simp_all
    then have "55296 \<le> n" "n < 57344"
      by (simp_all add: less_eq_div_iff_mult_less_eq div_less_iff_less_mult)
    then show False
      using assms(4) by (simp add: scalar_value_def)
  qed
  define st where "st = (if k = 0 then 4 else if k = 13 then 5 else 3 :: nat)"
  have "\<exists>e'. escapeLoop [char_of (224 + k)] e = Some e' \<and> reading e st k e'"
  proof (rule read_lead [OF assms(1)])
    show "(224 + k) mod 2 ^ (8 - byte_class (224 + k)) = k"
      using k16 mod_offset [of 7 32 "224 + k"] mod_offset [of 14 16 "224 + k"]
      by (simp add: byte_class_def)
  qed (use k16 in \<open>simp_all add: byte_class_def next_state_def st_def\<close>)
  then obtain e1 where e1: "escapeLoop [char_of (224 + k)] e = Some e1" "reading e st k e1"
    by blast
  have st0: "st \<noteq> 0"
    by (simp add: st_def)
  have "next_state st (byte_class (128 + m)) = 2"
    using low high m64 by (cases "k = 0") (auto simp: st_def next_state_def byte_class_def)
  then obtain e2 where e2: "escapeLoop [char_of (128 + m)] e1 = Some e2" "reading e 2 (64 * k + m) e2"
    using read_more [OF e1(2), of m 2] m64 st0 by auto
  show ?thesis
    using read_last [OF e2(2), of "n mod 64"] e1(1) e2(1) assms
    by (simp add: utf8_encode_def escapeLoop_Cons km k_def [symmetric] m_def [symmetric] fresh_def)
qed

lemma escape_4:
  assumes "fresh e" "65536 \<le> n" "n < 1114112"
  shows "\<exists>e'. escapeLoop (utf8_encode n) e = Some e' \<and> fresh e'
     \<and> es_out e' @ es_buffer e' = es_out e @ es_buffer e @ escaped_form n"
proof -
  define k where "k = n div 262144"
  define m where "m = n div 4096 mod 64"
  have d: "n div 262144 = n div 4096 div 64" "n div 4096 = n div 64 div 64"
    using div_mult2_eq [of n 4096 64] div_mult2_eq [of n 64 64] by simp_all
  then have km: "64 * k + m = n div 4096"
    by (simp add: k_def m_def)
  have k: "k \<le> 4" and m64: "m < 64" and b: "16 \<le> n div 4096" "n div 4096 < 272"
    using assms(2,3) by (simp_all add: k_def m_def less_eq_div_iff_mult_less_eq div_less_iff_less_mult less_Suc_eq_le [symmetric])
  have low: "k = 0 \<Longrightarrow> 16 \<le> m" and high: "k = 4 \<Longrightarrow> m < 16"
    using km b by simp_all
  define st where "st = (if k = 0 then 6 else if k = 4 then 8 else 7 :: nat)"
  have "\<exists>e'. escapeLoop [char_of (240 + k)] e = Some e' \<and> reading e st k e'"
  proof (rule read_lead [OF assms(1)])
    show "(240 + k) mod 2 ^ (8 - byte_class (240 + k)) = k"
      using k mod_offset [of 60 4 "240 + k"] by (auto simp: byte_class_def)
  qed (use k in \<open>simp_all add: byte_class_def next_state_def st_def\<close>)
  then obtain e1 where e1: "escapeLoop [char_of (240 + k)] e = Some e1" "reading e st k e1"
    by blast
  have st0: "st \<noteq> 0"
    by (simp add: st_def)
  have "next_state st (byte_class (128 + m)) = 3"
    using low high m64 by (cases "k = 0") (auto simp: st_def next_state_def byte_class_def)
  then obtain e2 where e2: "escapeLoop [char_of (128 + m)] e1 = Some e2" "reading e 3 (64 * k + m) e2"
    using read_more [OF e1(2), of m 3] m64 st0 by auto
  have n: "64 * (64 * (64 * k + m) + n div 64 mod 64) + n mod 64 = n"
    unfolding km d(2) by simp
  show ?thesis
    using escape_rest [OF e2(2), of "n div 64 mod 64" "n mod 64", unfolded n] e1(1) e2(1) assms
    by (simp add: utf8_encode_def escapeLoop_Cons k_def [symmetric] m_def [symmetric] fresh_def)
qed

lemma escape_scalar:
  assumes "fresh e" "scalar_value n"
  shows "\<exists>e'. escapeLoop (utf8_encode n) e = Some e' \<and> fresh e'
     \<and> es_out e' @ es_buffer e' = es_out e @ es_buffer e @ escaped_form n"
  using assms escape_1 escape_2 escape_3 escape_4
  by (metis linorder_not_less scalar_value_def)

lemma escape_text:
  assumes "fresh e" "list_all scalar_value ns"
  shows "\<exists>e'. escapeLoop (concat (map utf8_encode ns)) e = Some e' \<and> fresh e'
     \<and> es_out e' @ es_buffer e' = es_out e @ es_buffer e @ concat (map escaped_form ns)"
  using assms
proof (induction ns arbitrary: e)
  case (Cons n ns)
  obtain e1 where e1: "escapeLoop (utf8_encode n) e = Some e1" "fresh e1"
      "es_out e1 @ es_buffer e1 = es_out e @ es_buffer e @ escaped_form n"
    using escape_scalar [OF Cons.prems(1), of n] Cons.prems(2) by auto
  then show ?case
    using Cons.IH [OF e1(2)] Cons.prems(2) by (auto simp: escapeLoop_append) 
qed simp

text \<open>
  C21: Text in UTF-8 (RFC 3629) of any length is escaped code point by code point: the automaton decodes
  it without an error, nothing is written beyond the buffer of 512 bytes, and what is appended is
  the concatenation of the escaped forms, with surrogate pairs for code points above 16 bits.
\<close>

theorem dumpEscaped_utf8:
  assumes "list_all scalar_value ns"
  shows "dumpEscaped (concat (map utf8_encode ns)) = Some (concat (map escaped_form ns))"
proof -
  have "fresh escaper_init"
    by (simp add: fresh_def escaper_init_def utf8Accept_def)
  from escape_text [OF this assms] show ?thesis
    by (auto simp: dumpEscaped_def fresh_def escaper_init_def utf8Accept_def)
qed

theorem dumpEscaped_utf8_witness:
  "dumpEscaped (concat (map utf8_encode [60, 233, 128512])) = Some (concat (map escaped_form [60, 233, 128512]))
   \<and> concat (map escaped_form [60, 233]) = (CHR 0x5C # ''lt;'') @ (CHR 0x5C # ''u00e9'')"
proof
  show "dumpEscaped (concat (map utf8_encode [60, 233, 128512])) = Some (concat (map escaped_form [60, 233, 128512]))"
    by (rule dumpEscaped_utf8) (simp add: scalar_value_def)
qed (simp add: escaped_form_def hex4_def)

text \<open>
  Bytes that are no UTF-8 are replaced without a look at the room that is left: 86 of them in a row
  write beyond the buffer.
\<close>

lemma invalid_run:
  assumes "es_state e = 0" "es_lastAccept e = length (es_buffer e)" "es_undumped e = 0"
    and "512 < length (es_buffer e) + 6 * n" "length (es_buffer e) \<le> 512"
  shows "escapeLoop (replicate n (CHR 0xFF)) e = None"
  using assms
proof (induction n arbitrary: e)
  case (Suc n)
  obtain cp where "decode (es_state e) (es_codePoint e) (byte (CHR 0xFF)) = (1, cp)"
    using Suc.prems(1) by (simp add: decode_states unat_byte byte_class_def next_state_def)
  note b = escapeByte_reject [OF this]
  show ?case
  proof (cases "length (es_buffer e) + 6 \<le> 512")
    case True
    then show ?thesis
      using Suc.prems Suc.IH by (simp add: escapeLoop.simps(2) b emit_def replacement_def)
  qed (use Suc.prems in \<open>simp add: escapeLoop.simps(2) b emit_def replacement_def\<close>)
qed simp

lemma invalid_bytes_overrun: "dumpEscaped (replicate 86 (CHR 0xFF)) = None"
  using invalid_run [of escaper_init 86] by (simp add: dumpEscaped_def escaper_init_def utf8Accept_def)

end
