(* ===== verification/JsonHtml.thy ===== *)
theory JsonHtml
  imports Json Response HtmlEscape
begin

text \<open>
  The HTML form of a JSON value: \<open>dumpInteger\<close>, \<open>dumpfloat\<close>, \<open>dump\<close> and \<open>dumpHtml\<close> of
  \<open>include/json_html_serializer.hpp\<close>, and the copy of \<open>dumpInteger\<close> in \<open>json_html_serializer.cpp\<close>. The exception
  for a link that is no string is the value \<open>None\<close>. The shortest decimal form of a \<open>double\<close> comes
  from the JSON library and is an argument. The lemmas show that numbers are written in decimal and
  that what comes from a value is only ever text in well nested markup.
\<close>

section \<open>Integers\<close>

function countDigits :: "nat \<Rightarrow> nat \<Rightarrow> nat" where
  "countDigits number nDigits =
     (if number < 10 then nDigits
      else if number < 100 then nDigits + 1
      else if number < 1000 then nDigits + 2
      else if number < 10000 then nDigits + 3
      else countDigits (number div 10000) (nDigits + 4))"
  by pat_completeness auto

termination
  by (relation "measure fst") auto

declare countDigits.simps [simp del]

definition digitsTo99 :: "nat \<Rightarrow> string" where
  "digitsTo99 n = [char_of (48 + n div 10), char_of (48 + n mod 10)]"

text \<open>The digits that are written from the back, in the order they end up in.\<close>

function writeDigits :: "nat \<Rightarrow> string \<Rightarrow> string" where
  "writeDigits absValue acc =
     (if absValue \<ge> 100 then writeDigits (absValue div 100) (digitsTo99 (absValue mod 100) @ acc)
      else if absValue \<ge> 10 then digitsTo99 absValue @ acc
      else char_of (48 + absValue) # acc)"
  by pat_completeness auto

termination
  by (relation "measure fst") auto

declare writeDigits.simps [simp del]

text \<open>
  The buffer from its begin: \<open>nChars\<close> bytes, of which the digits fill the last; the sign is written
  first, and a byte that nothing is written to is zero.
\<close>

definition dumpInteger :: "int \<Rightarrow> string" where
  "dumpInteger number =
     (if number = 0 then ''0''
      else
        let isNegative = number < 0;
            absValue = unat (word_of_int (if isNegative then 0 - number else number) :: u64);
            nChars = (if isNegative then 1 else 0) + countDigits absValue 1
        in if nChars \<ge> 63 then []
           else let digits = writeDigits absValue [];
                    front = (if isNegative then [CHR ''-''] else [])
                in front @ replicate (nChars - length front - length digits) (CHR 0x00) @ digits)"

section \<open>Values\<close>

definition dumpfloat :: "(u64 \<Rightarrow> string) \<Rightarrow> u64 \<Rightarrow> string" where
  "dumpfloat to_chars number = (if drop_bit 52 number AND 0x7FF = 0x7FF then ''null'' else to_chars number)"

definition link_keys :: "string list" where
  "link_keys = [''@odata.id'', ''@odata.context'', ''Members@odata.nextLink'', ''Uri'']"

definition quote_tag :: string where
  "quote_tag = [CHR 0x22]"

text \<open>
  \<open>dump\<close>, with its loops over members and elements; converting a link that is no string to a string throws.
\<close>

fun dump :: "(u64 \<Rightarrow> string) \<Rightarrow> json \<Rightarrow> string option"
  and dumpMembers :: "(u64 \<Rightarrow> string) \<Rightarrow> json_object \<Rightarrow> string option"
  and dumpElements :: "(u64 \<Rightarrow> string) \<Rightarrow> json list \<Rightarrow> string option" where
  "dump to_chars (JObject m) =
     (if m = [] then Some ''{}''
      else map_option (\<lambda>s. ''{'' @ ''<div class=tab>'' @ s @ ''</div>'' @ ''}'') (dumpMembers to_chars m))"
| "dump to_chars (JArray xs) =
     (if xs = [] then Some ''[]''
      else map_option (\<lambda>s. ''['' @ ''<div class=tab>'' @ s @ ''</div>'' @ '']'') (dumpElements to_chars xs))"
| "dump to_chars (JString s) = map_option (\<lambda>t. quote_tag @ t @ quote_tag) (dumpEscaped s)"
| "dump to_chars (JBool b) = Some (if b then ''true'' else ''false'')"
| "dump to_chars (JInt i) = Some (dumpInteger i)"
| "dump to_chars (JUInt n) = Some (dumpInteger (int n))"
| "dump to_chars (JFloat d) = Some (dumpfloat to_chars d)"
| "dump to_chars JNull = Some ''null''"
| "dump to_chars (JBinary b) = Some []"
| "dumpMembers to_chars [] = Some []"
| "dumpMembers to_chars ((k, v) # m) =
     (case dumpEscaped k of
        None \<Rightarrow> None
      | Some key \<Rightarrow>
          (case (if k \<in> set link_keys
                 then (case v of JString s \<Rightarrow> map_option (\<lambda>t. ''<a href='' @ quote_tag @ t @ quote_tag @ ''>'') (dumpEscaped s)
                       | _ \<Rightarrow> None)
                 else Some []) of
             None \<Rightarrow> None
           | Some link \<Rightarrow>
               (case dump to_chars v of
                  None \<Rightarrow> None
                | Some s \<Rightarrow>
                    map_option (\<lambda>rest. ''&quot'' @ key @ ''&quot: '' @ link @ s
                        @ (if k \<in> set link_keys then ''</a>'' else []) @ (if m \<noteq> [] then '','' else []) @ ''<br>'' @ rest)
                      (dumpMembers to_chars m))))"
| "dumpElements to_chars [] = Some []"
| "dumpElements to_chars (x # xs) =
     (case dump to_chars x of
        None \<Rightarrow> None
      | Some s \<Rightarrow>
          if xs = [] then Some s
          else map_option (\<lambda>rest. s @ '',<br>'' @ rest) (dumpElements to_chars xs))"

definition nl :: string where "nl = [CHR 0x0A]"

definition html_head :: string where
  "html_head = ''<html>'' @ nl @ ''<head>'' @ nl @ ''<title>Redfish API</title>'' @ nl
     @ ''<link href='' @ quote_tag @ ''/redfish.css'' @ quote_tag @ '' rel='' @ quote_tag @ ''stylesheet'' @ quote_tag @ ''>'' @ nl
     @ ''</head>'' @ nl @ ''<body>'' @ nl
     @ ''<div class='' @ quote_tag @ ''container'' @ quote_tag @ ''>'' @ nl
     @ ''<img src='' @ quote_tag @ ''/DMTF_Redfish_logo_2017.svg'' @ quote_tag @ '' alt='' @ quote_tag @ ''redfish'' @ quote_tag
     @ '' height='' @ quote_tag @ ''406px'' @ quote_tag @ '' width='' @ quote_tag @ ''576px'' @ quote_tag @ ''>'' @ nl
     @ ''<div class='' @ quote_tag @ ''content'' @ quote_tag @ ''>'' @ nl"

definition html_tail :: string where
  "html_tail = ''</div>'' @ nl @ ''</div>'' @ nl @ ''</body>'' @ nl @ ''</html>'' @ nl"

definition dumpHtml :: "(u64 \<Rightarrow> string) \<Rightarrow> json \<Rightarrow> string option" where
  "dumpHtml to_chars j = map_option (\<lambda>s. html_head @ s @ html_tail) (dump to_chars j)"

section \<open>Numbers are written in decimal\<close>

lemma nat_to_string_small: "n < 10 \<Longrightarrow> nat_to_string n = [char_of (48 + n)]"
  by (simp add: nat_to_string.simps)

lemma nat_to_string_step:
  "10 \<le> n \<Longrightarrow> nat_to_string n = nat_to_string (n div 10) @ [char_of (48 + n mod 10)]"
  by (simp add: nat_to_string.simps [of n])

lemma length_nat_to_string_step: "10 \<le> n \<Longrightarrow> length (nat_to_string n) = Suc (length (nat_to_string (n div 10)))"
  by (simp add: nat_to_string_step)

lemma length_nat_to_string_small: "n < 10 \<Longrightarrow> length (nat_to_string n) = 1"
  by (simp add: nat_to_string_small)

lemma countDigits_string: "countDigits n (Suc k) = k + length (nat_to_string n)"
proof (induction n arbitrary: k rule: less_induct)
  case (less n)
  define l where "l m = length (nat_to_string m)" for m
  have d2: "n div 10 div 10 = n div 100" and d3: "n div 100 div 10 = n div 1000"
    and d4: "n div 1000 div 10 = n div 10000"
    by (simp_all flip: div_mult2_eq)
  have l1: "10 \<le> n \<Longrightarrow> l n = Suc (l (n div 10))"
    and l2: "100 \<le> n \<Longrightarrow> l (n div 10) = Suc (l (n div 100))"
    and l3: "1000 \<le> n \<Longrightarrow> l (n div 100) = Suc (l (n div 1000))"
    and l4: "10000 \<le> n \<Longrightarrow> l (n div 1000) = Suc (l (n div 10000))"
    unfolding l_def
    using length_nat_to_string_step [of n] length_nat_to_string_step [of "n div 10"]
      length_nat_to_string_step [of "n div 100"] length_nat_to_string_step [of "n div 1000"]
    by (simp_all only: d2 d3 d4 less_eq_div_iff_mult_less_eq)
  have small: "m < 10 \<Longrightarrow> l m = 1" for m
    unfolding l_def by (rule length_nat_to_string_small)
  consider "n < 10" | "10 \<le> n" "n < 100" | "100 \<le> n" "n < 1000" | "1000 \<le> n" "n < 10000" | "10000 \<le> n"
    by linarith
  then have "countDigits n (Suc k) = k + l n"
  proof cases
    case 1
    then show ?thesis by (subst countDigits.simps) (simp add: small)
  next
    case 2
    then show ?thesis by (subst countDigits.simps) (simp add: l1 small div_less_iff_less_mult)
  next
    case 3
    then show ?thesis by (subst countDigits.simps) (simp add: l1 l2 small div_less_iff_less_mult)
  next
    case 4
    then show ?thesis by (subst countDigits.simps) (simp add: l1 l2 l3 small div_less_iff_less_mult)
  next
    case 5
    then have "countDigits n (Suc k) = countDigits (n div 10000) (Suc (k + 4))"
      by (subst countDigits.simps) simp
    also have "\<dots> = k + 4 + l (n div 10000)"
      using 5 less.IH [of "n div 10000" "k + 4"] by (simp add: l_def)
    finally show ?thesis
      using 5 by (simp add: l1 l2 l3 l4)
  qed
  then show ?case
    by (simp add: l_def)
qed

lemma writeDigits_string: "writeDigits n acc = nat_to_string n @ acc"
proof (induction n arbitrary: acc rule: less_induct)
  case (less n)
  have s: "10 \<le> n \<Longrightarrow> nat_to_string n = nat_to_string (n div 10) @ [char_of (48 + n mod 10)]"
    by (rule nat_to_string_step)
  have d2: "n div 10 div 10 = n div 100"
    by (simp flip: div_mult2_eq)
  consider "n < 10" | "10 \<le> n" "n < 100" | "100 \<le> n"
    by linarith
  then show ?case
  proof cases
    case 1
    then show ?thesis by (subst writeDigits.simps) (simp add: nat_to_string_small)
  next
    case 2
    then have "nat_to_string (n div 10) = [char_of (48 + n div 10)]"
      by (intro nat_to_string_small) (simp add: div_less_iff_less_mult)
    then show ?thesis
      using 2 by (subst writeDigits.simps) (simp add: s digitsTo99_def)
  next
    case 3
    have m: "n mod 100 = 10 * (n div 10 mod 10) + n mod 10"
      using mod_mult2_eq [of n 10 10] by simp
    have "10 \<le> n div 10"
      using 3 by (simp add: less_eq_div_iff_mult_less_eq)
    then have t: "nat_to_string (n div 10) = nat_to_string (n div 100) @ [char_of (48 + n div 10 mod 10)]"
      by (simp only: nat_to_string_step d2)
    have "writeDigits n acc = writeDigits (n div 100) (digitsTo99 (n mod 100) @ acc)"
      using 3 by (subst writeDigits.simps) simp
    also have "\<dots> = nat_to_string (n div 100) @ digitsTo99 (n mod 100) @ acc"
      using 3 by (intro less.IH) simp
    also have "digitsTo99 (n mod 100) = [char_of (48 + n div 10 mod 10), char_of (48 + n mod 10)]"
      by (simp add: digitsTo99_def m)
    finally show ?thesis
      using 3 by (simp add: s t)
  qed
qed

lemma length_nat_to_string: "n < 10 ^ Suc d \<Longrightarrow> length (nat_to_string n) \<le> Suc d"
proof (induction d arbitrary: n)
  case (Suc d)
  then have "10 \<le> n \<Longrightarrow> n div 10 < 10 ^ Suc d"
    by auto
  then show ?case
    using Suc.IH [of "n div 10"] length_nat_to_string_step [of n] length_nat_to_string_small [of n]
    by (cases "n < 10") auto
qed (simp add: length_nat_to_string_small)

lemma nat_to_string_zero: "nat_to_string 0 = ''0''"
  by code_simp

text \<open>
  \<open>dumpInteger\<close> writes every integer of the two 64 bit types in decimal, with a minus sign and
  without leading zeros or padding. The smallest negative one is left out: negating it is undefined.
\<close>

theorem dumpInteger_decimal:
  assumes "- (2 ^ 63) < i" "i < 2 ^ 64"
  shows "dumpInteger i = (if i < 0 then ''-'' else []) @ nat_to_string (nat \<bar>i\<bar>)"
proof (cases "i = 0")
  case True
  then show ?thesis
    by (simp add: dumpInteger_def nat_to_string_zero)
next
  case False
  define a where "a = (if i < 0 then 0 - i else i)"
  have "unat (word_of_int a :: u64) = nat \<bar>i\<bar>"
    using assms by (simp add: a_def unsigned_of_int take_bit_int_eq_self)
  moreover have "length (nat_to_string (nat \<bar>i\<bar>)) \<le> 20"
    using assms length_nat_to_string [of "nat \<bar>i\<bar>" 19] by auto
  moreover have "countDigits n 1 = length (nat_to_string n)" for n
    using countDigits_string [of n 0] by simp
  ultimately show ?thesis
    using False by (auto simp: dumpInteger_def a_def writeDigits_string Let_def split: if_splits)
qed

theorem dumpInteger_decimal_witness: "dumpInteger (- 120) = ''-'' @ nat_to_string 120"
  using dumpInteger_decimal [of "- 120"] by simp

section \<open>The second copy of the number printer\<close>

text \<open>
  \<open>json_html_serializer.cpp\<close> has its own copies of the functions of the header. They are the same
  except for \<open>dumpInteger\<close>, whose pointer stands on the byte to write next instead of behind it. Here the
  buffer and the pointer are explicit; a write outside the 64 bytes is \<open>None\<close>.
\<close>

definition put_char :: "int \<Rightarrow> char \<Rightarrow> string \<Rightarrow> string option" where
  "put_char p c buf = (if 0 \<le> p \<and> p < 64 then Some (buf[nat p := c]) else None)"

definition put_pair :: "nat \<Rightarrow> int \<Rightarrow> string \<Rightarrow> string option" where
  "put_pair digitsIndex p buf =
     Option.bind (put_char p (digitsTo99 digitsIndex ! 1) buf) (put_char (p - 1) (digitsTo99 digitsIndex ! 0))"

function cpp_writeDigits :: "nat \<Rightarrow> int \<Rightarrow> string \<Rightarrow> string option" where
  "cpp_writeDigits absValue p buf =
     (if absValue \<ge> 100
      then Option.bind (put_pair (absValue mod 100) p buf) (cpp_writeDigits (absValue div 100) (p - 2))
      else if absValue \<ge> 10 then put_pair absValue p buf
      else put_char p (char_of (48 + absValue)) buf)"
  by pat_completeness auto

termination
  by (relation "measure fst") auto

declare cpp_writeDigits.simps [simp del]

definition cpp_dumpInteger :: "int \<Rightarrow> string option" where
  "cpp_dumpInteger number =
     (if number = 0 then Some ''0''
      else
        let isNegative = number < 0;
            buf = (if isNegative then (replicate 64 (CHR 0x00))[0 := CHR ''-''] else replicate 64 (CHR 0x00));
            absValue = unat (word_of_int (if isNegative then 0 - number else number) :: u64);
            nChars = (if isNegative then 1 else 0) + countDigits absValue 1
        in if nChars \<ge> 63 then Some []
           else map_option (take nChars) (cpp_writeDigits absValue (int nChars - 1) buf))"

text \<open>Characters placed in front of position \<open>p\<close>.\<close>

definition place :: "nat \<Rightarrow> string \<Rightarrow> string \<Rightarrow> string" where
  "place p s buf = take (p - length s) buf @ s @ drop p buf"

lemma put_char_place:
  "length buf = 64 \<Longrightarrow> p < 64 \<Longrightarrow> put_char (int p) c buf = Some (place (Suc p) [c] buf)"
  by (simp add: put_char_def place_def upd_conv_take_nth_drop)

lemma put_pair_place:
  assumes "length buf = 64" "Suc p < 64"
  shows "put_pair n (int (Suc p)) buf = Some (place (Suc (Suc p)) (digitsTo99 n) buf)"
proof -
  have "put_pair n (int (Suc p)) buf = put_char (int p) (digitsTo99 n ! 0) (place (Suc (Suc p)) [digitsTo99 n ! 1] buf)"
    using put_char_place [OF assms, of "digitsTo99 n ! 1"] by (simp add: put_pair_def)
  also have "\<dots> = Some (place (Suc p) [digitsTo99 n ! 0] (place (Suc (Suc p)) [digitsTo99 n ! 1] buf))"
    using assms by (intro put_char_place) (simp_all add: place_def)
  also have "place (Suc p) [digitsTo99 n ! 0] (place (Suc (Suc p)) [digitsTo99 n ! 1] buf)
      = place (Suc (Suc p)) (digitsTo99 n) buf"
    using assms by (simp add: place_def digitsTo99_def)
  finally show ?thesis .
qed

lemma place_place: "length s \<le> p \<Longrightarrow> p \<le> length buf \<Longrightarrow> q = p - length s \<Longrightarrow> length t \<le> q \<Longrightarrow>
    place q t (place p s buf) = place p (t @ s) buf"
  by (simp add: place_def add.commute)

lemma cpp_writeDigits_place:
  "length buf = 64 \<Longrightarrow> p < 64 \<Longrightarrow> length (nat_to_string n) \<le> Suc p \<Longrightarrow>
   cpp_writeDigits n (int p) buf = Some (place (Suc p) (nat_to_string n) buf)"
proof (induction n arbitrary: p buf rule: less_induct)
  case (less n)
  consider "n < 10" | "10 \<le> n" "n < 100" | "100 \<le> n"
    by linarith
  then show ?case
  proof cases
    case 1
    then show ?thesis
      using less.prems by (subst cpp_writeDigits.simps) (simp add: nat_to_string_small put_char_place)
  next
    case 2
    have s: "nat_to_string n = digitsTo99 n"
      using 2 writeDigits_string [of n "[]"] by (simp add: writeDigits.simps [of n])
    then obtain q where "p = Suc q"
      using less.prems(3) by (cases p) (auto simp: digitsTo99_def)
    then show ?thesis
      using less.prems 2 put_pair_place [of buf q n] s by (subst cpp_writeDigits.simps) simp
  next
    case 3
    define d where "d = digitsTo99 (n mod 100)"
    have s: "nat_to_string n = nat_to_string (n div 100) @ d"
      using 3 writeDigits_string [of n "[]"] writeDigits_string [of "n div 100" d]
      by (simp add: writeDigits.simps [of n] d_def)
    have ne: "0 < length (nat_to_string (n div 100))"
      by (subst nat_to_string.simps) simp
    have "length d = 2"
      by (simp add: d_def digitsTo99_def)
    then obtain q where q: "p = Suc (Suc q)" "length (nat_to_string (n div 100)) \<le> Suc q"
      using less.prems(3) ne s by (cases p; cases "p - 1") auto
    have pair: "put_pair (n mod 100) (int p) buf = Some (place (Suc p) d buf)"
      using less.prems q(1) put_pair_place [of buf "Suc q" "n mod 100"] by (simp add: d_def)
    have "cpp_writeDigits n (int p) buf = cpp_writeDigits (n div 100) (int q) (place (Suc p) d buf)"
      using 3 pair q(1) by (subst cpp_writeDigits.simps) simp
    also have "\<dots> = Some (place (Suc q) (nat_to_string (n div 100)) (place (Suc p) d buf))"
      using 3 less.prems q \<open>length d = 2\<close> by (intro less.IH) (simp_all add: place_def)
    also have "place (Suc q) (nat_to_string (n div 100)) (place (Suc p) d buf) = place (Suc p) (nat_to_string n) buf"
      using less.prems q \<open>length d = 2\<close> by (simp add: s place_place)
    finally show ?thesis .
  qed
qed

lemma replicate_numeral_cons: "replicate 64 x = x # replicate 63 x"
  by (simp add: numeral_eq_Suc)

text \<open>
  The copy of \<open>dumpInteger\<close> in the source file writes what the one in the header writes, for every
  integer, and no byte outside its buffer of 64.
\<close>

theorem cpp_dumpInteger_same: "cpp_dumpInteger i = Some (dumpInteger i)"
proof (cases "i = 0")
  case False
  define a where "a = unat (word_of_int (if i < 0 then 0 - i else i) :: u64)"
  define d where "d = nat_to_string a"
  have c: "countDigits a (Suc 0) = length d"
    using countDigits_string [of a 0] by (simp add: d_def)
  have "a < 2 ^ 64"
    using unsigned_less [of "word_of_int (if i < 0 then 0 - i else i) :: u64", where ?'a = nat] by (simp add: a_def)
  then have l: "length d \<le> 20"
    using length_nat_to_string [of a 19] by (simp add: d_def)
  obtain k where k: "length d = Suc k"
    using nat_to_string.simps [of a] by (cases d) (auto simp: d_def split: if_splits)
  have w: "cpp_writeDigits a (int p) buf = Some (place (Suc p) d buf)"
    if "length buf = 64" "p < 64" "length d \<le> Suc p" for p buf
    using that cpp_writeDigits_place [of buf p a] by (simp add: d_def)
  have d: "dumpInteger i = (if i < 0 then ''-'' else []) @ d"
    using False k l by (simp add: dumpInteger_def a_def [symmetric] c writeDigits_string d_def [symmetric] Let_def)
  show ?thesis
  proof (cases "i < 0")
    case True
    then have neg: "unat (- word_of_int i :: u64) = a"
      by (simp add: a_def)
    from True show ?thesis
      using w [of "(replicate 64 (CHR 0x00))[0 := CHR ''-'']" "Suc k"] d k l
      by (simp add: cpp_dumpInteger_def neg c Let_def place_def replicate_numeral_cons)
  next
    case False
    then have pos: "unat (word_of_int i :: u64) = a"
      by (simp add: a_def)
    from False show ?thesis
      using w [of "replicate 64 (CHR 0x00)" k] d k l \<open>i \<noteq> 0\<close>
      by (simp add: cpp_dumpInteger_def pos c Let_def place_def)
  qed
qed (simp add: cpp_dumpInteger_def dumpInteger_def)

section \<open>Markup\<close>

text \<open>
  Well nested markup: text without the characters that open, close or quote markup (the quotation
  mark is harmless outside a tag), line breaks, indented blocks and links whose address is safe.
\<close>

definition text_char :: "char \<Rightarrow> bool" where
  "text_char c \<longleftrightarrow> safe_char c \<or> c = CHR 0x22"

inductive well_nested :: "string \<Rightarrow> bool" where
  chars: "list_all text_char s \<Longrightarrow> well_nested s"
| line_break: "well_nested ''<br>''"
| block: "well_nested s \<Longrightarrow> well_nested (''<div class=tab>'' @ s @ ''</div>'')"
| link: "list_all safe_char t \<Longrightarrow> well_nested s \<Longrightarrow>
     well_nested (''<a href='' @ quote_tag @ t @ quote_tag @ ''>'' @ s @ ''</a>'')"
| join: "well_nested s \<Longrightarrow> well_nested t \<Longrightarrow> well_nested (s @ t)"

lemma safe_is_text: "list_all safe_char s \<Longrightarrow> list_all text_char s"
  by (auto simp: list_all_iff text_char_def)

definition fixed_pieces :: "string list" where
  "fixed_pieces = [''{}'', ''[]'', ''{'', ''}'', ''['', '']'', '','', [], ''&quot'', ''&quot: '', ''true'', ''false'', ''null'', quote_tag]"

lemma fixed_text: "s \<in> set fixed_pieces \<Longrightarrow> list_all text_char s"
proof -
  have "list_all (list_all text_char) fixed_pieces"
    by code_simp
  then show "s \<in> set fixed_pieces \<Longrightarrow> list_all text_char s"
    by (simp add: list_all_iff)
qed

lemma digit_text: "(n :: nat) < 10 \<Longrightarrow> safe_char (char_of (48 + n))"
  by (simp add: safe_code)

lemma number_text: "list_all safe_char (nat_to_string n)"
proof (induction n rule: nat_to_string.induct)
  case (1 n)
  then show ?case
    using digit_text [of n] digit_text [of "n mod 10"] nat_to_string_small [of n] nat_to_string_step [of n]
    by (cases "n < 10") simp_all
qed

lemma dumpInteger_text: "list_all safe_char (dumpInteger i)"
proof -
  have "countDigits n 1 = length (nat_to_string n)" for n
    using countDigits_string [of n 0] by simp
  moreover have "list_all safe_char ''-0''"
    by code_simp
  ultimately show ?thesis
    by (simp add: dumpInteger_def writeDigits_string Let_def number_text)
qed

lemma nested_fixed: "s \<in> set fixed_pieces \<Longrightarrow> well_nested s"
  using fixed_text chars by blast

lemma nested_safe: "list_all safe_char s \<Longrightarrow> well_nested s"
  using safe_is_text chars by blast

lemma nested_escaped: "dumpEscaped s = Some t \<Longrightarrow> well_nested t"
  using dumpEscaped_safe nested_safe by blast

lemma nested_quoted: "well_nested s \<Longrightarrow> well_nested (quote_tag @ s @ quote_tag)"
proof -
  have "well_nested quote_tag"
    by (rule nested_fixed) (simp add: fixed_pieces_def)
  then show "well_nested s \<Longrightarrow> well_nested (quote_tag @ s @ quote_tag)"
    by (intro join)
qed

lemma nested_block:
  assumes "well_nested s" "a \<in> set fixed_pieces" "b \<in> set fixed_pieces"
  shows "well_nested (a @ ''<div class=tab>'' @ s @ ''</div>'' @ b)"
  using join [OF join [OF nested_fixed [OF assms(2)] block [OF assms(1)]] nested_fixed [OF assms(3)]] by simp

text \<open>A member: its name, its value, in a link for the names of links, and a break.\<close>

lemma nested_member:
  assumes "list_all safe_char key" "well_nested v" "well_nested rest" "c \<in> {[], '',''}"
    and "link \<and> list_all safe_char t \<and> a = ''<a href='' @ quote_tag @ t @ quote_tag @ ''>'' \<and> z = ''</a>'' \<or> a = [] \<and> z = []"
  shows "well_nested (''&quot'' @ key @ ''&quot: '' @ a @ v @ z @ c @ ''<br>'' @ rest)"
proof -
  define w where "w = a @ v @ z"
  have "well_nested w"
    using assms(2,5) well_nested.link by (auto simp: w_def)
  moreover have "well_nested ''&quot''" "well_nested ''&quot: ''" "well_nested c"
    using assms(4) by (auto intro!: nested_fixed simp: fixed_pieces_def)
  ultimately have "well_nested (''&quot'' @ key @ ''&quot: '' @ w @ c @ ''<br>'' @ rest)"
    using nested_safe [OF assms(1)] assms(3) by (intro join line_break)
  then show ?thesis
    by (simp add: w_def)
qed

lemma nested_words: "well_nested ''true''" "well_nested ''false''" "well_nested ''null''" "well_nested []"
  by (rule nested_fixed, simp add: fixed_pieces_def)+

lemma dump_nested:
  assumes "\<And>d. list_all safe_char (to_chars d)"
  shows "dump to_chars j = Some s \<Longrightarrow> well_nested s"
    and "dumpMembers to_chars m = Some s' \<Longrightarrow> well_nested s'"
    and "dumpElements to_chars xs = Some s'' \<Longrightarrow> well_nested s''"
  using assms
proof (induction to_chars j and to_chars m and to_chars xs arbitrary: s and s' and s'' rule: dump_dumpMembers_dumpElements.induct)
  case (1 to_chars m)
  show ?case
  proof (cases "m = []")
    case False
    then obtain z where "dumpMembers to_chars m = Some z" "s = ''{'' @ ''<div class=tab>'' @ z @ ''</div>'' @ ''}''"
      using "1.prems"(1) by auto
    then show ?thesis
      using "1.IH" False "1.prems"(2) nested_block [of z "''{''" "''}''"] by (simp add: fixed_pieces_def)
  qed (use "1.prems" in \<open>auto intro!: nested_fixed simp: fixed_pieces_def\<close>)
next
  case (2 to_chars xs)
  show ?case
  proof (cases "xs = []")
    case False
    then obtain z where "dumpElements to_chars xs = Some z" "s = ''['' @ ''<div class=tab>'' @ z @ ''</div>'' @ '']''"
      using "2.prems"(1) by auto
    then show ?thesis
      using "2.IH" False "2.prems"(2) nested_block [of z "''[''" "'']''"] by (simp add: fixed_pieces_def)
  qed (use "2.prems" in \<open>auto intro!: nested_fixed simp: fixed_pieces_def\<close>)
next
  case (3 to_chars s0)
  then show ?case
    using nested_quoted nested_escaped by auto
next
  case (11 to_chars k v m)
  obtain key la v' rest where parts: "dumpEscaped k = Some key" 
      "(if k \<in> set link_keys
        then (case v of JString s \<Rightarrow> map_option (\<lambda>t. ''<a href='' @ quote_tag @ t @ quote_tag @ ''>'') (dumpEscaped s)
              | _ \<Rightarrow> None)
        else Some []) = Some la"
      "dump to_chars v = Some v'" "dumpMembers to_chars m = Some rest"
    using "11.prems"(1) by (auto split: option.splits)
  then have nest: "list_all safe_char key" "well_nested v'" "well_nested rest"
    using "11.IH"(1) [OF parts(1,2,3)] "11.IH"(2) [OF parts(1,2,3,4)] "11.prems"(2) dumpEscaped_safe by blast+
  have c: "(if m \<noteq> [] then '','' else []) \<in> {[], '',''}"
    by simp
  show ?case
  proof (cases "k \<in> set link_keys")
    case True
    then obtain l t where "dumpEscaped l = Some t" and la: "la = ''<a href='' @ quote_tag @ t @ quote_tag @ ''>''"
      using parts(2) by (auto split: json.splits)
    then have "list_all safe_char t"
      using dumpEscaped_safe by blast
    moreover have "s' = ''&quot'' @ key @ ''&quot: '' @ la @ v' @ ''</a>'' @ (if m \<noteq> [] then '','' else []) @ ''<br>'' @ rest"
      using "11.prems"(1) parts True by simp
    ultimately show ?thesis
      using la nested_member [OF nest c, of True t la "''</a>''"] by (simp only: simp_thms)
  next
    case False
    then show ?thesis
      using "11.prems"(1) parts nested_member [OF nest c, of False "[]" "[]" "[]"] by simp
  qed
next
  case (13 to_chars x xs)
  show ?case
  proof (cases "xs = []")
    case True
    then show ?thesis
      using "13.IH"(1) "13.prems" by (auto split: option.splits)
  next
    case False
    then obtain t rest where parts: "dump to_chars x = Some t" "dumpElements to_chars xs = Some rest"
        "s'' = t @ '','' @ ''<br>'' @ rest"
      using "13.prems"(1) by (auto split: option.splits)
    then have "well_nested t" "well_nested rest"
      using "13.IH" "13.prems"(2) False by auto
    moreover have "well_nested '',''"
      by (rule nested_fixed) (simp add: fixed_pieces_def)
    ultimately show ?thesis
      unfolding parts(3) by (intro join line_break)
  qed
qed (auto simp: dumpfloat_def intro: nested_words nested_safe dumpInteger_text)

text \<open>
  C22: Whatever bytes the names and strings of a value hold, valid UTF-8 or not, what \<open>dump\<close> writes is
  well nested: only the tags that \<open>dump\<close> writes itself, each closed, and no character of the value
  ends up as part of a tag, provided numbers are written without such characters.
\<close>

theorem dump_well_nested:
  assumes "\<And>d. list_all safe_char (to_chars d)" "dump to_chars j = Some s"
  shows "well_nested s"
  using dump_nested(1) assms by blast

theorem dump_well_nested_witness:
  "\<exists>s. dump (\<lambda>d. ''1.5'') (JObject [(''@odata.id'', JString ''</a>''), (''n'', JFloat 0)]) = Some s \<and> well_nested s"
proof -
  have "list_all safe_char ''1.5''"
    by code_simp
  moreover have "dump (\<lambda>d. ''1.5'') (JObject [(''@odata.id'', JString ''</a>''), (''n'', JFloat 0)]) \<noteq> None"
    by code_simp
  ultimately show ?thesis
    using dump_well_nested [of "\<lambda>d. ''1.5''" "JObject [(''@odata.id'', JString ''</a>''), (''n'', JFloat 0)]"] by blast
qed

end
