(* ===== verification/IpUtils.thy ===== *)
theory IpUtils
  imports Prelude Response
begin

text \<open>
  Addresses as text: \<open>utils/ip_utils.hpp\<close>. \<open>ipv4VerifyIpAndGetBitcount\<close> splits a string at its dots,
  reads four bytes with \<open>strtol\<close> and, when asked for, counts the leading bits of a subnet mask.
  The result is the returned flag and what is behind the pointer, which may be null (\<open>None\<close>).
  The lemmas say exactly which strings are addresses and which are subnet masks.
\<close>

section \<open>Printing an address\<close>

text \<open>The address classes belong to the library; their texts are arguments.\<close>

definition ip_toString :: "('a \<Rightarrow> bool) \<Rightarrow> ('a \<Rightarrow> bool) \<Rightarrow> ('a \<Rightarrow> string) \<Rightarrow> ('a \<Rightarrow> string) \<Rightarrow> 'a \<Rightarrow> string" where
  "ip_toString is_v6 is_v4_mapped v4_text text_of ipAddr =
     (if is_v6 ipAddr \<and> is_v4_mapped ipAddr then v4_text ipAddr else text_of ipAddr)"

section \<open>Reading an IPv4 address\<close>

text \<open>\<open>boost::split\<close> at every dot; there is always one piece more than dots.\<close>

fun split_dots :: "string \<Rightarrow> string list" where
  "split_dots [] = [[]]"
| "split_dots (c # cs) =
     (if c = CHR ''.'' then [] # split_dots cs
      else case split_dots cs of [] \<Rightarrow> [[c]] | p # ps \<Rightarrow> (c # p) # ps)"

text \<open>\<open>strtol\<close> on \<open>c_str()\<close>: what stands before the first zero byte.\<close>

definition c_str :: "string \<Rightarrow> string" where
  "c_str s = takeWhile (\<lambda>c. c \<noteq> CHR 0x00) s"

text \<open>The bits of a byte from the highest on: they must be ones followed by zeros.\<close>

fun count_bits :: "int \<Rightarrow> nat list \<Rightarrow> bool \<Rightarrow> u8 \<Rightarrow> bool \<times> u8" where
  "count_bits value [] firstZeroInByteHit bits = (True, bits)"
| "count_bits value (bitIdx # idxs) firstZeroInByteHit bits =
     (if bit value bitIdx
      then if firstZeroInByteHit then (False, bits)
           else count_bits value idxs firstZeroInByteHit (bits + 1)
      else count_bits value idxs True bits)"

definition bit_indexes :: "nat list" where
  "bit_indexes = [7, 6, 5, 4, 3, 2, 1, 0]"

fun verify_bytes :: "string list \<Rightarrow> int \<Rightarrow> u8 option \<Rightarrow> bool \<times> u8 option" where
  "verify_bytes [] previousValue bits = (True, bits)"
| "verify_bytes (b # bs) previousValue bits =
     (if b = [] then (False, bits)
      else
        let r = strtoll (c_str b); value = p_value r
        in if p_len r \<noteq> length (c_str b) then (False, bits)
           else if value < 0 \<or> value > 255 then (False, bits)
           else case bits of
               None \<Rightarrow> verify_bytes bs value None
             | Some n \<Rightarrow>
                 if previousValue \<noteq> 255 \<and> value \<noteq> 0 then (False, bits)
                 else case count_bits value bit_indexes False n of
                     (ok, n') \<Rightarrow> if ok then verify_bytes bs value (Some n') else (False, Some n'))"

definition ipv4VerifyIpAndGetBitcount :: "string \<Rightarrow> u8 option \<Rightarrow> bool \<times> u8 option" where
  "ipv4VerifyIpAndGetBitcount ip bits =
     (let bytesInMask = split_dots ip
      in if length bytesInMask \<noteq> 4 then (False, bits)
         else verify_bytes bytesInMask 255 (map_option (\<lambda>_. 0) bits))"

section \<open>Which strings are accepted\<close>

text \<open>The number a piece stands for, if it is one of a byte.\<close>

definition ip_byte :: "string \<Rightarrow> int option" where
  "ip_byte b =
     (let r = strtoll (c_str b)
      in if b \<noteq> [] \<and> p_len r = length (c_str b) \<and> 0 \<le> p_value r \<and> p_value r \<le> 255 then Some (p_value r) else None)"

lemma verify_bytes_Cons:
  "verify_bytes (b # bs) prev bits =
     (case ip_byte b of
        None \<Rightarrow> (False, bits)
      | Some v \<Rightarrow>
          (case bits of
             None \<Rightarrow> verify_bytes bs v None
           | Some n \<Rightarrow>
               if prev \<noteq> 255 \<and> v \<noteq> 0 then (False, bits)
               else case count_bits v bit_indexes False n of
                   (ok, n') \<Rightarrow> if ok then verify_bytes bs v (Some n') else (False, Some n')))"
  by (auto simp: ip_byte_def Let_def split: option.split)

lemma verify_address: "fst (verify_bytes bs prev None) \<longleftrightarrow> list_all (\<lambda>b. ip_byte b \<noteq> None) bs"
proof (induction bs arbitrary: prev)
  case (Cons b bs)
  then show ?case
    unfolding verify_bytes_Cons by (simp split: option.split)
qed simp

text \<open>A byte of ones followed by zeros, and the four bytes of a subnet mask of \<open>n\<close> ones.\<close>

definition mask_octet :: "nat \<Rightarrow> int" where
  "mask_octet j = 256 - 2 ^ (8 - j)"

fun mask_bytes :: "nat \<Rightarrow> nat \<Rightarrow> int list" where
  "mask_bytes 0 n = []"
| "mask_bytes (Suc l) n = mask_octet (min 8 n) # mask_bytes l (n - 8)"

definition netmask :: "nat \<Rightarrow> int list" where
  "netmask n = mask_bytes 4 n"

lemma count_bits_from: "count_bits v idxs z b = (fst (count_bits v idxs z 0), b + snd (count_bits v idxs z 0))"
proof (induction idxs arbitrary: z b)
  case (Cons i idxs)
  show ?case
    using Cons.IH [of False "b + 1"] Cons.IH [of False 1] Cons.IH [of True b] by (simp add: add.assoc)
qed simp

lemma count_bits_octet:
  "0 \<le> v \<Longrightarrow> v \<le> 255 \<Longrightarrow>
     fst (count_bits v bit_indexes False 0) \<longleftrightarrow> (\<exists>j < 9. v = mask_octet j)"
  "j \<le> 8 \<Longrightarrow> count_bits (mask_octet j) bit_indexes False 0 = (True, word_of_nat j)"
proof -
  have all: "list_all (\<lambda>v. fst (count_bits v bit_indexes False 0) = list_ex (\<lambda>j. v = mask_octet j) [0..<9]) [0..255]"
    by code_simp
  have oct: "list_all (\<lambda>j. count_bits (mask_octet j) bit_indexes False 0 = (True, word_of_nat j)) [0..<9]"
    by code_simp
  show "0 \<le> v \<Longrightarrow> v \<le> 255 \<Longrightarrow>
     fst (count_bits v bit_indexes False 0) \<longleftrightarrow> (\<exists>j < 9. v = mask_octet j)"
    using all by (auto simp: list_all_iff list_ex_iff)
  show "j \<le> 8 \<Longrightarrow> count_bits (mask_octet j) bit_indexes False 0 = (True, word_of_nat j)"
    using oct by (simp add: list_all_iff)
qed

text \<open>The bytes of a mask: all ones, then one octet, then zeros.\<close>

lemma octet_range: "0 \<le> mask_octet j" "mask_octet j \<le> 255"
proof -
  have "(2 :: int) ^ (8 - j) \<le> 2 ^ 8"
    by (rule power_increasing) simp_all
  then show "0 \<le> mask_octet j"
    by (simp add: mask_octet_def)
qed (simp add: mask_octet_def)

lemma octet_full: "mask_octet j = 255 \<longleftrightarrow> 8 \<le> j"
  using power_inject_exp [of "2 :: int" "8 - j" 0] by (auto simp: mask_octet_def)

lemma octet_zero: "mask_octet 0 = 0"
  by (simp add: mask_octet_def)

lemma octet_inj: "i \<le> 8 \<Longrightarrow> j \<le> 8 \<Longrightarrow> mask_octet i = mask_octet j \<Longrightarrow> i = j"
  by (simp add: mask_octet_def)

lemma verify_octet:
  "verify_bytes (b # bs) prev (Some n) = (True, Some m) \<longleftrightarrow>
     (\<exists>j \<le> 8. ip_byte b = Some (mask_octet j) \<and> (prev = 255 \<or> j = 0)
        \<and> verify_bytes bs (mask_octet j) (Some (n + word_of_nat j)) = (True, Some m))"
proof (cases "ip_byte b")
  case (Some v)
  have range: "0 \<le> v" "v \<le> 255"
    using Some by (auto simp: ip_byte_def Let_def split: if_splits)
  show ?thesis
  proof (cases "\<exists>j < 9. v = mask_octet j")
    case True
    then obtain j where "j < 9" and v: "v = mask_octet j"
      by blast
    then have j: "j \<le> 8" "v = mask_octet j"
      by simp_all
    have "count_bits v bit_indexes False n = (True, n + word_of_nat j)"
      using count_bits_from [of v bit_indexes False n] count_bits_octet(2) j by simp
    moreover have "(\<exists>i \<le> 8. v = mask_octet i \<and> P i) \<longleftrightarrow> P j" for P
      using j octet_inj by blast
    moreover have "v = 0 \<longleftrightarrow> j = 0"
      using j octet_inj [of j 0] octet_zero by auto
    ultimately show ?thesis
      using Some j(2) unfolding verify_bytes_Cons by simp
  next
    case False
    then have "\<not> fst (count_bits v bit_indexes False n)"
      using count_bits_octet(1) [OF range] count_bits_from [of v bit_indexes False n] by (metis fst_conv)
    moreover have "\<not> (\<exists>j \<le> 8. v = mask_octet j)"
      using False by (simp flip: less_Suc_eq_le)
    ultimately show ?thesis
      using Some unfolding verify_bytes_Cons by (auto split: prod.splits)
  qed
qed (simp add: verify_bytes_Cons del: verify_bytes.simps)

lemma mask_bytes_0: "mask_bytes l 0 = replicate l 0"
  by (induction l) (simp_all add: octet_zero)

lemma verify_zeros:
  "prev \<noteq> 255 \<Longrightarrow> verify_bytes bs prev (Some n) = (True, Some m) \<longleftrightarrow>
     map ip_byte bs = replicate (length bs) (Some 0) \<and> m = n"
proof (induction bs arbitrary: prev)
  case (Cons b bs)
  then show ?case
    using Cons.IH [of 0] unfolding verify_octet by (auto simp: octet_zero)
qed auto

lemma verify_mask_sound:
  "verify_bytes bs 255 (Some n) = (True, Some m) \<Longrightarrow>
     \<exists>k \<le> 8 * length bs. map ip_byte bs = map Some (mask_bytes (length bs) k) \<and> m = n + word_of_nat k"
proof (induction bs arbitrary: n)
  case (Cons b bs)
  then obtain j where j: "j \<le> 8" "ip_byte b = Some (mask_octet j)"
    and rest: "verify_bytes bs (mask_octet j) (Some (n + word_of_nat j)) = (True, Some m)"
    unfolding verify_octet by blast
  show ?case
  proof (cases "j = 8")
    case True
    then have "verify_bytes bs 255 (Some (n + 8)) = (True, Some m)"
      using rest octet_full [of 8] by simp
    then obtain k where "k \<le> 8 * length bs" "map ip_byte bs = map Some (mask_bytes (length bs) k)" "m = n + 8 + word_of_nat k"
      using Cons.IH by blast
    then show ?thesis
      using j True by (intro exI [of _ "k + 8"]) (simp add: min_def)
  next
    case False
    then have "mask_octet j \<noteq> 255"
      using j octet_full [of j] by simp
    then have "map ip_byte bs = replicate (length bs) (Some 0)" "m = n + word_of_nat j"
      using rest verify_zeros by blast+
    then show ?thesis
      using j False by (intro exI [of _ j]) (simp add: min_def mask_bytes_0)
  qed
qed simp

lemma verify_mask_complete:
  "k \<le> 8 * length bs \<Longrightarrow> map ip_byte bs = map Some (mask_bytes (length bs) k) \<Longrightarrow>
     verify_bytes bs 255 (Some n) = (True, Some (n + word_of_nat k))"
proof (induction bs arbitrary: n k)
  case (Cons b bs)
  have b: "ip_byte b = Some (mask_octet (min 8 k))"
    and bs: "map ip_byte bs = map Some (mask_bytes (length bs) (k - 8))"
    using Cons.prems(2) by simp_all
  show ?case
  proof (cases "8 \<le> k")
    case True
    then have "verify_bytes bs 255 (Some (n + 8)) = (True, Some (n + 8 + word_of_nat (k - 8)))"
      using Cons.prems(1) bs by (intro Cons.IH) simp_all
    moreover have "n + 8 + word_of_nat (k - 8) = n + word_of_nat k"
      using True by simp
    ultimately show ?thesis
      unfolding verify_octet using True b octet_full [of 8] by (intro exI [of _ 8]) (simp add: min_def)
  next
    case False
    then have "map ip_byte bs = replicate (length bs) (Some 0)" "mask_octet k \<noteq> 255"
      using bs octet_full [of k] by (simp_all add: mask_bytes_0)
    then show ?thesis
      unfolding verify_octet using False b verify_zeros by (intro exI [of _ k]) (simp add: min_def)
  qed
qed simp


text \<open>\<open>strtol\<close> also takes signs and white space.\<close>

lemma sloppy_address_accepted: "fst (ipv4VerifyIpAndGetBitcount ''+1. 2.-0.3'' None)"
  by code_simp

lemma netmask_20: "ipv4VerifyIpAndGetBitcount ''255.255.240.0'' (Some 7) = (True, Some 20)"
  by code_simp

end
