(* ===== verification/UrlUtils.thy ===== *)
theory UrlUtils
  imports Prelude
begin

text \<open>
  URLs and comparison: the last part of \<open>http/utility.hpp\<close>. A URL is what the code uses of the
  library's class: its scheme, the number of its port (0 when there is none), whether its path is
  absolute, and the segments of the path. The variables a pattern extracts to are numbered and kept
  in a store. The lemmas say which paths a pattern accepts and what it extracts.
\<close>

section \<open>Comparison in constant time\<close>

text \<open>\<open>CRYPTO_memcmp\<close>: zero exactly for equal bytes; all of them are always looked at.\<close>

fun CRYPTO_memcmp :: "string \<Rightarrow> string \<Rightarrow> u8 \<Rightarrow> u8" where
  "CRYPTO_memcmp (a # as) (b # bs) x = CRYPTO_memcmp as bs (x OR (byte a XOR byte b))"
| "CRYPTO_memcmp as bs x = x"

definition constantTimeStringCompare :: "string \<Rightarrow> string \<Rightarrow> bool" where
  "constantTimeStringCompare a b =
     (if length a \<noteq> length b then False else CRYPTO_memcmp a b 0 = 0)"

definition ConstantTimeCompare :: "string \<Rightarrow> string \<Rightarrow> bool" where
  "ConstantTimeCompare a b = constantTimeStringCompare a b"

section \<open>Paths\<close>

record url =
  url_scheme :: "string option"
  url_port :: u16
  url_absolute :: bool
  url_segments :: "string list"

text \<open>\<open>boost::urls::url("/")\<close>: an absolute path without segments.\<close>

definition root_url :: url where
  "root_url = \<lparr>url_scheme = None, url_port = 0, url_absolute = True, url_segments = []\<rparr>"

definition push_segment :: "string \<Rightarrow> url \<Rightarrow> url" where
  "push_segment s u = u\<lparr>url_segments := url_segments u @ [s]\<rparr>"

definition appendUrlPieces :: "url \<Rightarrow> string list \<Rightarrow> url" where
  "appendUrlPieces u args = fold push_segment args u"

datatype UrlSegment = Extract nat | Expected string | OrMorePaths

datatype UrlParseResult = Continue | Fail | Done

type_synonym outputs = "nat \<Rightarrow> string"

fun visit_segment :: "string \<Rightarrow> UrlSegment \<Rightarrow> outputs \<Rightarrow> UrlParseResult \<times> outputs" where
  "visit_segment segment (Extract x) out = (Continue, out(x := segment))"
| "visit_segment segment (Expected expected) out = (if segment = expected then Continue else Fail, out)"
| "visit_segment segment OrMorePaths out = (Done, out)"

text \<open>The loop over the pattern; \<open>segs\<close> is what is left of the path.\<close>

fun readSegments :: "UrlSegment list \<Rightarrow> string list \<Rightarrow> outputs \<Rightarrow> bool \<times> outputs" where
  "readSegments [] segs out = (segs = [] \<or> length segs = 1 \<and> last segs = [], out)"
| "readSegments (p # ps) [] out = (p = OrMorePaths, out)"
| "readSegments (p # ps) (s # segs) out =
     (case visit_segment s p out of
        (Done, out') \<Rightarrow> (True, out')
      | (Fail, out') \<Rightarrow> (False, out')
      | (Continue, out') \<Rightarrow> readSegments ps segs out')"

definition readUrlSegments :: "url \<Rightarrow> UrlSegment list \<Rightarrow> outputs \<Rightarrow> bool \<times> outputs" where
  "readUrlSegments u segments out =
     (if \<not> url_absolute u then (False, out) else readSegments segments (url_segments u) out)"

fun replaceLoop :: "nat \<Rightarrow> nat \<Rightarrow> string \<Rightarrow> string list \<Rightarrow> url \<Rightarrow> url" where
  "replaceLoop idx replaceLoc newSegment [] u = u"
| "replaceLoop idx replaceLoc newSegment (s # segs) u =
     replaceLoop (idx + 1) replaceLoc newSegment segs
       (push_segment (if idx = replaceLoc then newSegment else s) u)"

definition replaceUrlSegment :: "url \<Rightarrow> nat \<Rightarrow> string \<Rightarrow> url" where
  "replaceUrlSegment urlView replaceLoc newSegment =
     (if \<not> url_absolute urlView then root_url
      else replaceLoop 0 replaceLoc newSegment (url_segments urlView) root_url)"

section \<open>Defaults of destinations\<close>

text \<open>\<open>insecure\<close> is the build option \<open>bmcwebInsecureEnableHttpPushStyleEventing\<close>.\<close>

definition setProtocolDefaults :: "bool \<Rightarrow> url \<Rightarrow> string \<Rightarrow> url" where
  "setProtocolDefaults insecure u protocol =
     (if url_scheme u \<noteq> None then u
      else if protocol = ''Redfish'' \<or> protocol = [] then
        let u1 = (if url_port u = 443 then u\<lparr>url_scheme := Some ''https''\<rparr> else u)
        in if url_port u1 = 80 \<and> insecure then u1\<lparr>url_scheme := Some ''http''\<rparr> else u1
      else if protocol = ''SNMPv2c'' then u\<lparr>url_scheme := Some ''snmp''\<rparr>
      else u)"

definition setPortDefaults :: "url \<Rightarrow> url" where
  "setPortDefaults u =
     (if url_port u \<noteq> 0 then u
      else
        let u1 = (if url_scheme u = Some ''http'' then u\<lparr>url_port := 80\<rparr> else u);
            u2 = (if url_scheme u1 = Some ''https'' then u1\<lparr>url_port := 443\<rparr> else u1)
        in if url_scheme u2 = Some ''snmp'' then u2\<lparr>url_port := 162\<rparr> else u2)"

section \<open>What the comparison does\<close>

lemma xor_zero_iff: "x XOR y = 0 \<longleftrightarrow> x = (y :: u8)"
  by (metis xor.left_commute xor.right_neutral xor_self_eq)

lemma memcmp_zero: "length a = length b \<Longrightarrow> CRYPTO_memcmp a b x = 0 \<longleftrightarrow> x = 0 \<and> a = b"
  by (induction a b x rule: CRYPTO_memcmp.induct) (auto simp: or_eq_0_iff xor_zero_iff)

lemma constant_time_equal: "constantTimeStringCompare a b \<longleftrightarrow> a = b"
  by (auto simp: constantTimeStringCompare_def memcmp_zero)

section \<open>What a pattern matches\<close>

fun segment_matches :: "UrlSegment \<Rightarrow> string \<Rightarrow> bool" where
  "segment_matches (Extract x) s = True"
| "segment_matches (Expected t) s = (s = t)"
| "segment_matches OrMorePaths s = False"

text \<open>
  A pattern up to its first \<open>OrMorePaths\<close>, if it has one: without it the path must have exactly
  these segments, but for one trailing slash; with it, it must begin with them.
\<close>

definition fixed_part :: "UrlSegment list \<Rightarrow> UrlSegment list" where
  "fixed_part ps = takeWhile (\<lambda>p. p \<noteq> OrMorePaths) ps"

definition matches :: "UrlSegment list \<Rightarrow> string list \<Rightarrow> bool" where
  "matches ps segs \<longleftrightarrow>
     (let n = length (fixed_part ps) in
      n \<le> length segs \<and> list_all2 segment_matches (fixed_part ps) (take n segs)
      \<and> (OrMorePaths \<in> set ps \<or> drop n segs = [] \<or> drop n segs = [[]]))"

text \<open>The variables after a match: each holds the last segment that was extracted to it.\<close>

definition extracted :: "UrlSegment list \<Rightarrow> string list \<Rightarrow> outputs \<Rightarrow> outputs" where
  "extracted ps segs out =
     fold (\<lambda>(p, s) o'. case p of Extract x \<Rightarrow> o'(x := s) | _ \<Rightarrow> o') (zip (fixed_part ps) segs) out"

lemma matches_simps:
  "matches [] segs \<longleftrightarrow> segs = [] \<or> segs = [[]]"
  "matches (OrMorePaths # ps) segs"
  "p \<noteq> OrMorePaths \<Longrightarrow> \<not> matches (p # ps) []"
  "p \<noteq> OrMorePaths \<Longrightarrow> matches (p # ps) (t # segs) \<longleftrightarrow> segment_matches p t \<and> matches ps segs"
  by (auto simp: matches_def fixed_part_def Let_def)

lemma extracted_simps:
  "extracted [] segs out = out"
  "extracted (OrMorePaths # ps) segs out = out"
  "extracted (Extract x # ps) (t # segs) out = extracted ps segs (out(x := t))"
  "extracted (Expected e # ps) (t # segs) out = extracted ps segs out"
  by (simp_all add: extracted_def fixed_part_def)

lemma readSegments_matches:
  "fst (readSegments ps segs out) = matches ps segs
   \<and> (matches ps segs \<longrightarrow> snd (readSegments ps segs out) = extracted ps segs out)"
proof (induction ps arbitrary: segs out)
  case Nil
  show ?case
    by (cases segs) (auto simp: matches_simps extracted_simps)
next
  case (Cons p ps)
  then show ?case
    by (cases p; cases segs) (simp_all add: matches_simps extracted_simps fun_upd_def)
qed

text \<open>
  C39: \<open>readUrlSegments\<close> accepts exactly the absolute paths that match its pattern: the segments in
  order with at most one trailing slash, or any continuation where the pattern says so. Then every
  variable holds the segment at its place.
\<close>

theorem readUrlSegments_matches:
  "(fst (readUrlSegments u ps out) \<longleftrightarrow> url_absolute u \<and> matches ps (url_segments u))
   \<and> (fst (readUrlSegments u ps out) \<longrightarrow>
       snd (readUrlSegments u ps out) = extracted ps (url_segments u) out)"
  using readSegments_matches [of ps "url_segments u" out] by (simp_all add: readUrlSegments_def)

theorem readUrlSegments_matches_witness:
  "fst (readUrlSegments (root_url\<lparr>url_segments := [''redfish'', ''v1'', ''Chassis'', ''c1'', []]\<rparr>)
      [Expected ''redfish'', Expected ''v1'', Expected ''Chassis'', Extract 0] (\<lambda>x. []))
   \<and> snd (readUrlSegments (root_url\<lparr>url_segments := [''redfish'', ''v1'', ''Chassis'', ''c1'', []]\<rparr>)
      [Expected ''redfish'', Expected ''v1'', Expected ''Chassis'', Extract 0] (\<lambda>x. [])) 0 = ''c1''"
  using readUrlSegments_matches [of "root_url\<lparr>url_segments := [''redfish'', ''v1'', ''Chassis'', ''c1'', []]\<rparr>"
      "[Expected ''redfish'', Expected ''v1'', Expected ''Chassis'', Extract 0]" "\<lambda>x. []"]
  by (simp add: matches_simps extracted_simps root_url_def)

lemma replaceLoop_segments:
  "url_segments (replaceLoop i n t segs u) = url_segments u @ (if i \<le> n then segs[n - i := t] else segs)"
proof (induction i n t segs u rule: replaceLoop.induct)
  case (2 idx n t s segs u)
  consider "idx < n" | "idx = n" | "n < idx"
    by linarith
  then show ?case
  proof cases
    case 1
    then have "n - idx = Suc (n - Suc idx)"
      by simp
    then show ?thesis
      using 1 2 by (simp add: push_segment_def)
  qed (use 2 in \<open>simp_all add: push_segment_def\<close>)
qed simp

lemma replaceUrlSegment_segments:
  "url_absolute u \<Longrightarrow> url_segments (replaceUrlSegment u n t) = (url_segments u)[n := t]"
  by (simp add: replaceUrlSegment_def replaceLoop_segments root_url_def)

lemma appendUrlPieces_segments: "url_segments (appendUrlPieces u args) = url_segments u @ args"
proof -
  have "url_segments (fold push_segment args u) = url_segments u @ args"
    by (induction args arbitrary: u) (simp_all add: push_segment_def)
  then show ?thesis
    by (simp add: appendUrlPieces_def)
qed

text \<open>
  A path that is built from pieces is read back by a pattern that extracts each piece to a variable
  of its own.
\<close>

lemma extract_all:
  assumes "distinct xs" "length xs = length args"
  shows "matches (map Extract xs) args"
    and "map (extracted (map Extract xs) args out) xs = args"
proof -
  have other: "x \<notin> set xs \<Longrightarrow> length xs = length args \<Longrightarrow> extracted (map Extract xs) args out x = out x" for x xs args out
  proof (induction xs arbitrary: args out)
    case (Cons y ys)
    then show ?case
      by (cases args) (simp_all add: extracted_simps)
  qed (simp add: extracted_simps)
  show "matches (map Extract xs) args"
    using assms(2)
  proof (induction xs arbitrary: args)
    case (Cons y ys)
    then show ?case
      by (cases args) (simp_all add: matches_simps)
  qed (simp add: matches_simps)
  show "map (extracted (map Extract xs) args out) xs = args"
    using assms
  proof (induction xs arbitrary: args out)
    case (Cons y ys)
    then show ?case
      by (cases args) (simp_all add: extracted_simps other)
  qed simp
qed

text \<open>The port of a destination whose scheme is known, or was set from its port.\<close>

lemma defaults_agree:
  assumes "url_scheme u = None" "u' = setPortDefaults (setProtocolDefaults insecure u protocol)"
  shows "url_segments u' = url_segments u" "url_port u \<noteq> 0 \<longrightarrow> url_port u' = url_port u"
    and "url_scheme u' = Some ''https'' \<longrightarrow> url_port u' = 443"
    and "url_scheme u' = Some ''http'' \<longrightarrow> url_port u' = 80 \<and> insecure"
    and "protocol = ''SNMPv2c'' \<longrightarrow> url_scheme u' = Some ''snmp'' \<and> url_port u' \<noteq> 0"
  using assms by (auto simp: setPortDefaults_def setProtocolDefaults_def Let_def)

end
