(* ===== verification/Tls.thy ===== *)
theory Tls
  imports Sessions
begin

text \<open>
  TLS: client certificates as logins (\<open>http/mutual_tls.hpp\<close>), and the server's key file and TLS
  contexts (\<open>ssl_key_handler.hpp\<close>). OpenSSL is not modelled: what its functions return is an input,
  what the code asks it to do is an output. The constants are the documented ones of its headers.
\<close>

section \<open>Logging in with a client certificate\<close>

text \<open>What the code reads of a certificate; a missing extension or name is \<open>None\<close>.\<close>

record certificate =
  ct_key_usage :: "u8 list option"
  ct_ext_key_usage :: "int list option"
  ct_common_name :: "string option"

record verify_context =
  vc_native_handle :: bool
  vc_current_cert :: "certificate option"
  vc_error :: int
  vc_error_depth :: int

definition X509_V_OK :: int where "X509_V_OK = 0"
definition KU_DIGITAL_SIGNATURE :: u8 where "KU_DIGITAL_SIGNATURE = 0x80"
definition KU_KEY_AGREEMENT :: u8 where "KU_KEY_AGREEMENT = 0x08"
definition NID_client_auth :: int where "NID_client_auth = 130"

text \<open>The loop over the bytes of the key usage.\<close>

fun usage_flags :: "u8 list \<Rightarrow> bool \<Rightarrow> bool \<Rightarrow> bool \<times> bool" where
  "usage_flags [] sig agr = (sig, agr)"
| "usage_flags (usageChar # us) sig agr =
     usage_flags us (if KU_DIGITAL_SIGNATURE AND usageChar \<noteq> 0 then True else sig)
       (if KU_KEY_AGREEMENT AND usageChar \<noteq> 0 then True else agr)"

text \<open>\<open>X509_NAME_get_text_by_NID\<close> fills at most 255 of the 256 zero bytes and ends them with a zero.\<close>

definition name_buffer :: "string \<Rightarrow> string" where
  "name_buffer cn = take 255 cn @ replicate (256 - length (take 255 cn)) (CHR 0x00)"

definition verifyMtlsUser ::
    "(nat \<Rightarrow> nat option) \<Rightarrow> int \<Rightarrow> string \<Rightarrow> verify_context \<Rightarrow> SessionStore \<Rightarrow> UserSession option \<times> SessionStore" where
  "verifyMtlsUser draw now clientIp ctx st =
     (if \<not> am_tls (authMethodsConfig st) then (None, st)
      else if \<not> vc_native_handle ctx then (None, st)
      else (case vc_current_cert ctx of
          None \<Rightarrow> (None, st)
        | Some peerCert \<Rightarrow>
            if vc_error ctx \<noteq> X509_V_OK then (None, st)
            else if vc_error_depth ctx \<noteq> 0 then (None, st)
            else (case ct_key_usage peerCert of
                None \<Rightarrow> (None, st)
              | Some usage \<Rightarrow>
                  let (isKeyUsageDigitalSignature, isKeyUsageKeyAgreement) = usage_flags usage False False
                  in if \<not> isKeyUsageDigitalSignature \<or> \<not> isKeyUsageKeyAgreement then (None, st)
                     else (case ct_ext_key_usage peerCert of
                         None \<Rightarrow> (None, st)
                       | Some extUsage \<Rightarrow>
                           if \<not> list_ex (\<lambda>nid. NID_client_auth = nid) extUsage then (None, st)
                           else (case ct_common_name peerCert of
                               None \<Rightarrow> (None, st)
                             | Some cn \<Rightarrow>
                                 let sslUser = name_buffer cn;
                                     lastChar = length (takeWhile (\<lambda>c. c \<noteq> CHR 0x00) sslUser)
                                 in if lastChar = length sslUser \<or> lastChar = 0 then (None, st)
                                    else generateUserSession draw now (take lastChar sslUser) clientIp (Some []) TIMEOUT False st)))))"

section \<open>What it takes to log in\<close>

text \<open>The name in the certificate up to its first zero byte, and the conditions for a session.\<close>

definition mtls_user :: "string \<Rightarrow> string" where
  "mtls_user cn = takeWhile (\<lambda>c. c \<noteq> CHR 0x00) (take 255 cn)"

definition may_log_in :: "verify_context \<Rightarrow> SessionStore \<Rightarrow> string \<Rightarrow> bool" where
  "may_log_in ctx st user \<longleftrightarrow>
     am_tls (authMethodsConfig st) \<and> vc_native_handle ctx \<and> vc_error ctx = X509_V_OK \<and> vc_error_depth ctx = 0
     \<and> (\<exists>cert usage ext cn. vc_current_cert ctx = Some cert
          \<and> ct_key_usage cert = Some usage \<and> (\<exists>b \<in> set usage. bit b 7) \<and> (\<exists>b \<in> set usage. bit b 3)
          \<and> ct_ext_key_usage cert = Some ext \<and> NID_client_auth \<in> set ext
          \<and> ct_common_name cert = Some cn \<and> user = mtls_user cn \<and> user \<noteq> [])"

lemma flag_bits: "KU_DIGITAL_SIGNATURE AND b \<noteq> 0 \<longleftrightarrow> bit b 7" "KU_KEY_AGREEMENT AND b \<noteq> 0 \<longleftrightarrow> bit b 3"
  using bit_iff_and_push_bit_not_eq_0 [of b 7] bit_iff_and_push_bit_not_eq_0 [of b 3]
  by (simp_all add: KU_DIGITAL_SIGNATURE_def KU_KEY_AGREEMENT_def and.commute)

lemma takeWhile_stop: "\<not> P x \<Longrightarrow> takeWhile P (t @ x # ys) = takeWhile P t"
  by (induction t) auto

lemma usage_flags_iff:
  "usage_flags us sig agr = (sig \<or> (\<exists>b \<in> set us. bit b 7), agr \<or> (\<exists>b \<in> set us. bit b 3))"
  by (induction us arbitrary: sig agr) (auto simp: flag_bits)

lemma name_buffer_user:
  "takeWhile (\<lambda>c. c \<noteq> CHR 0x00) (name_buffer cn) = mtls_user cn"
  "length (mtls_user cn) < length (name_buffer cn)"
proof -
  define t where "t = take 255 cn"
  have t: "length t \<le> 255" "name_buffer cn = t @ replicate (256 - length t) (CHR 0x00)"
    by (simp_all add: t_def name_buffer_def)
  then have ne: "256 - length t = Suc (255 - length t)"
    by simp
  show "takeWhile (\<lambda>c. c \<noteq> CHR 0x00) (name_buffer cn) = mtls_user cn"
    unfolding t(2) ne mtls_user_def t_def [symmetric] by (simp add: takeWhile_stop)
  have "length (mtls_user cn) \<le> length t"
    unfolding mtls_user_def t_def [symmetric] by (rule length_takeWhile_le)
  then show "length (mtls_user cn) < length (name_buffer cn)"
    unfolding t(2) using t(1) by simp
qed

lemma name_buffer_take: "take (length (mtls_user cn)) (name_buffer cn) = mtls_user cn"
  using takeWhile_eq_take [of "\<lambda>c. c \<noteq> CHR 0x00" "name_buffer cn"] name_buffer_user(1) [of cn] by simp


definition sample_cert :: certificate where
  "sample_cert = \<lparr>ct_key_usage = Some [0x88], ct_ext_key_usage = Some [130], ct_common_name = Some ''operator''\<rparr>"

definition sample_context :: "certificate \<Rightarrow> verify_context" where
  "sample_context cert = \<lparr>vc_native_handle = True, vc_current_cert = Some cert, vc_error = 0, vc_error_depth = 0\<rparr>"

definition tls_store :: SessionStore where
  "tls_store = store_init \<lparr>am_basic = True, am_sessionToken = True, am_xtoken = True, am_cookie = True, am_tls = True\<rparr>"

lemma sample_user: "mtls_user ''operator'' = ''operator''"
  by (simp add: mtls_user_def)

lemma sample_log_in:
  "bit a 7 \<Longrightarrow> bit b 3 \<Longrightarrow> {a, b} \<subseteq> set us \<Longrightarrow>
   may_log_in (sample_context (sample_cert\<lparr>ct_key_usage := Some us\<rparr>)) tls_store ''operator''"
  by (auto simp: may_log_in_def sample_context_def sample_cert_def tls_store_def store_init_def X509_V_OK_def
      NID_client_auth_def sample_user)


text \<open>
  The flags are looked for in every byte of the key usage, but only those of the first byte are
  meant: the flag for deciphering only, bit 7 of the second byte, passes for a signature.
\<close>

lemma decipher_only_passes:
  "may_log_in (sample_context (sample_cert\<lparr>ct_key_usage := Some [0x08, 0x80]\<rparr>)) tls_store ''operator''"
  by (rule sample_log_in [of "0x80" "0x08"]) simp_all

text \<open>A zero byte in the name of the certificate cuts it.\<close>

lemma zero_byte_cuts_name: "mtls_user (''root'' @ [CHR 0x00] @ ''.example'') = ''root''"
  by (simp add: mtls_user_def)

section \<open>The key file\<close>

definition trustStorePath :: string where "trustStorePath = ''/etc/ssl/certs/authority''"
definition x509Comment :: string where "x509Comment = ''Generated from OpenBMC service''"

text \<open>The codes of the chain errors, as \<open>x509_vfy.h\<close> numbers them.\<close>

definition isTrustChainError :: "int \<Rightarrow> bool" where
  "isTrustChainError errnum \<longleftrightarrow> errnum = 18 \<or> errnum = 19 \<or> errnum = 20 \<or> errnum = 27 \<or> errnum = 21"

text \<open>What is acquired and released, in the order of the calls.\<close>

datatype resource = RStore | RStoreCtx | RFile | RPkey | RPkeyCtx | RRsa | REcKey | RX509 | RBio | RExtension

datatype action = Acquire resource | Release resource

record verification =
  vf_store :: bool
  vf_ctx :: bool
  vf_init :: int
  vf_verify :: int
  vf_error :: int

definition validateCertificate :: "verification \<Rightarrow> bool \<times> action list" where
  "validateCertificate v =
     (if \<not> vf_store v then (False, [])
      else if \<not> vf_ctx v then (False, [Acquire RStore, Release RStore])
      else if vf_init v \<noteq> 1 then (False, [Acquire RStore, Acquire RStoreCtx, Release RStoreCtx, Release RStore])
      else if vf_verify v = 1 then (True, [Acquire RStore, Acquire RStoreCtx, Release RStoreCtx, Release RStore])
      else if vf_verify v = 0 then
        (isTrustChainError (vf_error v), [Acquire RStore, Acquire RStoreCtx, Release RStoreCtx, Release RStore])
      else (False, [Acquire RStore, Acquire RStoreCtx, Release RStoreCtx, Release RStore]))"

text \<open>
  The key file: whether it opens, holds a key of one of the two kinds that checks, and a
  certificate. \<open>version\<close> is \<open>OPENSSL_VERSION_NUMBER\<close>.
\<close>

record key_file =
  kf_opens :: bool
  kf_pkey :: bool
  kf_rsa :: "bool option"
  kf_ec :: "bool option"
  kf_pkeyCtx :: "bool option"
  kf_x509 :: "verification option"

definition check_key :: "nat \<Rightarrow> key_file \<Rightarrow> bool \<times> action list" where
  "check_key version kf =
     (if version < 0x30000000 then
        (case kf_rsa kf of
           Some ok \<Rightarrow> (ok, [Acquire RRsa, Release RRsa])
         | None \<Rightarrow> (case kf_ec kf of
               Some ok \<Rightarrow> (ok, [Acquire REcKey, Release REcKey])
             | None \<Rightarrow> (False, [])))
      else (case kf_pkeyCtx kf of
          None \<Rightarrow> (False, [])
        | Some ok \<Rightarrow> (ok, [Acquire RPkeyCtx])))"

definition verifyOpensslKeyCert :: "nat \<Rightarrow> key_file \<Rightarrow> bool \<times> action list" where
  "verifyOpensslKeyCert version kf =
     (if \<not> kf_opens kf then (False, [])
      else if \<not> kf_pkey kf then (False, [Acquire RFile, Release RFile])
      else
        let (privateKeyValid, key_actions) = check_key version kf;
            (certValid, cert_actions) =
              (if privateKeyValid then
                 (case kf_x509 kf of
                    None \<Rightarrow> (False, [])
                  | Some v \<Rightarrow> (case validateCertificate v of
                      (ok, as) \<Rightarrow> (ok, [Acquire RX509] @ as @ [Release RX509])))
               else (False, []));
            free_ctx = (if version > 0x30000000 \<and> kf_pkeyCtx kf \<noteq> None then [Release RPkeyCtx] else [])
        in (certValid, [Acquire RFile, Acquire RPkey] @ key_actions @ cert_actions @ free_ctx
              @ [Release RPkey, Release RFile]))"

definition loadCert :: "bool \<Rightarrow> bool \<Rightarrow> bool \<Rightarrow> bool \<times> action list" where
  "loadCert bio_ok x509_ok pem_ok =
     (if \<not> bio_ok then (False, [])
      else if \<not> x509_ok then (False, [Acquire RBio, Release RBio])
      else if \<not> pem_ok then (False, [Acquire RBio, Acquire RX509, Release RBio, Release RX509])
      else (True, [Acquire RBio, Acquire RX509, Release RBio]))"

definition addExt :: "bool \<Rightarrow> int \<times> action list" where
  "addExt ex_ok = (if \<not> ex_ok then (-1, []) else (0, [Acquire RExtension, Release RExtension]))"

text \<open>The certificate that is generated, and when it is written with its key.\<close>

record generated =
  gc_serial :: int
  gc_lifetime :: int
  gc_subject :: "(string \<times> string) list"
  gc_version :: nat
  gc_extensions :: "(string \<times> string) list"

definition new_certificate :: "int \<Rightarrow> string \<Rightarrow> generated" where
  "new_certificate serial cn =
     \<lparr>gc_serial = serial, gc_lifetime = 60 * 60 * 24 * 365 * 10,
      gc_subject = [(''C'', ''US''), (''O'', ''OpenBMC''), (''CN'', cn)],
      gc_version = 2,
      gc_extensions = [(''basic_constraints'', ''critical,CA:TRUE''), (''subject_alt_name'', ''DNS:'' @ cn),
        (''subject_key_identifier'', ''hash''), (''authority_key_identifier'', ''keyid''),
        (''key_usage'', ''digitalSignature, keyEncipherment''), (''ext_key_usage'', ''serverAuth''),
        (''netscape_comment'', x509Comment)]\<rparr>"

text \<open>
  Making a key: up to version 3 from an \<open>EC_KEY\<close>, which the key owns once it is assigned; from then on
  in two steps, whose contexts and parameters are released when the function returns.
\<close>

record key_making =
  km_ec :: bool
  km_pkey :: bool
  km_assign :: bool
  km_ctx :: bool
  km_params :: bool
  km_keyCtx :: bool
  km_keygen_init :: bool
  km_keygen :: bool

definition createEcKey :: "nat \<Rightarrow> key_making \<Rightarrow> bool \<times> action list" where
  "createEcKey version km =
     (if version < 0x30000000 then
        (if \<not> km_ec km then (False, [])
         else if \<not> km_pkey km then (False, [Acquire REcKey])
         else if \<not> km_assign km then (True, [Acquire REcKey, Acquire RPkey])
         else (True, [Acquire REcKey, Acquire RPkey, Release REcKey]))
      else if \<not> km_ctx km then (False, [])
      else if \<not> km_params km then (False, [Acquire RPkeyCtx, Release RPkeyCtx])
      else if \<not> km_keyCtx km then (False, [Acquire RPkeyCtx, Acquire RPkey, Release RPkeyCtx, Release RPkey])
      else
        let as = [Acquire RPkeyCtx, Acquire RPkey, Acquire RPkeyCtx, Release RPkeyCtx];
            bs = [Release RPkey, Release RPkeyCtx]
        in if \<not> km_keygen_init km \<or> \<not> km_keygen km then (False, as @ bs)
           else (True, as @ [Acquire RPkey] @ bs))"

definition generateSslCertificate ::
    "nat \<Rightarrow> key_making \<Rightarrow> bool \<Rightarrow> bool \<Rightarrow> int \<Rightarrow> string \<Rightarrow> generated option \<times> action list" where
  "generateSslCertificate version km x509_ok open_ok serial cn =
     (case createEcKey version km of
        (pPrivKey, as) \<Rightarrow>
          if \<not> pPrivKey then (None, as)
          else if \<not> x509_ok then (None, as @ [Release RPkey])
          else (if open_ok then Some (new_certificate serial cn) else None,
                as @ [Acquire RX509] @ (if open_ok then [Acquire RFile, Release RFile] else [])
                  @ [Release RX509, Release RPkey]))"

text \<open>The content of the key file afterwards: what it was, or what was generated.\<close>

definition ensureOpensslKeyPresentAndValid ::
    "nat \<Rightarrow> key_making \<Rightarrow> bool \<Rightarrow> bool \<Rightarrow> int \<Rightarrow> key_file \<Rightarrow> generated option \<times> action list" where
  "ensureOpensslKeyPresentAndValid version km x509_ok open_ok serial kf =
     (let (pemFileValid, as) = verifyOpensslKeyCert version kf
      in if pemFileValid then (None, as)
         else case generateSslCertificate version km x509_ok open_ok serial ''testhost'' of
             (g, bs) \<Rightarrow> (g, as @ bs))"

text \<open>What is held after some actions, which must not release what is not held.\<close>

fun held_after :: "action list \<Rightarrow> resource list \<Rightarrow> resource list option" where
  "held_after [] held = Some held"
| "held_after (Acquire r # as) held = held_after as (r # held)"
| "held_after (Release r # as) held = (if r \<in> set held then held_after as (remove1 r held) else None)"

lemma held_after_append: "held_after (as @ bs) held = Option.bind (held_after as held) (held_after bs)"
  by (induction as held rule: held_after.induct) simp_all

lemma held_frame: "held_after as [] = Some [] \<Longrightarrow> held_after as held = Some held"
proof -
  have "held_after as h = Some h' \<Longrightarrow> held_after as (h @ held) = Some (h' @ held)" for h h'
    by (induction as h rule: held_after.induct) (auto simp: remove1_append split: if_splits)
  then show "held_after as [] = Some [] \<Longrightarrow> held_after as held = Some held"
    by fastforce
qed

lemma validate_released: "held_after (snd (validateCertificate v)) [] = Some []"
  by (simp add: validateCertificate_def)

text \<open>Before version 3 an \<open>EC_KEY\<close> is only released when it was assigned to a key.\<close>

definition assigned :: "nat \<Rightarrow> key_making \<Rightarrow> bool" where
  "assigned version km \<longleftrightarrow> (version < 0x30000000 \<longrightarrow> km_ec km \<longrightarrow> km_pkey km \<and> km_assign km)"

lemma generate_released:
  "assigned version km \<Longrightarrow> held_after (snd (generateSslCertificate version km x f serial cn)) [] = Some []"
  by (simp add: assigned_def generateSslCertificate_def createEcKey_def Let_def)

lemma validate_iff:
  "fst (validateCertificate v) \<longleftrightarrow> vf_store v \<and> vf_ctx v \<and> vf_init v = 1
     \<and> (vf_verify v = 1 \<or> vf_verify v = 0 \<and> isTrustChainError (vf_error v))"
  by (simp add: validateCertificate_def)

lemma verify_released:
  assumes "version \<noteq> 0x30000000" "version < 0x30000000 \<longrightarrow> kf_pkeyCtx kf = None"
  shows "held_after (snd (verifyOpensslKeyCert version kf)) [] = Some []"
proof -
  have v: "held_after (snd (validateCertificate v)) held = Some held" for v held
    by (rule held_frame [OF validate_released])
  show ?thesis
    using assms
    by (auto simp: verifyOpensslKeyCert_def check_key_def held_after_append v case_prod_beta split: option.split)
qed

definition usable :: "nat \<Rightarrow> key_file \<Rightarrow> bool" where
  "usable version kf \<longleftrightarrow> kf_opens kf \<and> kf_pkey kf \<and> fst (check_key version kf)
     \<and> (\<exists>v. kf_x509 kf = Some v \<and> fst (validateCertificate v))"

lemma verify_usable: "fst (verifyOpensslKeyCert version kf) = usable version kf"
  by (auto simp: verifyOpensslKeyCert_def usable_def case_prod_beta Let_def split: option.split)


definition self_signed_file :: key_file where
  "self_signed_file = \<lparr>kf_opens = True, kf_pkey = True, kf_rsa = None, kf_ec = None, kf_pkeyCtx = Some True,
     kf_x509 = Some \<lparr>vf_store = True, vf_ctx = True, vf_init = 1, vf_verify = 0, vf_error = 18\<rparr>\<rparr>"

definition key_made :: key_making where
  "key_made = \<lparr>km_ec = True, km_pkey = True, km_assign = True, km_ctx = True, km_params = True,
     km_keyCtx = True, km_keygen_init = True, km_keygen = True\<rparr>"


text \<open>Before version 3 the \<open>EC_KEY\<close> is kept for ever when no key can be allocated for it.\<close>

lemma ec_key_leaks:
  "held_after (snd (generateSslCertificate 0x10101000 (key_made\<lparr>km_pkey := False\<rparr>) True True 7 ''testhost'')) []
   = Some [REcKey]"
  by (simp add: generateSslCertificate_def createEcKey_def key_made_def)

text \<open>In version 3.0.0 itself neither branch releases the context of a key.\<close>

lemma context_kept_in_3_0_0:
  "held_after (snd (verifyOpensslKeyCert 0x30000000
      (self_signed_file\<lparr>kf_pkeyCtx := Some False\<rparr>))) [] = Some [RPkeyCtx]"
  by (simp add: verifyOpensslKeyCert_def check_key_def self_signed_file_def)

section \<open>TLS contexts\<close>

datatype ssl_option =
    default_workarounds | no_sslv2 | no_sslv3 | single_dh_use | no_tlsv1 | no_tlsv1_1 | no_renegotiation

record ssl_context =
  sc_options :: "ssl_option list"
  sc_verify_peer :: bool
  sc_verify_path :: "string option"
  sc_pem_file :: "string option"
  sc_http2 :: bool
  sc_ciphers :: "string option"

text \<open>The protocol that is offered, with its length, and the choice of \<open>nghttp2_select_next_protocol\<close>.\<close>

definition nextProtoCallback :: "string \<times> nat" where
  "nextProtoCallback = (let h2 = CHR 0x02 # ''h2'' in (h2, length h2))"

definition alpnSelectProtoCallback :: "int \<Rightarrow> int" where
  "alpnSelectProtoCallback rv = (if rv \<noteq> 1 then 3 else 0)"

definition mozillaIntermediate :: string where
  "mozillaIntermediate = ''ECDHE-ECDSA-AES128-GCM-SHA256:'' @ ''ECDHE-RSA-AES128-GCM-SHA256:''
     @ ''ECDHE-ECDSA-AES256-GCM-SHA384:'' @ ''ECDHE-RSA-AES256-GCM-SHA384:'' @ ''ECDHE-ECDSA-CHACHA20-POLY1305:''
     @ ''ECDHE-RSA-CHACHA20-POLY1305:'' @ ''DHE-RSA-AES128-GCM-SHA256:'' @ ''DHE-RSA-AES256-GCM-SHA384:''
     @ ''DHE-RSA-CHACHA20-POLY1305''"

definition getSslContext :: "bool \<Rightarrow> bool \<Rightarrow> string \<Rightarrow> ssl_context" where
  "getSslContext http2 ciphers_ok sslPemFile =
     \<lparr>sc_options = [default_workarounds, no_sslv2, no_sslv3, single_dh_use, no_tlsv1, no_tlsv1_1, no_renegotiation],
      sc_verify_peer = False, sc_verify_path = Some trustStorePath, sc_pem_file = Some sslPemFile,
      sc_http2 = http2, sc_ciphers = (if ciphers_ok then Some mozillaIntermediate else None)\<rparr>"

definition sslCiphers :: string where
  "sslCiphers = ''ECDHE-ECDSA-AES128-GCM-SHA256:'' @ ''ECDHE-RSA-AES128-GCM-SHA256:''
     @ ''ECDHE-ECDSA-AES256-GCM-SHA384:'' @ ''ECDHE-RSA-AES256-GCM-SHA384:'' @ ''ECDHE-ECDSA-CHACHA20-POLY1305:''
     @ ''ECDHE-RSA-CHACHA20-POLY1305:'' @ ''DHE-RSA-AES128-GCM-SHA256:'' @ ''DHE-RSA-AES256-GCM-SHA384''
     @ ''TLS_AES_128_GCM_SHA256:'' @ ''TLS_AES_256_GCM_SHA384:'' @ ''TLS_CHACHA20_POLY1305_SHA256''"

definition getSSLClientContext :: "bool \<Rightarrow> bool \<Rightarrow> bool \<Rightarrow> bool \<Rightarrow> ssl_context option" where
  "getSSLClientContext options_ec paths_ec mode_ec ciphers_ok =
     (if options_ec then None
      else if paths_ec then None
      else if mode_ec then None
      else if \<not> ciphers_ok then None
      else Some \<lparr>sc_options = [default_workarounds, no_sslv2, no_sslv3, single_dh_use, no_tlsv1, no_tlsv1_1],
             sc_verify_peer = True, sc_verify_path = None, sc_pem_file = None, sc_http2 = False,
             sc_ciphers = Some sslCiphers\<rparr>)"

fun split_colons :: "string \<Rightarrow> string list" where
  "split_colons [] = [[]]"
| "split_colons (c # cs) =
     (if c = CHR '':'' then [] # split_colons cs
      else case split_colons cs of [] \<Rightarrow> [[c]] | p # ps \<Rightarrow> (c # p) # ps)"

text \<open>A colon is missing in the list of the client: one name is two ciphers in a row.\<close>

lemma client_cipher_lost:
  "''TLS_AES_128_GCM_SHA256'' \<notin> set (split_colons sslCiphers)"
  "''DHE-RSA-AES256-GCM-SHA384TLS_AES_128_GCM_SHA256'' \<in> set (split_colons sslCiphers)"
  by (simp_all add: sslCiphers_def)

end
