(* ===== verification/Http2Streams.thy ===== *)
theory Http2Streams
  imports Http2
begin

text \<open>
  What an HTTP/2 connection guarantees: streams do not influence each other, the handler of a stream
  gets the request its headers describe, and the bytes of the connection are written once and in
  order; and the ways in which it fails.
\<close>

section \<open>Streams do not influence each other\<close>

fun cb_stream :: "h2_callback \<Rightarrow> int option" where
  "cb_stream (BeginHeaders fr) = Some (fr_stream_id fr)"
| "cb_stream (Header fr name value) = Some (fr_stream_id fr)"
| "cb_stream (FrameRecv fr) = Some (fr_stream_id fr)"
| "cb_stream (StreamClose i) = Some i"
| "cb_stream (SendData data) = None"
| "cb_stream (FileRead i len avail ec) = Some i"
| "cb_stream (ResponseDone i r rv) = Some i"

fun out_stream :: "h2_out \<Rightarrow> int option" where
  "out_stream (SubmitResponse i hdr) = Some i"
| "out_stream (CallHandle i req r) = Some i"
| "out_stream x = None"

abbreviation find_stream :: "h2_connection \<Rightarrow> int \<Rightarrow> h2_stream option" where
  "find_stream c i \<equiv> omap_find (h2_streams c) i"

definition streams_ok :: "h2_connection \<Rightarrow> bool" where
  "streams_ok c \<longleftrightarrow> omap_ok (h2_streams c)"

lemma h2_updates [simp]:
  "h2_streams (h2_close c) = h2_streams c"
  "h2_streams (h2_put i s c) = omap_insert_or_assign i s (h2_streams c)"
  "h2_sendBuffer (h2_close c) = h2_sendBuffer c" "h2_isWriting (h2_close c) = h2_isWriting c"
  "h2_sendBuffer (h2_put i s c) = h2_sendBuffer c" "h2_isWriting (h2_put i s c) = h2_isWriting c"
  "h2_open (h2_put i s c) = h2_open c" "h2_isReading (h2_put i s c) = h2_isReading c"
  "h2_isReading (h2_close c) = h2_isReading c" "h2_open (h2_close c) = False"
  by (simp_all add: h2_close_def h2_put_def)

lemma writeBuffer_streams [simp]: "h2_streams (fst (writeBuffer c)) = h2_streams c"
  by (simp add: writeBuffer_def)

lemma emplace_simps: "omap_ok m \<Longrightarrow> omap_ok (omap_emplace k v m)"
  "omap_ok m \<Longrightarrow> omap_find (omap_emplace k v m) k' = (if k' = k \<and> omap_find m k = None then Some v else omap_find m k')"
  by (auto simp: omap_emplace_def omap_find_insert)

lemmas h2_call_defs = onBeginHeadersCallback_def onHeaderCallback_def onFrameRecvCallback_def onRequestRecv_def
  onStreamCloseCallback_def onSendCallback_def readBody_def completionLambda_def sendResponse_def Let_def

lemma call_streams_ok: "streams_ok c \<Longrightarrow> streams_ok (fst (h2_call env cb c))"
  by (cases cb) (auto simp: streams_ok_def h2_call_defs emplace_simps case_prod_beta split: option.split)

text \<open>What a callback does to a stream and says about it depends on that stream alone.\<close>

lemma call_other:
  assumes "streams_ok c" "cb_stream cb \<noteq> Some i"
  shows "find_stream (fst (h2_call env cb c)) i = find_stream c i"
    and "filter (\<lambda>x. out_stream x = Some i) (snd (h2_call env cb c)) = []"
  using assms
  by (cases cb; auto simp: streams_ok_def h2_call_defs emplace_simps omap_find_insert omap_find_erase writeBuffer_def
      case_prod_beta split: option.split)+

lemma call_same:
  assumes "streams_ok c" "streams_ok d" "find_stream c i = find_stream d i" "cb_stream cb = Some i"
  shows "find_stream (fst (h2_call env cb c)) i = find_stream (fst (h2_call env cb d)) i
     \<and> snd (h2_call env cb c) = snd (h2_call env cb d)"
  using assms
  by (cases cb; auto simp: streams_ok_def h2_call_defs emplace_simps omap_find_insert omap_find_erase
      case_prod_beta split: option.split)

text \<open>
  Callbacks with keys: what a callback does to the part of the state behind a key, and says about it,
  depends on that part alone, and only callbacks of that key touch it. Then of a sequence of
  callbacks only those of a key matter for its part.
\<close>

fun run_calls :: "('c \<Rightarrow> 's \<Rightarrow> 's \<times> 'o list) \<Rightarrow> 'c list \<Rightarrow> 's \<Rightarrow> 's \<times> 'o list" where
  "run_calls call [] c = (c, [])"
| "run_calls call (cb # cbs) c =
     (case call cb c of (c1, os1) \<Rightarrow> (case run_calls call cbs c1 of (c2, os2) \<Rightarrow> (c2, os1 @ os2)))"

locale keyed_callbacks =
  fixes call :: "'c \<Rightarrow> 's \<Rightarrow> 's \<times> 'o list" and part :: "'s \<Rightarrow> 'k \<Rightarrow> 'v"
    and key :: "'c \<Rightarrow> 'k option" and out_key :: "'o \<Rightarrow> 'k option" and ok :: "'s \<Rightarrow> bool"
  assumes ok_call: "ok c \<Longrightarrow> ok (fst (call cb c))"
    and other: "ok c \<Longrightarrow> key cb \<noteq> Some i \<Longrightarrow>
      part (fst (call cb c)) i = part c i \<and> filter (\<lambda>x. out_key x = Some i) (snd (call cb c)) = []"
    and same: "ok c \<Longrightarrow> ok d \<Longrightarrow> part c i = part d i \<Longrightarrow> key cb = Some i \<Longrightarrow>
      part (fst (call cb c)) i = part (fst (call cb d)) i \<and> snd (call cb c) = snd (call cb d)"
begin

lemma run_project:
  assumes "ok c" "ok d" "part c i = part d i"
  shows "part (fst (run_calls call cbs c)) i = part (fst (run_calls call (filter (\<lambda>cb. key cb = Some i) cbs) d)) i
     \<and> filter (\<lambda>x. out_key x = Some i) (snd (run_calls call cbs c))
       = filter (\<lambda>x. out_key x = Some i) (snd (run_calls call (filter (\<lambda>cb. key cb = Some i) cbs) d))"
  using assms
proof (induction cbs arbitrary: c d)
  case (Cons cb cbs)
  show ?case
  proof (cases "key cb = Some i")
    case True
    have "part (fst (call cb c)) i = part (fst (call cb d)) i" "snd (call cb c) = snd (call cb d)"
      using same [OF Cons.prems True] by blast+
    then show ?thesis
      using Cons.IH [of "fst (call cb c)" "fst (call cb d)"] Cons.prems True by (simp add: ok_call case_prod_beta)
  next
    case False
    then show ?thesis
      using Cons.IH [of "fst (call cb c)" d] Cons.prems other [OF Cons.prems(1) False] by (simp add: ok_call case_prod_beta)
  qed
qed simp

end

interpretation streams: keyed_callbacks "h2_call env" "\<lambda>c i. find_stream c i" cb_stream out_stream streams_ok
  for env
  by unfold_locales (use call_streams_ok call_other call_same in \<open>blast+\<close>)

lemma h2_calls_run: "h2_calls env cbs c = run_calls (h2_call env) cbs c"
  by (induction cbs arbitrary: c) (simp_all add: case_prod_beta del: h2_call.simps)

section \<open>The request a handler gets\<close>

text \<open>The request that a list of headers describes, if all its methods are known.\<close>

definition request_headers :: "h2_env \<Rightarrow> (string \<times> string) list \<Rightarrow> UserSession request \<Rightarrow> UserSession request option" where
  "request_headers env hs req =
     fold (\<lambda>(n, v) r. Option.bind r (addRequestHeader env n v)) hs (Some req)"

definition last_value :: "string \<Rightarrow> string \<Rightarrow> (string \<times> string) list \<Rightarrow> string" where
  "last_value d k hs = fold (\<lambda>(n, v) x. if n = k then v else x) hs d"

definition regular_header :: "string \<times> string \<Rightarrow> bool" where
  "regular_header h \<longleftrightarrow> fst h \<notin> {'':path'', '':method'', '':scheme''}"

definition methods_known :: "h2_env \<Rightarrow> (string \<times> string) list \<Rightarrow> bool" where
  "methods_known env hs \<longleftrightarrow> (\<forall>(n, v) \<in> set hs. n = '':method'' \<longrightarrow> h2_string_to_verb env v \<noteq> verb_unknown)"

lemma request_headers_Cons:
  "request_headers env ((n, v) # hs) req =
     (case addRequestHeader env n v req of None \<Rightarrow> None | Some r \<Rightarrow> request_headers env hs r)"
proof -
  have "fold (\<lambda>(n, v) r. Option.bind r (addRequestHeader env n v)) hs None = None"
    by (induction hs) auto
  then show ?thesis
    by (simp add: request_headers_def split: option.split)
qed

lemma request_headers_known: "methods_known env hs \<Longrightarrow> request_headers env hs req \<noteq> None"
proof (induction hs arbitrary: req)
  case (Cons h hs)
  obtain n v where h: "h = (n, v)"
    by fastforce
  then have "addRequestHeader env n v req \<noteq> None"
    using Cons.prems by (simp add: addRequestHeader_def methods_known_def Let_def)
  moreover have "methods_known env hs"
    using Cons.prems by (simp add: methods_known_def)
  ultimately show ?case
    using Cons.IH by (auto simp: h request_headers_Cons)
qed (simp add: request_headers_def)

text \<open>Its parts: the fields, the target, and what never comes from headers.\<close>

lemma request_headers_parts:
  "request_headers env hs req = Some req' \<Longrightarrow>
     rq_target req' = last_value (rq_target req) '':path'' hs
     \<and> rq_fields req' = fold (\<lambda>h f. set_field (fst h) (snd h) f) (filter regular_header hs) (rq_fields req)
     \<and> rq_body req' = rq_body req \<and> isSecure req' = isSecure req \<and> rq_session req' = rq_session req
     \<and> userRole req' = userRole req"
proof (induction hs arbitrary: req)
  case (Cons h hs)
  obtain n v where h: "h = (n, v)"
    by fastforce
  obtain r where r: "addRequestHeader env n v req = Some r" "request_headers env hs r = Some req'"
    using Cons.prems by (auto simp: h request_headers_Cons split: option.splits)
  have "rq_target r = (if n = '':path'' then v else rq_target req)
     \<and> rq_fields r = (if regular_header h then set_field n v (rq_fields req) else rq_fields req)
     \<and> rq_body r = rq_body req \<and> isSecure r = isSecure req \<and> rq_session r = rq_session req \<and> userRole r = userRole req"
    using r(1) by (auto simp: addRequestHeader_def regular_header_def h request_target_def setUrlInfo_def Let_def
        split: if_splits option.splits)
  then show ?case
    using Cons.IH [OF r(2)] by (auto simp: h last_value_def)
qed (simp add: request_headers_def last_value_def)

text \<open>The callbacks of a request: its headers, and the frame that ends it.\<close>

definition request_frame :: "int \<Rightarrow> frame" where
  "request_frame i = \<lparr>fr_type = HEADERS, fr_stream_id = i, fr_end_stream = True, fr_cat_request = True\<rparr>"

definition request_callbacks :: "int \<Rightarrow> (string \<times> string) list \<Rightarrow> h2_callback list" where
  "request_callbacks i hs =
     BeginHeaders (request_frame i) # map (\<lambda>(n, v). Header (request_frame i) n v) hs @ [FrameRecv (request_frame i)]"

lemma header_calls:
  assumes "streams_ok c" "find_stream c i = Some s" "request_headers env hs (sd_req s) = Some req"
  shows "find_stream (fst (h2_calls env (map (\<lambda>(n, v). Header (request_frame i) n v) hs) c)) i = Some (s\<lparr>sd_req := req\<rparr>)
     \<and> snd (h2_calls env (map (\<lambda>(n, v). Header (request_frame i) n v) hs) c) = []
     \<and> streams_ok (fst (h2_calls env (map (\<lambda>(n, v). Header (request_frame i) n v) hs) c))"
  using assms
proof (induction hs arbitrary: c s)
  case (Cons h hs)
  obtain n v where h: "h = (n, v)"
    by fastforce
  obtain r where r: "addRequestHeader env n v (sd_req s) = Some r" "request_headers env hs r = Some req"
    using Cons.prems(3) by (auto simp: h request_headers_Cons split: option.splits)
  define c1 where "c1 = h2_put i (s\<lparr>sd_req := r\<rparr>) c"
  have call: "h2_call env (Header (request_frame i) n v) c = (c1, [])"
    using Cons.prems(2) r(1) by (simp add: onHeaderCallback_def request_frame_def c1_def)
  have "streams_ok c1" "find_stream c1 i = Some (s\<lparr>sd_req := r\<rparr>)"
    using Cons.prems(1) by (simp_all add: c1_def streams_ok_def omap_find_insert)
  then show ?case
    using Cons.IH [of c1 "s\<lparr>sd_req := r\<rparr>"] r(2) by (simp add: h call case_prod_beta del: h2_call.simps)
qed (simp add: request_headers_def)

lemma calls_append:
  "h2_calls env (as @ bs) c =
     (case h2_calls env as c of (c1, os1) \<Rightarrow> (case h2_calls env bs c1 of (c2, os2) \<Rightarrow> (c2, os1 @ os2)))"
  by (induction as arbitrary: c) (simp_all add: case_prod_beta)

lemma request_calls:
  assumes "streams_ok c" "find_stream c i = None" "request_headers env hs (empty_request\<lparr>isSecure := True\<rparr>) = Some req"
  shows "snd (h2_calls env (request_callbacks i hs) c)
     = [CallHandle i req (setCompleteRequestHandler (nat i) response_init)]"
proof -
  define s where "s = new_stream\<lparr>sd_req := empty_request\<lparr>isSecure := True\<rparr>\<rparr>"
  define c1 where "c1 = fst (h2_call env (BeginHeaders (request_frame i)) c)"
  have c1: "h2_call env (BeginHeaders (request_frame i)) c = (c1, [])" "find_stream c1 i = Some s" "streams_ok c1"
    using assms(1,2)
    by (simp_all add: c1_def s_def onBeginHeadersCallback_def request_frame_def streams_ok_def emplace_simps
        omap_find_insert Let_def new_stream_def)
  have "request_headers env hs (sd_req s) = Some req"
    using assms(3) by (simp add: s_def new_stream_def)
  note hdrs = header_calls [OF c1(3,2) this]
  define c2 where "c2 = fst (h2_calls env (map (\<lambda>(n, v). Header (request_frame i) n v) hs) c1)"
  have c2: "h2_calls env (map (\<lambda>(n, v). Header (request_frame i) n v) hs) c1 = (c2, [])"
      "find_stream c2 i = Some (s\<lparr>sd_req := req\<rparr>)"
    using hdrs by (simp_all add: c2_def prod_eq_iff)
  have "snd (h2_call env (FrameRecv (request_frame i)) c2) = [CallHandle i req (setCompleteRequestHandler (nat i) response_init)]"
    using c2(2) by (simp add: onFrameRecvCallback_def onRequestRecv_def request_frame_def s_def new_stream_def
        move_construct_def setCompleteRequestHandler_def response_init_def)
  then show ?thesis
    by (simp add: request_callbacks_def c1(1) calls_append c2(1) case_prod_beta del: h2_call.simps)
qed


section \<open>Bytes reach the socket once and in order\<close>

text \<open>The bytes nghttp2 has given to be sent, and the writes that were started.\<close>

fun given :: "h2_callback \<Rightarrow> string" where
  "given (SendData data) = data"
| "given cb = []"

fun given_received :: "(h2_callback list \<times> int) list \<Rightarrow> string" where
  "given_received [] = []"
| "given_received ((cbs, readLen) # bs) =
     concat (map given cbs) @ (if readLen \<le> 0 then [] else given_received bs)"

fun given_event :: "h2_event \<Rightarrow> string" where
  "given_event (ReadDone ec data received) = (if ec then [] else given_received received)"
| "given_event (WriteDone ec n) = []"
| "given_event (CallbackLater cb) = given cb"

fun writes :: "h2_out list \<Rightarrow> string list" where
  "writes [] = []"
| "writes (AsyncWrite d # os) = d # writes os"
| "writes (x # os) = writes os"

lemma writes_append [simp]: "writes (as @ bs) = writes as @ writes bs"
  by (induction as rule: writes.induct) simp_all

text \<open>
  The write in flight after some outputs. A second write while one is in flight would be an error:
  it is \<open>None\<close>.
\<close>

fun in_flight :: "string option \<Rightarrow> string list \<Rightarrow> string option option" where
  "in_flight p [] = Some p"
| "in_flight None [d] = Some (Some d)"
| "in_flight p ds = None"

definition flight_ok :: "string \<Rightarrow> string \<Rightarrow> string option \<Rightarrow> h2_connection \<Rightarrow> bool" where
  "flight_ok g w p c \<longleftrightarrow> g = w @ h2_sendBuffer c
     \<and> (case p of None \<Rightarrow> \<not> h2_isWriting c \<and> (h2_open c \<longrightarrow> h2_sendBuffer c = [])
        | Some d \<Rightarrow> h2_isWriting c \<and> d \<noteq> [] \<and> prefix d (h2_sendBuffer c))"

lemma writeBuffer_flight:
  assumes "g = w @ h2_sendBuffer c" "h2_isWriting c \<longleftrightarrow> p \<noteq> None"
    and "\<And>d. p = Some d \<Longrightarrow> d \<noteq> [] \<and> prefix d (h2_sendBuffer c)"
  shows "\<exists>p'. in_flight p (writes (snd (writeBuffer c))) = Some p' \<and> flight_ok g w p' (fst (writeBuffer c))"
  using assms by (cases p) (auto simp: writeBuffer_def flight_ok_def)

definition same_bytes :: "h2_connection \<Rightarrow> h2_connection \<Rightarrow> bool" where
  "same_bytes c c' \<longleftrightarrow> h2_sendBuffer c' = h2_sendBuffer c \<and> h2_isWriting c' = h2_isWriting c \<and> (h2_open c' \<longrightarrow> h2_open c)"

lemma flight_same: "flight_ok g w p c \<Longrightarrow> same_bytes c c' \<Longrightarrow> flight_ok g w p c'"
  by (auto simp: flight_ok_def same_bytes_def split: option.splits)

lemma call_same_bytes: "given cb = [] \<Longrightarrow> (\<forall>d. cb \<noteq> SendData d) \<Longrightarrow>
    same_bytes c (fst (h2_call env cb c)) \<and> writes (snd (h2_call env cb c)) = []"
  by (cases cb) (auto simp: same_bytes_def h2_call_defs case_prod_beta split: option.split)

lemma call_flight:
  assumes "flight_ok g w p c"
  shows "\<exists>p'. in_flight p (writes (snd (h2_call env cb c))) = Some p' \<and> flight_ok (g @ given cb) w p' (fst (h2_call env cb c))"
proof (cases "\<exists>d. cb = SendData d")
  case True
  then obtain d where d: "cb = SendData d"
    by blast
  have "\<exists>p'. in_flight p (writes (snd (writeBuffer (c\<lparr>h2_sendBuffer := h2_sendBuffer c @ d\<rparr>)))) = Some p'
      \<and> flight_ok (g @ d) w p' (fst (writeBuffer (c\<lparr>h2_sendBuffer := h2_sendBuffer c @ d\<rparr>)))"
    using assms by (intro writeBuffer_flight) (auto simp: flight_ok_def split: option.splits)
  then show ?thesis
    by (simp add: d onSendCallback_def case_prod_beta)
next
  case False
  then have g: "given cb = []"
    by (cases cb) auto
  then show ?thesis
    using call_same_bytes [of cb c env] False flight_same [OF assms] by simp
qed

lemma in_flight_append: "in_flight p (as @ bs) = Option.bind (in_flight p as) (\<lambda>q. in_flight q bs)"
proof (cases as)
  case (Cons a as')
  then show ?thesis
    by (cases p; cases as'; cases bs) auto
qed simp

lemma calls_flight:
  "flight_ok g w p c \<Longrightarrow> \<exists>p'. in_flight p (writes (snd (h2_calls env cbs c))) = Some p'
     \<and> flight_ok (g @ concat (map given cbs)) w p' (fst (h2_calls env cbs c))"
proof (induction cbs arbitrary: g p c)
  case (Cons cb cbs)
  obtain p1 where p1: "in_flight p (writes (snd (h2_call env cb c))) = Some p1"
      "flight_ok (g @ given cb) w p1 (fst (h2_call env cb c))"
    using call_flight [OF Cons.prems] by blast
  then show ?case
    using Cons.IH [OF p1(2)] by (auto simp: case_prod_beta in_flight_append simp del: h2_call.simps)
qed simp

lemma memRecv_flight:
  "flight_ok g w p c \<Longrightarrow> memRecv_loop env received n c = (c', r, os) \<Longrightarrow>
     \<exists>p'. in_flight p (writes os) = Some p' \<and> flight_ok (g @ given_received received) w p' c'"
proof (induction env received n c arbitrary: g p c' r os rule: memRecv_loop.induct)
  case (2 env cbs readLen bs consumed c)
  obtain c1 os1 where c1: "h2_calls env cbs c = (c1, os1)"
    by fastforce
  obtain p1 where p1: "in_flight p (writes os1) = Some p1" "flight_ok (g @ concat (map given cbs)) w p1 c1"
    using calls_flight [OF "2.prems"(1), of env cbs] c1 by auto
  show ?case
  proof (cases "readLen \<le> 0")
    case True
    then show ?thesis
      using "2.prems"(2) c1 p1 flight_same [OF p1(2), of "h2_close c1"] by (auto simp: same_bytes_def)
  next
    case False
    obtain c2 r2 os2 where c2: "memRecv_loop env bs (consumed + nat readLen) c1 = (c2, r2, os2)"
      by (cases "memRecv_loop env bs (consumed + nat readLen) c1") auto
    then show ?thesis
      using "2.IH" [OF c1 [symmetric] False p1(2) c2] "2.prems"(2) False c1 p1(1) by (auto simp: in_flight_append)
  qed
qed auto

text \<open>
  Runs: the bytes given and those written so far, and the write in flight. A write ends with at most
  what it was given; the bytes of a failed write are not counted.
\<close>

inductive h2_run :: "h2_env \<Rightarrow> h2_connection \<Rightarrow> string \<Rightarrow> string \<Rightarrow> string option \<Rightarrow> bool" for env where
  h2_run_start: "h2_run env (fst (h2_start rv h2_init)) [] [] None"
| h2_run_read: "h2_run env c g w p \<Longrightarrow> h2_isReading c \<Longrightarrow> h2_step env (ReadDone ec data received) c = (c', os) \<Longrightarrow>
     in_flight p (writes os) = Some p' \<Longrightarrow> h2_run env c' (g @ given_event (ReadDone ec data received)) w p'"
| h2_run_call: "h2_run env c g w p \<Longrightarrow> h2_step env (CallbackLater cb) c = (c', os) \<Longrightarrow>
     in_flight p (writes os) = Some p' \<Longrightarrow> h2_run env c' (g @ given cb) w p'"
| h2_run_write: "h2_run env c g w (Some d) \<Longrightarrow> n \<le> length d \<Longrightarrow> h2_step env (WriteDone ec n) c = (c', os) \<Longrightarrow>
     in_flight None (writes os) = Some p' \<Longrightarrow> h2_run env c' g (w @ (if ec then [] else take n d)) p'"

lemma read_flight:
  assumes "flight_ok g w p c" "h2_step env (ReadDone ec data received) c = (c', os)"
  shows "\<exists>p'. in_flight p (writes os) = Some p' \<and> flight_ok (g @ given_event (ReadDone ec data received)) w p' c'"
proof (cases ec)
  case True
  then show ?thesis
    using assms flight_same [OF assms(1), of c'] by (auto simp: afterRead2_def same_bytes_def Let_def)
next
  case False
  define c0 where "c0 = c\<lparr>h2_isReading := False, h2_inBuffer := h2_inBuffer c @ data\<rparr>"
  obtain c1 r os1 where m: "memRecv_loop env received 0 c0 = (c1, r, os1)"
    by (cases "memRecv_loop env received 0 c0") auto
  have "flight_ok g w p c0"
    using assms(1) by (auto simp: flight_ok_def c0_def split: option.splits)
  from memRecv_flight [OF this m] obtain p1 where p1: "in_flight p (writes os1) = Some p1"
      "flight_ok (g @ given_received received) w p1 c1"
    by blast
  show ?thesis
  proof (cases r)
    case None
    then show ?thesis
      using assms(2) False m p1 by (simp add: afterRead2_def c0_def Let_def)
  next
    case (Some consumed)
    then have "c' = c1\<lparr>h2_inBuffer := drop consumed (h2_inBuffer c1), h2_isReading := True\<rparr>" "os = os1 @ [AsyncRead]"
      using assms(2) False m by (auto simp: afterRead2_def c0_def h2_doRead_def Let_def)
    then show ?thesis
      using False p1 flight_same [OF p1(2), of c'] by (simp add: same_bytes_def)
  qed
qed

lemma write_flight:
  assumes "flight_ok g w (Some d) c" "n \<le> length d" "h2_step env (WriteDone ec n) c = (c', os)"
  shows "\<exists>p'. in_flight None (writes os) = Some p' \<and> flight_ok g (w @ (if ec then [] else take n d)) p' c'"
proof (cases ec)
  case True
  then show ?thesis
    using assms by (auto simp: afterWriteBuffer_def flight_ok_def Let_def)
next
  case False
  obtain rest where rest: "h2_sendBuffer c = d @ rest"
    using assms(1) by (auto simp: flight_ok_def prefix_def)
  define c1 where "c1 = c\<lparr>h2_isWriting := False, h2_sendBuffer := drop n (h2_sendBuffer c)\<rparr>"
  have "(c', os) = writeBuffer c1"
    using assms(3) False by (simp add: afterWriteBuffer_def c1_def Let_def)
  moreover have "g = (w @ take n d) @ h2_sendBuffer c1"
    using assms(1,2) rest by (simp add: c1_def flight_ok_def)
  ultimately show ?thesis
    using False writeBuffer_flight [of g "w @ take n d" c1 None] by (simp add: c1_def) (metis fst_conv snd_conv)
qed

lemma run_flight: "h2_run env c g w p \<Longrightarrow> flight_ok g w p c"
proof (induction rule: h2_run.induct)
  case (h2_run_start rv)
  then show ?case
    by (simp add: h2_start_def sendServerConnectionHeader_def h2_init_def h2_doRead_def flight_ok_def Let_def)
next
  case (h2_run_read c g w p ec data received c' os p')
  then show ?case
    using read_flight by fastforce
next
  case (h2_run_call c g w p cb c' os p')
  then show ?case
    using call_flight [of g w p c env cb] by auto
next
  case (h2_run_write c g w d n ec c' os p')
  then show ?case
    using write_flight by fastforce
qed

text \<open>
  C35: In every run of an HTTP/2 connection the bytes written so far followed by the bytes waiting are
  the bytes nghttp2 has given, in their order; never are two writes under way, and while the
  connection is open bytes only wait when one is.
\<close>

theorem h2_bytes_in_order:
  assumes "h2_run env c g w p"
  shows "g = w @ h2_sendBuffer c
    \<and> (\<forall>cb. in_flight p (writes (snd (h2_step env (CallbackLater cb) c))) \<noteq> None)
    \<and> (\<forall>ec data received. in_flight p (writes (snd (h2_step env (ReadDone ec data received) c))) \<noteq> None)
    \<and> (\<forall>d n ec. p = Some d \<longrightarrow> n \<le> length d \<longrightarrow> in_flight None (writes (snd (h2_step env (WriteDone ec n) c))) \<noteq> None)
    \<and> (h2_open c \<longrightarrow> h2_sendBuffer c \<noteq> [] \<longrightarrow> (\<exists>d. p = Some d \<and> prefix d (h2_sendBuffer c)))"
proof -
  note ok = run_flight [OF assms]
  have "g = w @ h2_sendBuffer c"
    using ok by (simp add: flight_ok_def)
  moreover have "h2_open c \<Longrightarrow> h2_sendBuffer c \<noteq> [] \<Longrightarrow> \<exists>d. p = Some d \<and> prefix d (h2_sendBuffer c)"
    using ok by (auto simp: flight_ok_def split: option.splits)
  moreover have "in_flight p (writes (snd (h2_step env (ReadDone ec data received) c))) \<noteq> None" for ec data received
    using read_flight [OF ok, of env ec data received] by (metis option.distinct(1) prod.collapse)
  moreover have "in_flight p (writes (snd (h2_step env (CallbackLater cb) c))) \<noteq> None" for cb
    using call_flight [OF ok, of env cb] by auto
  moreover have "in_flight None (writes (snd (h2_step env (WriteDone ec n) c))) \<noteq> None" if "p = Some d" "n \<le> length d" for d n ec
    using write_flight [of g w d c n env ec] ok that by (metis option.distinct(1) prod.collapse)
  ultimately show ?thesis
    by blast
qed

definition sample_h2_env :: h2_env where
  "sample_h2_env = \<lparr>parse_relative_ref = Some, json_hash = (\<lambda>j. 7), json_dump = (\<lambda>j. ''{}''), json_cbor = (\<lambda>j. []),
     xss_disabled = False, keep_alive_field = (\<lambda>b f. f), h2_date = ''now'', h2_serialize = (\<lambda>r. ''body''),
     h2_string_to_verb = (\<lambda>s. if s = ''GET'' then verb_get else verb_unknown)\<rparr>"

lemma sample_h2_run:
  "h2_run sample_h2_env (fst (h2_step sample_h2_env (CallbackLater (SendData ''abc'')) (fst (h2_start 0 h2_init)))) ''abc'' [] (Some ''abc'')"
proof -
  let ?c = "fst (h2_start 0 h2_init)"
  have "writes (snd (h2_step sample_h2_env (CallbackLater (SendData ''abc'')) ?c)) = [''abc'']"
    by code_simp
  then show ?thesis
    using h2_run_call [OF h2_run_start [of sample_h2_env 0], of "SendData ''abc''" _ _ "Some ''abc''"]
    by (simp add: prod_eq_iff)
qed

theorem h2_bytes_in_order_witness:
  "h2_sendBuffer (fst (h2_step sample_h2_env (CallbackLater (SendData ''abc'')) (fst (h2_start 0 h2_init)))) = ''abc''
   \<and> in_flight None (writes (snd (h2_step sample_h2_env (WriteDone False 2)
       (fst (h2_step sample_h2_env (CallbackLater (SendData ''abc'')) (fst (h2_start 0 h2_init))))))) \<noteq> None"
  using h2_bytes_in_order [OF sample_h2_run] by (simp del: h2_step.simps)


section \<open>What can go wrong\<close>

text \<open>
  A client that gives up one stream loses the connection: when the handler of the stream ends its
  response, the stream is not found and the socket is closed.
\<close>

lemma cancelled_stream_closes_connection:
  "find_stream c i = None \<Longrightarrow> \<not> h2_open (fst (h2_call env (ResponseDone i r rv) c))"
  by (simp add: completionLambda_def sendResponse_def)

text \<open>
  The lambda that completes a response keeps only a plain pointer to the connection. When the client
  closes the socket while a handler runs, no read and no write is left that holds the connection.
\<close>

lemma handler_outlives_connection:
  "\<exists>c. h2_run sample_h2_env c [] [] None \<and> find_stream c 1 \<noteq> None \<and> \<not> h2_isReading c \<and> \<not> h2_isWriting c"
proof -
  let ?env = sample_h2_env
  define c0 where "c0 = fst (h2_start 0 h2_init)"
  define c1 where "c1 = fst (h2_step ?env (ReadDone False ''x'' [(request_callbacks 1 [('':method'', ''GET'')], 1)]) c0)"
  define c2 where "c2 = fst (h2_step ?env (ReadDone True [] []) c1)"
  have "h2_run ?env c0 [] [] None"
    unfolding c0_def by (rule h2_run_start)
  moreover have "writes (snd (h2_step ?env (ReadDone False ''x'' [(request_callbacks 1 [('':method'', ''GET'')], 1)]) c0)) = []"
      "h2_isReading c0"
    unfolding c0_def by code_simp+
  ultimately have "h2_run ?env c1 [] [] None"
    using h2_run_read [of ?env c0 "[]" "[]" None False "''x''" "[(request_callbacks 1 [('':method'', ''GET'')], 1)]" c1]
    by (simp add: c1_def prod_eq_iff request_callbacks_def)
  moreover have "writes (snd (h2_step ?env (ReadDone True [] []) c1)) = []" "h2_isReading c1"
    unfolding c1_def c0_def by code_simp+
  ultimately have "h2_run ?env c2 [] [] None"
    using h2_run_read [of ?env c1 "[]" "[]" None True "[]" "[]" c2] by (simp add: c2_def prod_eq_iff)
  moreover have "find_stream c2 1 \<noteq> None" "\<not> h2_isReading c2" "\<not> h2_isWriting c2"
    unfolding c2_def c1_def c0_def by code_simp+
  ultimately show ?thesis
    by blast
qed

text \<open>A path that is no URL is not refused: the request keeps the URL it had, an empty one.\<close>

lemma bad_path_not_refused:
  "parse_relative_ref env v = None \<Longrightarrow>
     \<exists>req. addRequestHeader env '':path'' v empty_request = Some req \<and> rq_target req = v \<and> urlBase req = []"
  by (simp add: addRequestHeader_def request_target_def setUrlInfo_def empty_request_def)

end
