(* ===== verification/EventService.thy ===== *)
theory EventService
  imports Router JsonUtils HttpClient
begin

text \<open>
  The event service, \<open>redfish_event/src/redfish_event.cpp\<close> and
  \<open>redfish_event/event_manager/event_manager.hpp\<close>: the plugin that registers three routes with the
  router, reads subscriptions from requests, keeps the subscribers and sends them test events. It
  joins the router, the request reader and the subscribers of the other theories.

  The JSON parser and serialiser, the URL parser and the clock are arguments. An exception leaves
  the state as it was when it was thrown; it is the flag \<open>False\<close> of an operation.
\<close>

section \<open>Subscriptions\<close>

text \<open>
  A subscriber as an element of the vector, with the destination it was given. Its sessions call it
  back through the pointer that was valid when they were made: \<open>sn_this\<close> lists, session by session,
  the memory block of the vector at that time.
\<close>

record subscription =
  sn_url :: string
  sn_sub :: subscriber
  sn_this :: "nat list"

record event_manager =
  em_subscribers :: "subscription list"
  em_capacity :: nat
  em_block :: nat

definition manager_init :: event_manager where
  "manager_init = \<lparr>em_subscribers = [], em_capacity = 0, em_block = 0\<rparr>"

record event_env =
  ee_parse_url :: "string \<Rightarrow> (string \<times> string \<times> string) option"
  ee_grow :: "nat \<Rightarrow> nat"
  ee_keep_alive :: "bool \<Rightarrow> fields \<Rightarrow> fields"
  ee_agent :: string
  ee_to_double :: "int \<Rightarrow> u64"
  ee_dump :: "int \<Rightarrow> json \<Rightarrow> string"
  ee_parse :: "string \<Rightarrow> json option"
  ee_ignore_type :: bool

definition event_policy :: retry_policy where
  "event_policy = \<lparr>maxRetries = 3, retryCount = 0, retryDelay = 10\<rparr>"

text \<open>\<open>push_back\<close> moves the subscribers to a new block when the vector is full.\<close>

definition push_subscription :: "(nat \<Rightarrow> nat) \<Rightarrow> subscription \<Rightarrow> event_manager \<Rightarrow> event_manager" where
  "push_subscription grow sn em =
     (let em1 = em\<lparr>em_subscribers := em_subscribers em @ [sn]\<rparr>
      in if length (em_subscribers em) < em_capacity em then em1
         else em1\<lparr>em_capacity := grow (em_capacity em), em_block := em_block em + 1\<rparr>)"

text \<open>The parts of the destination, which are read when a session is made.\<close>

definition destination :: "event_env \<Rightarrow> string \<Rightarrow> string \<times> string \<times> string" where
  "destination env url = (case ee_parse_url env url of Some parts \<Rightarrow> parts | None \<Rightarrow> ([], [], []))"

definition new_subscriber :: "event_env \<Rightarrow> string \<Rightarrow> subscriber" where
  "new_subscriber env url =
     (case destination env url of (host, port, path) \<Rightarrow> withPolicy event_policy (subscriber_init host port path))"

definition addSubscription :: "event_env \<Rightarrow> string \<Rightarrow> event_manager \<Rightarrow> event_manager" where
  "addSubscription env destUrl em =
     push_subscription (ee_grow env) \<lparr>sn_url = destUrl, sn_sub = new_subscriber env destUrl, sn_this = []\<rparr> em"

text \<open>The manager of the header file starts with a subscription of its own.\<close>

definition bmcweb_manager :: "event_env \<Rightarrow> event_manager" where
  "bmcweb_manager env = addSubscription env ''https://9.3.84.101:8443/events'' manager_init"

text \<open>
  \<open>sendEvent\<close> of one subscriber. When a session has to be made and the destination is no URL, the
  constructor of the view throws: then the new session is in the pool as it was made.
\<close>

definition makes_session :: "subscriber \<Rightarrow> bool" where
  "makes_session sb \<longleftrightarrow> \<not> list_ex (\<lambda>i. \<not> inUse (sb_sessions sb ! i)) (sb_pool sb) \<and> length (sb_pool sb) < sb_poolSize sb"

definition subscription_send ::
    "event_env \<Rightarrow> nat \<Rightarrow> string \<Rightarrow> subscription \<Rightarrow> bool \<times> subscription \<times> session_out list" where
  "subscription_send env block data sn =
     (let this' = (if makes_session (sn_sub sn) then sn_this sn @ [block] else sn_this sn)
      in if makes_session (sn_sub sn) \<and> ee_parse_url env (sn_url sn) = None
         then (False, sn\<lparr>sn_sub := snd (acquire id (sn_sub sn)), sn_this := this'\<rparr>, [])
         else case sendEvent (ee_keep_alive env) (ee_agent env) data (sn_sub sn) of
             (sb, os) \<Rightarrow> (True, sn\<lparr>sn_sub := sb, sn_this := this'\<rparr>, os))"

text \<open>The loop over the subscribers, which an exception ends.\<close>

fun send_each :: "('r \<Rightarrow> bool \<times> 'r \<times> 'o) \<Rightarrow> 'r list \<Rightarrow> bool \<times> 'r list \<times> 'o list" where
  "send_each send [] = (True, [], [])"
| "send_each send (r # rs) =
     (case send r of
        (ok, r', o') \<Rightarrow>
          if \<not> ok then (False, r' # rs, [o'])
          else (case send_each send rs of (ok', rs', os) \<Rightarrow> (ok', r' # rs', o' # os)))"

definition manager_sendEvent ::
    "event_env \<Rightarrow> string \<Rightarrow> event_manager \<Rightarrow> bool \<times> event_manager \<times> session_out list list" where
  "manager_sendEvent env event em =
     (case send_each (subscription_send env (em_block em) event) (em_subscribers em) of
        (ok, sns, oss) \<Rightarrow> (ok, em\<lparr>em_subscribers := sns\<rparr>, oss))"

section \<open>The test event\<close>

text \<open>The members of the event, put one by one into empty objects.\<close>

fun set_members :: "(string \<times> json) list \<Rightarrow> json \<Rightarrow> json option" where
  "set_members [] j = Some j"
| "set_members ((k, v) # ms) j = Option.bind (json_set j k v) (set_members ms)"

definition logEntry :: "string \<Rightarrow> json option" where
  "logEntry currentTime =
     set_members [(''EventId'', JString ''TestID''), (''EventType'', JString ''Event''), (''Severity'', JString ''OK''),
       (''Message'', JString ''Generated test event''), (''MessageId'', JString ''OpenBMC.0.2.TestEventLog''),
       (''MessageArgs'', JArray []), (''EventTimestamp'', JString currentTime), (''Context'', JString ''TestContext'')]
       (JObject [])"

definition testEvent :: "string \<Rightarrow> json option" where
  "testEvent currentTime =
     Option.bind (logEntry currentTime) (\<lambda>e.
       set_members [(''@odata.type'', JString ''#Event.v1_4_0.Event''), (''Name'', JString ''Event Log''),
         (''Events'', JArray [e])] JNull)"

text \<open>\<open>getInstance\<close> makes the manager when it is first asked for.\<close>

definition getInstance :: "event_manager option \<Rightarrow> event_manager" where
  "getInstance em = (case em of None \<Rightarrow> manager_init | Some m \<Rightarrow> m)"

definition sendTestEventLog ::
    "event_env \<Rightarrow> string \<Rightarrow> event_manager option \<Rightarrow> bool \<times> event_manager option \<times> session_out list list" where
  "sendTestEventLog env currentTime em =
     (case testEvent currentTime of
        None \<Rightarrow> (False, em, [])
      | Some msg \<Rightarrow>
          (case manager_sendEvent env (ee_dump env 2 msg) (getInstance em) of
             (ok, em', oss) \<Rightarrow> (ok, Some em', oss)))"

section \<open>The handlers\<close>

text \<open>What a handler leaves: whether it returned, the response, the manager and what was started.\<close>

type_synonym handler_result = "bool \<times> response \<times> event_manager option \<times> session_out list list"

definition test_handler :: "response \<Rightarrow> event_manager option \<Rightarrow> handler_result" where
  "test_handler res em = (True, res\<lparr>jsonValue := JObject [(''Test'', JString ''Test'')]\<rparr>, em, [])"

definition subscription_wanted :: "(string \<times> unpack_type \<times> nat) list" where
  "subscription_wanted =
     [(''Destination'', TBase TString, 0), (''DeliveryRetryPolicy'', TOptional (TBase TString), 1),
      (''Protocol'', TBase TString, 2), (''SubscriptionType'', TOptional (TBase TString), 3)]"

definition subscription_vars :: store where
  "subscription_vars = (\<lambda>x. VNone)(0 := VString [], 2 := VString [])"

fun string_of :: "uvalue \<Rightarrow> string" where
  "string_of (VString s) = s"
| "string_of v = []"

definition subscriptions_handler ::
    "event_env \<Rightarrow> 's request \<Rightarrow> response \<Rightarrow> event_manager option \<Rightarrow> handler_result" where
  "subscriptions_handler env req res em =
     (case readJsonPatch (ee_to_double env) (ee_dump env) (ee_parse env) (ee_ignore_type env) req res
             subscription_wanted subscription_vars of
        None \<Rightarrow> (False, res, em, [])
      | Some (ok, res1, vars) \<Rightarrow>
          if \<not> ok then (True, res1, em, [])
          else (True, res1, Some (addSubscription env (string_of (vars 0)) (getInstance em)), []))"

definition submit_handler ::
    "event_env \<Rightarrow> string \<Rightarrow> response \<Rightarrow> event_manager option \<Rightarrow> handler_result" where
  "submit_handler env currentTime res em =
     (case sendTestEventLog env currentTime em of
        (ok, em', oss) \<Rightarrow> (ok, if ok then set_result 204 res else res, em', oss))"

section \<open>The plugin\<close>

definition subscriptions_url :: string where
  "subscriptions_url = ''/redfish/v2/EventService/Subscriptions/''"

definition submit_url :: string where
  "submit_url = ''/redfish/v2/EventService/Actions/EventService.SubmitTestEvent/''"

definition test_url :: string where
  "test_url = ''/redfish/v1/Test/''"

definition post_rule :: "string \<Rightarrow> rule" where
  "post_rule url = rule_setHandler (rule_methods verb_post [] (new_rule url))"

definition registerSubscriberUrl :: "router \<Rightarrow> router" where
  "registerSubscriberUrl rt = newRule (post_rule subscriptions_url) rt"

definition requestRoutesSubmitTestEvent :: "router \<Rightarrow> router" where
  "requestRoutesSubmitTestEvent rt = newRule (post_rule submit_url) rt"

definition registerTestRoutes :: "router \<Rightarrow> router" where
  "registerTestRoutes rt = newRule (post_rule test_url) rt"

definition registerRoutes :: "router \<Rightarrow> router" where
  "registerRoutes rt = registerTestRoutes (requestRoutesSubmitTestEvent (registerSubscriberUrl rt))"

text \<open>The handler of a rule, by its place after those registered before.\<close>

definition plugin_handler ::
    "event_env \<Rightarrow> string \<Rightarrow> nat \<Rightarrow> 's request \<Rightarrow> response \<Rightarrow> event_manager option \<Rightarrow> handler_result" where
  "plugin_handler env currentTime i req res em =
     (if i = 0 then subscriptions_handler env req res em
      else if i = 1 then submit_handler env currentTime res em
      else test_handler res em)"

text \<open>A request through the router of a program that has only this plugin.\<close>

definition plugin_request ::
    "event_env \<Rightarrow> (string \<Rightarrow> dbl parsed) \<Rightarrow> router \<Rightarrow> string \<Rightarrow> 's request \<Rightarrow> response \<Rightarrow> event_manager option
       \<Rightarrow> handler_result option" where
  "plugin_request env strtod rt currentTime req res em =
     (case handle strtod rt req res False of
        None \<Rightarrow> None
      | Some (Inl e) \<Rightarrow> None
      | Some (Inr (res1, None)) \<Rightarrow> Some (True, res1, em, [])
      | Some (Inr (res1, Some (i, params))) \<Rightarrow> Some (plugin_handler env currentTime i req res1 em))"

definition interface_iid :: string where
  "interface_iid = ''iid_router''"

definition hasInterface :: "string \<Rightarrow> bool" where
  "hasInterface interfaceId \<longleftrightarrow> interfaceId = interface_iid"

end
