(* ===== verification/EventDelivery.thy ===== *)
theory EventDelivery
  imports EventService
begin

text \<open>
  What the plugin of the event service guarantees, from the request to the subscribers: its routes
  lead to its handlers, a request to subscribe adds a subscriber or is refused, and a test event
  reaches every subscriber; and the ways in which it fails.
\<close>

section \<open>The routes of the plugin\<close>

lemma tokenise_plain: "CHR ''<'' \<notin> set u \<Longrightarrow> tokenise u = Some (map Lit u)"
  by (induction u) auto

lemma serves_plain:
  assumes "CHR ''<'' \<notin> set (rule_url r)"
  shows "serves strtod r url ps \<longleftrightarrow> url \<in> set (rule_urls (rule_url r)) \<and> ps = emptyParams"
proof -
  have "tokenise u = Some (map Lit u)" if "u \<in> set (rule_urls (rule_url r))" for u
    using that assms by (intro tokenise_plain) (auto simp: rule_urls_def dest: in_set_butlastD split: if_splits)
  moreover have "tok_run strtod (map Lit u) url emptyParams = Some ps \<longleftrightarrow> url = u \<and> ps = emptyParams" for u
    using tok_run_lits [of strtod u "[]" url emptyParams] by (auto simp: append_eq_conv_conj)
  ultimately show ?thesis
    by (auto simp: serves_def)
qed

definition plugin_rules :: "rule list" where
  "plugin_rules = [post_rule subscriptions_url, post_rule submit_url, post_rule test_url]"

lemma plugin_routes: "registerRoutes router_init = router_init\<lparr>allRules := plugin_rules\<rparr>"
  by (simp add: registerRoutes_def registerTestRoutes_def requestRoutesSubmitTestEvent_def
      registerSubscriberUrl_def newRule_def router_init_def plugin_rules_def)

lemma bit_single: "k < 64 \<Longrightarrow> bit (push_bit k 1 :: u64) m \<longleftrightarrow> m = k"
  by (auto simp: bit_exp_iff possible_bit_def)

lemma post_rule_parts [simp]:
  "rule_url (post_rule u) = u" "hasHandler (post_rule u)" "bit (methodsBitfield (post_rule u)) m \<longleftrightarrow> m = verbIndex Post"
proof -
  have "methodsBitfield (post_rule u) = push_bit (verbIndex Post) 1"
    by (simp add: post_rule_def new_rule_def rule_setHandler_def)
  then show "bit (methodsBitfield (post_rule u)) m \<longleftrightarrow> m = verbIndex Post"
    using bit_single [of "verbIndex Post" m] by simp
qed (simp_all add: post_rule_def new_rule_def rule_setHandler_def)

lemma plugin_urls:
  "rule_urls subscriptions_url = [subscriptions_url, butlast subscriptions_url]"
  "rule_urls submit_url = [submit_url, butlast submit_url]"
  "rule_urls test_url = [test_url, butlast test_url]"
  by (simp_all add: rule_urls_def subscriptions_url_def submit_url_def test_url_def)

lemma plugin_plain: "CHR ''<'' \<notin> set subscriptions_url" "CHR ''<'' \<notin> set submit_url" "CHR ''<'' \<notin> set test_url"
  by (simp_all add: subscriptions_url_def submit_url_def test_url_def)

lemma plugin_rules_ok: "rules_ok plugin_rules"
proof -
  have "tokenise v \<noteq> None" if "CHR ''<'' \<notin> set u" "v \<in> set (rule_urls u)" for u v
    using that tokenise_plain by (auto simp: rule_urls_def dest: in_set_butlastD split: if_splits)
  then have "\<forall>r \<in> set plugin_rules. hasHandler r \<and> (\<forall>u \<in> set (rule_urls (rule_url r)). tokenise u \<noteq> None)"
    using plugin_plain unfolding plugin_rules_def by (simp del: not_None_eq)
  moreover have "distinct (map fst (table_pats plugin_rules (method_rules plugin_rules m (length plugin_rules))))" for m
  proof -
    have "method_rules plugin_rules m (length plugin_rules) = (if m = verbIndex Post then [0, 1, 2] else [])"
      unfolding plugin_rules_def by (simp add: method_rules_def numeral_eq_Suc)
    moreover have "distinct (map fst (table_pats plugin_rules [0, 1, 2]))"
      unfolding plugin_rules_def by code_simp
    moreover have "distinct (map fst (table_pats plugin_rules []))"
      by (simp add: table_pats_def)
    ultimately show ?thesis
      by presburger
  qed
  ultimately show ?thesis
    by (simp add: rules_ok_def del: not_None_eq)
qed

text \<open>The URL of the rule \<open>i\<close>, with or without the last slash.\<close>

definition plugin_url :: "nat \<Rightarrow> string \<Rightarrow> bool" where
  "plugin_url i url \<longleftrightarrow> i < 3 \<and> url \<in> set (rule_urls ([subscriptions_url, submit_url, test_url] ! i))"

lemma plugin_url_unique: "plugin_url i url \<Longrightarrow> plugin_url j url \<Longrightarrow> i = j"
proof -
  have "disjnt (set (rule_urls subscriptions_url)) (set (rule_urls submit_url))"
    "disjnt (set (rule_urls subscriptions_url)) (set (rule_urls test_url))"
    "disjnt (set (rule_urls submit_url)) (set (rule_urls test_url))"
    unfolding plugin_urls disjnt_def unfolding subscriptions_url_def submit_url_def test_url_def by simp_all
  then show "plugin_url i url \<Longrightarrow> plugin_url j url \<Longrightarrow> i = j"
    unfolding plugin_url_def disjnt_iff by (auto simp: numeral_3_eq_3 less_Suc_eq)
qed

lemma plugin_first_match:
  assumes "first_match strtod plugin_rules m url rte" "plugin_url i url"
  shows "rte = (if m = verbIndex Post then Some (i, emptyParams) else None)"
proof -
  have rule: "rule_url (plugin_rules ! j) = [subscriptions_url, submit_url, test_url] ! j"
      "bit (methodsBitfield (plugin_rules ! j)) m \<longleftrightarrow> m = verbIndex Post" if "j < 3" for j
    using that unfolding plugin_rules_def by (auto simp: numeral_3_eq_3 less_Suc_eq)
  have len: "length plugin_rules = 3"
    by (simp add: plugin_rules_def)
  have serves: "serves strtod (plugin_rules ! j) url ps \<longleftrightarrow> plugin_url j url \<and> ps = emptyParams" if "j < 3" for j ps
  proof -
    have "CHR ''<'' \<notin> set (rule_url (plugin_rules ! j))"
      using that plugin_plain by (auto simp: rule numeral_3_eq_3 less_Suc_eq)
    from serves_plain [OF this] show ?thesis
      using that by (simp add: plugin_url_def rule)
  qed
  have matching: "j \<in> matching strtod plugin_rules m url \<longleftrightarrow> m = verbIndex Post \<and> j = i" for j
  proof (cases "j < 3")
    case True
    then show ?thesis
      unfolding matching_def mem_Collect_eq len rule(2) [OF True] serves [OF True]
      using assms(2) plugin_url_unique by blast
  next
    case False
    then show ?thesis
      using assms(2) unfolding matching_def len by (auto simp: plugin_url_def)
  qed
  show ?thesis
  proof (cases rte)
    case None
    then show ?thesis
      using assms(1) matching [of i] by (auto simp: first_match_def)
  next
    case (Some x)
    then have "fst x \<in> matching strtod plugin_rules m url" "serves strtod (plugin_rules ! fst x) url (snd x)"
      using assms(1) by (auto simp: first_match_def split: prod.splits)
    then show ?thesis
      using Some matching serves assms(2) by (cases x) (auto simp: plugin_url_def)
  qed
qed

lemma plugin_request_handler:
  assumes rt: "router_validate (registerRoutes router_init) = Some (Inr rt)"
    and req: "httpVerbFromBoost (rq_method req) = Some Post" "rq_session req = None" "plugin_url i (urlBase req)"
  shows "plugin_request env strtod rt now req res em
    = Some (plugin_handler env now i req (addHeader ''Allow'' ''POST'' res) em)"
proof -
  have ok: "router_ok rt" "allRules rt = plugin_rules"
    using router_validate_ok [OF plugin_rules_ok] rt unfolding plugin_routes by auto
  obtain f where f: "\<forall>m \<le> methodNotAllowedIndex. findRouteByIndex strtod rt (urlBase req) m = Some (Inr (f m))
      \<and> first_match strtod plugin_rules m (urlBase req) (f m)"
    using routes_of_router [OF ok(1), of strtod "urlBase req"] unfolding ok(2) by blast
  then have fm: "f m = (if m = verbIndex Post then Some (i, emptyParams) else None)" if "m \<le> methodNotAllowedIndex" for m
    using plugin_first_match [OF _ req(3)] that by blast
  have "verbIndex v \<le> methodNotAllowedIndex" for v
    by (cases v) (simp_all add: methodNotAllowedIndex_def notFoundIndex_def maxVerbIndex_def)
  then have fv: "f (verbIndex v) = (if verbIndex v = verbIndex Post then Some (i, emptyParams) else None)" for v
    by (rule fm)
  have "served_verbs f = [Post]"
    unfolding served_verbs_def fv by (simp add: allVerbs_def)
  moreover have "f (verbIndex Post) = Some (i, emptyParams)"
    unfolding fv by simp
  ultimately show ?thesis
    using handle_found [OF ok(1) req(1), of strtod f "(i, emptyParams)" res False] f req(2)
    by (simp add: plugin_request_def dispatch_def)
qed

section \<open>Test events reach the subscribers\<close>

definition posts_or_keeps :: "string \<Rightarrow> subscription \<Rightarrow> subscription \<Rightarrow> session_out list \<Rightarrow> bool" where
  "posts_or_keeps event sn sn' os \<longleftrightarrow>
     (\<exists>i \<in> set (sb_pool (sn_sub sn')). \<exists>req.
        writes (os @ snd (complete_all 5 (sb_sessions (sn_sub sn') ! i))) = [req] \<and> addressed (sn_sub sn) req
        \<and> cq_body req = event \<and> hs_state (fst (complete_all 5 (sb_sessions (sn_sub sn') ! i))) = Idle)
     \<or> os = [] \<and> sn_sub sn' = (sn_sub sn)\<lparr>sb_buffer := buffer_push event (sb_buffer (sn_sub sn))\<rparr>
       \<and> sb_poolSize (sn_sub sn) \<le> length (sb_pool (sn_sub sn))
       \<and> list_all (\<lambda>i. inUse (sb_sessions (sn_sub sn) ! i)) (sb_pool (sn_sub sn))"

lemma send_posts_or_keeps:
  assumes "keep_alive_law (ee_keep_alive env)" "subscriber_run (ee_keep_alive env) (ee_agent env) (sn_sub sn)"
    and "ee_parse_url env (sn_url sn) \<noteq> None"
  shows "\<exists>sn' os. subscription_send env block event sn = (True, sn', os) \<and> sn_url sn' = sn_url sn
    \<and> posts_or_keeps event sn sn' os"
proof -
  obtain sb os where sb: "sendEvent (ee_keep_alive env) (ee_agent env) event (sn_sub sn) = (sb, os)"
    by fastforce
  show ?thesis
    using sendEvent_posts_or_keeps [OF assms(1,2) sb] assms(3)
    by (auto simp: subscription_send_def sb posts_or_keeps_def Let_def)
qed

text \<open>
  The contract between the manager and its subscribers: a receiver that is ready takes the event, and
  keeps its name. What the loop over the receivers does rests on this alone.
\<close>

locale event_receiver =
  fixes send :: "'r \<Rightarrow> bool \<times> 'r \<times> 'o" and ready :: "'r \<Rightarrow> bool" and delivered :: "'r \<Rightarrow> 'r \<Rightarrow> 'o \<Rightarrow> bool"
    and name :: "'r \<Rightarrow> 'n"
  assumes send_ready: "ready r \<Longrightarrow> \<exists>r' o'. send r = (True, r', o') \<and> name r' = name r \<and> delivered r r' o'"
begin

lemma send_each_delivers:
  "\<forall>r \<in> set rs. ready r \<Longrightarrow>
     \<exists>rs' os. send_each send rs = (True, rs', os) \<and> map name rs' = map name rs
       \<and> list_all2 (\<lambda>(r, r') o'. delivered r r' o') (zip rs rs') os"
proof (induction rs)
  case (Cons r rs)
  obtain r' o' where "send r = (True, r', o')" "name r' = name r" "delivered r r' o'"
    using send_ready [of r] Cons.prems by auto
  moreover obtain rs' os where "send_each send rs = (True, rs', os)" "map name rs' = map name rs"
      "list_all2 (\<lambda>(r, r') o'. delivered r r' o') (zip rs rs') os"
    using Cons by auto
  ultimately show ?case
    by simp
qed simp

end

definition destination_ok :: "event_env \<Rightarrow> subscription \<Rightarrow> bool" where
  "destination_ok env sn \<longleftrightarrow> keep_alive_law (ee_keep_alive env)
     \<and> ee_parse_url env (sn_url sn) = Some (sb_host (sn_sub sn), sb_port (sn_sub sn), sb_path (sn_sub sn))
     \<and> subscriber_run (ee_keep_alive env) (ee_agent env) (sn_sub sn)"

interpretation subscribers: event_receiver "subscription_send env block event" "destination_ok env" "posts_or_keeps event" sn_url
  for env block event
  by unfold_locales (use send_posts_or_keeps in \<open>auto simp: destination_ok_def\<close>)

text \<open>The test event.\<close>

definition event_document :: "string \<Rightarrow> json" where
  "event_document now = JObject
     [(''@odata.type'', JString ''#Event.v1_4_0.Event''),
      (''Events'', JArray [JObject
         [(''Context'', JString ''TestContext''), (''EventId'', JString ''TestID''), (''EventTimestamp'', JString now),
          (''EventType'', JString ''Event''), (''Message'', JString ''Generated test event''), (''MessageArgs'', JArray []),
          (''MessageId'', JString ''OpenBMC.0.2.TestEventLog''), (''Severity'', JString ''OK'')]]),
      (''Name'', JString ''Event Log'')]"

lemma testEvent_document: "testEvent now = Some (event_document now)"
  by (simp add: testEvent_def logEntry_def event_document_def)


section \<open>Subscriptions from requests\<close>

lemma patch_progress:
  assumes "reportable res"
  shows "\<exists>ok r vars'. readJsonPatch to_double dump parse ignore_type req res wanted vars = Some (ok, r, vars') \<and> progress True res ok r"
proof -
  note f = failing_setters [OF assms]
  have helper: "\<exists>j r. readJsonPatchHelper parse ignore_type req res = Some (j, r) \<and> progress True res (j \<noteq> None) r"
    using f(5-8) [of True] assms
    by (auto simp: readJsonPatchHelper_def processJsonFromRequest_def Let_def split: option.split json.split)
  then obtain j r where j: "readJsonPatchHelper parse ignore_type req res = Some (j, r)" "progress True res (j \<noteq> None) r"
    by blast
  show ?thesis
  proof (cases j)
    case None
    then show ?thesis
      using j by (auto simp: readJsonPatch_def)
  next
    case (Some x)
    then have "r = res"
      using j(2) by (simp add: progress_def)
    then show ?thesis
      using j(1) Some read_progress(1) [OF assms, of to_double dump x "packVariant wanted" vars]
      by (auto simp: readJsonPatch_def readJson_def)
  qed
qed

text \<open>
  The bodies of a subscription: a destination and a protocol, and maybe a retry policy and a type;
  members whose names begin with \<open>@odata.\<close> do not matter.
\<close>

definition subscription_members :: "string \<Rightarrow> string \<Rightarrow> string option \<Rightarrow> string option \<Rightarrow> json_object" where
  "subscription_members d p retry kind =
     (case retry of None \<Rightarrow> [] | Some x \<Rightarrow> [(''DeliveryRetryPolicy'', JString x)])
     @ [(''Destination'', JString d), (''Protocol'', JString p)]
     @ (case kind of None \<Rightarrow> [] | Some x \<Rightarrow> [(''SubscriptionType'', JString x)])"

definition subscribes :: "event_env \<Rightarrow> 's request \<Rightarrow> string \<Rightarrow> bool" where
  "subscribes env req d \<longleftrightarrow>
     parseRequestAsJson (ee_parse env) (ee_ignore_type env) req \<noteq> BadContentType
     \<and> (\<exists>obj p retry kind. ee_parse env (rq_body req) = Some (JObject obj)
          \<and> filter (\<lambda>m. \<not> prefix ''@odata.'' (fst m)) obj = subscription_members d p retry kind)"

lemma members_read:
  "\<exists>vars. readJson to_double dump (JObject (subscription_members d p retry kind)) res subscription_wanted subscription_vars
     = Some (True, res, vars) \<and> vars 0 = VString d"
  by (cases retry; cases kind)
    (simp_all add: readJson_def packVariant_def subscription_wanted_def subscription_vars_def subscription_members_def
      readJsonHelper.simps key_head_def key_leftover_def unpackValueWithErrorCode_def)

lemma patch_reads:
  assumes "subscribes env req d"
  shows "\<exists>vars. readJsonPatch to_double dump (ee_parse env) (ee_ignore_type env) req res subscription_wanted subscription_vars
     = Some (True, res, vars) \<and> vars 0 = VString d"
proof -
  obtain obj p retry kind where obj: "ee_parse env (rq_body req) = Some (JObject obj)"
      "filter (\<lambda>m. \<not> prefix ''@odata.'' (fst m)) obj = subscription_members d p retry kind"
    using assms by (auto simp: subscribes_def)
  have "subscription_members d p retry kind \<noteq> []"
    by (simp add: subscription_members_def)
  then have "obj \<noteq> []" "filter (\<lambda>m. \<not> prefix ''@odata.'' (fst m)) obj \<noteq> []"
    unfolding obj(2) using obj(2) by auto
  then have "readJsonPatchHelper (ee_parse env) (ee_ignore_type env) req res
      = Some (Some (JObject (subscription_members d p retry kind)), res)"
    using assms obj by (simp add: readJsonPatchHelper_def processJsonFromRequest_def subscribes_def Let_def)
  then show ?thesis
    using members_read by (simp add: readJsonPatch_def)
qed

lemma reportable_addHeader [simp]: "reportable (addHeader k v r) = reportable r"
  by (simp add: reportable_def addHeader_def)


text \<open>Subscribing keeps what the delivery of events needs.\<close>

lemma new_subscriber_run: "subscriber_run keep_alive agent (new_subscriber env d)"
proof -
  have "subscriber_run keep_alive agent (withPolicy p (subscriber_init h k path))" for p h k path
    using sb_start [of keep_alive agent 5 p h k path] by (simp add: withPoolSize_def withPolicy_def subscriber_init_def)
  then show ?thesis
    by (simp add: new_subscriber_def split: prod.split)
qed

lemma destination_ok_add:
  assumes "\<forall>sn \<in> set (em_subscribers em). destination_ok env sn" "ee_parse_url env d \<noteq> None"
    and "keep_alive_law (ee_keep_alive env)"
  shows "\<forall>sn \<in> set (em_subscribers (addSubscription env d em)). destination_ok env sn"
proof -
  obtain h k path where "ee_parse_url env d = Some (h, k, path)"
    using assms(2) by auto
  then have "ee_parse_url env d = Some (sb_host (new_subscriber env d), sb_port (new_subscriber env d), sb_path (new_subscriber env d))"
    by (simp add: new_subscriber_def destination_def withPolicy_def subscriber_init_def)
  moreover have "set (em_subscribers (addSubscription env d em))
      = insert \<lparr>sn_url = d, sn_sub = new_subscriber env d, sn_this = []\<rparr> (set (em_subscribers em))"
    by (simp add: addSubscription_def push_subscription_def Let_def)
  ultimately show ?thesis
    using assms(1,3) new_subscriber_run by (auto simp: destination_ok_def)
qed

section \<open>Examples\<close>

definition sample_event_env :: event_env where
  "sample_event_env = \<lparr>ee_parse_url = (\<lambda>u. if u = ''bad'' then None else Some (u, ''443'', ''/events'')), ee_grow = (\<lambda>n. 2 * n + 1),
     ee_keep_alive = (\<lambda>b f. f), ee_agent = ''agent'', ee_to_double = (\<lambda>i. 0), ee_dump = (\<lambda>n j. ''event''),
     ee_parse = (\<lambda>s. Some (JObject [(''Destination'', JString s), (''Protocol'', JString ''Redfish'')])), ee_ignore_type = True\<rparr>"

definition post_request :: "string \<Rightarrow> string \<Rightarrow> unit request" where
  "post_request url body = \<lparr>rq_method = verb_post, rq_target = url, rq_fields = [], rq_body = body, urlBase = url,
     isSecure = True, rq_session = None, userRole = []\<rparr>"

definition one_subscriber :: event_manager where
  "one_subscriber = addSubscription sample_event_env ''host'' manager_init"

lemma one_subscriber_ok: "\<forall>sn \<in> set (em_subscribers one_subscriber). destination_ok sample_event_env sn"
  unfolding one_subscriber_def
  by (rule destination_ok_add) (simp_all add: manager_init_def sample_event_env_def keep_alive_law_def)

lemma post_request_parts [simp]:
  "rq_method (post_request url body) = verb_post" "rq_session (post_request url body) = None"
  "urlBase (post_request url body) = url" "rq_body (post_request url body) = body"
  by (simp_all add: post_request_def)

lemma plugin_urls_plain: "plugin_url 0 subscriptions_url" "plugin_url 1 submit_url"
  by (simp_all add: plugin_url_def rule_urls_def)



section \<open>What goes wrong\<close>

text \<open>
  A destination that is no URL is accepted, and from then on no test event reaches the subscribers
  behind it: sending to it throws.
\<close>

lemma bad_destination_blocks_events:
  "ee_parse_url env d = None \<Longrightarrow>
     \<exists>sn. send_each (subscription_send env block event) (\<lparr>sn_url = d, sn_sub = new_subscriber env d, sn_this = []\<rparr> # sns) = (False, sn # sns, [[]])"
  by (simp add: subscription_send_def makes_session_def new_subscriber_def withPolicy_def subscriber_init_def Let_def
      split: prod.split)

text \<open>
  The sessions call a subscriber back through its address. A second subscription moves the first one
  to a new block of memory, but its session keeps the old address.
\<close>

lemma second_subscription_dangles:
  "let (ok, em1, oss) = manager_sendEvent sample_event_env ''event'' one_subscriber;
       em2 = addSubscription sample_event_env ''other'' em1
   in ok \<and> sn_this (em_subscribers em2 ! 0) \<noteq> [em_block em2] \<and> length (sb_sessions (sn_sub (em_subscribers em2 ! 0))) = 1"
  by code_simp

end
