(* ===== verification/WebClient.thy ===== *)
theory WebClient
  imports HttpClient
begin

text \<open>
  Streams of values, \<open>http/web_client.hpp\<close>, and the web client built on them,
  \<open>redfish_event/http/web_client.hpp\<close>. A stream draws values from a source (one value, a range, or
  the responses of an HTTP session), maps them and hands them to its subscriber, which gets either
  one after the other or asks for the next itself. The values are of any type.

  The lemmas say that a subscriber gets every value of the source once and in order, and what a
  sink sends for a value.
\<close>

section \<open>Sources\<close>

text \<open>\<open>JustSource\<close> holds its value and whether it is still there; an HTTP source its count.\<close>

datatype 'a source = JustSource 'a bool | RangeSource "'a list" | HttpSource nat bool

fun hasNext :: "'a source \<Rightarrow> bool" where
  "hasNext (JustSource v mHasNext) = mHasNext"
| "hasNext (RangeSource xs) = (xs \<noteq> [])"
| "hasNext (HttpSource count forever) = (forever \<or> count > 0)"

definition decrement :: "nat \<Rightarrow> nat" where
  "decrement count = (if count > 0 then count - 1 else count)"

text \<open>The value that \<open>next\<close> hands to its consumer at once; an HTTP source has it later.\<close>

fun source_next :: "'a source \<Rightarrow> 'a option \<times> 'a source" where
  "source_next (JustSource v mHasNext) = (Some v, JustSource v False)"
| "source_next (RangeSource []) = (None, RangeSource [])"
| "source_next (RangeSource (x # xs)) = (Some x, RangeSource xs)"
| "source_next (HttpSource count forever) = (None, HttpSource (decrement count) forever)"

fun source_stop :: "'a source \<Rightarrow> 'a source" where
  "source_stop (HttpSource count forever) = HttpSource count False"
| "source_stop src = src"

section \<open>Streams\<close>

record 'a flux =
  fx_source :: "'a source"
  fx_map :: "('a \<Rightarrow> 'a) list"
  fx_onFinish :: bool
  fx_async :: bool

datatype 'a flux_out = Deliver 'a | Finish | RunSession

definition mono_just :: "'a \<Rightarrow> 'a flux" where
  "mono_just v = \<lparr>fx_source = JustSource v True, fx_map = [], fx_onFinish = False, fx_async = False\<rparr>"

definition flux_range :: "'a list \<Rightarrow> 'a flux" where
  "flux_range xs = \<lparr>fx_source = RangeSource xs, fx_map = [], fx_onFinish = False, fx_async = False\<rparr>"

text \<open>\<open>connect\<close>: a \<open>Mono\<close> asks once, a \<open>Flux\<close> for ever.\<close>

definition http_connect :: "bool \<Rightarrow> 'a flux" where
  "http_connect forever = \<lparr>fx_source = HttpSource 1 forever, fx_map = [], fx_onFinish = False, fx_async = False\<rparr>"

definition onFinish :: "'a flux \<Rightarrow> 'a flux" where
  "onFinish fx = fx\<lparr>fx_onFinish := True\<rparr>"

definition flux_map :: "('a \<Rightarrow> 'a) \<Rightarrow> 'a flux \<Rightarrow> 'a flux" where
  "flux_map f fx = fx\<lparr>fx_map := fx_map fx @ [f]\<rparr>"

definition apply_maps :: "('a \<Rightarrow> 'a) list \<Rightarrow> 'a \<Rightarrow> 'a" where
  "apply_maps fs v = fold (\<lambda>func sofar. func sofar) fs v"

text \<open>
  \<open>subscribe\<close>, with \<open>invokeSubscriber\<close> for both kinds of subscriber: one that gets the next value when
  it returns, and one that gets a token to ask for it.
\<close>

definition source_size :: "'a source \<Rightarrow> nat" where
  "source_size src = (case src of JustSource v b \<Rightarrow> if b then 1 else 0 | RangeSource xs \<Rightarrow> length xs | HttpSource n f \<Rightarrow> 0)"

lemma source_shrinks: "hasNext src \<Longrightarrow> (Some v, src') = source_next src \<Longrightarrow> source_size src' < source_size src"
  by (cases src rule: source_next.cases) (auto simp: source_size_def)

function subscribe :: "'a flux \<Rightarrow> 'a flux \<times> 'a flux_out list" where
  "subscribe fx =
     (if hasNext (fx_source fx) then
        (case source_next (fx_source fx) of
           (None, src) \<Rightarrow> (fx\<lparr>fx_source := src\<rparr>, [RunSession])
         | (Some v, src) \<Rightarrow>
             (let fx1 = fx\<lparr>fx_source := src\<rparr>; r = apply_maps (fx_map fx) v
              in if fx_async fx then (fx1, [Deliver r])
                 else (case subscribe fx1 of (fx2, os) \<Rightarrow> (fx2, Deliver r # os))))
      else (fx, if fx_onFinish fx then [Finish] else []))"
  by pat_completeness auto

termination
  by (relation "measure (source_size \<circ> fx_source)") (auto intro: source_shrinks)

declare subscribe.simps [simp del]

text \<open>The consumer of an HTTP source, when its response is there, and the token of a subscriber.\<close>

definition http_response :: "'a \<Rightarrow> 'a flux \<Rightarrow> 'a flux \<times> 'a flux_out list" where
  "http_response v fx =
     (let r = apply_maps (fx_map fx) v
      in if fx_async fx then (fx, [Deliver r])
         else (case subscribe fx of (fx1, os) \<Rightarrow> (fx1, Deliver r # os)))"

definition request_next :: "bool \<Rightarrow> 'a flux \<Rightarrow> 'a flux \<times> 'a flux_out list" where
  "request_next next' fx = (if next' then subscribe fx else (fx, []))"

datatype 'a flux_event = ResponseCame 'a | RequestNext bool

fun flux_step :: "'a flux_event \<Rightarrow> 'a flux \<Rightarrow> 'a flux \<times> 'a flux_out list" where
  "flux_step (ResponseCame v) fx = http_response v fx"
| "flux_step (RequestNext b) fx = request_next b fx"

fun flux_steps :: "'a flux_event list \<Rightarrow> 'a flux \<Rightarrow> 'a flux \<times> 'a flux_out list" where
  "flux_steps [] fx = (fx, [])"
| "flux_steps (e # es) fx = (case flux_step e fx of (fx1, os) \<Rightarrow> (case flux_steps es fx1 of (fx2, os') \<Rightarrow> (fx2, os @ os')))"

text \<open>Everything a subscriber sees after it has subscribed and some events have come.\<close>

definition flux_run :: "'a flux_event list \<Rightarrow> 'a flux \<Rightarrow> 'a flux_out list" where
  "flux_run es fx = (case subscribe fx of (fx1, os) \<Rightarrow> os @ snd (flux_steps es fx1))"

section \<open>Sinks\<close>

text \<open>
  A sink posts a value to its URL; the response goes to its handler, if it has one, which says
  whether the next value is wanted. A URL that cannot be parsed throws.
\<close>

record sink =
  sk_session :: session
  sk_url :: string
  sk_onData :: bool

definition sink_create :: "session \<Rightarrow> sink" where
  "sink_create s = \<lparr>sk_session = s, sk_url = [], sk_onData = False\<rparr>"

definition sink_setUrl :: "string \<Rightarrow> sink \<Rightarrow> sink" where
  "sink_setUrl u sk = sk\<lparr>sk_url := u\<rparr>"

definition sink_onData :: "sink \<Rightarrow> sink" where
  "sink_onData sk = sk\<lparr>sk_onData := True\<rparr>"

definition sink_data ::
    "(string \<Rightarrow> (string \<times> string \<times> string) option) \<Rightarrow> (bool \<Rightarrow> fields \<Rightarrow> fields) \<Rightarrow> string \<Rightarrow> string \<Rightarrow> sink
       \<Rightarrow> (sink \<times> session_out list) option" where
  "sink_data parse_url keep_alive agent data sk =
     (case parse_url (sk_url sk) of
        None \<Rightarrow> None
      | Some (h, p, path) \<Rightarrow>
          (case run_session keep_alive agent
                  (setOptions [OHost h, OPort p, OTarget path, OVersion 11, OVerb verb_post, OKeepAlive True,
                     OBody data, OContentType ''plain/text''] ((sk_session sk)\<lparr>hs_handler := Some 0\<rparr>)) of
             (s, os) \<Rightarrow> Some (sk\<lparr>sk_session := s\<rparr>, os)))"

definition sink_response :: "(string \<Rightarrow> bool) \<Rightarrow> string \<Rightarrow> sink \<Rightarrow> string flux_event" where
  "sink_response wants res sk = RequestNext (if sk_onData sk then wants res else False)"

text \<open>What an HTTP source does with its session when a value is asked for.\<close>

definition source_run ::
    "(string \<Rightarrow> (string \<times> string \<times> string) option) \<Rightarrow> (bool \<Rightarrow> fields \<Rightarrow> fields) \<Rightarrow> string \<Rightarrow> string \<Rightarrow> boost_verb
       \<Rightarrow> bool \<Rightarrow> session \<Rightarrow> (session \<times> session_out list) option" where
  "source_run parse_url keep_alive agent url verb forever s =
     (case parse_url url of
        None \<Rightarrow> None
      | Some (h, p, path) \<Rightarrow>
          Some (run_session keep_alive agent
            (setOptions [OHost h, OPort p, OTarget path, OVersion 11, OVerb verb, OKeepAlive forever]
               (s\<lparr>hs_handler := Some 0\<rparr>))))"

text \<open>
  The source of the web client keeps what it knows in the session: the URL and the verb when they
  are set, the rest when a value is asked for.
\<close>

definition reactor_setUrl :: "(string \<Rightarrow> (string \<times> string \<times> string) option) \<Rightarrow> string \<Rightarrow> session \<Rightarrow> session option" where
  "reactor_setUrl parse_url u s =
     (case parse_url u of
        None \<Rightarrow> None
      | Some (h, p, path) \<Rightarrow> Some (setOptions [OHost h, OPort p, OTarget path, OVersion 11] s))"

definition reactor_setVerb :: "boost_verb \<Rightarrow> session \<Rightarrow> session" where
  "reactor_setVerb v s = setOptions [OVerb v] s"

definition reactor_next :: "(bool \<Rightarrow> fields \<Rightarrow> fields) \<Rightarrow> string \<Rightarrow> bool \<Rightarrow> session \<Rightarrow> session \<times> session_out list" where
  "reactor_next keep_alive agent forever s =
     run_session keep_alive agent (setOptions [OKeepAlive forever] (s\<lparr>hs_handler := Some 0\<rparr>))"

definition reactor_connect ::
    "(string \<Rightarrow> (string \<times> string \<times> string) option) \<Rightarrow> string \<Rightarrow> boost_verb \<Rightarrow> session \<Rightarrow> session option" where
  "reactor_connect parse_url url v s = map_option (reactor_setVerb v) (reactor_setUrl parse_url url s)"

section \<open>The web client\<close>

record web_client =
  wc_host :: string
  wc_port :: string
  wc_target :: string
  wc_session :: "session option"
  wc_verb :: boost_verb

definition withEndpoint ::
    "(string \<Rightarrow> (string \<times> string \<times> string) option) \<Rightarrow> string \<Rightarrow> web_client \<Rightarrow> web_client option" where
  "withEndpoint parse_url url b =
     (case parse_url url of
        None \<Rightarrow> None
      | Some (h, p, path) \<Rightarrow> Some (b\<lparr>wc_host := h, wc_port := p, wc_target := path\<rparr>))"

definition withSession :: "bool \<Rightarrow> web_client \<Rightarrow> web_client" where
  "withSession tls b = b\<lparr>wc_session := Some (session_create tls)\<rparr>"

text \<open>\<open>create\<close> gives the client a fresh copy of the builder's session, if there is one.\<close>

definition client_create :: "web_client \<Rightarrow> web_client option" where
  "client_create b = map_option (\<lambda>s. b\<lparr>wc_session := Some (session_clone s)\<rparr>) (wc_session b)"

definition client_verb :: "boost_verb \<Rightarrow> web_client \<Rightarrow> web_client" where
  "client_verb v c = c\<lparr>wc_verb := v\<rparr>"

definition on_session :: "session_option list \<Rightarrow> web_client \<Rightarrow> web_client option" where
  "on_session opts c = map_option (\<lambda>s. c\<lparr>wc_session := Some (setOptions opts s)\<rparr>) (wc_session c)"

definition withBody :: "string \<Rightarrow> web_client \<Rightarrow> web_client option" where
  "withBody body c = on_session [OBody body] c"

definition withContentType :: "string \<Rightarrow> web_client \<Rightarrow> web_client option" where
  "withContentType type c = on_session [OContentType type] c"

text \<open>
  \<open>toFlux\<close> and \<open>toMono\<close> move the session of the client into the source; \<open>None\<close> follows a null pointer.
\<close>

definition toFlux :: "web_client \<Rightarrow> web_client \<times> session option" where
  "toFlux c = (c\<lparr>wc_session := None\<rparr>, wc_session c)"

definition toMono :: "web_client \<Rightarrow> (web_client \<times> session option) option" where
  "toMono c =
     map_option (\<lambda>c1. (c1\<lparr>wc_session := None\<rparr>, wc_session c1))
       (on_session [OPort (wc_port c), OHost (wc_host c), OTarget (wc_target c), OVerb (wc_verb c)] c)"

section \<open>Values arrive once and in order\<close>

lemma subscribe_range:
  "fx_source fx = RangeSource xs \<Longrightarrow> \<not> fx_async fx \<Longrightarrow>
     subscribe fx = (fx\<lparr>fx_source := RangeSource []\<rparr>,
       map (\<lambda>x. Deliver (apply_maps (fx_map fx) x)) xs @ (if fx_onFinish fx then [Finish] else []))"
proof (induction xs arbitrary: fx)
  case Nil
  then show ?case
    by (simp add: subscribe.simps [of fx])
next
  case (Cons x xs)
  then show ?case
    using Cons.IH [of "fx\<lparr>fx_source := RangeSource xs\<rparr>"] by (simp add: subscribe.simps [of fx])
qed

lemma steps_range:
  "fx_source fx = RangeSource xs \<Longrightarrow> fx_async fx \<Longrightarrow> n \<le> Suc (length xs) \<Longrightarrow>
     snd (flux_steps (replicate n (RequestNext True)) fx)
       = map (\<lambda>x. Deliver (apply_maps (fx_map fx) x)) (take n xs) @ (if fx_onFinish fx \<and> n = Suc (length xs) then [Finish] else [])"
proof (induction n arbitrary: fx xs)
  case (Suc n)
  show ?case
  proof (cases xs)
    case Nil
    then show ?thesis
      using Suc.prems by (simp add: request_next_def subscribe.simps [of fx] case_prod_beta)
  next
    case (Cons x xs')
    then have "subscribe fx = (fx\<lparr>fx_source := RangeSource xs'\<rparr>, [Deliver (apply_maps (fx_map fx) x)])"
      using Suc.prems by (simp add: subscribe.simps [of fx])
    then show ?thesis
      using Suc.IH [of "fx\<lparr>fx_source := RangeSource xs'\<rparr>" xs'] Suc.prems by (simp add: request_next_def Cons case_prod_beta)
  qed
qed simp

lemma steps_http:
  "fx_source fx = HttpSource count forever \<Longrightarrow> \<not> fx_async fx \<Longrightarrow> fx_onFinish fx \<Longrightarrow>
     forever \<or> length vs \<le> Suc count \<Longrightarrow>
     snd (flux_steps (map ResponseCame vs) fx)
       = concat (map (\<lambda>i. [Deliver (apply_maps (fx_map fx) (vs ! i)), if forever \<or> i < count then RunSession else Finish])
           [0..<length vs])"
proof (induction vs arbitrary: fx count)
  case (Cons v vs)
  let ?d = "\<lambda>i. [Deliver (apply_maps (fx_map fx) ((v # vs) ! i)), if forever \<or> i < count then RunSession else Finish]"
  have idx: "[0..<length (v # vs)] = 0 # map Suc [0..<length vs]"
    by (simp add: upt_conv_Cons map_Suc_upt del: upt_Suc)
  show ?case
  proof (cases "forever \<or> count > 0")
    case True
    define fx1 where "fx1 = fx\<lparr>fx_source := HttpSource (decrement count) forever\<rparr>"
    have sub: "subscribe fx = (fx1, [RunSession])"
      using Cons.prems(1) True by (simp add: subscribe.simps [of fx] fx1_def)
    have first: "?d 0 = [Deliver (apply_maps (fx_map fx) v), RunSession]"
      using True by auto
    have rest: "map (?d \<circ> Suc) [0..<length vs] = map (\<lambda>i. [Deliver (apply_maps (fx_map fx1) (vs ! i)),
             if forever \<or> i < decrement count then RunSession else Finish]) [0..<length vs]"
      using True by (intro map_cong refl) (auto simp: fx1_def decrement_def)
    have "forever \<or> length vs \<le> Suc (decrement count)"
      using Cons.prems(4) True by (auto simp: decrement_def)
    then have "snd (flux_steps (map ResponseCame vs) fx1) = concat (map (?d \<circ> Suc) [0..<length vs])"
      unfolding rest using Cons.prems by (intro Cons.IH) (simp_all add: fx1_def)
    then have "snd (flux_steps (map ResponseCame (v # vs)) fx) = concat (?d 0 # map (?d \<circ> Suc) [0..<length vs])"
      unfolding first using Cons.prems(2) sub by (simp add: http_response_def case_prod_beta)
    then show ?thesis
      unfolding idx by (simp only: list.map map_map)
  next
    case False
    then have "vs = []" "subscribe fx = (fx, [Finish])"
      using Cons.prems by (auto simp: subscribe.simps [of fx])
    then show ?thesis
      using False Cons.prems(2) by (simp add: http_response_def)
  qed
qed simp



section \<open>What a sink sends\<close>

text \<open>A sink posts its value to its URL; without a handler for the responses it takes only one.\<close>

lemma sink_posts:
  assumes "keep_alive_law keep_alive" "\<not> inUse (sk_session sk)" "parse_url (sk_url sk) = Some (h, p, path)"
  shows "\<exists>sk' q req. sink_data parse_url keep_alive agent data sk = Some (sk', [Begin q req])
    \<and> cq_method req = verb_post \<and> cq_target req = path \<and> cq_body req = data
    \<and> fields_get (cq_fields req) ''Host'' = h \<and> fields_get (cq_fields req) ''port'' = p"
proof -
  define s where "s = setOptions [OHost h, OPort p, OTarget path, OVersion 11, OVerb verb_post, OKeepAlive True,
     OBody data, OContentType ''plain/text''] ((sk_session sk)\<lparr>hs_handler := Some 0\<rparr>)"
  have s: "\<not> inUse s" "cq_method (hs_req s) = verb_post" "cq_target (hs_req s) = path" "hs_host s = h" "hs_port s = p"
      "cq_body (hs_req s) = data"
    using assms(2) by (simp_all add: s_def setOptions_def inUse_def)
  show ?thesis
    using run_session_begins [OF assms(1) s(1,2), of "subscriber_init h p path" agent] s(3-6) assms(3)
    by (auto simp: sink_data_def s_def [symmetric] subscriber_init_def addressed_def)
qed

lemma sink_without_handler: "\<not> sk_onData sk \<Longrightarrow> flux_step (sink_response wants res sk) fx = (fx, [])"
  by (simp add: sink_response_def request_next_def)

text \<open>Both kinds of source send the same request.\<close>

lemma reactor_source_same:
  "map_option (reactor_next keep_alive agent forever) (reactor_connect parse_url url v s)
     = source_run parse_url keep_alive agent url v forever s"
  by (auto simp: reactor_connect_def reactor_setUrl_def reactor_setVerb_def reactor_next_def source_run_def
      setOptions_def split: option.split intro!: arg_cong [of _ _ "run_session keep_alive agent"])

section \<open>What goes wrong\<close>

text \<open>A client gives its session away: a second use of it follows a null pointer.\<close>

lemma client_used_twice: "toMono c = Some (c', src) \<Longrightarrow> toMono c' = None"
  by (auto simp: toMono_def on_session_def)

text \<open>\<open>toFlux\<close> does not pass on the endpoint nor the verb of the client.\<close>

lemma flux_without_endpoint:
  "client_create (withSession tls b) = Some c \<Longrightarrow> \<exists>s. snd (toFlux c) = Some s \<and> hs_host s = [] \<and> cq_target (hs_req s) = []"
  by (auto simp: client_create_def withSession_def toFlux_def session_clone_def session_create_def client_request_init_def)

end
