(* ===== verification/CommandLine.thy ===== *)
theory CommandLine
  imports Prelude
begin

text \<open>
  The command line, \<open>command_line_parser.hpp\<close>: names and values in turn, kept in a map. The map of
  the library is a list sorted by its keys. The lemma says which value an option has.
\<close>

text \<open>The loop reads a pair while three or more arguments are counted, the program's name included.\<close>

function commandLoop :: "int \<Rightarrow> nat \<Rightarrow> string list \<Rightarrow> (string, string) omap \<Rightarrow> (string, string) omap" where
  "commandLoop argc i argv comline =
     (if argc \<ge> 3
      then commandLoop (argc - 2) (i + 2) argv (omap_insert_or_assign (argv ! i) (argv ! (i + 1)) comline)
      else comline)"
  by pat_completeness auto

termination
  by (relation "measure (\<lambda>(argc, i, argv, comline). nat argc)") auto

declare commandLoop.simps [simp del]

definition parseCommandline :: "string list \<Rightarrow> (string, string) omap" where
  "parseCommandline argv = commandLoop (int (length argv)) 1 argv []"

definition getArgs :: "(string, string) omap \<Rightarrow> string list \<Rightarrow> string list" where
  "getArgs commLine args =
     map (\<lambda>a. case List.find (\<lambda>v. fst v = a) commLine of Some v \<Rightarrow> snd v | None \<Rightarrow> []) args"

text \<open>The pairs behind the program's name; of several values of an option the last one counts.\<close>

fun pairs_of :: "string list \<Rightarrow> (string \<times> string) list" where
  "pairs_of (k # v # rest) = (k, v) # pairs_of rest"
| "pairs_of rest = []"

definition option_value :: "string list \<Rightarrow> string \<Rightarrow> string" where
  "option_value argv a = (case map_of (rev (pairs_of (tl argv))) a of Some v \<Rightarrow> v | None \<Rightarrow> [])"

lemma commandLoop_pairs:
  "i \<le> length argv \<Longrightarrow> argc = int (length argv - i) + 1 \<Longrightarrow>
     commandLoop argc i argv m = fold (\<lambda>(k, v) m. omap_insert_or_assign k v m) (pairs_of (drop i argv)) m"
proof (induction "length argv - i" arbitrary: i argc m rule: less_induct)
  case less
  show ?case
  proof (cases "argc \<ge> 3")
    case False
    then have "length (drop i argv) < 2"
      using less.prems by simp
    then have "pairs_of (drop i argv) = []"
      by (cases "drop i argv" rule: pairs_of.cases) simp_all
    then show ?thesis
      using False by (simp add: commandLoop.simps [of argc])
  next
    case True
    then have len: "i + 1 < length argv"
      using less.prems by simp
    then have "drop i argv = argv ! i # argv ! (i + 1) # drop (i + 2) argv"
      by (metis Cons_nth_drop_Suc Suc_eq_plus1 add_2_eq_Suc' add_lessD1)
    moreover have "commandLoop argc i argv m
        = commandLoop (argc - 2) (i + 2) argv (omap_insert_or_assign (argv ! i) (argv ! (i + 1)) m)"
      using True by (subst commandLoop.simps) simp
    moreover have "i + 2 \<le> length argv" "argc - 2 = int (length argv - (i + 2)) + 1"
        "length argv - (i + 2) < length argv - i"
      using len less.prems(2) by linarith+
    ultimately show ?thesis
      using less.hyps [of "i + 2" "argc - 2"] by simp
  qed
qed

lemma fold_find:
  "omap_ok m \<Longrightarrow>
     omap_ok (fold (\<lambda>(k, v) m. omap_insert_or_assign k v m) ps m)
     \<and> omap_find (fold (\<lambda>(k, v) m. omap_insert_or_assign k v m) ps m) a
       = (case map_of (rev ps) a of Some v \<Rightarrow> Some v | None \<Rightarrow> omap_find m a)"
proof (induction ps arbitrary: m)
  case (Cons p ps)
  then show ?case
    by (cases p) (auto simp: omap_find_insert map_add_def split: option.split)
qed simp

lemma find_omap: "List.find (\<lambda>v. fst v = a) m = map_option (Pair a) (omap_find m a)"
  by (induction m) auto

text \<open>Every option has the last value that follows it at its place, or the empty one.\<close>

theorem command_line_values:
  assumes "argv \<noteq> []"
  shows "getArgs (parseCommandline argv) args = map (option_value argv) args"
proof -
  have "parseCommandline argv = fold (\<lambda>(k, v) m. omap_insert_or_assign k v m) (pairs_of (tl argv)) []"
    using commandLoop_pairs [of 1 argv "int (length argv)" "[]"] assms
    by (cases argv) (simp_all add: parseCommandline_def)
  then have "omap_find (parseCommandline argv) a = map_of (rev (pairs_of (tl argv))) a" for a
    using fold_find [of "[]" "pairs_of (tl argv)" a] by (auto split: option.splits)
  then show ?thesis
    by (auto simp: getArgs_def find_omap option_value_def split: option.split)
qed

end
