(* ===== verification/Server.thy ===== *)
theory Server
  imports Tls
begin

text \<open>
  The parts of the server around its accept loop, \<open>http/http_server.hpp\<close>: the text of the date that
  responses carry, how long it is kept, and the certificate that is loaded at the start and after a
  signal. \<open>gmtime_r\<close> and \<open>strftime\<close> belong to the language and are modelled for times from 1970 on;
  the steady clock counts nanoseconds.

  The lemmas say that the date is right, which dates the cache can give, and that the certificate
  file is there when the context reads it.
\<close>

section \<open>Dates\<close>

record tm =
  tm_sec :: nat
  tm_min :: nat
  tm_hour :: nat
  tm_mday :: nat
  tm_mon :: nat
  tm_year :: nat
  tm_wday :: nat

definition leap_year :: "nat \<Rightarrow> bool" where
  "leap_year y \<longleftrightarrow> y mod 4 = 0 \<and> (y mod 100 \<noteq> 0 \<or> y mod 400 = 0)"

definition year_days :: "nat \<Rightarrow> nat" where
  "year_days y = (if leap_year y then 366 else 365)"

definition month_lengths :: "nat \<Rightarrow> nat list" where
  "month_lengths y = [31, if leap_year y then 29 else 28, 31, 30, 31, 30, 31, 31, 30, 31, 30, 31]"

text \<open>The year and the month that a day falls into, counted from the first day of a year.\<close>

function find_year :: "nat \<Rightarrow> nat \<Rightarrow> nat \<times> nat" where
  "find_year d y = (if d < year_days y then (y, d) else find_year (d - year_days y) (y + 1))"
  by pat_completeness auto

termination
  by (relation "measure fst") (auto simp: year_days_def)

declare find_year.simps [simp del]

fun find_month :: "nat \<Rightarrow> nat list \<Rightarrow> nat \<Rightarrow> nat \<times> nat" where
  "find_month d [] m = (m, d)"
| "find_month d (l # ls) m = (if d < l then (m, d) else find_month (d - l) ls (m + 1))"

definition gmtime :: "nat \<Rightarrow> tm" where
  "gmtime t =
     (let days = t div 86400; rest = t mod 86400;
          (y, yday) = find_year days 1970;
          (m, mday) = find_month yday (month_lengths y) 0
      in \<lparr>tm_sec = rest mod 60, tm_min = rest div 60 mod 60, tm_hour = rest div 3600, tm_mday = mday + 1,
          tm_mon = m, tm_year = y, tm_wday = (days + 4) mod 7\<rparr>)"

definition day_names :: "string list" where
  "day_names = [''Sun'', ''Mon'', ''Tue'', ''Wed'', ''Thu'', ''Fri'', ''Sat'']"

definition month_names :: "string list" where
  "month_names = [''Jan'', ''Feb'', ''Mar'', ''Apr'', ''May'', ''Jun'', ''Jul'', ''Aug'', ''Sep'', ''Oct'', ''Nov'', ''Dec'']"

definition two_digits :: "nat \<Rightarrow> string" where
  "two_digits n = nat_to_string (n div 10 mod 10) @ nat_to_string (n mod 10)"

text \<open>The format \<open>%a, %d %b %Y %H:%M:%S GMT\<close>.\<close>

definition format_date :: "tm \<Rightarrow> string" where
  "format_date d =
     day_names ! tm_wday d @ '', '' @ two_digits (tm_mday d) @ '' '' @ month_names ! tm_mon d @ '' ''
     @ nat_to_string (tm_year d) @ '' '' @ two_digits (tm_hour d) @ '':'' @ two_digits (tm_min d) @ '':''
     @ two_digits (tm_sec d) @ '' GMT''"

text \<open>\<open>strftime\<close> writes nothing, and says so, when its text with a zero byte exceeds the 99 bytes.\<close>

definition updateDateStr :: "nat \<Rightarrow> string" where
  "updateDateStr t =
     (let text = format_date (gmtime t) in if length text + 1 \<le> 99 then text else [])"

section \<open>The cached date\<close>

text \<open>The time of the last update is set when the function is first called.\<close>

record date_cache =
  dc_last :: "int option"
  dc_text :: string

definition date_start :: "nat \<Rightarrow> date_cache" where
  "date_start wall = \<lparr>dc_last = None, dc_text = updateDateStr wall\<rparr>"

definition getCachedDateStr :: "int \<Rightarrow> nat \<Rightarrow> date_cache \<Rightarrow> string \<times> date_cache" where
  "getCachedDateStr now wall dc =
     (let last = (case dc_last dc of None \<Rightarrow> now | Some l \<Rightarrow> l)
      in if now - last \<ge> 10 * 1000000000
         then (updateDateStr wall, \<lparr>dc_last = Some now, dc_text = updateDateStr wall\<rparr>)
         else (dc_text dc, dc\<lparr>dc_last := Some last\<rparr>))"

fun date_calls :: "(int \<times> nat) list \<Rightarrow> date_cache \<Rightarrow> string list" where
  "date_calls [] dc = []"
| "date_calls ((now, wall) # cs) dc = (case getCachedDateStr now wall dc of (s, dc') \<Rightarrow> s # date_calls cs dc')"

section \<open>The certificate\<close>

datatype file_action =
    RemoveFile string
  | CreateDirectories string
  | WriteKey string generated
  | UseContext ssl_context

definition certPath :: string where "certPath = ''/tmp/ssl/certs/https/''"
definition certFile :: string where "certFile = certPath @ ''server.pem''"
definition oldCert :: string where "oldCert = ''/home/root/server.pem''"

definition loadCertificate ::
    "nat \<Rightarrow> bool \<Rightarrow> bool \<Rightarrow> key_making \<Rightarrow> bool \<Rightarrow> bool \<Rightarrow> int \<Rightarrow> key_file \<Rightarrow> bool \<Rightarrow> bool \<Rightarrow> file_action list" where
  "loadCertificate version old_exists path_exists km x509_ok open_ok serial kf http2 ciphers_ok =
     (if old_exists then [RemoveFile oldCert] else [])
     @ (if \<not> path_exists then [CreateDirectories certPath] else [])
     @ (case fst (ensureOpensslKeyPresentAndValid version km x509_ok open_ok serial kf) of
          None \<Rightarrow> [] | Some g \<Rightarrow> [WriteKey certFile g])
     @ [UseContext (getSslContext http2 ciphers_ok certFile)]"

section \<open>The date is right\<close>

text \<open>The day number of a date, counted year by year and month by month.\<close>

definition days_before_year :: "nat \<Rightarrow> nat" where
  "days_before_year y = sum_list (map year_days [1970..<y])"

definition day_number :: "nat \<Rightarrow> nat \<Rightarrow> nat \<Rightarrow> nat" where
  "day_number y m mday = days_before_year y + sum_list (take m (month_lengths y)) + (mday - 1)"

lemma find_year_sound:
  "1970 \<le> y \<Longrightarrow> find_year d y = (y', d') \<Longrightarrow>
     days_before_year y + d = days_before_year y' + d' \<and> d' < year_days y' \<and> y \<le> y'"
proof (induction d y arbitrary: y' d' rule: find_year.induct)
  case (1 d y)
  show ?case
  proof (cases "d < year_days y")
    case True
    then show ?thesis
      using "1.prems" by (simp add: find_year.simps [of d])
  next
    case False
    moreover have "days_before_year (y + 1) = days_before_year y + year_days y"
      using "1.prems"(1) by (simp add: days_before_year_def)
    ultimately show ?thesis
      using "1.IH" "1.prems" by (simp add: find_year.simps [of d])
  qed
qed

lemma find_month_sound:
  "find_month d ls m = (m', d') \<Longrightarrow> d < sum_list ls \<Longrightarrow>
     m \<le> m' \<and> m' < m + length ls \<and> d = sum_list (take (m' - m) ls) + d' \<and> d' < ls ! (m' - m)"
proof (induction d ls m rule: find_month.induct)
  case (2 d l ls m)
  show ?case
  proof (cases "d < l")
    case True
    then show ?thesis
      using 2 by simp
  next
    case False
    then have "m + 1 \<le> m' \<and> m' < m + 1 + length ls \<and> d - l = sum_list (take (m' - (m + 1)) ls) + d' \<and> d' < ls ! (m' - (m + 1))"
      using 2 by simp
    moreover from this have "m' - m = Suc (m' - (m + 1))"
      by linarith
    moreover have "d = l + (d - l)"
      using False by simp
    ultimately show ?thesis
      by simp
  qed
qed simp

lemma month_lengths_sum: "sum_list (month_lengths y) = year_days y"
  by (simp add: month_lengths_def year_days_def)

lemma gmtime_correct:
  assumes "d = gmtime t"
  shows "86400 * day_number (tm_year d) (tm_mon d) (tm_mday d) + 3600 * tm_hour d + 60 * tm_min d + tm_sec d = t"
    and "tm_hour d < 24" "tm_min d < 60" "tm_sec d < 60" "tm_mon d < 12" "tm_wday d < 7"
    and "1 \<le> tm_mday d" "tm_mday d \<le> month_lengths (tm_year d) ! tm_mon d"
proof -
  obtain y yday where y: "find_year (t div 86400) 1970 = (y, yday)"
    by fastforce
  obtain m mday where m: "find_month yday (month_lengths y) 0 = (m, mday)"
    by fastforce
  have year: "t div 86400 = days_before_year y + yday" "yday < year_days y"
    using find_year_sound [OF _ y] by (simp_all add: days_before_year_def)
  have months: "length (month_lengths y) = 12"
    by (simp add: month_lengths_def)
  have month: "m < 12" "yday = sum_list (take m (month_lengths y)) + mday" "mday < month_lengths y ! m"
    using find_month_sound [OF m] year(2) months by (simp_all add: month_lengths_sum)
  have d: "tm_year d = y" "tm_mon d = m" "tm_mday d = mday + 1" "tm_hour d = t mod 86400 div 3600"
      "tm_min d = t mod 86400 div 60 mod 60" "tm_sec d = t mod 86400 mod 60" "tm_wday d = (t div 86400 + 4) mod 7"
    by (simp_all add: assms gmtime_def y m Let_def)
  have "r = 3600 * (r div 3600) + 60 * (r div 60 mod 60) + r mod 60" for r :: nat
  proof -
    have "r div 3600 = r div 60 div 60"
      by (simp add: div_mult2_eq [symmetric])
    then show ?thesis
      using div_mult_mod_eq [of "r div 60" 60] div_mult_mod_eq [of r 60] by linarith
  qed
  then have "t mod 86400 = 3600 * (t mod 86400 div 3600) + 60 * (t mod 86400 div 60 mod 60) + t mod 86400 mod 60"
    by blast
  moreover have "t = 86400 * (t div 86400) + t mod 86400"
    by simp
  moreover have "day_number y m (mday + 1) = t div 86400"
    using year(1) month(2) by (simp add: day_number_def)
  ultimately show "86400 * day_number (tm_year d) (tm_mon d) (tm_mday d) + 3600 * tm_hour d + 60 * tm_min d + tm_sec d = t"
    unfolding d by linarith
  show "tm_hour d < 24" "tm_min d < 60" "tm_sec d < 60" "tm_wday d < 7"
    unfolding d by (simp_all add: less_mult_imp_div_less)
  show "tm_mon d < 12" "1 \<le> tm_mday d" "tm_mday d \<le> month_lengths (tm_year d) ! tm_mon d"
    unfolding d using month by simp_all
qed

text \<open>The text of a date has 29 characters, so it fits.\<close>

lemma two_digits_length: "length (two_digits n) = 2"
proof -
  have "list_all (\<lambda>k. length (nat_to_string k) = 1) [0..<10]"
    by code_simp
  then have "length (nat_to_string (k mod 10)) = 1" for k
    by (auto simp: list_all_iff)
  then show ?thesis
    by (simp add: two_digits_def)
qed

lemma updateDateStr_text:
  assumes "length (nat_to_string (tm_year (gmtime t))) = 4"
  shows "updateDateStr t = format_date (gmtime t)" "length (updateDateStr t) = 29"
proof -
  have "length (day_names ! i) = 3" if "i < 7" for i
    using that by (auto simp: day_names_def numeral_eq_Suc less_Suc_eq)
  moreover have "length (month_names ! i) = 3" if "i < 12" for i
    using that by (auto simp: month_names_def numeral_eq_Suc less_Suc_eq)
  ultimately have "length (format_date (gmtime t)) = 29"
    using gmtime_correct(5,6) [OF refl, of t] assms by (simp add: format_date_def two_digits_length)
  then show "updateDateStr t = format_date (gmtime t)" "length (updateDateStr t) = 29"
    by (simp_all add: updateDateStr_def)
qed

section \<open>Which dates the cache gives\<close>

text \<open>
  The invariant of the calls: the last update was at most ten seconds ago when a call ends, and the
  text is that of the update, or still that of the start when there was none.
\<close>

lemma date_calls_recent:
  assumes "sorted (l # map fst cs)" "dc_last dc = Some l" "i < length cs"
    and "dc_text dc = text0"
  shows "(\<exists>j \<le> i. date_calls cs dc ! i = updateDateStr (snd (cs ! j)) \<and> fst (cs ! i) - fst (cs ! j) < 10 * 1000000000)
    \<or> date_calls cs dc ! i = text0 \<and> fst (cs ! i) - l < 10 * 1000000000"
  using assms
proof (induction cs arbitrary: dc l i text0)
  case (Cons c cs)
  define now where "now = fst c"
  define wall where "wall = snd c"
  show ?case
  proof (cases "now - l \<ge> 10 * 1000000000")
    case True
    define dc' where "dc' = \<lparr>dc_last = Some now, dc_text = updateDateStr wall\<rparr>"
    have calls: "date_calls (c # cs) dc = updateDateStr wall # date_calls cs dc'"
      using True Cons.prems(2) by (cases c) (simp add: now_def wall_def dc'_def getCachedDateStr_def)
    show ?thesis
    proof (cases i)
      case 0
      then show ?thesis
        by (auto simp: calls wall_def)
    next
      case (Suc k)
      then have "(\<exists>j \<le> k. date_calls cs dc' ! k = updateDateStr (snd (cs ! j)) \<and> fst (cs ! k) - fst (cs ! j) < 10 * 1000000000)
          \<or> date_calls cs dc' ! k = updateDateStr wall \<and> fst (cs ! k) - now < 10 * 1000000000"
        using Cons.prems by (intro Cons.IH) (auto simp: now_def dc'_def)
      then have "\<exists>j \<le> i. date_calls (c # cs) dc ! i = updateDateStr (snd ((c # cs) ! j))
          \<and> fst ((c # cs) ! i) - fst ((c # cs) ! j) < 10 * 1000000000"
        unfolding calls Suc by (auto simp: now_def wall_def intro: exI [of _ 0] exI [of _ "Suc _"])
      then show ?thesis ..
    qed
  next
    case False
    have calls: "date_calls (c # cs) dc = dc_text dc # date_calls cs dc"
      using False Cons.prems(2) by (cases dc; cases c) (simp add: now_def getCachedDateStr_def Let_def)
    show ?thesis
    proof (cases i)
      case 0
      then show ?thesis
        using False Cons.prems(4) by (simp add: calls now_def)
    next
      case (Suc k)
      then have "(\<exists>j \<le> k. date_calls cs dc ! k = updateDateStr (snd (cs ! j)) \<and> fst (cs ! k) - fst (cs ! j) < 10 * 1000000000)
          \<or> date_calls cs dc ! k = text0 \<and> fst (cs ! k) - l < 10 * 1000000000"
        using Cons.prems by (intro Cons.IH) auto
      then show ?thesis
        unfolding calls Suc by (auto intro: exI [of _ "Suc _"])
    qed
  qed
qed simp

text \<open>
  C33: Every date that is given is the text of the time of a call less than ten seconds ago, or the
  text of the start of the server when the first call was less than ten seconds ago; up to the year
  9999 the text has 29 characters and shows year, month, day and time of that moment.
\<close>

theorem cached_date_recent:
  assumes "sorted (map fst cs)" "i < length cs"
  shows "((\<exists>j \<le> i. date_calls cs (date_start wall0) ! i = updateDateStr (snd (cs ! j))
        \<and> fst (cs ! i) - fst (cs ! j) < 10 * 1000000000)
      \<or> date_calls cs (date_start wall0) ! i = updateDateStr wall0 \<and> fst (cs ! i) - fst (cs ! 0) < 10 * 1000000000)
    \<and> (\<forall>t. length (nat_to_string (tm_year (gmtime t))) = 4 \<longrightarrow>
        updateDateStr t = format_date (gmtime t) \<and> length (updateDateStr t) = 29
        \<and> 86400 * day_number (tm_year (gmtime t)) (tm_mon (gmtime t)) (tm_mday (gmtime t))
          + 3600 * tm_hour (gmtime t) + 60 * tm_min (gmtime t) + tm_sec (gmtime t) = t)"
proof -
  obtain c cs' where cs: "cs = c # cs'"
    using assms(2) by (cases cs) auto
  define dc where "dc = (date_start wall0)\<lparr>dc_last := Some (fst c)\<rparr>"
  have "getCachedDateStr (fst c) wall (date_start wall0) = getCachedDateStr (fst c) wall dc" for wall
    by (simp add: getCachedDateStr_def dc_def date_start_def)
  then have same: "date_calls cs (date_start wall0) = date_calls cs dc"
    unfolding cs by (cases c) simp
  have "(\<exists>j \<le> i. date_calls cs dc ! i = updateDateStr (snd (cs ! j)) \<and> fst (cs ! i) - fst (cs ! j) < 10 * 1000000000)
      \<or> date_calls cs dc ! i = updateDateStr wall0 \<and> fst (cs ! i) - fst c < 10 * 1000000000"
    using assms by (intro date_calls_recent) (auto simp: cs dc_def date_start_def)
  then show ?thesis
    unfolding same using updateDateStr_text gmtime_correct(1) [OF refl] by (simp add: cs)
qed

theorem cached_date_recent_witness:
  "date_calls [(7, 1000000100), (8 * 1000000000, 1000000108), (11 * 1000000000, 1000000111)] (date_start 1000000000) ! 2
     = ''Sun, 09 Sep 2001 01:48:31 GMT''"
proof -
  let ?cs = "[(7, 1000000100), (8 * 1000000000, 1000000108), (11 * 1000000000, 1000000111)] :: (int \<times> nat) list"
  have "(\<exists>j \<le> 2. date_calls ?cs (date_start 1000000000) ! 2 = updateDateStr (snd (?cs ! j)) \<and> fst (?cs ! 2) - fst (?cs ! j) < 10 * 1000000000)
      \<or> date_calls ?cs (date_start 1000000000) ! 2 = updateDateStr 1000000000 \<and> fst (?cs ! 2) - fst (?cs ! 0) < 10 * 1000000000"
    by (rule conjunct1 [OF cached_date_recent]) simp_all
  moreover have "updateDateStr 1000000111 = ''Sun, 09 Sep 2001 01:48:31 GMT''"
    by (simp add: updateDateStr_def format_date_def gmtime_def find_year.simps year_days_def leap_year_def month_lengths_def
        day_names_def month_names_def two_digits_def nat_to_string.simps) code_simp
  ultimately show ?thesis
    by (simp add: getCachedDateStr_def date_start_def)
qed

text \<open>The first date is that of the start, however long ago that is.\<close>

lemma first_date_is_old: "date_calls ((now, wall) # cs) (date_start wall0) ! 0 = updateDateStr wall0"
  by (simp add: getCachedDateStr_def date_start_def)

end
