(* ===== verification/Authentication.thy ===== *)
theory Authentication
  imports Tls UrlUtils "HOL-Library.Sublist"
begin

text \<open>
  Authenticating a request: the part of \<open>authentication.hpp\<close> that the build leaves out at present,
  modelled as it is written. What PAM answers, the readings of the clock, the draws of the random
  generator, the routes of the web pages and the build options are in \<open>auth_env\<close>. A session is
  returned as its value; the one update through the pointer (\<open>cookieAuth\<close>) is made in the store.
  The lemmas say which requests are given a session and what happens to the store.
\<close>

section \<open>The methods\<close>

record auth_env =
  ae_basic :: bool
  ae_session :: bool
  ae_xtoken :: bool
  ae_cookie :: bool
  ae_tls :: bool
  ae_csrf_disabled :: bool
  pamAuthenticateUser :: "string \<Rightarrow> string \<Rightarrow> int"
  ae_xtoken_clock :: "int \<times> int"
  ae_cookie_clock :: "int \<times> int"
  ae_token_clock :: "int \<times> int"
  ae_basic_clock :: int
  ae_draw :: "nat \<Rightarrow> nat option"
  ae_routes :: "string list"

definition PAM_SUCCESS :: int where "PAM_SUCCESS = 0"
definition PAM_NEW_AUTHTOK_REQD :: int where "PAM_NEW_AUTHTOK_REQD = 12"

definition removeTempSession :: "UserSession request \<Rightarrow> SessionStore \<Rightarrow> SessionStore" where
  "removeTempSession req st =
     (case rq_session req of
        Some s \<Rightarrow> if us_persistence s = SINGLE_REQUEST then removeSession s st else st
      | None \<Rightarrow> st)"

definition performBasicAuth ::
    "auth_env \<Rightarrow> string \<Rightarrow> string \<Rightarrow> SessionStore \<Rightarrow> UserSession option \<times> SessionStore" where
  "performBasicAuth env clientIp authHeader st =
     (if \<not> prefix ''Basic '' authHeader then (None, st)
      else
        let param = drop 6 authHeader
        in case base64Decode param of
             (False, authData) \<Rightarrow> (None, st)
           | (True, authData) \<Rightarrow>
               let separator = find_char_from (CHR '':'') authData 0
               in if separator = length authData then (None, st)
                  else
                    let user = substr authData 0 separator;
                        pass = drop (separator + 1) authData;
                        pamrc = pamAuthenticateUser env user pass;
                        isConfigureSelfOnly = (pamrc = PAM_NEW_AUTHTOK_REQD)
                    in if pamrc \<noteq> PAM_SUCCESS \<and> \<not> isConfigureSelfOnly then (None, st)
                       else generateUserSession (ae_draw env) (ae_basic_clock env) user clientIp None
                              SINGLE_REQUEST isConfigureSelfOnly st)"

definition performTokenAuth :: "auth_env \<Rightarrow> string \<Rightarrow> SessionStore \<Rightarrow> UserSession option \<times> SessionStore" where
  "performTokenAuth env authHeader st =
     (if \<not> prefix ''Token '' authHeader then (None, st)
      else loginSessionByToken (fst (ae_token_clock env)) (snd (ae_token_clock env)) (drop 6 authHeader) st)"

definition performXtokenAuth :: "auth_env \<Rightarrow> fields \<Rightarrow> SessionStore \<Rightarrow> UserSession option \<times> SessionStore" where
  "performXtokenAuth env reqHeader st =
     (let token = fields_get reqHeader ''X-Auth-Token''
      in if token = [] then (None, st)
         else loginSessionByToken (fst (ae_xtoken_clock env)) (snd (ae_xtoken_clock env)) token st)"

text \<open>The key in the value of the Cookie header: what is between the first \<open>SESSION=\<close> and the next \<open>;\<close>.\<close>

definition cookie_key :: "string \<Rightarrow> string option" where
  "cookie_key cookieValue =
     (case find_sub ''SESSION='' cookieValue of
        None \<Rightarrow> None
      | Some i \<Rightarrow>
          let startIndex = i + 8;
              endIndex = find_char_from (CHR '';'') cookieValue startIndex
          in Some (substr cookieValue startIndex (endIndex - startIndex)))"

definition set_cookieAuth :: "string \<Rightarrow> SessionStore \<Rightarrow> SessionStore" where
  "set_cookieAuth token st =
     st\<lparr>authTokens := AList.map_entry token (\<lambda>s. s\<lparr>us_cookieAuth := True\<rparr>) (authTokens st)\<rparr>"

definition performCookieAuth ::
    "auth_env \<Rightarrow> boost_verb \<Rightarrow> fields \<Rightarrow> SessionStore \<Rightarrow> UserSession option \<times> SessionStore" where
  "performCookieAuth env meth reqHeader st =
     (let cookieValue = fields_get reqHeader ''Cookie''
      in if cookieValue = [] then (None, st)
         else case cookie_key cookieValue of None \<Rightarrow> (None, st) | Some authKey \<Rightarrow>
           (case loginSessionByToken (fst (ae_cookie_clock env)) (snd (ae_cookie_clock env)) authKey st of
              (None, st1) \<Rightarrow> (None, st1)
            | (Some s, st1) \<Rightarrow>
                let sessionOut = s\<lparr>us_cookieAuth := True\<rparr>;
                    st2 = set_cookieAuth authKey st1
                in if ae_csrf_disabled env then (Some sessionOut, st2)
                   else if meth \<noteq> verb_get then
                     let csrf = fields_get reqHeader ''X-XSRF-TOKEN''
                     in if csrf = [] \<or> us_csrfToken sessionOut = [] then (None, st2)
                        else if length csrf \<noteq> sessionTokenSize then (None, st2)
                        else if \<not> constantTimeStringCompare csrf (us_csrfToken sessionOut) then (None, st2)
                        else (Some sessionOut, st2)
                   else (Some sessionOut, st2)))"

definition performTLSAuth :: "response \<Rightarrow> fields \<Rightarrow> UserSession option \<Rightarrow> UserSession option \<times> response" where
  "performTLSAuth res reqHeader session =
     (case session of
        Some sp \<Rightarrow>
          if fields_get reqHeader ''User-Agent'' = [] then (Some sp, res)
          else
            let r1 = addHeader ''Set-Cookie'' (''XSRF-TOKEN='' @ us_csrfToken sp @ ''; SameSite=Strict; Secure'') res;
                r2 = addHeader ''Set-Cookie''
                       (''SESSION='' @ us_sessionToken sp @ ''; SameSite=Strict; Secure; HttpOnly'') r1
            in (Some sp, addHeader ''Set-Cookie'' ''IsAuthenticated=true; Secure'' r2)
      | None \<Rightarrow> (None, res))"

definition isOnAllowlist :: "auth_env \<Rightarrow> string \<Rightarrow> boost_verb \<Rightarrow> bool" where
  "isOnAllowlist env url meth =
     (if meth = verb_get \<and>
         (url = ''/redfish/v1'' \<or> url = ''/redfish/v1/'' \<or> url = ''/redfish'' \<or> url = ''/redfish/''
          \<or> url = ''/redfish/v1/odata'' \<or> url = ''/redfish/v1/odata/'') then True
      else if meth = verb_get \<and> url \<in> set (ae_routes env) then True
      else if meth = verb_post \<and>
         (url = ''/redfish/v1/SessionService/Sessions'' \<or> url = ''/redfish/v1/SessionService/Sessions/''
          \<or> url = ''/redfish/v1/SessionService/Sessions/Members''
          \<or> url = ''/redfish/v1/SessionService/Sessions/Members/'' \<or> url = ''/login'') then True
      else False)"

text \<open>The methods in their order, each only when none before it gave a session.\<close>

definition try_next :: "bool \<Rightarrow> (SessionStore \<Rightarrow> UserSession option \<times> SessionStore)
    \<Rightarrow> UserSession option \<times> SessionStore \<Rightarrow> UserSession option \<times> SessionStore" where
  "try_next enabled meth r = (if fst r = None \<and> enabled then meth (snd r) else r)"

definition authenticate ::
    "auth_env \<Rightarrow> string \<Rightarrow> boost_verb \<Rightarrow> fields \<Rightarrow> UserSession option \<Rightarrow> response \<Rightarrow> SessionStore
       \<Rightarrow> UserSession option \<times> response \<times> SessionStore" where
  "authenticate env ipAddress meth reqHeader session res st =
     (let config = authMethodsConfig st;
          (sessionOut, res1) = (if ae_tls env \<and> am_tls config then performTLSAuth res reqHeader session
                                else (None, res));
          r1 = try_next (ae_xtoken env \<and> am_xtoken config) (performXtokenAuth env reqHeader) (sessionOut, st);
          r2 = try_next (ae_cookie env \<and> am_cookie config) (performCookieAuth env meth reqHeader) r1;
          authHeader = fields_get reqHeader ''Authorization'';
          r3 = try_next (am_sessionToken config \<and> ae_session env) (performTokenAuth env authHeader) r2;
          r4 = try_next (am_basic config \<and> ae_basic env) (performBasicAuth env ipAddress authHeader) r3
      in (fst r4, res1, snd r4))"

section \<open>What a method does to the store\<close>

text \<open>
  \<open>same_login\<close>: the same session up to the two fields that a login sets. \<open>stored token st s\<close>: the
  store holds that session under the token.
\<close>

definition same_login :: "UserSession \<Rightarrow> UserSession \<Rightarrow> bool" where
  "same_login a b \<longleftrightarrow> a\<lparr>us_lastUpdated := 0, us_cookieAuth := False\<rparr> = b\<lparr>us_lastUpdated := 0, us_cookieAuth := False\<rparr>"

definition stored :: "string \<Rightarrow> SessionStore \<Rightarrow> UserSession \<Rightarrow> bool" where
  "stored token st s \<longleftrightarrow> (case map_of (authTokens st) token of Some s0 \<Rightarrow> same_login s0 s | None \<Rightarrow> False)"

definition only_used :: "SessionStore \<Rightarrow> SessionStore \<Rightarrow> bool" where
  "only_used st st' \<longleftrightarrow> tokens_ok (authTokens st') \<and> authMethodsConfig st' = authMethodsConfig st
     \<and> (\<forall>token s. map_of (authTokens st') token = Some s \<longrightarrow> stored token st s)"

lemma same_login_refl [simp]: "same_login a a"
  by (simp add: same_login_def)

lemma same_login_trans: "same_login a b \<Longrightarrow> same_login b c \<Longrightarrow> same_login a c"
  by (simp add: same_login_def)

lemma same_login_set [simp]:
  "same_login a (b\<lparr>us_lastUpdated := t\<rparr>) = same_login a b"
  "same_login a (b\<lparr>us_cookieAuth := c\<rparr>) = same_login a b"
  by (simp_all add: same_login_def)

lemma same_login_fields:
  "same_login a b \<Longrightarrow> us_csrfToken a = us_csrfToken b \<and> us_username a = us_username b"
  unfolding same_login_def
  by (metis UserSession.select_convs(3,4) UserSession.surjective UserSession.update_convs(7,9))

lemma stored_same: "stored token st a \<Longrightarrow> same_login a b \<Longrightarrow> stored token st b"
  by (auto simp: stored_def split: option.splits intro: same_login_trans)

lemma only_used_refl: "tokens_ok (authTokens st) \<Longrightarrow> only_used st st"
  by (simp add: only_used_def stored_def)

lemma stored_back: "only_used st st' \<Longrightarrow> stored token st' s \<Longrightarrow> stored token st s"
  by (auto simp: only_used_def stored_def [of token st'] split: option.splits intro: stored_same)

lemma only_used_trans: "only_used st st1 \<Longrightarrow> only_used st1 st2 \<Longrightarrow> only_used st st2"
  using stored_back [of st st1] by (auto simp: only_used_def)

lemma only_used_tokens: "only_used st st' \<Longrightarrow> tokens_ok (authTokens st')"
  by (simp add: only_used_def)

lemma only_used_filter:
  assumes "tokens_ok (authTokens st)" "authTokens st' = filter P (authTokens st)"
    and "authMethodsConfig st' = authMethodsConfig st"
  shows "only_used st st'"
proof -
  have "distinct (map fst (authTokens st))"
    using assms(1) by (simp add: tokens_ok_def)
  then have m: "map_of (filter P (authTokens st)) token = Some s \<Longrightarrow> map_of (authTokens st) token = Some s" for token s
    by (simp add: map_of_filter_distinct split: option.splits if_splits)
  then show ?thesis
    using assms tokens_ok_filter [OF assms(1), of P] by (auto simp: only_used_def stored_def dest!: m)
qed

lemma only_used_expire: "tokens_ok (authTokens st) \<Longrightarrow> only_used st (applySessionTimeouts t st)"
  by (auto simp: applySessionTimeouts_def Let_def intro: only_used_refl only_used_filter)

lemma map_entry_keys: "distinct (map fst m) \<Longrightarrow> map fst (AList.map_entry k f m) = map fst m"
  by (simp add: map_entry_map cong: map_cong)

lemma only_used_entry:
  assumes "tokens_ok (authTokens st)" "\<And>s. same_login s (f s)" "\<And>s. us_sessionToken (f s) = us_sessionToken s"
  shows "only_used st (st\<lparr>authTokens := AList.map_entry token f (authTokens st)\<rparr>)"
proof -
  have d: "distinct (map fst (authTokens st))"
    using assms(1) by (simp add: tokens_ok_def)
  have "list_all (\<lambda>p. us_sessionToken (snd p) = fst p \<and> fst p \<noteq> []) (AList.map_entry token f (authTokens st))"
    using assms(1,3) by (auto simp: map_entry_map [OF d] tokens_ok_def list_all_iff)
  then have "tokens_ok (AList.map_entry token f (authTokens st))"
    using d by (simp add: tokens_ok_def map_entry_keys)
  then show ?thesis
    using assms(2) by (auto simp: only_used_def stored_def map_of_map_entry split: option.splits if_splits)
qed

lemma login_uses:
  assumes "tokens_ok (authTokens st)" "loginSessionByToken tn n token st = (r, st')"
  shows "only_used st st'" "r = Some s \<Longrightarrow> length token = sessionTokenSize \<and> stored token st s"
proof -
  let ?e = "applySessionTimeouts tn st"
  note e = only_used_expire [OF assms(1), of tn]
  note u = only_used_entry [OF only_used_tokens [OF e], of "\<lambda>s. s\<lparr>us_lastUpdated := n\<rparr>" token]
  show "only_used st st'"
    using assms(2) e only_used_trans [OF e u] by (auto simp: loginSessionByToken_def Let_def split: if_splits option.splits)
  assume "r = Some s"
  then show "length token = sessionTokenSize \<and> stored token st s"
    using assms(2) stored_back [OF e, of token]
    by (auto simp: loginSessionByToken_def Let_def stored_def [of token ?e] split: if_splits option.splits)
qed

section \<open>Credentials\<close>

text \<open>What a request must carry for each method to give it the session \<open>s\<close>.\<close>

definition token_login :: "string \<Rightarrow> SessionStore \<Rightarrow> UserSession \<Rightarrow> bool" where
  "token_login token st s \<longleftrightarrow> length token = sessionTokenSize \<and> stored token st s"

definition cookie_credential ::
    "auth_env \<Rightarrow> boost_verb \<Rightarrow> fields \<Rightarrow> SessionStore \<Rightarrow> UserSession \<Rightarrow> bool" where
  "cookie_credential env meth reqHeader st s \<longleftrightarrow>
     (case cookie_key (fields_get reqHeader ''Cookie'') of None \<Rightarrow> False | Some key \<Rightarrow> token_login key st s)
     \<and> (ae_csrf_disabled env \<or> meth = verb_get
        \<or> fields_get reqHeader ''X-XSRF-TOKEN'' = us_csrfToken s \<and> length (us_csrfToken s) = sessionTokenSize)"

definition token_credential :: "fields \<Rightarrow> SessionStore \<Rightarrow> UserSession \<Rightarrow> bool" where
  "token_credential reqHeader st s \<longleftrightarrow>
     (\<exists>token. fields_get reqHeader ''Authorization'' = ''Token '' @ token \<and> token_login token st s)"

definition basic_login :: "auth_env \<Rightarrow> fields \<Rightarrow> string \<Rightarrow> string \<Rightarrow> bool" where
  "basic_login env reqHeader user pass \<longleftrightarrow>
     (\<exists>param. fields_get reqHeader ''Authorization'' = ''Basic '' @ param
        \<and> base64Decode param = (True, user @ '':'' @ pass)) \<and> CHR '':'' \<notin> set user
     \<and> pamAuthenticateUser env user pass \<in> {PAM_SUCCESS, PAM_NEW_AUTHTOK_REQD}"

definition basic_credential :: "auth_env \<Rightarrow> string \<Rightarrow> fields \<Rightarrow> UserSession \<Rightarrow> bool" where
  "basic_credential env ip reqHeader s \<longleftrightarrow>
     (\<exists>pass. basic_login env reqHeader (us_username s) pass
        \<and> (us_isConfigureSelfOnly s \<longleftrightarrow> pamAuthenticateUser env (us_username s) pass = PAM_NEW_AUTHTOK_REQD))
     \<and> us_clientIp s = ip \<and> us_persistence s = SINGLE_REQUEST"

definition credential ::
    "auth_env \<Rightarrow> string \<Rightarrow> boost_verb \<Rightarrow> fields \<Rightarrow> UserSession option \<Rightarrow> SessionStore \<Rightarrow> UserSession \<Rightarrow> bool" where
  "credential env ip meth reqHeader session st s \<longleftrightarrow>
     (let config = authMethodsConfig st
      in ae_tls env \<and> am_tls config \<and> session = Some s
       \<or> ae_xtoken env \<and> am_xtoken config \<and> token_login (fields_get reqHeader ''X-Auth-Token'') st s
       \<or> ae_cookie env \<and> am_cookie config \<and> cookie_credential env meth reqHeader st s
       \<or> ae_session env \<and> am_sessionToken config \<and> token_credential reqHeader st s
       \<or> ae_basic env \<and> am_basic config \<and> basic_credential env ip reqHeader s)"

text \<open>The token drawn for a new session is not one in use.\<close>

definition fresh_draws :: "auth_env \<Rightarrow> SessionStore \<Rightarrow> bool" where
  "fresh_draws env st \<longleftrightarrow>
     (case drawChars (ae_draw env) 0 sessionTokenSize of
        Some token \<Rightarrow> map_of (authTokens st) token = None | None \<Rightarrow> True)"

lemma token_login_back: "only_used st st1 \<Longrightarrow> token_login token st1 s \<Longrightarrow> token_login token st s"
  by (auto simp: token_login_def intro: stored_back)

lemma not_stored_back: "only_used st st1 \<Longrightarrow> map_of (authTokens st) token = None \<Longrightarrow> map_of (authTokens st1) token = None"
  by (cases "map_of (authTokens st1) token") (fastforce simp: only_used_def stored_def)+

lemma fresh_back: "only_used st st1 \<Longrightarrow> fresh_draws env st \<Longrightarrow> fresh_draws env st1"
  using not_stored_back by (auto simp: fresh_draws_def split: option.splits)

lemma xtoken_sound:
  assumes "tokens_ok (authTokens st)" "performXtokenAuth env hdr st = (r, st')"
  shows "only_used st st'" "r = Some s \<Longrightarrow> token_login (fields_get hdr ''X-Auth-Token'') st s"
  using assms login_uses [OF assms(1)] only_used_refl [OF assms(1)]
  by (auto simp: performXtokenAuth_def Let_def token_login_def split: if_splits)

lemma token_sound:
  assumes "tokens_ok (authTokens st)" "performTokenAuth env (fields_get hdr ''Authorization'') st = (r, st')"
  shows "only_used st st'" "r = Some s \<Longrightarrow> token_credential hdr st s"
  using assms login_uses [OF assms(1)] only_used_refl [OF assms(1)]
  by (auto simp: performTokenAuth_def token_credential_def token_login_def prefix_def split: if_splits)

lemma only_used_cookieAuth: "tokens_ok (authTokens st) \<Longrightarrow> only_used st (set_cookieAuth token st)"
  unfolding set_cookieAuth_def by (rule only_used_entry) simp_all

lemma stored_set [simp]:
  "stored token st (s\<lparr>us_cookieAuth := c\<rparr>) = stored token st s"
  by (simp add: stored_def split: option.split)

lemma cookie_sound:
  assumes ok: "tokens_ok (authTokens st)" and p: "performCookieAuth env meth hdr st = (r, st')"
  shows "only_used st st'" "r = Some s \<Longrightarrow> cookie_credential env meth hdr st s"
proof -
  have "only_used st st' \<and> (r = Some s \<longrightarrow> cookie_credential env meth hdr st s)"
  proof (cases "cookie_key (fields_get hdr ''Cookie'')")
    case (Some key)
    obtain l st1 where l: "loginSessionByToken (fst (ae_cookie_clock env)) (snd (ae_cookie_clock env)) key st = (l, st1)"
      by fastforce
    note u = login_uses [OF ok l]
    have "only_used st (set_cookieAuth key st1)"
      using u(1) only_used_cookieAuth only_used_trans only_used_tokens by blast
    then show ?thesis
      using p Some l u only_used_refl [OF ok]
      by (auto simp: performCookieAuth_def cookie_credential_def token_login_def constant_time_equal Let_def
          split: if_splits option.splits)
  qed (use p only_used_refl [OF ok] in \<open>auto simp: performCookieAuth_def Let_def split: if_splits\<close>)
  then show "only_used st st'" "r = Some s \<Longrightarrow> cookie_credential env meth hdr st s"
    by blast+
qed

text \<open>A login by name and password adds the one session it returns.\<close>

definition added :: "SessionStore \<Rightarrow> UserSession \<Rightarrow> SessionStore \<Rightarrow> bool" where
  "added st s st' \<longleftrightarrow> authTokens st' = authTokens st @ [(us_sessionToken s, s)] \<and> tokens_ok (authTokens st')
     \<and> authMethodsConfig st' = authMethodsConfig st"

lemma generate_fresh:
  assumes "tokens_ok (authTokens st)" "fresh_draws env st"
    and "generateUserSession (ae_draw env) now user ip cid pt self st = (r, st')"
  shows "r = None \<Longrightarrow> st' = st"
    and "r = Some s \<Longrightarrow> added st s st' \<and> us_username s = user \<and> us_clientIp s = ip \<and> us_persistence s = pt
           \<and> us_isConfigureSelfOnly s = self"
proof -
  show "r = None \<Longrightarrow> st' = st"
    using assms(3) by (auto simp: generateUserSession_def Let_def split: option.splits prod.splits)
  assume r: "r = Some s"
  then obtain tok where tok: "drawChars (ae_draw env) 0 sessionTokenSize = Some tok"
    using assms(3) by (auto simp: generateUserSession_def split: option.splits)
  then have "tok \<noteq> []" and new: "map_of (authTokens st) tok = None"
    using assms(2) by (auto dest: drawChars_length simp: sessionTokenSize_def fresh_draws_def)
  moreover have "tok \<notin> fst ` set (authTokens st)"
    using new by (simp add: map_of_eq_None_iff)
  ultimately show "added st s st' \<and> us_username s = user \<and> us_clientIp s = ip \<and> us_persistence s = pt
      \<and> us_isConfigureSelfOnly s = self"
    using assms(1,3) r tok
    by (auto simp: generateUserSession_def emplaceSession_def added_def tokens_ok_def Let_def split: option.splits)
qed

lemma find_char_split:
  assumes "find_char_from c s 0 \<noteq> length s"
  shows "s = substr s 0 (find_char_from c s 0) @ c # drop (find_char_from c s 0 + 1) s"
    and "c \<notin> set (substr s 0 (find_char_from c s 0))"
proof -
  let ?P = "\<lambda>x. x \<noteq> c"
  have n: "find_char_from c s 0 = length (takeWhile ?P s)"
    by (simp add: find_char_from_def)
  have sub: "substr s 0 (length (takeWhile ?P s)) = takeWhile ?P s"
    by (metis drop0 substr_def takeWhile_eq_take)
  have "dropWhile ?P s \<noteq> []"
    using assms unfolding n by (metis append_Nil2 takeWhile_dropWhile_id)
  then obtain y ys where d: "dropWhile ?P s = y # ys"
    by (cases "dropWhile ?P s") auto
  then have "y = c"
    using hd_dropWhile [of ?P s] by simp
  moreover have "drop (length (takeWhile ?P s) + 1) s = ys"
    by (metis d dropWhile_eq_drop drop_Suc tl_drop list.sel(3) add.commute plus_1_eq_Suc)
  ultimately show "s = substr s 0 (find_char_from c s 0) @ c # drop (find_char_from c s 0 + 1) s"
    unfolding n sub using d by (metis takeWhile_dropWhile_id)
  show "c \<notin> set (substr s 0 (find_char_from c s 0))"
    unfolding n sub by (auto dest: set_takeWhileD)
qed

lemma basic_sound:
  assumes "tokens_ok (authTokens st)" "fresh_draws env st"
    and p: "performBasicAuth env ip (fields_get hdr ''Authorization'') st = (r, st')"
  shows "r = None \<Longrightarrow> st' = st" "r = Some s \<Longrightarrow> basic_credential env ip hdr s \<and> added st s st'"
proof -
  let ?auth = "fields_get hdr ''Authorization''"
  note g = generate_fresh [OF assms(1,2)]
  show "r = None \<Longrightarrow> st' = st"
    using p g(1) by (auto simp: performBasicAuth_def Let_def split: if_splits prod.splits bool.splits)
  assume r: "r = Some s"
  then obtain param authData where pre: "?auth = ''Basic '' @ param" and dec: "base64Decode param = (True, authData)"
    using p by (auto simp: performBasicAuth_def Let_def prefix_def split: if_splits prod.splits bool.splits)
  define user where "user = substr authData 0 (find_char_from (CHR '':'') authData 0)"
  define pass where "pass = drop (find_char_from (CHR '':'') authData 0 + 1) authData"
  have sep: "find_char_from (CHR '':'') authData 0 \<noteq> length authData"
    and pam: "pamAuthenticateUser env user pass \<in> {PAM_SUCCESS, PAM_NEW_AUTHTOK_REQD}"
    and gen: "generateUserSession (ae_draw env) (ae_basic_clock env) user ip None SINGLE_REQUEST
       (pamAuthenticateUser env user pass = PAM_NEW_AUTHTOK_REQD) st = (r, st')"
    using p r pre dec by (auto simp: performBasicAuth_def Let_def user_def pass_def split: if_splits)
  have "authData = user @ '':'' @ pass" "CHR '':'' \<notin> set user"
    using find_char_split [OF sep] by (simp_all add: user_def pass_def)
  then show "basic_credential env ip hdr s \<and> added st s st'"
    using g(2) [OF gen r] pre dec pam by (auto simp: basic_credential_def basic_login_def)
qed

section \<open>The methods together\<close>

text \<open>
  What may have become of the store when the methods tried so far gave \<open>fst p\<close>: sessions were used
  or expired, and a login by name and password has added its own.
\<close>

definition granted :: "(UserSession \<Rightarrow> bool) \<Rightarrow> (UserSession \<Rightarrow> bool) \<Rightarrow> SessionStore \<Rightarrow> UserSession option \<times> SessionStore \<Rightarrow> bool" where
  "granted C B st p \<longleftrightarrow>
     (case fst p of
        None \<Rightarrow> only_used st (snd p)
      | Some s \<Rightarrow> C s \<and> (only_used st (snd p) \<or> B s \<and> (\<exists>st1. only_used st st1 \<and> added st1 s (snd p))))"

lemma try_next_granted:
  assumes "granted C B st p"
    and "\<And>st1 r st2. enabled \<Longrightarrow> only_used st st1 \<Longrightarrow> meth st1 = (r, st2) \<Longrightarrow> granted C B st (r, st2)"
  shows "granted C B st (try_next enabled meth p)"
proof (cases "fst p = None \<and> enabled")
  case True
  then show ?thesis
    using assms(1) assms(2) [of "snd p" "fst (meth (snd p))" "snd (meth (snd p))"]
    by (simp add: try_next_def granted_def)
qed (use assms(1) in \<open>auto simp: try_next_def\<close>)

lemma granted_used:
  "only_used st st2 \<Longrightarrow> (\<And>s. r = Some s \<Longrightarrow> C s) \<Longrightarrow> granted C B st (r, st2)"
  by (simp add: granted_def split: option.split)

lemma token_credential_back: "only_used st st1 \<Longrightarrow> token_credential hdr st1 s \<Longrightarrow> token_credential hdr st s"
  by (auto simp: token_credential_def intro: token_login_back)

lemma cookie_credential_back:
  "only_used st st1 \<Longrightarrow> cookie_credential env meth hdr st1 s \<Longrightarrow> cookie_credential env meth hdr st s"
  by (auto simp: cookie_credential_def intro: token_login_back split: option.splits)

lemma authenticate_granted:
  fixes env ip meth hdr session st
  defines "C \<equiv> credential env ip meth hdr session st" and "B \<equiv> basic_credential env ip hdr"
  assumes ok: "tokens_ok (authTokens st)" and fresh: "fresh_draws env st"
    and a: "authenticate env ip meth hdr session res st = (r, res', st')"
  shows "granted C B st (r, st') \<and> (r = None \<longrightarrow> res' = res)"
proof -
  define config where "config = authMethodsConfig st"
  define tls where "tls = (if ae_tls env \<and> am_tls config then performTLSAuth res hdr session else (None, res))"
  have t: "granted C B st (fst tls, st) \<and> (fst tls = None \<longrightarrow> snd tls = res)"
    using only_used_refl [OF ok]
    by (auto simp: tls_def granted_def performTLSAuth_def C_def credential_def config_def Let_def split: option.split)
  have x: "granted C B st (try_next (ae_xtoken env \<and> am_xtoken config) (performXtokenAuth env hdr) (fst tls, st))"
    (is "granted C B st ?x")
  proof (rule try_next_granted [OF conjunct1 [OF t]])
    fix st1 r st2
    assume h: "ae_xtoken env \<and> am_xtoken config" "only_used st st1" "performXtokenAuth env hdr st1 = (r, st2)"
    show "granted C B st (r, st2)"
      using xtoken_sound [OF only_used_tokens [OF h(2)] h(3)] only_used_trans [OF h(2)] token_login_back [OF h(2)] h(1)
      unfolding C_def credential_def config_def Let_def by (intro granted_used) blast+
  qed
  have c: "granted C B st (try_next (ae_cookie env \<and> am_cookie config) (performCookieAuth env meth hdr) ?x)"
    (is "granted C B st ?c")
  proof (rule try_next_granted [OF x])
    fix st1 r st2
    assume h: "ae_cookie env \<and> am_cookie config" "only_used st st1" "performCookieAuth env meth hdr st1 = (r, st2)"
    show "granted C B st (r, st2)"
      using cookie_sound [OF only_used_tokens [OF h(2)] h(3)] only_used_trans [OF h(2)] cookie_credential_back [OF h(2)] h(1)
      unfolding C_def credential_def config_def Let_def by (intro granted_used) blast+
  qed
  have k: "granted C B st (try_next (am_sessionToken config \<and> ae_session env)
      (performTokenAuth env (fields_get hdr ''Authorization'')) ?c)" (is "granted C B st ?k")
  proof (rule try_next_granted [OF c])
    fix st1 r st2
    assume h: "am_sessionToken config \<and> ae_session env" "only_used st st1"
      "performTokenAuth env (fields_get hdr ''Authorization'') st1 = (r, st2)"
    show "granted C B st (r, st2)"
      using token_sound [OF only_used_tokens [OF h(2)] h(3)] only_used_trans [OF h(2)] token_credential_back [OF h(2)] h(1)
      unfolding C_def credential_def config_def Let_def by (intro granted_used) blast+
  qed
  have b: "granted C B st (try_next (am_basic config \<and> ae_basic env)
      (performBasicAuth env ip (fields_get hdr ''Authorization'')) ?k)" (is "granted C B st ?b")
  proof (rule try_next_granted [OF k])
    fix st1 r st2
    assume h: "am_basic config \<and> ae_basic env" "only_used st st1"
      "performBasicAuth env ip (fields_get hdr ''Authorization'') st1 = (r, st2)"
    show "granted C B st (r, st2)"
      using basic_sound [OF only_used_tokens [OF h(2)] fresh_back [OF h(2) fresh] h(3)] h
      by (cases r) (auto simp: granted_def C_def B_def credential_def config_def Let_def)
  qed
  have "authenticate env ip meth hdr session res st = (fst ?b, snd tls, snd ?b)"
    by (simp add: authenticate_def tls_def config_def Let_def case_prod_unfold)
  moreover have "fst ?b = None \<Longrightarrow> fst tls = None"
    by (auto simp: try_next_def split: if_splits)
  ultimately show ?thesis
    using a b t by auto
qed

section \<open>Valid credentials are accepted\<close>

text \<open>
  \<open>awake_for t st\<close>: no session of the store has been idle for the timeout at \<open>t\<close>. \<open>stays\<close>: every
  session that was stored still is.
\<close>

definition awake_for :: "int \<Rightarrow> SessionStore \<Rightarrow> bool" where
  "awake_for t st \<longleftrightarrow> list_all (\<lambda>p. t - us_lastUpdated (snd p) < nanoseconds (timeoutInSeconds st)) (authTokens st)"

definition stays :: "SessionStore \<Rightarrow> SessionStore \<Rightarrow> bool" where
  "stays st st' \<longleftrightarrow> tokens_ok (authTokens st') \<and> timeoutInSeconds st' = timeoutInSeconds st
     \<and> (\<forall>token s. stored token st s \<longrightarrow> stored token st' s)"

definition draws_ok :: "auth_env \<Rightarrow> bool" where
  "draws_ok env \<longleftrightarrow> drawChars (ae_draw env) 0 sessionTokenSize \<noteq> None
     \<and> drawChars (ae_draw env) sessionTokenSize sessionTokenSize \<noteq> None
     \<and> drawChars (ae_draw env) (2 * sessionTokenSize) 10 \<noteq> None"

lemma expire_awake: "awake_for t st \<Longrightarrow>
  authTokens (applySessionTimeouts t st) = authTokens st \<and> timeoutInSeconds (applySessionTimeouts t st) = timeoutInSeconds st"
  by (auto simp: awake_for_def applySessionTimeouts_def Let_def list_all_iff not_le intro: filter_True)

lemma stays_entry:
  assumes "tokens_ok (authTokens st)" "\<And>s. same_login s (f s)" "\<And>s. us_sessionToken (f s) = us_sessionToken s"
  shows "stays st (st\<lparr>authTokens := AList.map_entry token f (authTokens st)\<rparr>)"
proof -
  have "same_login (f a) s \<longleftrightarrow> same_login a s" for a s
    using assms(2) [of a] by (simp add: same_login_def)
  then show ?thesis
    using only_used_tokens [OF only_used_entry [OF assms]]
    by (simp add: stays_def stored_def map_of_map_entry split: option.split)
qed

lemma awake_entry:
  assumes "tokens_ok (authTokens st)" "awake_for t st"
    and "\<And>s. t - us_lastUpdated s < nanoseconds (timeoutInSeconds st) \<Longrightarrow>
           t - us_lastUpdated (f s) < nanoseconds (timeoutInSeconds st)"
  shows "awake_for t (st\<lparr>authTokens := AList.map_entry token f (authTokens st)\<rparr>)"
  using assms by (auto simp: awake_for_def list_all_iff map_entry_map tokens_ok_def)

lemma login_awake:
  assumes ok: "tokens_ok (authTokens st)" and aw: "awake_for tn st"
    and l: "loginSessionByToken tn n token st = (r, st')"
  shows "stays st st'"
    and "token_login token st s \<Longrightarrow> r \<noteq> None"
    and "awake_for t st \<Longrightarrow> t - n < nanoseconds (timeoutInSeconds st) \<or> r = None \<Longrightarrow> awake_for t st'"
proof -
  let ?e = "applySessionTimeouts tn st"
  have e: "authTokens ?e = authTokens st" "timeoutInSeconds ?e = timeoutInSeconds st"
    using expire_awake [OF aw] by simp_all
  then have st: "stays st ?e" "stored token st s = stored token ?e s" "awake_for t ?e = awake_for t st" for token s t
    using ok by (simp_all add: stays_def stored_def awake_for_def)
  have u: "stays ?e (?e\<lparr>authTokens := AList.map_entry token (\<lambda>s. s\<lparr>us_lastUpdated := n\<rparr>) (authTokens ?e)\<rparr>)"
    using ok e by (intro stays_entry) simp_all
  show "stays st st'"
    using l st u e by (auto simp: loginSessionByToken_def stays_def Let_def split: if_splits option.splits)
  show "token_login token st s \<Longrightarrow> r \<noteq> None"
    using l e by (auto simp: token_login_def stored_def loginSessionByToken_def Let_def split: option.splits)
  assume a: "awake_for t st" "t - n < nanoseconds (timeoutInSeconds st) \<or> r = None"
  show "awake_for t st'"
  proof (cases r)
    case None
    then show ?thesis
      using l a st(3) by (auto simp: loginSessionByToken_def Let_def split: if_splits option.splits)
  next
    case (Some s')
    then have "st' = ?e\<lparr>authTokens := AList.map_entry token (\<lambda>s. s\<lparr>us_lastUpdated := n\<rparr>) (authTokens ?e)\<rparr>"
      using l by (auto simp: loginSessionByToken_def Let_def split: if_splits option.splits)
    moreover have "awake_for t (?e\<lparr>authTokens := AList.map_entry token (\<lambda>s. s\<lparr>us_lastUpdated := n\<rparr>) (authTokens ?e)\<rparr>)"
      by (rule awake_entry) (use Some a e st(3) ok in simp_all)
    ultimately show ?thesis
      by simp
  qed
qed

lemma cookie_awake:
  assumes ok: "tokens_ok (authTokens st)" and aw: "awake_for (fst (ae_cookie_clock env)) st"
    and p: "performCookieAuth env meth hdr st = (r, st')"
  shows "stays st st'"
    and "cookie_credential env meth hdr st s \<Longrightarrow> r \<noteq> None"
    and "awake_for t st \<Longrightarrow> t - snd (ae_cookie_clock env) < nanoseconds (timeoutInSeconds st) \<Longrightarrow> awake_for t st'"
proof -
  have "stays st st' \<and> (cookie_credential env meth hdr st s \<longrightarrow> r \<noteq> None)
     \<and> (awake_for t st \<and> t - snd (ae_cookie_clock env) < nanoseconds (timeoutInSeconds st) \<longrightarrow> awake_for t st')"
  proof (cases "cookie_key (fields_get hdr ''Cookie'')")
    case None
    then show ?thesis
      using ok p by (auto simp: performCookieAuth_def cookie_credential_def stays_def Let_def split: if_splits)
  next
    case (Some key)
    then have ne: "fields_get hdr ''Cookie'' \<noteq> []"
      by (auto simp: cookie_key_def)
    obtain l st1 where l: "loginSessionByToken (fst (ae_cookie_clock env)) (snd (ae_cookie_clock env)) key st = (l, st1)"
      by fastforce
    note aw1 = login_awake [OF ok aw l]
    have ok1: "tokens_ok (authTokens st1)" and to: "timeoutInSeconds st1 = timeoutInSeconds st"
      using aw1(1) by (simp_all add: stays_def)
    have st2: "stays st1 (set_cookieAuth key st1)"
      unfolding set_cookieAuth_def by (rule stays_entry [OF ok1]) simp_all
    have "awake_for t st1 \<Longrightarrow> awake_for t (set_cookieAuth key st1)"
      unfolding set_cookieAuth_def by (rule awake_entry [OF ok1]) simp_all
    moreover have "us_csrfToken s = us_csrfToken x" if "token_login key st s" "l = Some x" for x
    proof -
      have "stored key st x"
        using login_uses(2) [OF ok l that(2)] by simp
      then show ?thesis
        using that(1) by (auto simp: token_login_def stored_def dest!: same_login_fields split: option.splits)
    qed
    ultimately show ?thesis
      using p Some ne l aw1 st2 to
      by (auto simp: performCookieAuth_def cookie_credential_def stays_def constant_time_equal sessionTokenSize_def
          Let_def split: if_splits option.splits)
  qed
  then show "stays st st'" "cookie_credential env meth hdr st s \<Longrightarrow> r \<noteq> None"
    "awake_for t st \<Longrightarrow> t - snd (ae_cookie_clock env) < nanoseconds (timeoutInSeconds st) \<Longrightarrow> awake_for t st'"
    by blast+
qed

text \<open>
  The clock readings of one request: no stored session is idle at any of them, the time the cookie
  method may have renewed a session at included.
\<close>

definition clocks_ok :: "auth_env \<Rightarrow> SessionStore \<Rightarrow> bool" where
  "clocks_ok env st \<longleftrightarrow> awake_for (fst (ae_xtoken_clock env)) st \<and> awake_for (fst (ae_cookie_clock env)) st
     \<and> awake_for (fst (ae_token_clock env)) st
     \<and> fst (ae_token_clock env) - snd (ae_cookie_clock env) < nanoseconds (timeoutInSeconds st)"

lemma generate_draws: "draws_ok env \<Longrightarrow> fst (generateUserSession (ae_draw env) now user ip cid pt self st) \<noteq> None"
  by (auto simp: draws_ok_def generateUserSession_def Let_def split: option.split prod.split)

lemma basic_accepts:
  assumes "draws_ok env" "basic_credential env ip hdr s"
  shows "fst (performBasicAuth env ip (fields_get hdr ''Authorization'') st) \<noteq> None"
proof -
  obtain user pass param where b: "fields_get hdr ''Authorization'' = ''Basic '' @ param"
      "base64Decode param = (True, user @ '':'' @ pass)" "CHR '':'' \<notin> set user"
    and pam: "pamAuthenticateUser env user pass \<in> {PAM_SUCCESS, PAM_NEW_AUTHTOK_REQD}"
    using assms(2) by (auto simp: basic_credential_def basic_login_def)
  have "find_char_from (CHR '':'') (user @ '':'' @ pass) 0 = length user"
    using find_char_from_some [OF b(3), of "[]" pass] by simp
  then show ?thesis
    using b pam generate_draws [OF assms(1)] by (auto simp: performBasicAuth_def substr_def)
qed

lemma try_next_none:
  "fst (try_next enabled meth p) = None \<longleftrightarrow> fst p = None \<and> (enabled \<longrightarrow> fst (meth (snd p)) = None)"
  by (auto simp: try_next_def)

lemma stays_login: "stays st st1 \<Longrightarrow> token_login token st s \<Longrightarrow> token_login token st1 s"
  by (simp add: stays_def token_login_def)

lemma xtoken_awake:
  assumes ok: "tokens_ok (authTokens st)" and c: "clocks_ok env st" and p: "performXtokenAuth env hdr st = (r, st')"
  shows "token_login (fields_get hdr ''X-Auth-Token'') st s \<Longrightarrow> r \<noteq> None"
    and "r = None \<Longrightarrow> stays st st' \<and> clocks_ok env st'"
proof -
  have aw: "awake_for (fst (ae_xtoken_clock env)) st"
    using c by (simp add: clocks_ok_def)
  show "token_login (fields_get hdr ''X-Auth-Token'') st s \<Longrightarrow> r \<noteq> None"
    using p login_awake(2) [OF ok aw]
    by (auto simp: performXtokenAuth_def token_login_def sessionTokenSize_def Let_def split: if_splits)
  assume n: "r = None"
  show "stays st st' \<and> clocks_ok env st'"
  proof (cases "fields_get hdr ''X-Auth-Token'' = []")
    case False
    note l = login_awake [OF ok aw, of "snd (ae_xtoken_clock env)" "fields_get hdr ''X-Auth-Token''" r st']
    have "stays st st'" "\<And>t. awake_for t st \<Longrightarrow> awake_for t st'"
      using l p n False by (auto simp: performXtokenAuth_def Let_def)
    then show ?thesis
      using c by (auto simp: clocks_ok_def stays_def)
  qed (use p ok c in \<open>auto simp: performXtokenAuth_def stays_def\<close>)
qed

lemma token_accepts:
  assumes "tokens_ok (authTokens st)" "awake_for (fst (ae_token_clock env)) st" "token_credential hdr st s"
  shows "fst (performTokenAuth env (fields_get hdr ''Authorization'') st) \<noteq> None"
proof -
  obtain token where t: "fields_get hdr ''Authorization'' = ''Token '' @ token" "token_login token st s"
    using assms(3) by (auto simp: token_credential_def)
  then show ?thesis
    using login_awake(2) [OF assms(1,2) _ t(2), of "snd (ae_token_clock env)"]
    by (simp add: performTokenAuth_def) (metis fst_conv surj_pair)
qed

text \<open>When neither token method gives a session, there was no credential for them and the store stays.\<close>

lemma first_methods:
  fixes env meth hdr st ex ec
  defines "x \<equiv> try_next ex (performXtokenAuth env hdr) (None, st)"
  defines "k \<equiv> try_next ec (performCookieAuth env meth hdr) x"
  assumes ok: "tokens_ok (authTokens st)" and c: "clocks_ok env st" and nk: "fst k = None"
  shows "stays st (snd k) \<and> awake_for (fst (ae_token_clock env)) (snd k)"
    and "ex \<Longrightarrow> \<not> token_login (fields_get hdr ''X-Auth-Token'') st s"
    and "ec \<Longrightarrow> \<not> cookie_credential env meth hdr st s"
proof -
  have nc: "ec \<Longrightarrow> fst (performCookieAuth env meth hdr (snd x)) = None" and nx: "fst x = None"
    using nk unfolding k_def try_next_none by auto
  have nxx: "ex \<Longrightarrow> fst (performXtokenAuth env hdr st) = None"
    using nx unfolding x_def try_next_none by auto
  note xa = xtoken_awake [OF ok c prod.collapse [symmetric], of hdr]
  have sx: "stays st (snd x)" "clocks_ok env (snd x)"
    using ok c nxx xa(2) by (auto simp: x_def try_next_def stays_def)
  then have okx: "tokens_ok (authTokens (snd x))"
    by (simp add: stays_def)
  have cx: "awake_for (fst (ae_cookie_clock env)) (snd x)" "awake_for (fst (ae_token_clock env)) (snd x)"
    "fst (ae_token_clock env) - snd (ae_cookie_clock env) < nanoseconds (timeoutInSeconds (snd x))"
    using sx(2) by (simp_all add: clocks_ok_def)
  note ka = cookie_awake [where meth = meth and hdr = hdr, OF okx cx(1) prod.collapse [symmetric]]
  show "stays st (snd k) \<and> awake_for (fst (ae_token_clock env)) (snd k)"
    using sx ka(1) ka(3) [OF cx(2,3)] cx(2) nx by (auto simp: k_def try_next_def stays_def)
  show "ex \<Longrightarrow> \<not> token_login (fields_get hdr ''X-Auth-Token'') st s"
    using nxx xa(1) by blast
  show "\<not> cookie_credential env meth hdr st s" if "ec"
  proof
    assume "cookie_credential env meth hdr st s"
    then have "cookie_credential env meth hdr (snd x) s"
      using sx stays_login by (auto simp: cookie_credential_def split: option.splits)
    then show False using nc that ka(2) by blast
  qed
qed

lemma authenticate_accepts:
  assumes ok: "tokens_ok (authTokens st)" and c: "clocks_ok env st" and d: "draws_ok env"
    and cred: "credential env ip meth hdr session st s"
  shows "fst (authenticate env ip meth hdr session res st) \<noteq> None"
proof
  define config where "config = authMethodsConfig st"
  define tls where "tls = (if ae_tls env \<and> am_tls config then performTLSAuth res hdr session else (None, res))"
  define x where "x = try_next (ae_xtoken env \<and> am_xtoken config) (performXtokenAuth env hdr) (fst tls, st)"
  define k where "k = try_next (ae_cookie env \<and> am_cookie config) (performCookieAuth env meth hdr) x"
  define t where "t = try_next (am_sessionToken config \<and> ae_session env)
    (performTokenAuth env (fields_get hdr ''Authorization'')) k"
  assume "fst (authenticate env ip meth hdr session res st) = None"
  then have "fst (try_next (am_basic config \<and> ae_basic env)
      (performBasicAuth env ip (fields_get hdr ''Authorization'')) t) = None"
    by (simp add: authenticate_def Let_def case_prod_unfold config_def [symmetric] tls_def [symmetric]
        x_def [symmetric] k_def [symmetric] t_def [symmetric])
  then have nb: "\<not> (am_basic config \<and> ae_basic env \<and> basic_credential env ip hdr s)" and nt: "fst t = None"
    unfolding try_next_none using basic_accepts [OF d] by blast+
  then have ntk: "am_sessionToken config \<and> ae_session env \<Longrightarrow>
        fst (performTokenAuth env (fields_get hdr ''Authorization'') (snd k)) = None" and nk: "fst k = None"
    unfolding t_def try_next_none by auto
  then have ntls: "fst tls = None"
    unfolding k_def x_def try_next_none by auto
  then have x: "x = try_next (ae_xtoken env \<and> am_xtoken config) (performXtokenAuth env hdr) (None, st)"
    by (simp add: x_def)
  note f = first_methods [OF ok c, of "ae_cookie env \<and> am_cookie config" meth hdr "ae_xtoken env \<and> am_xtoken config",
      folded x, folded k_def, OF nk]
  have "\<not> token_credential hdr st s" if "am_sessionToken config \<and> ae_session env"
    using ntk [OF that] f(1) token_accepts [of "snd k" env hdr s] stays_login [of st "snd k"]
    by (auto simp: stays_def token_credential_def)
  moreover have "\<not> (ae_tls env \<and> am_tls config \<and> session = Some s)"
    using ntls by (auto simp: tls_def performTLSAuth_def Let_def split: if_splits)
  ultimately show False
    using cred nb f(2,3) [of s] unfolding credential_def Let_def config_def [symmetric] by blast
qed

text \<open>
  C19: a session is given only for a credential. When a request is given a session, it carried a
  credential for it of a method that is built in and enabled: the session of its TLS connection, the
  token of a stored session, the cookie of one (with its CSRF token unless the request is a GET), or
  a name and password that PAM accepts. Otherwise no session is made: what the store then holds are
  sessions it held before, unchanged but for the time of their use. Only a login by name and password
  adds a session, the one it returns.
\<close>

theorem authenticate_sound:
  assumes "tokens_ok (authTokens st)" "fresh_draws env st"
    and "authenticate env ip meth hdr session res st = (r, res', st')"
  shows "case r of
      Some s \<Rightarrow> credential env ip meth hdr session st s
        \<and> (only_used st st' \<or> basic_credential env ip hdr s \<and> (\<exists>st1. only_used st st1 \<and> added st1 s st'))
    | None \<Rightarrow> only_used st st' \<and> res' = res"
  using authenticate_granted [OF assms] by (auto simp: granted_def split: option.splits)

text \<open>
  C20: a valid credential is accepted. When no stored session is idle at the readings of the clock
  and the random generator does not fail, a request is given a session exactly when it carries a
  credential of a method that is built in and enabled.
\<close>

theorem authenticate_complete:
  assumes "tokens_ok (authTokens st)" "fresh_draws env st" "clocks_ok env st" "draws_ok env"
  shows "fst (authenticate env ip meth hdr session res st) \<noteq> None
    \<longleftrightarrow> (\<exists>s. credential env ip meth hdr session st s)"
proof
  assume "fst (authenticate env ip meth hdr session res st) \<noteq> None"
  then obtain s res' st' where a: "authenticate env ip meth hdr session res st = (Some s, res', st')"
    by (metis not_None_eq prod.collapse)
  show "\<exists>s. credential env ip meth hdr session st s"
    using authenticate_granted [OF assms(1,2) a] by (auto simp: granted_def)
next
  assume "\<exists>s. credential env ip meth hdr session st s"
  then show "fst (authenticate env ip meth hdr session res st) \<noteq> None"
    using authenticate_accepts [OF assms(1,3,4)] by blast
qed

text \<open>The concrete store and requests: one session, in a store with all methods enabled.\<close>

definition demo_env :: auth_env where
  "demo_env = \<lparr>ae_basic = True, ae_session = True, ae_xtoken = True, ae_cookie = True, ae_tls = True,
     ae_csrf_disabled = False, pamAuthenticateUser = (\<lambda>user pass. if pass = ''0penBmc'' then 0 else 7),
     ae_xtoken_clock = (9, 10), ae_cookie_clock = (10, 11), ae_token_clock = (12, 13), ae_basic_clock = 14,
     ae_draw = (\<lambda>k. Some 1), ae_routes = []\<rparr>"

definition demo_store :: SessionStore where
  "demo_store = session_run [Generate (\<lambda>k. Some 0) 3 ''root'' ''::1'' None TIMEOUT False]
     (store_init (AuthConfigMethods.make True True True True True))"

definition demo_session :: UserSession where
  "demo_session = session_init\<lparr>us_uniqueId := replicate 10 (CHR ''0''), us_sessionToken := replicate 20 (CHR ''0''),
     us_username := ''root'', us_csrfToken := replicate 20 (CHR ''0''), us_clientIp := ''::1'', us_lastUpdated := 3\<rparr>"

lemma demo_store: "authTokens demo_store = [(replicate 20 (CHR ''0''), demo_session)]"
  "lastTimeoutUpdate demo_store = 0" "timeoutInSeconds demo_store = 1800"
  "authMethodsConfig demo_store = AuthConfigMethods.make True True True True True"
  by (simp_all add: demo_store_def demo_session_def session_run_def generateUserSession_def sessionTokenSize_def
      drawChars_first emplaceSession_def store_init_def session_init_def Let_def)

lemma demo_draws: "drawChars (ae_draw demo_env) k n = Some (replicate n (CHR ''1''))"
  by (induction n arbitrary: k) (simp_all add: demo_env_def alphanum_def)

lemma demo_fresh: "tokens_ok (authTokens demo_store)" "fresh_draws demo_env demo_store"
  "clocks_ok demo_env demo_store" "draws_ok demo_env"
  by (simp_all add: demo_store tokens_ok_def fresh_draws_def draws_ok_def demo_draws sessionTokenSize_def)
    (simp_all add: demo_session_def clocks_ok_def awake_for_def demo_store demo_env_def nanoseconds_eq numeral_eq_Suc)

text \<open>A request with the cookie of the session.\<close>

definition demo_cookie :: fields where
  "demo_cookie = [(''Cookie'', ''a=b; SESSION=00000000000000000000; c=d'')]"

lemma demo_key: "cookie_key (fields_get demo_cookie ''Cookie'') = Some (replicate 20 (CHR ''0''))"
  by (simp add: demo_cookie_def fields_get_def iequals_def to_lower_def cookie_key_def find_char_from_def substr_def
      numeral_eq_Suc)

lemma demo_no_header:
  "fields_get demo_cookie ''X-Auth-Token'' = []" "fields_get demo_cookie ''Authorization'' = []"
  "fields_get demo_cookie ''X-XSRF-TOKEN'' = []"
  by (simp_all add: demo_cookie_def fields_get_def iequals_def to_lower_def)

definition demo_used :: UserSession where
  "demo_used = demo_session\<lparr>us_lastUpdated := 11, us_cookieAuth := True\<rparr>"

lemma demo_login:
  "performCookieAuth demo_env meth demo_cookie demo_store =
     (if meth = verb_get then Some demo_used else None,
      demo_store\<lparr>authTokens := [(replicate 20 (CHR ''0''), demo_used)]\<rparr>)"
proof -
  have "fields_get demo_cookie ''Cookie'' \<noteq> []"
    using demo_key by (auto simp: cookie_key_def)
  moreover have "applySessionTimeouts 10 demo_store = demo_store"
    by (simp add: applySessionTimeouts_def demo_store)
  ultimately show ?thesis
    by (simp add: performCookieAuth_def demo_key demo_no_header loginSessionByToken_def demo_env_def demo_store
        sessionTokenSize_def set_cookieAuth_def demo_used_def Let_def)
qed

lemma demo_run: "authenticate demo_env ip meth demo_cookie None res demo_store =
    (if meth = verb_get then Some demo_used else None, res,
     demo_store\<lparr>authTokens := [(replicate 20 (CHR ''0''), demo_used)]\<rparr>)"
proof -
  have "performTLSAuth res demo_cookie None = (None, res)"
    "performXtokenAuth demo_env demo_cookie demo_store = (None, demo_store)"
    "performTokenAuth demo_env [] st = (None, st)" "performBasicAuth demo_env ip [] st = (None, st)" for st
    by (simp_all add: performTLSAuth_def performXtokenAuth_def performTokenAuth_def performBasicAuth_def demo_no_header)
  moreover have "ae_tls demo_env" "ae_xtoken demo_env" "ae_cookie demo_env" "ae_session demo_env" "ae_basic demo_env"
    by (simp_all add: demo_env_def)
  ultimately show ?thesis
    by (simp add: authenticate_def demo_login demo_no_header demo_store(4) AuthConfigMethods.defs try_next_def Let_def)
qed

theorem authenticate_sound_witness:
  "credential demo_env ''::1'' verb_get demo_cookie None demo_store demo_used"
  using authenticate_sound [OF demo_fresh(1,2) demo_run [of "''::1''" verb_get response_init]]
  by simp

theorem authenticate_complete_witness:
  "(\<exists>s. credential demo_env ''::1'' verb_get demo_cookie None demo_store s)
    \<and> \<not> (\<exists>s. credential demo_env ''::1'' verb_post demo_cookie None demo_store s)"
  using authenticate_complete [OF demo_fresh, of "''::1''" verb_get demo_cookie None response_init]
    authenticate_complete [OF demo_fresh, of "''::1''" verb_post demo_cookie None response_init]
  by (simp add: demo_run)

section \<open>Observations\<close>

text \<open>A request that is rejected for its missing CSRF token has renewed the session all the same.\<close>

lemma csrf_rejected_renews:
  "fst (performCookieAuth demo_env verb_post demo_cookie demo_store) = None"
  "map_of (authTokens (snd (performCookieAuth demo_env verb_post demo_cookie demo_store))) (replicate 20 (CHR ''0''))
     = Some (demo_session\<lparr>us_lastUpdated := 11, us_cookieAuth := True\<rparr>)"
  by (simp_all add: demo_login demo_used_def)

text \<open>The key is looked for anywhere in the header: the end of another cookie's name matches too.\<close>

lemma cookie_key_suffix: "cookie_key ''MYSESSION=a; SESSION=b'' = Some ''a''"
  by (simp add: cookie_key_def find_char_from_def substr_def)

text \<open>The requests that need no session.\<close>

lemma allowlist_methods: "isOnAllowlist env url meth \<Longrightarrow> meth = verb_get \<or> meth = verb_post"
  by (auto simp: isOnAllowlist_def split: if_splits)

text \<open>A session made for one request is removed by its end, any other is kept.\<close>

lemma removeTempSession_removes:
  assumes "added st s st'" "us_persistence s = SINGLE_REQUEST" "rq_session req = Some s"
  shows "authTokens (removeTempSession req st') = authTokens st"
proof -
  have t: "authTokens st' = authTokens st @ [(us_sessionToken s, s)]" and d: "distinct (map fst (authTokens st'))"
    using assms(1) unfolding added_def tokens_ok_def by blast+
  have "us_sessionToken s \<notin> fst ` set (authTokens st)"
    using d unfolding t by simp
  then have "filter (\<lambda>p. fst p \<noteq> us_sessionToken s) (authTokens st) = authTokens st"
    by (intro filter_True) force
  then show ?thesis
    using assms by (simp add: removeTempSession_def removeSession_def added_def delete_filter)
qed

end
