(* ===== verification/JsonHtmlCopy.thy ===== *)
theory JsonHtmlCopy
  imports JsonHtml
begin

text \<open>
  The printer of \<open>json_html_serializer.cpp\<close>: the file has its own copies of the functions of the
  header, and \<open>prettyPrintJson\<close> calls them. Here the buffer of 512 bytes, the index \<open>bytes\<close> and the
  bytes left in the buffer from before are explicit; a write outside it is \<open>None\<close>. The lemmas show that
  this printer refines the one of the header, whose model keeps the written bytes alone.
\<close>

section \<open>The buffer\<close>

definition cpp_decode :: "nat \<Rightarrow> u32 \<Rightarrow> u8 \<Rightarrow> nat \<times> u32" where
  "cpp_decode state codePoint b =
     (if state > 8 then (state, codePoint)
      else
        let type = utf8d ! unat b;
            codePoint' = (if state \<noteq> utf8Accept
                          then (ucast b AND 0x3f) OR push_bit 6 codePoint
                          else drop_bit type 0xff AND ucast b)
        in (utf8d ! (256 + state * 16 + type), codePoint'))"

text \<open>\<open>stringBuffer[bytes++] = c\<close>, a sequence of these, and \<open>snprintf\<close> with its zero byte and \<open>bytes += n\<close>.\<close>

type_synonym buffer = "string \<times> nat"

definition cpp_put :: "char \<Rightarrow> buffer \<Rightarrow> buffer option" where
  "cpp_put c b = (case b of (stringBuffer, bytes) \<Rightarrow>
     if bytes < 512 then Some (stringBuffer[bytes := c], bytes + 1) else None)"

primrec cpp_puts :: "string \<Rightarrow> buffer \<Rightarrow> buffer option" where
  "cpp_puts [] b = Some b"
| "cpp_puts (c # cs) b = Option.bind (cpp_put c b) (cpp_puts cs)"

definition cpp_snprintf :: "string \<Rightarrow> buffer \<Rightarrow> buffer option" where
  "cpp_snprintf s b =
     map_option (\<lambda>(stringBuffer, bytes). (stringBuffer, bytes - 1)) (cpp_puts (s @ [CHR 0x00]) b)"

definition cpp_emit_code_point :: "u32 \<Rightarrow> char \<Rightarrow> buffer \<Rightarrow> buffer option" where
  "cpp_emit_code_point codePoint c b =
     (if codePoint = 0x08 then cpp_puts [CHR 0x5C, CHR ''b''] b
      else if codePoint = 0x09 then cpp_puts [CHR 0x5C, CHR ''t''] b
      else if codePoint = 0x0A then cpp_puts [CHR 0x5C, CHR ''n''] b
      else if codePoint = 0x0C then cpp_puts [CHR 0x5C, CHR ''f''] b
      else if codePoint = 0x0D then cpp_puts [CHR 0x5C, CHR ''r''] b
      else if codePoint = 0x22 then cpp_puts ''&quot;'' b
      else if codePoint = 0x27 then cpp_puts ''&apos;'' b
      else if codePoint = 0x26 then cpp_puts ''&amp;'' b
      else if codePoint = 0x3C then cpp_puts (CHR 0x5C # ''lt;'') b
      else if codePoint = 0x3E then cpp_puts (CHR 0x5C # ''gt;'') b
      else if codePoint \<le> 0x1F \<or> codePoint \<ge> 0x7F then
        (if codePoint \<le> 0xFFFF then cpp_snprintf (unicode_escape (ucast codePoint)) b
         else cpp_snprintf (unicode_escape (ucast (0xD7C0 + drop_bit 10 codePoint))
                @ unicode_escape (ucast (0xDC00 + (codePoint AND 0x3FF)))) b)
      else cpp_puts [c] b)"

section \<open>Escaping\<close>

record cpp_escaper =
  ce_out :: string
  ce_stringBuffer :: string
  ce_bytes :: nat
  ce_state :: nat
  ce_codePoint :: u32
  ce_lastAccept :: nat
  ce_undumped :: nat

definition cpp_escaper_init :: cpp_escaper where
  "cpp_escaper_init = \<lparr>ce_out = [], ce_stringBuffer = replicate 512 (CHR 0x00), ce_bytes = 0,
     ce_state = utf8Accept, ce_codePoint = 0, ce_lastAccept = 0, ce_undumped = 0\<rparr>"

definition cpp_accept :: "cpp_escaper \<Rightarrow> cpp_escaper" where
  "cpp_accept e =
     (let e1 = (if 512 - ce_bytes e < 13
                then e\<lparr>ce_out := ce_out e @ take (ce_bytes e) (ce_stringBuffer e), ce_bytes := 0\<rparr> else e)
      in e1\<lparr>ce_lastAccept := ce_bytes e1, ce_undumped := 0\<rparr>)"

definition cpp_escapeByte :: "char \<Rightarrow> cpp_escaper \<Rightarrow> (bool \<times> cpp_escaper) option" where
  "cpp_escapeByte c e =
     (let (state, codePoint) = cpp_decode (ce_state e) (ce_codePoint e) (byte c);
          e1 = e\<lparr>ce_state := state, ce_codePoint := codePoint\<rparr>
      in if state = utf8Accept then
           map_option (\<lambda>(buf, n). (True, cpp_accept (e1\<lparr>ce_stringBuffer := buf, ce_bytes := n\<rparr>)))
             (cpp_emit_code_point codePoint c (ce_stringBuffer e1, ce_bytes e1))
         else if state = utf8Reject then
           map_option (\<lambda>(buf, n). (ce_undumped e1 = 0,
               e1\<lparr>ce_stringBuffer := buf, ce_bytes := n, ce_lastAccept := n, ce_undumped := 0,
                  ce_state := utf8Accept\<rparr>))
             (cpp_puts replacement (ce_stringBuffer e1, ce_lastAccept e1))
         else Some (True, e1\<lparr>ce_undumped := ce_undumped e1 + 1\<rparr>))"

lemma cpp_escapeByte_again: "cpp_escapeByte c e = Some (False, e') \<Longrightarrow> 0 < ce_undumped e \<and> ce_undumped e' = 0"
  by (auto simp: cpp_escapeByte_def Let_def split: prod.splits if_splits)

function cpp_escapeLoop :: "string \<Rightarrow> cpp_escaper \<Rightarrow> cpp_escaper option" where
  "cpp_escapeLoop [] e = Some e"
| "cpp_escapeLoop (c # cs) e =
     (case cpp_escapeByte c e of
        None \<Rightarrow> None
      | Some (next, e') \<Rightarrow> if next then cpp_escapeLoop cs e' else cpp_escapeLoop (c # cs) e')"
  by pat_completeness auto

termination
  by (relation "measure (\<lambda>(s, e). 2 * length s + (if ce_undumped e > 0 then 1 else 0))")
    (auto dest: cpp_escapeByte_again)

declare cpp_escapeLoop.simps(2) [simp del]

definition cpp_dumpEscaped :: "string \<Rightarrow> string option" where
  "cpp_dumpEscaped str =
     map_option (\<lambda>e. if ce_state e = utf8Accept
                     then if ce_bytes e > 0 then ce_out e @ take (ce_bytes e) (ce_stringBuffer e) else ce_out e
                     else ce_out e @ take (ce_lastAccept e) (ce_stringBuffer e) @ replacement)
       (cpp_escapeLoop str cpp_escaper_init)"

section \<open>Values\<close>

definition cpp_dumpfloat :: "(u64 \<Rightarrow> string) \<Rightarrow> u64 \<Rightarrow> string" where
  "cpp_dumpfloat to_chars number = (if drop_bit 52 number AND 0x7FF = 0x7FF then ''null'' else to_chars number)"

fun cpp_dump :: "(u64 \<Rightarrow> string) \<Rightarrow> json \<Rightarrow> string option"
  and cpp_dumpMembers :: "(u64 \<Rightarrow> string) \<Rightarrow> json_object \<Rightarrow> string option"
  and cpp_dumpElements :: "(u64 \<Rightarrow> string) \<Rightarrow> json list \<Rightarrow> string option" where
  "cpp_dump to_chars (JObject m) =
     (if m = [] then Some ''{}''
      else map_option (\<lambda>s. ''{'' @ ''<div class=tab>'' @ s @ ''</div>'' @ ''}'') (cpp_dumpMembers to_chars m))"
| "cpp_dump to_chars (JArray xs) =
     (if xs = [] then Some ''[]''
      else map_option (\<lambda>s. ''['' @ ''<div class=tab>'' @ s @ ''</div>'' @ '']'') (cpp_dumpElements to_chars xs))"
| "cpp_dump to_chars (JString s) = map_option (\<lambda>t. quote_tag @ t @ quote_tag) (cpp_dumpEscaped s)"
| "cpp_dump to_chars (JBool b) = Some (if b then ''true'' else ''false'')"
| "cpp_dump to_chars (JInt i) = cpp_dumpInteger i"
| "cpp_dump to_chars (JUInt n) = cpp_dumpInteger (int n)"
| "cpp_dump to_chars (JFloat d) = Some (cpp_dumpfloat to_chars d)"
| "cpp_dump to_chars JNull = Some ''null''"
| "cpp_dump to_chars (JBinary b) = Some []"
| "cpp_dumpMembers to_chars [] = Some []"
| "cpp_dumpMembers to_chars ((k, v) # m) =
     (case cpp_dumpEscaped k of
        None \<Rightarrow> None
      | Some key \<Rightarrow>
          (case (if k = ''@odata.id'' \<or> k = ''@odata.context'' \<or> k = ''Members@odata.nextLink'' \<or> k = ''Uri''
                 then (case v of JString s \<Rightarrow> map_option (\<lambda>t. ''<a href='' @ quote_tag @ t @ quote_tag @ ''>'') (cpp_dumpEscaped s)
                       | _ \<Rightarrow> None)
                 else Some []) of
             None \<Rightarrow> None
           | Some link \<Rightarrow>
               (case cpp_dump to_chars v of
                  None \<Rightarrow> None
                | Some s \<Rightarrow>
                    map_option (\<lambda>rest. ''&quot'' @ key @ ''&quot: '' @ link @ s
                        @ (if k = ''@odata.id'' \<or> k = ''@odata.context'' \<or> k = ''Members@odata.nextLink'' \<or> k = ''Uri''
                           then ''</a>'' else [])
                        @ (if m \<noteq> [] then '','' else []) @ ''<br>'' @ rest)
                      (cpp_dumpMembers to_chars m))))"
| "cpp_dumpElements to_chars [] = Some []"
| "cpp_dumpElements to_chars (x # xs) =
     (case cpp_dump to_chars x of
        None \<Rightarrow> None
      | Some s \<Rightarrow>
          if xs = [] then Some s
          else map_option (\<lambda>rest. s @ '',<br>'' @ rest) (cpp_dumpElements to_chars xs))"

definition cpp_dumpHtml :: "(u64 \<Rightarrow> string) \<Rightarrow> json \<Rightarrow> string option" where
  "cpp_dumpHtml to_chars j = map_option (\<lambda>s. html_head @ s @ html_tail) (cpp_dump to_chars j)"

text \<open>
  \<open>prettyPrintJson\<close>: the text is appended to a copy of the body (a body that is not a string is a
  null pointer that is followed), and the copy is dropped.
\<close>

definition prettyPrintJson :: "(u64 \<Rightarrow> string) \<Rightarrow> response \<Rightarrow> response option" where
  "prettyPrintJson to_chars res =
     (case body_of res of
        None \<Rightarrow> None
      | Some v \<Rightarrow>
          (case cpp_dumpHtml to_chars (jsonValue res) of
             None \<Rightarrow> None
           | Some s \<Rightarrow> Some (addHeader ''Content-Type'' ''text/html;charset=UTF-8'' res)))"

section \<open>The refinement\<close>

text \<open>The written bytes are those before the index; the last accepted place is never behind it.\<close>

definition cpp_ok :: "cpp_escaper \<Rightarrow> bool" where
  "cpp_ok e \<longleftrightarrow> length (ce_stringBuffer e) = 512 \<and> ce_bytes e \<le> 512 \<and> ce_lastAccept e \<le> ce_bytes e"

definition escaper_of :: "cpp_escaper \<Rightarrow> escaper" where
  "escaper_of e = \<lparr>es_out = ce_out e, es_buffer = take (ce_bytes e) (ce_stringBuffer e), es_state = ce_state e,
     es_codePoint = ce_codePoint e, es_lastAccept = ce_lastAccept e, es_undumped = ce_undumped e\<rparr>"

definition buffer_ok :: "buffer \<Rightarrow> bool" where
  "buffer_ok b \<longleftrightarrow> length (fst b) = 512 \<and> snd b \<le> 512"

definition written :: "buffer \<Rightarrow> string" where
  "written b = take (snd b) (fst b)"

lemma cpp_puts_emit:
  "buffer_ok b \<Longrightarrow> map_option written (cpp_puts s b) = emit s (written b)"
  "buffer_ok b \<Longrightarrow> cpp_puts s b = Some b' \<Longrightarrow> buffer_ok b' \<and> snd b' = snd b + length s"
proof (induction s arbitrary: b)
  case (Cons c s)
  {
    case 1
    show ?case
    proof (cases "snd b < 512")
      case True
      define b1 where "b1 = ((fst b)[snd b := c], snd b + 1)"
      have "buffer_ok b1" "cpp_put c b = Some b1" "written b1 = written b @ [c]" "length (written b) = snd b"
        using 1 True by (auto simp: buffer_ok_def cpp_put_def b1_def written_def take_Suc_conv_app_nth split: prod.split)
      then show ?thesis
        using Cons(1) [of b1] by (simp add: emit_def)
    qed (use 1 in \<open>auto simp: buffer_ok_def cpp_put_def emit_def written_def split: prod.split\<close>)
  next
    case 2
    define b1 where "b1 = ((fst b)[snd b := c], snd b + 1)"
    have "cpp_put c b = Some b1" "buffer_ok b1"
      using 2 by (auto simp: buffer_ok_def cpp_put_def b1_def split: prod.splits if_splits option.splits bind_splits)
    then show ?case
      using Cons(2) [of b1] 2(2) by (simp add: b1_def)
  }
qed (auto simp: emit_def buffer_ok_def written_def)

lemma written_back: "buffer_ok (buf, n) \<Longrightarrow> k \<le> n \<Longrightarrow> take k buf = take k (written (buf, n))"
  by (simp add: written_def min_def)

lemma cpp_snprintf_emit:
  assumes "buffer_ok b"
  shows "map_option written (cpp_snprintf s b) = emit_printf s (written b)"
    and "cpp_snprintf s b = Some b' \<Longrightarrow> buffer_ok b' \<and> snd b' = snd b + length s"
proof -
  note p = cpp_puts_emit(1) [OF assms, of "s @ [CHR 0x00]"] cpp_puts_emit(2) [OF assms, of "s @ [CHR 0x00]"]
  show "map_option written (cpp_snprintf s b) = emit_printf s (written b)"
  proof (cases "cpp_puts (s @ [CHR 0x00]) b")
    case (Some b1)
    then have "written b1 = written b @ s @ [CHR 0x00]" "snd b1 = snd b + length s + 1"
        "snd b + length s + 1 \<le> 512" and l: "length (written b) = snd b"
      using p assms by (auto simp: emit_def buffer_ok_def written_def split: if_splits)
    moreover have "written (fst b1, snd b1 - 1) = take (snd b1 - 1) (written b1)"
      by (simp add: written_def min_def)
    ultimately show ?thesis
      using Some l by (simp add: cpp_snprintf_def emit_printf_def case_prod_unfold)
  qed (use p(1) in \<open>auto simp: cpp_snprintf_def emit_printf_def emit_def split: if_splits\<close>)
  show "cpp_snprintf s b = Some b' \<Longrightarrow> buffer_ok b' \<and> snd b' = snd b + length s"
    using p(2) by (auto simp: cpp_snprintf_def buffer_ok_def)
qed

lemma cpp_emit_refines:
  assumes "buffer_ok b"
  shows "map_option written (cpp_emit_code_point cp c b) = emit_code_point cp c (written b)"
    and "cpp_emit_code_point cp c b = Some b' \<Longrightarrow> buffer_ok b'"
  using cpp_puts_emit [OF assms] cpp_snprintf_emit [OF assms]
  by (simp_all add: cpp_emit_code_point_def emit_code_point_def del: cpp_puts.simps split: if_splits)

lemma cpp_accept_refines:
  assumes "buffer_ok (ce_stringBuffer e, ce_bytes e)"
  shows "escaper_of (cpp_accept e) = accept_buffer (escaper_of e)" "cpp_ok (cpp_accept e)"
  using assms by (auto simp: cpp_accept_def accept_buffer_def escaper_of_def cpp_ok_def buffer_ok_def Let_def)

lemma cpp_decode_same: "cpp_decode = decode"
  by (simp add: fun_eq_iff cpp_decode_def decode_def)

text \<open>The body of the loop.\<close>

lemma cpp_escapeByte_refines:
  assumes ok: "cpp_ok e"
  shows "map_option (map_prod id escaper_of) (cpp_escapeByte c e) = escapeByte c (escaper_of e)"
    and "cpp_escapeByte c e = Some (next, e') \<Longrightarrow> cpp_ok e'"
proof -
  obtain st cp where d: "decode (ce_state e) (ce_codePoint e) (byte c) = (st, cp)"
    by fastforce
  define b where "b = (ce_stringBuffer e, ce_bytes e)"
  define l where "l = (ce_stringBuffer e, ce_lastAccept e)"
  have bl: "buffer_ok b" "buffer_ok l"
    using ok by (simp_all add: cpp_ok_def buffer_ok_def b_def l_def)
  have w: "written b = es_buffer (escaper_of e)" "written l = take (es_lastAccept (escaper_of e)) (es_buffer (escaper_of e))"
    using ok by (simp_all add: written_def b_def l_def escaper_of_def cpp_ok_def min_def)
  have es: "decode (es_state (escaper_of e)) (es_codePoint (escaper_of e)) (byte c) = (st, cp)"
    using d by (simp add: escaper_of_def)
  consider (accept) "st = utf8Accept" | (reject) "st = utf8Reject" | (pending) "st \<noteq> utf8Accept" "st \<noteq> utf8Reject"
    by blast
  then have "map_option (map_prod id escaper_of) (cpp_escapeByte c e) = escapeByte c (escaper_of e)
      \<and> (\<forall>next e'. cpp_escapeByte c e = Some (next, e') \<longrightarrow> cpp_ok e')"
  proof cases
    case accept
    note r = cpp_emit_refines [OF bl(1), of cp c]
    show ?thesis
    proof (cases "cpp_emit_code_point cp c b")
      case (Some b')
      obtain buf n where b': "b' = (buf, n)" by fastforce
      note a = cpp_accept_refines [of "e\<lparr>ce_state := utf8Accept, ce_codePoint := cp, ce_stringBuffer := buf, ce_bytes := n\<rparr>"]
      show ?thesis
        using r Some b' a accept d es w
        by (auto simp: cpp_escapeByte_def escapeByte_def cpp_decode_same b_def escaper_of_def written_def Let_def
            dest: sym [of "Some _"])
    qed (use r accept d es w in \<open>auto simp: cpp_escapeByte_def escapeByte_def cpp_decode_same b_def Let_def escaper_of_def\<close>)
  next
    case reject
    note r = cpp_puts_emit [OF bl(2), of replacement]
    then show ?thesis
      using reject d es w
      by (cases "cpp_puts replacement l")
        (auto simp: cpp_escapeByte_def escapeByte_def cpp_decode_same l_def escaper_of_def written_def Let_def
          cpp_ok_def buffer_ok_def utf8Accept_def utf8Reject_def dest: sym [of "Some _"])
  next
    case pending
    then show ?thesis
      using d ok by (simp add: cpp_escapeByte_def escapeByte_def cpp_decode_same escaper_of_def cpp_ok_def Let_def)
  qed
  then show "map_option (map_prod id escaper_of) (cpp_escapeByte c e) = escapeByte c (escaper_of e)"
    "cpp_escapeByte c e = Some (next, e') \<Longrightarrow> cpp_ok e'"
    by blast+
qed

lemma cpp_escapeLoop_refines:
  "cpp_ok e \<Longrightarrow> map_option escaper_of (cpp_escapeLoop s e) = escapeLoop s (escaper_of e)
     \<and> (\<forall>e'. cpp_escapeLoop s e = Some e' \<longrightarrow> cpp_ok e')"
proof (induction s e rule: cpp_escapeLoop.induct)
  case (2 c cs e)
  note r = cpp_escapeByte_refines [OF "2.prems", of c]
  show ?case
  proof (cases "cpp_escapeByte c e")
    case None
    then have "escapeByte c (escaper_of e) = None"
      using r(1) by simp
    then show ?thesis
      using None by (simp add: cpp_escapeLoop.simps(2) escapeLoop.simps(2))
  next
    case (Some p)
    obtain nxt e' where p: "cpp_escapeByte c e = Some (nxt, e')"
      using Some by (cases p) simp
    have q: "escapeByte c (escaper_of e) = Some (nxt, escaper_of e')"
      using r(1) p by simp
    have a: "cpp_escapeLoop (c # cs) e = (if nxt then cpp_escapeLoop cs e' else cpp_escapeLoop (c # cs) e')"
      by (subst cpp_escapeLoop.simps(2)) (simp add: p)
    have b: "escapeLoop (c # cs) (escaper_of e)
        = (if nxt then escapeLoop cs (escaper_of e') else escapeLoop (c # cs) (escaper_of e'))"
      by (subst escapeLoop.simps(2)) (simp add: q)
    show ?thesis
      unfolding a b using "2.IH" [OF p refl] r(2) [OF p] by (cases nxt) simp_all
  qed
qed simp

lemma cpp_dumpEscaped_same: "cpp_dumpEscaped s = dumpEscaped s"
proof -
  have i: "cpp_ok cpp_escaper_init" "escaper_of cpp_escaper_init = escaper_init"
    by (simp_all add: cpp_ok_def cpp_escaper_init_def escaper_of_def escaper_init_def)
  note r = cpp_escapeLoop_refines [OF i(1), of s, unfolded i(2)]
  show ?thesis
  proof (cases "cpp_escapeLoop s cpp_escaper_init")
    case None
    then show ?thesis
      using r by (auto simp: cpp_dumpEscaped_def dumpEscaped_def)
  next
    case (Some e)
    then have "escapeLoop s escaper_init = Some (escaper_of e)" "cpp_ok e"
      using r by auto
    then show ?thesis
      using Some by (simp add: cpp_dumpEscaped_def dumpEscaped_def escaper_of_def cpp_ok_def min_def)
  qed
qed

lemma cpp_dumpfloat_same: "cpp_dumpfloat = dumpfloat"
  by (simp add: fun_eq_iff cpp_dumpfloat_def dumpfloat_def)

lemma link_keys_iff:
  "k = ''@odata.id'' \<or> k = ''@odata.context'' \<or> k = ''Members@odata.nextLink'' \<or> k = ''Uri'' \<longleftrightarrow> k \<in> set link_keys"
  by (simp add: link_keys_def)

lemma cpp_dump_same:
  "cpp_dump to_chars j = dump to_chars j"
  "cpp_dumpMembers to_chars m = dumpMembers to_chars m"
  "cpp_dumpElements to_chars xs = dumpElements to_chars xs"
proof (induction to_chars j and to_chars m and to_chars xs rule: dump_dumpMembers_dumpElements.induct)
  case (11 to_chars k v m)
  then show ?case
    unfolding cpp_dumpMembers.simps dumpMembers.simps link_keys_iff cpp_dumpEscaped_same
    by (simp cong: option.case_cong)
next
  case (13 to_chars x xs)
  then show ?case by (cases "dump to_chars x") simp_all
qed (simp_all add: cpp_dumpEscaped_same cpp_dumpInteger_same cpp_dumpfloat_same)

text \<open>
  C23: the printer of \<open>json_html_serializer.cpp\<close>, with its index into a buffer that keeps old bytes and
  its other way of writing numbers, gives the same page as the printer of the header for every
  value; it writes outside a buffer for no value for which the other does not.
\<close>

theorem printers_agree: "cpp_dumpHtml to_chars j = dumpHtml to_chars j"
  by (simp add: cpp_dumpHtml_def dumpHtml_def cpp_dump_same)

text \<open>The page never gets into the response.\<close>

lemma prettyPrintJson_drops_page: "prettyPrintJson to_chars res = Some res' \<Longrightarrow> res_body res' = res_body res"
  by (auto simp: prettyPrintJson_def addHeader_def split: option.splits)

end
