(* ===== verification/SyncClient.thy ===== *)
theory SyncClient
  imports HttpClient
begin

text \<open>
  Sessions over the synchronous streams of \<open>redfish_event/http/http_client.hpp\<close> (\<open>SyncStream\<close>,
  \<open>TcpStream\<close>, \<open>SslStream\<close>): every operation of the stream returns its result, and its handler is
  called before the operation itself returns. The results are inputs. The lemmas show that such a
  session does what the asynchronous one does when its operations complete in turn, and that
  closing a TLS stream calls itself again for every error.
\<close>

section \<open>Results\<close>

datatype shutdown_result = ShutOk | ShutEof | ShutError

text \<open>The errors of the operations of one run, the \<open>keep_alive()\<close> of its response, and the results of the closes.\<close>

record sync_results =
  sr_resolve :: bool
  sr_connect :: bool
  sr_handshake :: bool
  sr_write :: bool
  sr_read :: bool
  sr_keep :: bool
  sr_shutdown :: "nat \<Rightarrow> shutdown_result"

section \<open>The streams\<close>

definition report :: "session \<Rightarrow> session_out list" where
  "report s = (case hs_handler s of None \<Rightarrow> [] | Some h \<Rightarrow> [Report h (hs_req s)])"

text \<open>
  \<open>SslStream::shutDown\<close>: an error other than the end of the stream goes to the error handler, which
  reports it and closes the stream again. When this goes on for ever the result is \<open>None\<close>.
\<close>

partial_function (option) ssl_shutDown :: "(nat \<Rightarrow> shutdown_result) \<Rightarrow> nat \<Rightarrow> session \<Rightarrow> session_out list option" where
  "ssl_shutDown results k s =
     (let ec = (if results k = ShutEof then ShutOk else results k)
      in if ec = ShutError
         then Option.bind (ssl_shutDown results (k + 1) s) (\<lambda>os. Some ([ShutDown] @ report s @ os))
         else Some [ShutDown])"

definition tcp_shutDown :: "session_out list" where
  "tcp_shutDown = [ShutDown]"

definition sync_shutDown :: "sync_results \<Rightarrow> session \<Rightarrow> session_out list option" where
  "sync_shutDown res s = (if hs_tls s then ssl_shutDown (sr_shutdown res) 0 s else Some tcp_shutDown)"

text \<open>The session and what it did so far; \<open>fail\<close> is the handler of \<open>setErrorHandler\<close>.\<close>

type_synonym sync_run = "(session \<times> session_out list) option"

definition sync_fail :: "sync_results \<Rightarrow> session \<Rightarrow> session_out list \<Rightarrow> sync_run" where
  "sync_fail res s os = map_option (\<lambda>cs. (s, os @ report s @ cs)) (sync_shutDown res s)"

definition sync_on_read :: "sync_results \<Rightarrow> session \<Rightarrow> session_out list \<Rightarrow> sync_run" where
  "sync_on_read res s os =
     (let s1 = s\<lparr>hs_state := Idle\<rparr>
      in if \<not> sr_keep res then
           let s2 = s1\<lparr>hs_state := Monostate\<rparr> in map_option (\<lambda>cs. (s2, os @ cs)) (sync_shutDown res s2)
         else Some (s1, os))"

definition stream_read :: "sync_results \<Rightarrow> session \<Rightarrow> session_out list \<Rightarrow> sync_run" where
  "stream_read res s os =
     (let os1 = os @ [Begin SRead (hs_req s)]
      in if sr_read res then sync_fail res s os1 else sync_on_read res s os1)"

definition sync_on_write :: "sync_results \<Rightarrow> session \<Rightarrow> session_out list \<Rightarrow> sync_run" where
  "sync_on_write res s os = stream_read res (s\<lparr>hs_state := InUse\<rparr>) os"

definition stream_write :: "sync_results \<Rightarrow> session \<Rightarrow> session_out list \<Rightarrow> sync_run" where
  "stream_write res s os =
     (let os1 = os @ [Begin SWrite (hs_req s)]
      in if sr_write res then sync_fail res s os1 else sync_on_write res s os1)"

text \<open>\<open>HttpSession::on_connect\<close>: the session is idle for a moment, and its state starts the write.\<close>

definition sync_on_connect :: "sync_results \<Rightarrow> session \<Rightarrow> session_out list \<Rightarrow> sync_run" where
  "sync_on_connect res s os = stream_write res (s\<lparr>hs_state := InUse\<rparr>) os"

definition handShake :: "sync_results \<Rightarrow> session \<Rightarrow> session_out list \<Rightarrow> sync_run" where
  "handShake res s os =
     (let os1 = os @ [Begin SHandshake (hs_req s)]
      in if sr_handshake res then sync_fail res s os1 else sync_on_connect res s os1)"

definition sync_on_resolve :: "sync_results \<Rightarrow> session \<Rightarrow> session_out list \<Rightarrow> sync_run" where
  "sync_on_resolve res s os =
     (let os1 = os @ [Begin SConnect (hs_req s)]
      in if sr_connect res then sync_fail res s os1
         else if hs_tls s then handShake res s os1 else sync_on_connect res s os1)"

definition stream_resolve :: "sync_results \<Rightarrow> session \<Rightarrow> session_out list \<Rightarrow> sync_run" where
  "stream_resolve res s os =
     (let os1 = os @ [Begin SResolve (hs_req s)]
      in if sr_resolve res then sync_fail res s os1 else sync_on_resolve res s os1)"

section \<open>The session\<close>

definition sync_execute :: "sync_results \<Rightarrow> session \<Rightarrow> sync_run" where
  "sync_execute res s =
     (case hs_state s of
        Monostate \<Rightarrow> stream_resolve res (s\<lparr>hs_state := InUse\<rparr>) []
      | Disconnected \<Rightarrow> stream_resolve res (s\<lparr>hs_state := InUse\<rparr>) []
      | Idle \<Rightarrow> stream_write res (s\<lparr>hs_state := InUse\<rparr>) []
      | InUse \<Rightarrow> Some (s, []))"

definition sync_run_request :: "sync_results \<Rightarrow> client_request \<Rightarrow> session \<Rightarrow> sync_run" where
  "sync_run_request res req s = sync_execute res (s\<lparr>hs_req := prepare_payload req\<rparr>)"

definition sync_run_session ::
    "sync_results \<Rightarrow> (bool \<Rightarrow> fields \<Rightarrow> fields) \<Rightarrow> string \<Rightarrow> session \<Rightarrow> sync_run" where
  "sync_run_session res keep_alive agent s =
     (let f = set_field ''User-Agent'' agent (set_field ''port'' (hs_port s) (set_field ''Host'' (hs_host s)
                (cq_fields (hs_req s))))
      in sync_execute res (s\<lparr>hs_req := prepare_payload ((hs_req s)\<lparr>cq_fields := keep_alive (hs_keepAlive s) f\<rparr>)\<rparr>))"

section \<open>The same as the asynchronous session\<close>

text \<open>The asynchronous session when each operation it starts completes next, with the same result.\<close>

fun op_result :: "sync_results \<Rightarrow> stream_op \<Rightarrow> bool" where
  "op_result res SResolve = sr_resolve res"
| "op_result res SConnect = sr_connect res"
| "op_result res SHandshake = sr_handshake res"
| "op_result res SWrite = sr_write res"
| "op_result res SRead = sr_read res"

primrec complete_in_turn :: "sync_results \<Rightarrow> nat \<Rightarrow> session \<times> session_out list \<Rightarrow> session \<times> session_out list" where
  "complete_in_turn res 0 p = p"
| "complete_in_turn res (Suc n) p =
     (case hs_op (fst p) of
        None \<Rightarrow> p
      | Some x \<Rightarrow>
          (case session_done (OpDone (op_result res x) (sr_keep res)) (fst p) of
             (s', os) \<Rightarrow> complete_in_turn res n (s', snd p @ os)))"

definition closes :: "sync_results \<Rightarrow> session \<Rightarrow> bool" where
  "closes res s \<longleftrightarrow> hs_tls s \<longrightarrow> sr_shutdown res 0 \<noteq> ShutError"

text \<open>A session with no operation outstanding, and its idle waits set aside.\<close>

definition quiet :: "nat \<Rightarrow> session \<Rightarrow> session" where
  "quiet w s = s\<lparr>hs_op := None, hs_waits := w\<rparr>"

definition settled :: "nat \<Rightarrow> session \<times> session_out list \<Rightarrow> session \<times> session_out list" where
  "settled w p = (quiet w (fst p), snd p)"

lemma quiet_simps [simp]:
  "hs_tls (quiet w s) = hs_tls s" "hs_req (quiet w s) = hs_req s" "hs_state (quiet w s) = hs_state s"
  "(quiet w s)\<lparr>hs_state := a\<rparr> = quiet w (s\<lparr>hs_state := a\<rparr>)"
  "quiet w (s\<lparr>hs_op := b\<rparr>) = quiet w s" "quiet w (s\<lparr>hs_waits := n\<rparr>) = quiet w s"
  "quiet w (s\<lparr>hs_state := c, hs_op := b\<rparr>) = quiet w (s\<lparr>hs_state := c\<rparr>)"
  "quiet w (s\<lparr>hs_state := c, hs_waits := n\<rparr>) = quiet w (s\<lparr>hs_state := c\<rparr>)"
  by (simp_all add: quiet_def)

lemma closes_simps [simp]:
  "closes res (s\<lparr>hs_state := a\<rparr>) = closes res s" "closes res (s\<lparr>hs_op := b\<rparr>) = closes res s"
  "closes res (quiet w s) = closes res s"
  by (simp_all add: closes_def)

lemma report_simps [simp]:
  "report (s\<lparr>hs_state := a\<rparr>) = report s" "report (s\<lparr>hs_op := b\<rparr>) = report s" "report (quiet w s) = report s"
  by (simp_all add: report_def quiet_def split: option.split)

lemma shutDown_once: "closes res s \<Longrightarrow> sync_shutDown res s = Some [ShutDown]"
  by (subst sync_shutDown_def, subst ssl_shutDown.simps)
    (cases "sr_shutdown res 0", auto simp: closes_def tcp_shutDown_def Let_def)

lemma session_fail_report: "session_fail s = (s\<lparr>hs_op := None\<rparr>, report s @ [ShutDown])"
  by (simp add: session_fail_def report_def)

lemma sync_fail_report: "closes res s \<Longrightarrow> sync_fail res s os = Some (s, os @ report s @ [ShutDown])"
  by (simp add: sync_fail_def shutDown_once)

lemma complete_done [simp]: "hs_op (fst p) = None \<Longrightarrow> complete_in_turn res n p = p"
  by (cases n) simp_all

lemma complete_op:
  "hs_op s = Some x \<Longrightarrow> complete_in_turn res (Suc n) (s, os)
     = (case session_done (OpDone (op_result res x) (sr_keep res)) s of
          (s', os') \<Rightarrow> complete_in_turn res n (s', os @ os'))"
  by simp

lemmas fail_simps = session_fail_report sync_fail_report settled_def Let_def

text \<open>
  One lemma for each operation: what follows it in the synchronous session, and in the asynchronous
  one that has started it, the later operations first.
\<close>

lemma read_same:
  assumes "closes res s"
  shows "stream_read res (quiet w s) os
    = Some (settled w (complete_in_turn res (Suc n) (s\<lparr>hs_op := Some SRead\<rparr>, os @ [Begin SRead (hs_req s)])))"
  using assms by (simp add: stream_read_def sync_on_read_def on_read_def shutDown_once fail_simps)

lemma write_same:
  assumes "closes res s"
  shows "stream_write res (quiet w s) os
    = Some (settled w (complete_in_turn res (Suc (Suc n)) (s\<lparr>hs_op := Some SWrite\<rparr>, os @ [Begin SWrite (hs_req s)])))"
proof (cases "sr_write res")
  case False
  then show ?thesis
    using assms read_same [of res "s\<lparr>hs_state := InUse\<rparr>" w "os @ [Begin SWrite (hs_req s)]" n]
    by (simp add: stream_write_def sync_on_write_def on_write_def state_read_def begin_op_def complete_op Let_def
        del: complete_in_turn.simps(2))
qed (use assms in \<open>simp add: stream_write_def on_write_def fail_simps\<close>)

lemma on_connect_same:
  assumes "closes res s"
  shows "sync_on_connect res (quiet w s) os
    = Some (settled w (complete_in_turn res (Suc (Suc n)) (fst (on_connect s), os @ snd (on_connect s))))"
  using write_same [of res "s\<lparr>hs_state := InUse\<rparr>" w os n] assms
  by (simp add: sync_on_connect_def on_connect_def state_write_def begin_op_def del: complete_in_turn.simps(2))

lemma handshake_same:
  assumes "closes res s"
  shows "handShake res (quiet w s) os = Some (settled w (complete_in_turn res (Suc (Suc (Suc n)))
    (s\<lparr>hs_op := Some SHandshake\<rparr>, os @ [Begin SHandshake (hs_req s)])))"
proof (cases "sr_handshake res")
  case False
  have "on_connect (s\<lparr>hs_op := Some SHandshake\<rparr>) = on_connect s"
    by (simp add: on_connect_def state_write_def begin_op_def)
  then show ?thesis
    using False on_connect_same [OF assms, of w "os @ [Begin SHandshake (hs_req s)]" n]
    by (simp add: handShake_def stream_on_handshake_def complete_op case_prod_unfold Let_def del: complete_in_turn.simps(2))
qed (use assms in \<open>simp add: handShake_def stream_on_handshake_def fail_simps\<close>)

lemma connect_same:
  assumes "closes res s"
  shows "sync_on_resolve res (quiet w s) os = Some (settled w (complete_in_turn res (Suc (Suc (Suc (Suc n))))
    (s\<lparr>hs_op := Some SConnect\<rparr>, os @ [Begin SConnect (hs_req s)])))"
proof (cases "sr_connect res")
  case False
  have "on_connect (s\<lparr>hs_op := Some SConnect\<rparr>) = on_connect s"
    by (simp add: on_connect_def state_write_def begin_op_def)
  then show ?thesis
    using False on_connect_same [OF assms, of w "os @ [Begin SConnect (hs_req s)]" "Suc n"]
      handshake_same [OF assms, of w "os @ [Begin SConnect (hs_req s)]" n]
    by (simp add: sync_on_resolve_def stream_on_connect_def complete_op begin_op_def case_prod_unfold Let_def
        del: complete_in_turn.simps(2))
qed (use assms in \<open>simp add: sync_on_resolve_def stream_on_connect_def fail_simps\<close>)

lemma resolve_same:
  assumes "closes res s"
  shows "stream_resolve res (quiet w s) os = Some (settled w (complete_in_turn res (Suc (Suc (Suc (Suc (Suc n)))))
    (s\<lparr>hs_op := Some SResolve\<rparr>, os @ [Begin SResolve (hs_req s)])))"
proof (cases "sr_resolve res")
  case False
  then show ?thesis
    using connect_same [OF assms, of w "os @ [Begin SResolve (hs_req s)]" n]
    by (simp add: stream_resolve_def stream_on_resolve_def complete_op begin_op_def Let_def del: complete_in_turn.simps(2))
qed (use assms in \<open>simp add: stream_resolve_def stream_on_resolve_def fail_simps\<close>)

lemma execute_same:
  assumes "hs_op s = None" "closes res s"
  shows "sync_execute res (quiet w s) = Some (settled w (complete_in_turn res 5 (execute s)))"
proof -
  have five: "(5 :: nat) = Suc (Suc (Suc (Suc (Suc 0))))" "(5 :: nat) = Suc (Suc 3)"
    by simp_all
  have c: "closes res (s\<lparr>hs_state := InUse\<rparr>)"
    using assms by simp
  note r = resolve_same [OF c, of w "[]" 0, folded five] and wr = write_same [OF c, of w "[]" 3, folded five]
  show ?thesis
    using r wr assms(1)
    by (cases "hs_state s")
      (simp_all add: sync_execute_def execute_def state_resolve_def state_write_def begin_op_def settled_def)
qed

text \<open>
  C40: the synchronous and the asynchronous session are the same. A run of a session over a synchronous
  stream returns, and leaves the session and does (operations begun, errors reported, streams closed, in
  their order) what the asynchronous session does when the operations it starts complete one after the
  other with the same results, in whatever state the session is, provided closing the stream does not
  fail. Only the idle wait is missing, which a synchronous stream does not have.
\<close>

theorem sync_session_same:
  assumes "hs_op s = None" "closes res s"
  shows "sync_run_session res keep_alive agent (quiet w s)
    = Some (settled w (complete_in_turn res 5 (run_session keep_alive agent s)))"
proof -
  define r where "r = prepare_payload ((hs_req s)\<lparr>cq_fields := keep_alive (hs_keepAlive s)
    (set_field ''User-Agent'' agent (set_field ''port'' (hs_port s) (set_field ''Host'' (hs_host s) (cq_fields (hs_req s)))))\<rparr>)"
  have "(quiet w s)\<lparr>hs_req := r\<rparr> = quiet w (s\<lparr>hs_req := r\<rparr>)" "hs_host (quiet w s) = hs_host s"
    "hs_port (quiet w s) = hs_port s" "hs_keepAlive (quiet w s) = hs_keepAlive s"
    by (simp_all add: quiet_def)
  moreover have "hs_op (s\<lparr>hs_req := r\<rparr>) = None" "closes res (s\<lparr>hs_req := r\<rparr>)"
    using assms by (simp_all add: closes_def)
  ultimately show ?thesis
    using execute_same [of "s\<lparr>hs_req := r\<rparr>" res w]
    by (simp add: sync_run_session_def run_session_def r_def [symmetric] Let_def)
qed

definition all_fine :: sync_results where
  "all_fine = \<lparr>sr_resolve = False, sr_connect = False, sr_handshake = False, sr_write = False, sr_read = False,
     sr_keep = True, sr_shutdown = (\<lambda>k. ShutOk)\<rparr>"

theorem sync_session_same_witness:
  "sync_run_session all_fine (\<lambda>k f. f) ''Beast'' (quiet 0 (session_create True))
    = Some (settled 0 (complete_in_turn all_fine 5 (run_session (\<lambda>k f. f) ''Beast'' (session_create True))))"
  by (rule sync_session_same) (simp_all add: session_create_def closes_def all_fine_def)

section \<open>Closing a TLS stream\<close>

text \<open>Every close that fails is reported and tried again; when all fail, \<open>shutDown\<close> never returns.\<close>

lemma ssl_shutDown_returns:
  "results (k + n) \<noteq> ShutError \<Longrightarrow> \<forall>i < n. results (k + i) = ShutError \<Longrightarrow>
   ssl_shutDown results k s = Some (concat (replicate n (ShutDown # report s)) @ [ShutDown])"
proof (induction n arbitrary: k)
  case 0
  then show ?case
    by (subst ssl_shutDown.simps) (cases "results k", auto simp: Let_def)
next
  case (Suc n)
  have "ssl_shutDown results (k + 1) s = Some (concat (replicate n (ShutDown # report s)) @ [ShutDown])"
    using Suc.prems by (intro Suc.IH) auto
  moreover have "results k = ShutError"
    using Suc.prems(2) by force
  ultimately show ?case
    by (subst ssl_shutDown.simps) (simp add: Let_def)
qed

lemma ssl_shutDown_diverges:
  assumes "\<forall>k. results k = ShutError"
  shows "ssl_shutDown results k s = None"
proof -
  have "\<not> (\<forall>k. results k = ShutError)" if "ssl_shutDown results k s = Some os" for os
    by (rule ssl_shutDown.raw_induct [OF _ that])
      (fastforce simp: Let_def Option.bind_eq_Some_conv split: if_splits)
  then show ?thesis
    using assms by (metis option.exhaust)
qed

end
