(* ===== verification/JsonRead.thy ===== *)
theory JsonRead
  imports JsonUtils
begin

text \<open>
  What a successful read of a request means. The specification says which requests are accepted
  (\<open>accepts\<close>: every member is asked for, every value has the type asked for, every property that is
  not optional is there) and what the variables then hold (\<open>reads\<close>: the converted value at the path
  of the property). The lemmas show that the two nested loops of \<open>readJsonHelper\<close> compute exactly
  that for lists of keys in which no key is a path into another one.
\<close>

section \<open>Keys\<close>

lemma key_leftover_shorter: "key_leftover key \<noteq> [] \<Longrightarrow> length (key_leftover key) < length key"
  using length_dropWhile_le [of "\<lambda>c. c \<noteq> CHR ''/''" key]
  by (cases "dropWhile (\<lambda>c. c \<noteq> CHR ''/'') key") (auto simp: key_leftover_def)

text \<open>The member a path leads to.\<close>

function path_value :: "string \<Rightarrow> json \<Rightarrow> json option" where
  "path_value key j =
     (case json_at j (key_head key) of
        None \<Rightarrow> None
      | Some v \<Rightarrow> if key_leftover key = [] then Some v else path_value (key_leftover key) v)"
  by pat_completeness auto

termination
  by (relation "measure (\<lambda>(key, j). length key)") (auto dest: key_leftover_shorter)

declare path_value.simps [simp del]

text \<open>
  Keys that can be told apart: all different, none ends with a slash, and none is a path into
  another one.
\<close>

definition keys_ok :: "string list \<Rightarrow> bool" where
  "keys_ok ks \<longleftrightarrow> distinct ks
     \<and> list_all (\<lambda>k. k \<noteq> [] \<and> last k \<noteq> CHR ''/'') ks
     \<and> list_all (\<lambda>a. list_all (\<lambda>b. \<not> prefix (a @ ''/'') b) ks) ks"

definition specs_ok :: "per_unpack list \<Rightarrow> bool" where
  "specs_ok specs \<longleftrightarrow> keys_ok (map pu_key specs) \<and> distinct (map pu_target specs)"

lemma key_split: "CHR ''/'' \<in> set key \<Longrightarrow> key = key_head key @ ''/'' @ key_leftover key"
proof -
  assume "CHR ''/'' \<in> set key"
  then obtain y ys where d: "dropWhile (\<lambda>c. c \<noteq> CHR ''/'') key = y # ys"
    by (cases "dropWhile (\<lambda>c. c \<noteq> CHR ''/'') key") (auto simp: dropWhile_eq_Nil_conv)
  then have "y = CHR ''/''"
    using hd_dropWhile [of "\<lambda>c. c \<noteq> CHR ''/''" key] by simp
  then show ?thesis
    using d takeWhile_dropWhile_id [of "\<lambda>c. c \<noteq> CHR ''/''" key]
    by (simp add: key_head_def key_leftover_def)
qed

lemma key_plain: "CHR ''/'' \<notin> set key \<Longrightarrow> key_head key = key \<and> key_leftover key = []"
proof -
  assume "CHR ''/'' \<notin> set key"
  then have all: "\<forall>c \<in> set key. c \<noteq> CHR ''/''"
    by auto
  then have "dropWhile (\<lambda>c. c \<noteq> CHR ''/'') key = []" "takeWhile (\<lambda>c. c \<noteq> CHR ''/'') key = key"
    by (simp_all only: dropWhile_eq_Nil_conv takeWhile_eq_all_conv)
  then show ?thesis
    unfolding key_head_def key_leftover_def by (metis drop_Nil)
qed

lemma key_head_no_slash: "CHR ''/'' \<notin> set (key_head key)"
  by (auto simp: key_head_def dest: set_takeWhileD)

lemma key_of_parts: "CHR ''/'' \<notin> set h \<Longrightarrow> key_head (h @ ''/'' @ l) = h \<and> key_leftover (h @ ''/'' @ l) = l"
proof -
  assume "CHR ''/'' \<notin> set h"
  then have "\<forall>c \<in> set h. c \<noteq> CHR ''/''" by metis
  then show ?thesis
    by (simp add: key_head_def key_leftover_def takeWhile_append2 dropWhile_append2)
qed

text \<open>A key that does not end with a slash goes on behind its first slash.\<close>

lemma key_cases:
  assumes "key \<noteq> []" "last key \<noteq> CHR ''/''"
  shows "key_leftover key = [] \<longleftrightarrow> key = key_head key"
    and "prefix (k @ ''/'') key \<Longrightarrow> CHR ''/'' \<notin> set k \<Longrightarrow> key_head key = k \<and> key_leftover key \<noteq> []
           \<and> drop (length (k @ ''/'')) key = key_leftover key"
    and "key_leftover key \<noteq> [] \<Longrightarrow> prefix (key_head key @ ''/'') key"
proof -
  show "key_leftover key = [] \<longleftrightarrow> key = key_head key"
  proof (cases "CHR ''/'' \<in> set key")
    case True
    then have "key = key_head key @ ''/'' @ key_leftover key"
      by (rule key_split)
    then show ?thesis
      using assms(2) True key_head_no_slash [of key] by (metis append_Nil2 last_appendR last_ConsL list.distinct(1))
  qed (simp add: key_plain)
  show "key_head key = k \<and> key_leftover key \<noteq> [] \<and> drop (length (k @ ''/'')) key = key_leftover key"
    if p: "prefix (k @ ''/'') key" and n: "CHR ''/'' \<notin> set k"
  proof -
    obtain l where l: "key = k @ ''/'' @ l"
      using p by (auto simp: prefix_def)
    moreover have "l \<noteq> []"
      using assms(2) l by auto
    ultimately show ?thesis
      using key_of_parts [OF n, of l] by simp
  qed
  show "prefix (key_head key @ ''/'') key" if "key_leftover key \<noteq> []"
  proof -
    have "CHR ''/'' \<in> set key"
      using that key_plain by blast
    then show ?thesis
      using key_split [of key] by (metis append.assoc prefixI)
  qed
qed

section \<open>The specification\<close>

definition converts :: "(int \<Rightarrow> u64) \<Rightarrow> unpack_type \<Rightarrow> json \<Rightarrow> bool" where
  "converts to_double t j = fst (unpackValueQuiet t to_double j (default_value t))"

function accepts :: "(int \<Rightarrow> u64) \<Rightarrow> per_unpack list \<Rightarrow> json \<Rightarrow> bool" where
  "accepts to_double specs j =
     (case j of
        JObject m \<Rightarrow>
          (\<forall>p \<in> set m.
             (\<exists>s \<in> set specs. key_head (pu_key s) = fst p)
             \<and> (\<forall>s \<in> set specs. key_head (pu_key s) = fst p \<and> key_leftover (pu_key s) = []
                  \<longrightarrow> converts to_double (pu_type s) (snd p))
             \<and> ((\<exists>s \<in> set specs. key_head (pu_key s) = fst p \<and> key_leftover (pu_key s) \<noteq> [])
                  \<longrightarrow> accepts to_double (nextLevel (fst p @ ''/'') specs) (snd p)))
          \<and> (\<forall>s \<in> set specs. key_head (pu_key s) \<notin> fst ` set m \<longrightarrow> is_optional (pu_type s))
      | _ \<Rightarrow> False)"
  by pat_completeness auto

termination
  by (relation "measure (\<lambda>(td, specs, j). size j)")
    (auto dest!: size_list_estimation' [where f = "size_prod (\<lambda>_. 0) size", OF _ order_refl])

declare accepts.simps [simp del]

definition reads :: "(int \<Rightarrow> u64) \<Rightarrow> per_unpack list \<Rightarrow> json \<Rightarrow> store \<Rightarrow> store \<Rightarrow> bool" where
  "reads to_double specs j vars vars' \<longleftrightarrow>
     (\<forall>s \<in> set specs. case path_value (pu_key s) j of
          None \<Rightarrow> vars' (pu_target s) = vars (pu_target s)
        | Some v \<Rightarrow> unpackValueQuiet (pu_type s) to_double v (vars (pu_target s)) = (True, vars' (pu_target s)))
     \<and> (\<forall>x. x \<notin> pu_target ` set specs \<longrightarrow> vars' x = vars x)"

section \<open>The two overloads of unpackValue\<close>

lemma unpackElements_quiet:
  assumes "\<And>x r old ok v r'. x \<in> set xs \<Longrightarrow> f x r old = Some (ok, v, r') \<Longrightarrow> g x old = (ok, v)"
    and "unpackElements f xs slots ret res = Some (ret', vs, res')"
  shows "quietElements g xs slots ret = (ret', vs)"
  using assms
proof (induction xs arbitrary: slots ret res ret' vs)
  case (Cons x xs)
  obtain ok v r1 vs' where f: "f x res (hd slots) = Some (ok, v, r1)"
    and e: "unpackElements f xs (tl slots) (ok \<and> ret) r1 = Some (ret', vs', res')" "vs = v # vs'"
    using Cons.prems(2) by (auto split: option.splits)
  have "g x (hd slots) = (ok, v)"
    using Cons.prems(1) [OF _ f] by simp
  moreover have "quietElements g xs (tl slots) (ok \<and> ret) = (ret', vs')"
    by (rule Cons.IH [OF _ e(1)]) (rule Cons.prems(1), simp_all)
  ultimately show ?case
    using e(2) by simp
qed simp

lemma unpackValue_quiet:
  "unpackValue t to_double dump key j res old = Some (ok, v, res') \<Longrightarrow>
   unpackValueQuiet t to_double j old = (ok, v)"
proof (induction t arbitrary: j res old ok v res')
  case (TBase t)
  then show ?case
    by (auto split: sum.splits UnpackErrorCode.splits)
next
  case (TVector t)
  then show ?case
    using unpackElements_quiet [of _ "unpackValue t to_double dump key" "unpackValueQuiet t to_double"]
    by (cases j) (fastforce split: prod.split)+
next
  case (TArray n t)
  then show ?case
    using unpackElements_quiet [of _ "unpackValue t to_double dump key" "unpackValueQuiet t to_double"]
    by (cases j) (fastforce split: prod.split if_splits)+
next
  case (TOptional t)
  then show ?case
    by (fastforce split: prod.split)
qed

lemma quietElements_flag:
  assumes "\<And>x old old'. x \<in> set xs \<Longrightarrow> fst (g x old) = fst (g x old')"
  shows "fst (quietElements g xs slots ret) = fst (quietElements g xs slots' ret)"
  using assms
proof (induction xs arbitrary: slots slots' ret)
  case (Cons x xs)
  have "fst (g x (hd slots)) = fst (g x (hd slots'))"
    by (rule Cons.prems) simp
  moreover have "fst (quietElements g xs (tl slots) b) = fst (quietElements g xs (tl slots') b)" for b
    using Cons.prems by (intro Cons.IH) simp
  ultimately show ?case
    by (simp add: case_prod_unfold)
qed simp

text \<open>Whether a value converts does not depend on what the variable held.\<close>

lemma quiet_flag: "fst (unpackValueQuiet t to_double j old) = converts to_double t j"
proof -
  have "fst (unpackValueQuiet t to_double j old) = fst (unpackValueQuiet t to_double j old')" for old old'
  proof (induction t arbitrary: j old old')
    case (TBase t)
    then show ?case by (auto split: sum.split)
  next
    case (TVector t)
    then show ?case
      by (cases j) (auto split: prod.split)
  next
    case (TArray n t)
    have "fst (quietElements (unpackValueQuiet t to_double) xs a b) = fst (quietElements (unpackValueQuiet t to_double) xs a' b)"
      for xs a a' b
      using TArray.IH by (intro quietElements_flag)
    then show ?case
      by (cases j) (simp_all add: case_prod_unfold)
  next
    case (TOptional t)
    then show ?case by (auto split: prod.split)
  qed
  then show ?thesis
    by (simp add: converts_def)
qed

lemma unpackElements_ok:
  assumes "\<And>x r old v. x \<in> set xs \<Longrightarrow> g x old = (True, v) \<Longrightarrow> f x r old = Some (True, v, r)"
    and "quietElements g xs slots True = (True, vs)"
  shows "unpackElements f xs slots True res = Some (True, vs, res)"
  using assms
proof (induction xs arbitrary: slots vs)
  case (Cons x xs)
  obtain ok v vs' where g: "g x (hd slots) = (ok, v)" "quietElements g xs (tl slots) ok = (True, vs')" "vs = v # vs'"
    using Cons.prems(2) by (auto split: prod.splits)
  have false: "fst (quietElements g xs sl False) = False" for sl
    by (induction xs arbitrary: sl) (auto simp: case_prod_unfold)
  have "ok"
    using false [of "tl slots"] g(2) by (cases ok) simp_all
  then have "f x res (hd slots) = Some (True, v, res)" "quietElements g xs (tl slots) True = (True, vs')"
    using Cons.prems(1) g by auto
  moreover have "unpackElements f xs (tl slots) True res = Some (True, vs', res)"
    by (rule Cons.IH) (use Cons.prems(1) calculation(2) in auto)
  ultimately show ?case
    using g(3) by simp
qed simp

lemma unpackValue_ok:
  "unpackValueQuiet t to_double j old = (True, v) \<Longrightarrow> unpackValue t to_double dump key j res old = Some (True, v, res)"
proof (induction t arbitrary: j old v res)
  case (TBase t)
  then show ?case
    by (auto split: sum.splits)
next
  case (TVector t)
  then show ?case
    using unpackElements_ok [of _ "unpackValueQuiet t to_double" "unpackValue t to_double dump key"]
    by (cases j) (fastforce split: prod.splits)+
next
  case (TArray n t)
  then show ?case
    using unpackElements_ok [of _ "unpackValueQuiet t to_double" "unpackValue t to_double dump key"]
    by (cases j) (fastforce split: prod.splits if_splits)+
next
  case (TOptional t)
  then show ?case
    by (fastforce split: prod.splits)
qed

text \<open>The two together: a value is read without a message exactly when it converts.\<close>

lemma unpackValue_success:
  "unpackValue t to_double dump key j res old = Some (True, v, res') \<longleftrightarrow>
   unpackValueQuiet t to_double j old = (True, v) \<and> res' = res"
  using unpackValue_ok [of t to_double j old v dump key res] unpackValue_quiet [of t to_double dump key j res old True v res']
  by auto

section \<open>The marks\<close>

text \<open>The properties with those marked whose first part is in \<open>K\<close>.\<close>

definition marked :: "string set \<Rightarrow> per_unpack list \<Rightarrow> per_unpack list" where
  "marked K specs = map (\<lambda>s. s\<lparr>pu_complete := (key_head (pu_key s) \<in> K)\<rparr>) specs"

lemma find_spec_marked:
  assumes "k \<notin> K"
  shows "find_spec k (marked K specs) = None \<longleftrightarrow> (\<forall>s \<in> set specs. key_head (pu_key s) \<noteq> k)"
    and "find_spec k (marked K specs) = Some i \<Longrightarrow>
      i < length specs \<and> key_head (pu_key (specs ! i)) = k"
  using assms by (induction specs arbitrary: i) (auto simp: marked_def nth_Cons split: if_splits nat.split)

text \<open>Among keys that can be told apart, a plain key is alone with its first part.\<close>

lemma plain_alone:
  assumes ok: "keys_ok (map pu_key specs)" and s: "s \<in> set specs" "s' \<in> set specs"
    and plain: "key_leftover (pu_key s) = []" and same: "key_head (pu_key s') = key_head (pu_key s)"
  shows "pu_key s' = pu_key s"
proof (cases "key_leftover (pu_key s') = []")
  case True
  then show ?thesis
    using ok s plain same key_cases(1) unfolding keys_ok_def by (simp add: list_all_iff)
next
  case False
  have "pu_key s' \<noteq> []" "last (pu_key s') \<noteq> CHR ''/''" "pu_key s \<noteq> []" "last (pu_key s) \<noteq> CHR ''/''"
    using ok s by (simp_all add: keys_ok_def list_all_iff)
  then have "prefix (pu_key s @ ''/'') (pu_key s')"
    using key_cases(3) [OF _ _ False] key_cases(1) [of "pu_key s"] plain same by simp
  then show ?thesis
    using ok s by (auto simp: keys_ok_def list_all_iff)
qed

lemma marked_plain:
  assumes ok: "keys_ok (map pu_key specs)" and i: "i < length specs"
    and plain: "key_leftover (pu_key (specs ! i)) = []"
  shows "(marked K specs)[i := (marked K specs ! i)\<lparr>pu_complete := True\<rparr>]
    = marked (insert (key_head (pu_key (specs ! i))) K) specs"
proof (rule nth_equalityI)
  fix j
  assume "j < length ((marked K specs)[i := (marked K specs ! i)\<lparr>pu_complete := True\<rparr>])"
  then have j: "j < length specs"
    by (simp add: marked_def)
  have "key_head (pu_key (specs ! j)) = key_head (pu_key (specs ! i)) \<longleftrightarrow> j = i"
  proof
    assume "key_head (pu_key (specs ! j)) = key_head (pu_key (specs ! i))"
    then have "pu_key (specs ! j) = pu_key (specs ! i)"
      using plain_alone [OF ok _ _ plain] i j by simp
    then show "j = i"
      using ok i j nth_eq_iff_index_eq [of "map pu_key specs" j i] by (simp add: keys_ok_def)
  qed simp
  then show "(marked K specs)[i := (marked K specs ! i)\<lparr>pu_complete := True\<rparr>] ! j
      = marked (insert (key_head (pu_key (specs ! i))) K) specs ! j"
    using i j by (cases "j = i") (auto simp: marked_def)
qed (simp add: marked_def)

lemma group_prefix:
  assumes ok: "keys_ok (map pu_key specs)" and k: "CHR ''/'' \<notin> set k"
    and g: "s0 \<in> set specs" "key_head (pu_key s0) = k" "key_leftover (pu_key s0) \<noteq> []" and s: "s \<in> set specs"
  shows "prefix (k @ ''/'') (pu_key s) \<longleftrightarrow> key_head (pu_key s) = k"
    and "key_head (pu_key s) = k \<Longrightarrow> key_leftover (pu_key s) \<noteq> []
           \<and> drop (length (k @ ''/'')) (pu_key s) = key_leftover (pu_key s)"
proof -
  have key: "pu_key s \<noteq> []" "last (pu_key s) \<noteq> CHR ''/''"
    using ok s by (simp_all add: keys_ok_def list_all_iff)
  have left: "key_leftover (pu_key s) \<noteq> []" if "key_head (pu_key s) = k"
    using plain_alone [OF ok s g(1)] g that by force
  note kc = key_cases [OF key]
  show p: "prefix (k @ ''/'') (pu_key s) \<longleftrightarrow> key_head (pu_key s) = k"
    using kc(2) [OF _ k] kc(3) left by blast
  show "key_head (pu_key s) = k \<Longrightarrow> key_leftover (pu_key s) \<noteq> []
      \<and> drop (length (k @ ''/'')) (pu_key s) = key_leftover (pu_key s)"
    using kc(2) [OF _ k] p by blast
qed

lemma marked_group:
  assumes "keys_ok (map pu_key specs)" "CHR ''/'' \<notin> set k"
    and "s0 \<in> set specs" "key_head (pu_key s0) = k" "key_leftover (pu_key s0) \<noteq> []"
  shows "completeLevel (k @ ''/'') (marked K specs) = marked (insert k K) specs"
  using group_prefix(1) [OF assms] by (auto simp: completeLevel_def marked_def)

lemma nextLevel_marked: "nextLevel key (marked K specs) = nextLevel key specs"
  by (simp add: nextLevel_def marked_def filter_map comp_def)

lemma nextLevel_fresh: "marked {} (nextLevel key specs) = nextLevel key specs"
  by (simp add: nextLevel_def marked_def)

lemma nextLevel_ok:
  assumes "specs_ok specs"
  shows "specs_ok (nextLevel (k @ ''/'') specs)"
proof -
  let ?n = "length (k @ ''/'')"
  define F where "F = filter (\<lambda>p. prefix (k @ ''/'') (pu_key p)) specs"
  have keys: "map pu_key (nextLevel (k @ ''/'') specs) = map (drop ?n) (map pu_key F)"
    and targets: "map pu_target (nextLevel (k @ ''/'') specs) = map pu_target F"
    by (simp_all add: nextLevel_def F_def)
  have key: "pu_key p = k @ ''/'' @ drop ?n (pu_key p)" if "p \<in> set F" for p
    using that by (auto simp: F_def prefix_def)
  have "distinct (map pu_key F)" "distinct (map pu_target F)"
    using assms by (simp_all add: specs_ok_def keys_ok_def F_def distinct_map_filter)
  moreover have "inj_on (drop ?n) (pu_key ` set F)"
  proof (rule inj_onI)
    fix x y
    assume "x \<in> pu_key ` set F" "y \<in> pu_key ` set F" and same: "drop ?n x = drop ?n y"
    then obtain p q where p: "p \<in> set F" "x = pu_key p" and q: "q \<in> set F" "y = pu_key q"
      by blast
    have "k @ ''/'' @ drop ?n (pu_key p) = k @ ''/'' @ drop ?n (pu_key q)"
      using same p q by simp
    then show "x = y"
      unfolding p(2) q(2) by (rule box_equals [OF _ key [OF p(1), symmetric] key [OF q(1), symmetric]])
  qed
  ultimately have d: "distinct (map pu_key (nextLevel (k @ ''/'') specs))"
      "distinct (map pu_target (nextLevel (k @ ''/'') specs))"
    unfolding keys targets by (simp_all add: distinct_map comp_inj_on)
  have in_specs: "pu_key p \<noteq> [] \<and> last (pu_key p) \<noteq> CHR ''/''" "\<not> prefix (pu_key p @ ''/'') (pu_key q)"
    if "p \<in> set F" "q \<in> set F" for p q
    using assms that by (auto simp: specs_ok_def keys_ok_def list_all_iff F_def)
  have split: "\<exists>d. pu_key p = (k @ ''/'') @ d \<and> drop ?n (pu_key p) = d" if "p \<in> set F" for p
    using that by (auto simp: F_def prefix_def)
  have "drop ?n (pu_key p) \<noteq> [] \<and> last (drop ?n (pu_key p)) \<noteq> CHR ''/''" if p: "p \<in> set F" for p
  proof -
    obtain d where d: "pu_key p = (k @ ''/'') @ d" "drop ?n (pu_key p) = d"
      using split [OF p] by blast
    show ?thesis
      unfolding d(2) using in_specs(1) [OF p p] unfolding d(1) by (cases "d = []") simp_all
  qed
  moreover have "\<not> prefix (drop ?n (pu_key p) @ ''/'') (drop ?n (pu_key q))" if p: "p \<in> set F" and q: "q \<in> set F" for p q
  proof -
    obtain d where d: "pu_key p = (k @ ''/'') @ d" "drop ?n (pu_key p) = d"
      using split [OF p] by blast
    obtain e where e: "pu_key q = (k @ ''/'') @ e" "drop ?n (pu_key q) = e"
      using split [OF q] by blast
    show ?thesis
      unfolding d(2) e(2) using in_specs(2) [OF p q] unfolding d(1) e(1) by simp
  qed
  ultimately show ?thesis
    using d by (simp add: specs_ok_def keys_ok_def keys list_all_iff)
qed

lemma readMissing_false: "readMissing ps False res = Some (b, res') \<Longrightarrow> \<not> b"
  by (induction ps arbitrary: res) (auto split: if_splits option.splits)

lemma readMissing_success:
  "readMissing ps True res = Some (True, res') \<longleftrightarrow>
   res' = res \<and> list_all (\<lambda>p. pu_complete p \<or> is_optional (pu_type p)) ps"
  using readMissing_false by (induction ps) (auto split: option.splits)

section \<open>The two loops\<close>

text \<open>The part of \<open>accepts\<close> and of \<open>reads\<close> for one member.\<close>

definition item_ok :: "(int \<Rightarrow> u64) \<Rightarrow> per_unpack list \<Rightarrow> string \<times> json \<Rightarrow> bool" where
  "item_ok to_double specs p \<longleftrightarrow>
     (\<exists>s \<in> set specs. key_head (pu_key s) = fst p)
     \<and> (\<forall>s \<in> set specs. key_head (pu_key s) = fst p \<and> key_leftover (pu_key s) = []
          \<longrightarrow> converts to_double (pu_type s) (snd p))
     \<and> ((\<exists>s \<in> set specs. key_head (pu_key s) = fst p \<and> key_leftover (pu_key s) \<noteq> [])
          \<longrightarrow> accepts to_double (nextLevel (fst p @ ''/'') specs) (snd p))"

definition read_value :: "(int \<Rightarrow> u64) \<Rightarrow> per_unpack \<Rightarrow> json \<Rightarrow> store \<Rightarrow> store \<Rightarrow> bool" where
  "read_value to_double s v vars vars' \<longleftrightarrow>
     (case (if key_leftover (pu_key s) = [] then Some v else path_value (key_leftover (pu_key s)) v) of
        None \<Rightarrow> vars' (pu_target s) = vars (pu_target s)
      | Some w \<Rightarrow> unpackValueQuiet (pu_type s) to_double w (vars (pu_target s)) = (True, vars' (pu_target s)))"

definition reads_items :: "(int \<Rightarrow> u64) \<Rightarrow> per_unpack list \<Rightarrow> json_object \<Rightarrow> store \<Rightarrow> store \<Rightarrow> bool" where
  "reads_items to_double specs m vars vars' \<longleftrightarrow>
     (\<forall>s \<in> set specs. case map_of m (key_head (pu_key s)) of
          None \<Rightarrow> vars' (pu_target s) = vars (pu_target s)
        | Some v \<Rightarrow> read_value to_double s v vars vars')
     \<and> (\<forall>x. x \<notin> pu_target ` set specs \<longrightarrow> vars' x = vars x)"

lemma accepts_object:
  "accepts to_double specs (JObject m) \<longleftrightarrow>
     list_all (item_ok to_double specs) m
     \<and> (\<forall>s \<in> set specs. key_head (pu_key s) \<notin> fst ` set m \<longrightarrow> is_optional (pu_type s))"
  by (subst accepts.simps) (simp add: list_all_iff item_ok_def)

lemma path_value_object:
  "path_value key (JObject m) = (case map_of m (key_head key) of
     None \<Rightarrow> None | Some v \<Rightarrow> if key_leftover key = [] then Some v else path_value (key_leftover key) v)"
  by (subst path_value.simps) (simp add: omap_find_def)

lemma reads_object: "reads to_double specs (JObject m) = reads_items to_double specs m"
proof -
  have "(case path_value (pu_key s) (JObject m) of None \<Rightarrow> vars' (pu_target s) = vars (pu_target s)
      | Some v \<Rightarrow> unpackValueQuiet (pu_type s) to_double v (vars (pu_target s)) = (True, vars' (pu_target s)))
    \<longleftrightarrow> (case map_of m (key_head (pu_key s)) of None \<Rightarrow> vars' (pu_target s) = vars (pu_target s)
      | Some v \<Rightarrow> read_value to_double s v vars vars')" for s vars vars'
    by (cases "map_of m (key_head (pu_key s))") (simp_all add: path_value_object read_value_def)
  then show ?thesis
    by (intro ext) (simp add: reads_def reads_items_def)
qed

lemma read_value_cong:
  "vars (pu_target s) = u (pu_target s) \<Longrightarrow> vars' (pu_target s) = u' (pu_target s) \<Longrightarrow>
   read_value to_double s v vars vars' = read_value to_double s v u u'"
  by (auto simp: read_value_def split: option.split)

lemma reads_step:
  assumes "k \<notin> fst ` set items"
    and "\<And>s. s \<in> set specs \<Longrightarrow> key_head (pu_key s) = k \<Longrightarrow> read_value to_double s v vars vars1"
    and "\<And>s. s \<in> set specs \<Longrightarrow> key_head (pu_key s) \<noteq> k \<Longrightarrow> vars1 (pu_target s) = vars (pu_target s)"
    and "\<And>x. x \<notin> pu_target ` set specs \<Longrightarrow> vars1 x = vars x"
    and "reads_items to_double specs items vars1 vars'"
  shows "reads_items to_double specs ((k, v) # items) vars vars'"
proof -
  have "map_of items k = None"
    using assms(1) by (simp add: map_of_eq_None_iff)
  then have at: "vars' (pu_target s) = vars1 (pu_target s)" if "s \<in> set specs" "key_head (pu_key s) = k" for s
    using assms(5) that by (force simp: reads_items_def)
  show ?thesis
    unfolding reads_items_def
  proof (intro conjI ballI allI impI)
    fix s
    assume s: "s \<in> set specs"
    show "case map_of ((k, v) # items) (key_head (pu_key s)) of None \<Rightarrow> vars' (pu_target s) = vars (pu_target s)
        | Some w \<Rightarrow> read_value to_double s w vars vars'"
    proof (cases "key_head (pu_key s) = k")
      case True
      then show ?thesis
        using assms(2) [OF s True] read_value_cong [of vars s vars vars' vars1 to_double v, OF refl at [OF s True]] by simp
    next
      case False
      have "read_value to_double s w vars1 vars' = read_value to_double s w vars vars'" for w
        using assms(3) [OF s False] by (intro read_value_cong) simp_all
      moreover have "case map_of items (key_head (pu_key s)) of None \<Rightarrow> vars' (pu_target s) = vars1 (pu_target s)
          | Some w \<Rightarrow> read_value to_double s w vars1 vars'"
        using assms(5) s by (simp add: reads_items_def)
      ultimately show ?thesis
        using assms(3) [OF s False] False by (cases "map_of items (key_head (pu_key s))") simp_all
    qed
  qed (use assms(4,5) in \<open>simp add: reads_items_def\<close>)
qed

lemma readItems_false:
  "readItems to_double dump items False res specs vars = Some (ret, b, res', specs', vars') \<Longrightarrow> \<not> b"
proof (induction items arbitrary: res specs vars)
  case (Cons p items)
  obtain k v where p: "p = (k, v)"
    by (cases p)
  show ?case
  proof (cases "find_spec k specs")
    case None
    then show ?thesis
      using Cons.IH Cons.prems unfolding p readItems.simps None by (auto split: option.splits)
  next
    case (Some i)
    then show ?thesis
      using Cons.IH Cons.prems unfolding p readItems.simps Some Let_def by (auto split: option.splits if_splits)
  qed
qed simp

lemma readItems_never [simp]:
  "readItems to_double dump items False res specs vars \<noteq> Some (ret, True, res', specs', vars')"
  using readItems_false by blast

text \<open>What is to be shown of \<open>readJsonHelper\<close> on one value.\<close>

definition helper_ok :: "(int \<Rightarrow> u64) \<Rightarrow> (int \<Rightarrow> json \<Rightarrow> string) \<Rightarrow> json \<Rightarrow> bool" where
  "helper_ok to_double dump j \<longleftrightarrow>
     (\<forall>specs res vars. specs_ok specs \<and> marked {} specs = specs \<longrightarrow>
        (\<forall>res' vars'. readJsonHelper to_double dump j res specs vars = Some (True, res', vars') \<longrightarrow>
           accepts to_double specs j \<and> res' = res \<and> reads to_double specs j vars vars')
        \<and> (accepts to_double specs j \<longrightarrow> (\<exists>vars'. readJsonHelper to_double dump j res specs vars = Some (True, res, vars'))))"

text \<open>The step of the first loop for a plain key, and for the first part of paths.\<close>

lemma plain_item:
  assumes ok: "specs_ok specs" and b: "b \<in> set specs" "key_head (pu_key b) = k" "key_leftover (pu_key b) = []"
  shows "item_ok to_double specs (k, v) \<longleftrightarrow> converts to_double (pu_type b) v"
    and "unpackValueQuiet (pu_type b) to_double v (vars (pu_target b)) = (True, w) \<Longrightarrow>
      k \<notin> fst ` set items \<Longrightarrow> reads_items to_double specs items (vars(pu_target b := w)) vars' \<Longrightarrow>
      reads_items to_double specs ((k, v) # items) vars vars'"
proof -
  have keys: "keys_ok (map pu_key specs)" and inj: "inj_on pu_key (set specs)" "inj_on pu_target (set specs)"
    using ok by (simp_all add: specs_ok_def keys_ok_def distinct_map)
  have only: "s = b" if "s \<in> set specs" "key_head (pu_key s) = k" for s
  proof -
    have "pu_key s = pu_key b"
      using plain_alone [OF keys b(1) that(1) b(3)] that(2) b(2) by simp
    then show ?thesis
      by (rule inj_onD [OF inj(1) _ that(1) b(1)])
  qed
  show "item_ok to_double specs (k, v) \<longleftrightarrow> converts to_double (pu_type b) v"
    unfolding item_ok_def fst_conv snd_conv using only b by blast
  assume q: "unpackValueQuiet (pu_type b) to_double v (vars (pu_target b)) = (True, w)" "k \<notin> fst ` set items"
    "reads_items to_double specs items (vars(pu_target b := w)) vars'"
  show "reads_items to_double specs ((k, v) # items) vars vars'"
  proof (rule reads_step [OF q(2) _ _ _ q(3)])
    fix s
    assume "s \<in> set specs" "key_head (pu_key s) = k"
    then show "read_value to_double s v vars (vars(pu_target b := w))"
      using only [of s] b q(1) by (simp add: read_value_def)
  next
    fix s
    assume "s \<in> set specs" "key_head (pu_key s) \<noteq> k"
    then show "(vars(pu_target b := w)) (pu_target s) = vars (pu_target s)"
      using inj(2) b by (auto dest: inj_onD)
  qed (use b in auto)
qed

lemma group_item:
  assumes ok: "specs_ok specs" and b: "b \<in> set specs" "key_head (pu_key b) = k" "key_leftover (pu_key b) \<noteq> []"
  shows "item_ok to_double specs (k, v) \<longleftrightarrow> accepts to_double (nextLevel (k @ ''/'') specs) v"
    and "reads to_double (nextLevel (k @ ''/'') specs) v vars vars1 \<Longrightarrow>
      k \<notin> fst ` set items \<Longrightarrow> reads_items to_double specs items vars1 vars' \<Longrightarrow>
      reads_items to_double specs ((k, v) # items) vars vars'"
proof -
  have keys: "keys_ok (map pu_key specs)" and inj: "inj_on pu_target (set specs)" and k: "CHR ''/'' \<notin> set k"
    using ok b(2) key_head_no_slash by (auto simp: specs_ok_def distinct_map)
  note grp = group_prefix [OF keys k b]
  show "item_ok to_double specs (k, v) \<longleftrightarrow> accepts to_double (nextLevel (k @ ''/'') specs) v"
    using b grp(2) by (auto simp: item_ok_def)
  have nxt: "set (nextLevel (k @ ''/'') specs)
      = (\<lambda>s. s\<lparr>pu_key := key_leftover (pu_key s), pu_complete := False\<rparr>) ` {s \<in> set specs. key_head (pu_key s) = k}"
  proof -
    have "set (nextLevel (k @ ''/'') specs)
        = (\<lambda>p. p\<lparr>pu_key := drop (length (k @ ''/'')) (pu_key p), pu_complete := False\<rparr>) `
            {s \<in> set specs. prefix (k @ ''/'') (pu_key s)}"
      by (simp add: nextLevel_def)
    also have "{s \<in> set specs. prefix (k @ ''/'') (pu_key s)} = {s \<in> set specs. key_head (pu_key s) = k}"
      using grp(1) by blast
    finally show ?thesis
      by (rule trans) (intro image_cong refl, use grp(2) in simp)
  qed
  assume r: "reads to_double (nextLevel (k @ ''/'') specs) v vars vars1" "k \<notin> fst ` set items"
    "reads_items to_double specs items vars1 vars'"
  have other: "vars1 x = vars x" if "\<And>s. s \<in> set specs \<Longrightarrow> key_head (pu_key s) = k \<Longrightarrow> pu_target s \<noteq> x" for x
  proof -
    have "x \<notin> pu_target ` set (nextLevel (k @ ''/'') specs)"
      unfolding nxt using that by fastforce
    then show ?thesis
      using r(1) unfolding reads_def by blast
  qed
  show "reads_items to_double specs ((k, v) # items) vars vars'"
  proof (rule reads_step [OF r(2) _ _ _ r(3)])
    fix s
    assume s: "s \<in> set specs" "key_head (pu_key s) = k"
    show "read_value to_double s v vars vars1"
    proof -
      define s' where "s' = s\<lparr>pu_key := key_leftover (pu_key s), pu_complete := False\<rparr>"
      have "s' \<in> set (nextLevel (k @ ''/'') specs)"
        unfolding nxt s'_def using s by blast
      then have "case path_value (pu_key s') v of None \<Rightarrow> vars1 (pu_target s') = vars (pu_target s')
        | Some v \<Rightarrow> unpackValueQuiet (pu_type s') to_double v (vars (pu_target s')) = (True, vars1 (pu_target s'))"
        using r(1) unfolding reads_def by blast
      then show ?thesis
        using grp(2) [OF s] by (simp add: read_value_def s'_def split: option.splits)
    qed
  next
    fix s
    assume "s \<in> set specs" "key_head (pu_key s) \<noteq> k"
    then show "vars1 (pu_target s) = vars (pu_target s)"
      using inj by (intro other) (auto dest: inj_onD)
  next
    fix x
    assume "x \<notin> pu_target ` set specs"
    then show "vars1 x = vars x"
      by (intro other) auto
  qed
qed

text \<open>
  The first loop, from a state in which the properties for the keys \<open>K\<close> are done: it goes through
  without an error exactly when every member is accepted, and what it has read then.
\<close>

definition loop_ok :: "(int \<Rightarrow> u64) \<Rightarrow> (int \<Rightarrow> json \<Rightarrow> string) \<Rightarrow> per_unpack list \<Rightarrow> json_object \<Rightarrow> string set
    \<Rightarrow> response \<Rightarrow> store \<Rightarrow> bool" where
  "loop_ok to_double dump specs items K res vars \<longleftrightarrow>
     (\<forall>ret res' specs' vars'.
        readItems to_double dump items True res (marked K specs) vars = Some (ret, True, res', specs', vars') \<longrightarrow>
          \<not> ret \<and> list_all (item_ok to_double specs) items \<and> res' = res
          \<and> specs' = marked (K \<union> fst ` set items) specs \<and> reads_items to_double specs items vars vars')
     \<and> (list_all (item_ok to_double specs) items \<longrightarrow>
          (\<exists>vars'. readItems to_double dump items True res (marked K specs) vars
             = Some (False, True, res, marked (K \<union> fst ` set items) specs, vars')))"

declare readItems.simps(2) [simp del]

lemma loop_none:
  assumes "find_spec k (marked K specs) = None" "k \<notin> K"
  shows "loop_ok to_double dump specs ((k, v) # items) K res vars"
proof -
  have "\<not> item_ok to_double specs (k, v)"
    using find_spec_marked(1) [OF assms(2)] assms(1) by (auto simp: item_ok_def)
  then show ?thesis
    using assms(1) by (auto simp: loop_ok_def readItems.simps(2) split: option.splits)
qed

lemma loop_plain:
  assumes ok: "specs_ok specs" and f: "find_spec k (marked K specs) = Some i" and K: "k \<notin> K" "k \<notin> fst ` set items"
    and plain: "key_leftover (pu_key (specs ! i)) = []"
    and IH: "\<And>vars. loop_ok to_double dump specs items (insert k K) res vars"
  shows "loop_ok to_double dump specs ((k, v) # items) K res vars"
proof -
  define b where "b = specs ! i"
  have i: "i < length specs" and b: "b \<in> set specs" "key_head (pu_key b) = k" "key_leftover (pu_key b) = []"
    using find_spec_marked(2) [OF K(1) f] plain by (auto simp: b_def)
  define s where "s = marked K specs ! i"
  have s: "pu_key s = pu_key b" "pu_type s = pu_type b" "pu_target s = pu_target b"
    using i by (simp_all add: s_def b_def marked_def)
  have mk: "(marked K specs)[i := s\<lparr>pu_complete := True\<rparr>] = marked (insert k K) specs"
    using marked_plain [OF _ i plain, of K] ok b(2) by (simp add: s_def b_def specs_ok_def)
  have step: "readItems to_double dump ((k, v) # items) True res (marked K specs) vars =
      (case unpackValue (pu_type b) to_double dump (pu_key b) v res (vars (pu_target b)) of
         None \<Rightarrow> None
       | Some (ok, val, res1) \<Rightarrow>
           readItems to_double dump items (ok \<and> True) res1 (marked (insert k K) specs) (vars(pu_target b := val)))"
    unfolding readItems.simps f option.case s_def [symmetric] Let_def s b(3) mk by simp
  note item = plain_item(1) [OF ok b, of to_double v] and reads = plain_item(2) [OF ok b, of to_double v vars]
  show ?thesis
  proof (cases "unpackValueQuiet (pu_type b) to_double v (vars (pu_target b))")
    case (Pair flag val)
    have conv: "converts to_double (pu_type b) v \<longleftrightarrow> flag"
      using quiet_flag [of "pu_type b" to_double v "vars (pu_target b)"] Pair by simp
    show ?thesis
    proof (cases flag)
      case True
      have "readItems to_double dump ((k, v) # items) True res (marked K specs) vars =
          readItems to_double dump items True res (marked (insert k K) specs) (vars(pu_target b := val))"
        using step unpackValue_ok [of "pu_type b" to_double v _ val dump "pu_key b" res] Pair True by simp
      then show ?thesis
        using IH [of "vars(pu_target b := val)"] reads [OF _ K(2)] Pair True item conv
        unfolding loop_ok_def by (simp, blast)
    next
      case False
      then have "\<not> item_ok to_double specs (k, v)"
        using item conv by simp
      moreover have "readItems to_double dump ((k, v) # items) True res (marked K specs) vars
          \<noteq> Some (ret, True, res', sp, vars')" for ret res' sp vars'
      proof (cases "unpackValue (pu_type b) to_double dump (pu_key b) v res (vars (pu_target b))")
        case (Some u)
        obtain ok' val' res1 where u: "u = (ok', val', res1)"
          by (cases u)
        then have "\<not> ok'"
          using unpackValue_quiet [OF Some [unfolded u]] Pair False by simp
        then show ?thesis
          unfolding step Some u by simp
      qed (simp add: step)
      ultimately show ?thesis
        unfolding loop_ok_def by auto
    qed
  qed
qed

lemma loop_group:
  assumes ok: "specs_ok specs" and f: "find_spec k (marked K specs) = Some i" and K: "k \<notin> K" "k \<notin> fst ` set items"
    and path: "key_leftover (pu_key (specs ! i)) \<noteq> []"
    and nested: "helper_ok to_double dump v"
    and IH: "\<And>vars. loop_ok to_double dump specs items (insert k K) res vars"
  shows "loop_ok to_double dump specs ((k, v) # items) K res vars"
proof -
  define b where "b = specs ! i"
  have i: "i < length specs" and b: "b \<in> set specs" "key_head (pu_key b) = k" "key_leftover (pu_key b) \<noteq> []"
    using find_spec_marked(2) [OF K(1) f] path by (auto simp: b_def)
  have s: "pu_key (marked K specs ! i) = pu_key b"
    using i by (simp add: b_def marked_def)
  have keys: "keys_ok (map pu_key specs)" and k: "CHR ''/'' \<notin> set k"
    using ok b(2) key_head_no_slash by (auto simp: specs_ok_def)
  define nx where "nx = nextLevel (k @ ''/'') specs"
  have nx: "specs_ok nx" "marked {} nx = nx"
    using nextLevel_ok [OF ok] nextLevel_fresh by (simp_all add: nx_def)
  have mk: "completeLevel (k @ ''/'') (marked K specs) = marked (insert k K) specs"
    using marked_group [OF keys k b] .
  have step: "readItems to_double dump ((k, v) # items) True res (marked K specs) vars =
      (case readJsonHelper to_double dump v res nx vars of
         None \<Rightarrow> None
       | Some (ok, res1, vars1) \<Rightarrow> readItems to_double dump items (ok \<and> True) res1 (marked (insert k K) specs) vars1)"
    using b(3) unfolding readItems.simps(2) f option.case Let_def s b(2) mk nextLevel_marked nx_def [symmetric] by simp
  note item = group_item(1) [OF ok b, of to_double v, folded nx_def]
    and reads = group_item(2) [OF ok b, of to_double v vars, folded nx_def]
  have h: "readJsonHelper to_double dump v res nx vars = Some (True, res', vars1) \<Longrightarrow>
        accepts to_double nx v \<and> res' = res \<and> reads to_double nx v vars vars1"
    and h2: "accepts to_double nx v \<Longrightarrow> \<exists>vars1. readJsonHelper to_double dump v res nx vars = Some (True, res, vars1)"
    for res' vars1
    using nested nx unfolding helper_ok_def by blast+
  show ?thesis
  proof (cases "\<exists>res1 vars1. readJsonHelper to_double dump v res nx vars = Some (True, res1, vars1)")
    case True
    then obtain vars1 where r: "readJsonHelper to_double dump v res nx vars = Some (True, res, vars1)"
      and acc: "accepts to_double nx v" and rd: "reads to_double nx v vars vars1"
      using h by blast
    have "readItems to_double dump ((k, v) # items) True res (marked K specs) vars =
        readItems to_double dump items True res (marked (insert k K) specs) vars1"
      using step r by simp
    then show ?thesis
      using IH [of vars1] reads [OF rd K(2)] item acc unfolding loop_ok_def by (simp, blast)
  next
    case False
    then have "\<not> item_ok to_double specs (k, v)"
      using h2 item by blast
    moreover have "readItems to_double dump ((k, v) # items) True res (marked K specs) vars
        \<noteq> Some (ret, True, res', sp, vars')" for ret res' sp vars'
    proof (cases "readJsonHelper to_double dump v res nx vars")
      case (Some u)
      obtain ok' res1 vars1 where u: "u = (ok', res1, vars1)"
        by (cases u)
      then have "\<not> ok'"
        using Some False by (cases ok') auto
      then show ?thesis
        unfolding step Some u by simp
    qed (simp add: step)
    ultimately show ?thesis
      unfolding loop_ok_def by auto
  qed
qed

lemma loop_all:
  assumes ok: "specs_ok specs"
  shows "distinct (map fst items) \<Longrightarrow> fst ` set items \<inter> K = {} \<Longrightarrow>
    (\<And>p. p \<in> set items \<Longrightarrow> helper_ok to_double dump (snd p)) \<Longrightarrow>
    loop_ok to_double dump specs items K res vars"
proof (induction items arbitrary: K vars)
  case Nil
  show ?case
    by (auto simp: loop_ok_def reads_items_def)
next
  case (Cons p items)
  obtain k v where p: "p = (k, v)"
    by (cases p)
  have K: "k \<notin> K" "k \<notin> fst ` set items"
    using Cons.prems(1,2) by (auto simp: p)
  have nested: "helper_ok to_double dump v"
    using Cons.prems(3) [of p] by (simp add: p)
  have IH: "loop_ok to_double dump specs items (insert k K) res vars" for vars
    using Cons.prems K by (intro Cons.IH) auto
  show ?case
  proof (cases "find_spec k (marked K specs)")
    case None
    then show ?thesis
      unfolding p using K(1) by (rule loop_none)
  next
    case (Some i)
    then show ?thesis
      unfolding p using loop_plain [OF ok Some K _ IH] loop_group [OF ok Some K _ nested IH] by blast
  qed
qed

lemma member_size: "p \<in> set m \<Longrightarrow> size (snd p) < size (JObject m)"
  by (induction m) auto

lemma helper_object:
  assumes ok: "omap_ok m" and nested: "\<And>p. p \<in> set m \<Longrightarrow> helper_ok to_double dump (snd p)"
  shows "helper_ok to_double dump (JObject m)"
  unfolding helper_ok_def
proof (intro allI impI)
  fix specs res vars
  assume s: "specs_ok specs \<and> marked {} specs = specs"
  have fresh: "marked {} specs = specs"
    using s by simp
  note l = loop_all [of specs m "{}" to_double dump res vars, unfolded fresh]
  have loop: "loop_ok to_double dump specs m {} res vars"
    using s nested omap_ok_distinct [OF ok] by (intro l) simp_all
  have missing: "readMissing (marked (fst ` set m) specs) True res = Some (True, res') \<longleftrightarrow>
      res' = res \<and> (\<forall>q \<in> set specs. key_head (pu_key q) \<notin> fst ` set m \<longrightarrow> is_optional (pu_type q))" for res'
    unfolding readMissing_success by (auto simp: marked_def list_all_iff)
  have unfold: "readJsonHelper to_double dump (JObject m) res specs vars =
      (case readItems to_double dump m True res specs vars of
         None \<Rightarrow> None
       | Some (returned, result, res1, sp, vars1) \<Rightarrow>
           if returned then Some (result, res1, vars1)
           else map_option (\<lambda>(result', res2). (result', res2, vars1)) (readMissing sp result res1))"
    by (subst readJsonHelper.simps) simp
  have "accepts to_double specs (JObject m) \<and> res' = res \<and> reads to_double specs (JObject m) vars vars'"
    if h: "readJsonHelper to_double dump (JObject m) res specs vars = Some (True, res', vars')" for res' vars'
  proof -
    obtain ret b res1 sp where r: "readItems to_double dump m True res specs vars = Some (ret, b, res1, sp, vars')"
      using h unfolding unfold by (auto split: option.splits if_splits)
    have b: "b"
      using h r readMissing_false unfolding unfold by (cases b) (auto split: if_splits)
    then have "\<not> ret" "list_all (item_ok to_double specs) m" "res1 = res" "sp = marked (fst ` set m) specs"
        "reads_items to_double specs m vars vars'"
      using loop r fresh unfolding loop_ok_def by auto
    moreover have "readMissing sp True res1 = Some (True, res')"
      using h r b \<open>\<not> ret\<close> unfolding unfold by auto
    ultimately show ?thesis
      using missing by (simp add: accepts_object reads_object)
  qed
  moreover have "\<exists>vars'. readJsonHelper to_double dump (JObject m) res specs vars = Some (True, res, vars')"
    if "accepts to_double specs (JObject m)"
  proof -
    have acc: "list_all (item_ok to_double specs) m"
      "\<forall>q \<in> set specs. key_head (pu_key q) \<notin> fst ` set m \<longrightarrow> is_optional (pu_type q)"
      using that by (simp_all add: accepts_object)
    obtain vars' where "readItems to_double dump m True res specs vars
        = Some (False, True, res, marked (fst ` set m) specs, vars')"
      using loop acc(1) fresh unfolding loop_ok_def by auto
    then show ?thesis
      using missing [of res] acc(2) unfolding unfold by simp
  qed
  ultimately show "(\<forall>res' vars'. readJsonHelper to_double dump (JObject m) res specs vars = Some (True, res', vars') \<longrightarrow>
        accepts to_double specs (JObject m) \<and> res' = res \<and> reads to_double specs (JObject m) vars vars')
      \<and> (accepts to_double specs (JObject m) \<longrightarrow>
         (\<exists>vars'. readJsonHelper to_double dump (JObject m) res specs vars = Some (True, res, vars')))"
    by blast
qed

lemma helper_all: "json_ok j \<Longrightarrow> helper_ok to_double dump j"
proof (induction j rule: measure_induct_rule [where f = size])
  case (less j)
  show ?case
  proof (cases "\<exists>m. j = JObject m")
    case True
    then obtain m where j: "j = JObject m" by blast
    show ?thesis
      unfolding j using less member_size by (intro helper_object) (auto simp: j)
  next
    case False
    then have "readJsonHelper to_double dump j res specs vars \<noteq> Some (True, res', vars')" "\<not> accepts to_double specs j"
      for res specs vars res' vars'
      by (subst readJsonHelper.simps, cases j, simp_all) (subst accepts.simps, cases j, simp_all)
    then show ?thesis
      by (simp add: helper_ok_def)
  qed
qed

lemma reads_unique: "reads to_double specs j vars a \<Longrightarrow> reads to_double specs j vars b \<Longrightarrow> a = b"
proof
  fix x
  assume ra: "reads to_double specs j vars a" and rb: "reads to_double specs j vars b"
  show "a x = b x"
  proof (cases "x \<in> pu_target ` set specs")
    case True
    then obtain s where s: "s \<in> set specs" "x = pu_target s" by blast
    show ?thesis
      using ra rb s unfolding reads_def by (cases "path_value (pu_key s) j") (force)+
  next
    case False
    then show ?thesis
      using ra rb by (simp add: reads_def)
  qed
qed

section \<open>Reading a request\<close>

text \<open>
  C6: what a successful read means, exactly. For properties whose keys can be told apart, \<open>readJson\<close>
  succeeds on a value exactly when every member, at every level, is asked for and converts to the type
  asked for, and every property that is not optional is there; then it has left the response alone, and
  the variable of each property holds the converted value at the property's path, or what it held before
  when there is none, and no other variable has changed.
\<close>

theorem readJson_accepts:
  assumes "json_ok j" "specs_ok (packVariant wanted)"
  shows "readJson to_double dump j res wanted vars = Some (True, res', vars')
    \<longleftrightarrow> accepts to_double (packVariant wanted) j \<and> res' = res \<and> reads to_double (packVariant wanted) j vars vars'"
proof -
  have "marked {} (packVariant wanted) = packVariant wanted"
    by (auto simp: marked_def packVariant_def)
  then have h: "readJson to_double dump j res wanted vars = Some (True, res', vars') \<Longrightarrow>
        accepts to_double (packVariant wanted) j \<and> res' = res \<and> reads to_double (packVariant wanted) j vars vars'"
    and c: "accepts to_double (packVariant wanted) j \<Longrightarrow>
        \<exists>vars'. readJson to_double dump j res wanted vars = Some (True, res, vars')" for res' vars'
    using helper_all [OF assms(1), of to_double dump] assms(2) unfolding helper_ok_def readJson_def by blast+
  show ?thesis
    using h c reads_unique by blast
qed

definition boot_wanted :: "(string \<times> unpack_type \<times> nat) list" where
  "boot_wanted = [(''Boot/Target'', TBase TString, 0), (''Boot/Once'', TOptional (TBase TBool), 1), (''Slots'', TVector (TBase TU8), 2)]"

definition boot_request :: json where
  "boot_request = JObject [(''Boot'', JObject [(''Target'', JString ''Pxe'')]), (''Slots'', JArray [JUInt 1, JUInt 255])]"

lemma boot_keys: "specs_ok (packVariant boot_wanted)"
  by code_simp

lemma boot_accepted: "accepts to_double (packVariant boot_wanted) boot_request"
proof -
  have inner: "accepts to_double (nextLevel ''Boot/'' (packVariant boot_wanted)) (JObject [(''Target'', JString ''Pxe'')])"
    by (subst accepts.simps)
      (simp add: nextLevel_def packVariant_def boot_wanted_def key_head_def key_leftover_def converts_def
        unpackValueWithErrorCode_def)
  show ?thesis
    unfolding boot_request_def accepts_object item_ok_def
    using inner
    by (simp add: packVariant_def boot_wanted_def key_head_def key_leftover_def converts_def
        unpackValueWithErrorCode_def checkRange_def)
qed

theorem readJson_accepts_witness:
  "readJson (\<lambda>i. 0) (\<lambda>n j. []) boot_request response_init boot_wanted (\<lambda>x. VList [])
    = Some (True, response_init, (\<lambda>x. VList [])(0 := VString ''Pxe'', 2 := VList [VInt 1, VInt 255]))"
proof -
  have "json_ok boot_request"
    by code_simp
  moreover have "reads (\<lambda>i. 0) (packVariant boot_wanted) boot_request (\<lambda>x. VList [])
      ((\<lambda>x. VList [])(0 := VString ''Pxe'', 2 := VList [VInt 1, VInt 255]))"
    unfolding boot_request_def reads_object reads_items_def read_value_def
    by (simp add: packVariant_def boot_wanted_def key_head_def key_leftover_def path_value_object
        unpackValueWithErrorCode_def checkRange_def)
  ultimately show ?thesis
    using readJson_accepts [OF _ boot_keys] boot_accepted by blast
qed

end
