(* ===== verification/App.thy ===== *)
theory App
  imports Router
begin

text \<open>
  The application (\<open>http/app.hpp\<close>) and the handlers of rules (\<open>TaggedRule\<close>, \<open>DynamicRule\<close> and
  \<open>Wrapped\<close> of \<open>http/routing.hpp\<close>): routes are registered with a handler, validated, and a request
  is passed through the router to the handler of its rule. The tag of a route is that of its URL, as
  the macro \<open>BMCWEB_ROUTE\<close> has it. The response object that a handler shares is passed on and returned.

  The lemmas compose the router, the tags and the handlers: a request is answered by the handler of
  the first rule that serves it, called with the values of its URL.
\<close>

section \<open>Handlers\<close>

text \<open>
  The three kinds of function a rule takes: from the parameters, or from the request and the
  parameters, to a status, or one that gets the request and the response.
\<close>

datatype 's user_handler =
    StatusHandler "arg list \<Rightarrow> nat"
  | RequestHandler "'s request \<Rightarrow> arg list \<Rightarrow> nat"
  | ResponseHandler "'s request \<Rightarrow> response \<Rightarrow> arg list \<Rightarrow> response"

type_synonym 's handler = "'s request \<Rightarrow> response \<Rightarrow> arg list \<Rightarrow> response"

fun wrap_handler :: "'s user_handler \<Rightarrow> 's handler" where
  "wrap_handler (StatusHandler f) req res args = set_result (f args) res"
| "wrap_handler (RequestHandler f) req res args = set_result (f req args) res"
| "wrap_handler (ResponseHandler f) req res args = f req res args"

text \<open>\<open>HandlerTypeHelper\<close>: the types of the parameters that follow the request and the response.\<close>

fun parameter_types :: "'s user_handler \<Rightarrow> cxx_type list \<Rightarrow> cxx_type list" where
  "parameter_types (StatusHandler f) args = args"
| "parameter_types (RequestHandler f) args = drop 1 args"
| "parameter_types (ResponseHandler f) args = drop 2 args"

fun those_all :: "'a option list \<Rightarrow> 'a list option" where
  "those_all [] = Some []"
| "those_all (x # xs) = (case x of None \<Rightarrow> None | Some a \<Rightarrow> map_option (Cons a) (those_all xs))"

text \<open>What a rule keeps beside the record \<open>rule\<close>: its argument types and its function.\<close>

record 's rule_function =
  rf_types :: "arg_type list"
  rf_handler :: "'s handler option"

text \<open>
  \<open>TaggedRule::handle\<close> and \<open>Wrapped::operator()\<close>: the arguments are taken from the parameters. An
  empty function throws, reading a vector past its end is undefined; both are \<open>None\<close>.
\<close>

definition rule_handle ::
    "'s rule_function \<Rightarrow> 's request \<Rightarrow> response \<Rightarrow> RoutingParams \<Rightarrow> response option" where
  "rule_handle rf req res params =
     (case rf_handler rf of
        None \<Rightarrow> None
      | Some h \<Rightarrow> map_option (h req res) (those_all (call_args (rf_types rf) params)))"

section \<open>The application\<close>

text \<open>
  \<open>ap_functions\<close> lists the functions of the rules in the order of \<open>allRules\<close>. \<open>ssl_built\<close> is the build
  option \<open>BMCWEB_ENABLE_SSL\<close>.
\<close>

record 's app =
  ap_router :: router
  ap_functions :: "'s rule_function list"
  ap_port :: u16
  ap_bindaddr :: string
  ap_socketFd :: int
  ap_sslContext :: bool
  ap_stopped :: bool

definition app_init :: "bool \<Rightarrow> 's app" where
  "app_init ssl_built =
     \<lparr>ap_router = router_init, ap_functions = [], ap_port = (if ssl_built then 443 else 80),
      ap_bindaddr = ''0.0.0.0'', ap_socketFd = - 1, ap_sslContext = False, ap_stopped = False\<rparr>"

definition app_socket :: "int \<Rightarrow> 's app \<Rightarrow> 's app" where
  "app_socket existingSocket app = app\<lparr>ap_socketFd := existingSocket\<rparr>"

definition app_port :: "u16 \<Rightarrow> 's app \<Rightarrow> 's app" where
  "app_port port app = app\<lparr>ap_port := port\<rparr>"

definition app_bindaddr :: "string \<Rightarrow> 's app \<Rightarrow> 's app" where
  "app_bindaddr addr app = app\<lparr>ap_bindaddr := addr\<rparr>"

definition app_ssl :: "'s app \<Rightarrow> 's app" where
  "app_ssl app = app\<lparr>ap_sslContext := True\<rparr>"

definition app_stop :: "'s app \<Rightarrow> 's app" where
  "app_stop app = app\<lparr>ap_stopped := True\<rparr>"

text \<open>
  \<open>newRuleTagged<Tag>\<close>: the argument types come from the tag (a tag without types does not compile).
  The result is the number of the rule.
\<close>

definition newRuleTagged :: "nat \<Rightarrow> string \<Rightarrow> 's app \<Rightarrow> (nat \<times> 's app) option" where
  "newRuleTagged tag url app =
     (case Arguments tag of
        None \<Rightarrow> None
      | Some types \<Rightarrow>
          Some (length (allRules (ap_router app)),
                app\<lparr>ap_router := newRule (new_rule url) (ap_router app),
                    ap_functions := ap_functions app @ [\<lparr>rf_types = types, rf_handler = None\<rparr>]\<rparr>))"

definition app_route :: "string \<Rightarrow> 's app \<Rightarrow> (nat \<times> 's app) option" where
  "app_route url app = newRuleTagged (unat (getParameterTag url)) url app"

definition app_routeDynamic :: "string \<Rightarrow> 's app \<Rightarrow> nat \<times> 's app" where
  "app_routeDynamic url app =
     (length (allRules (ap_router app)),
      app\<lparr>ap_router := newRule (new_rule url) (ap_router app),
          ap_functions := ap_functions app @ [\<lparr>rf_types = [], rf_handler = None\<rparr>]\<rparr>)"

text \<open>What is done to rule \<open>i\<close> by the calls chained to its registration.\<close>

definition change_rule :: "nat \<Rightarrow> (rule \<Rightarrow> rule) \<Rightarrow> 's app \<Rightarrow> 's app" where
  "change_rule i f app =
     app\<lparr>ap_router := (ap_router app)\<lparr>allRules := (allRules (ap_router app))[i := f (allRules (ap_router app) ! i)]\<rparr>\<rparr>"

definition tagged_set :: "nat \<Rightarrow> 's user_handler \<Rightarrow> 's app \<Rightarrow> 's app" where
  "tagged_set i h app =
     (change_rule i rule_setHandler app)
       \<lparr>ap_functions := (ap_functions app)[i := (ap_functions app ! i)\<lparr>rf_handler := Some (wrap_handler h)\<rparr>]\<rparr>"

text \<open>A function for a dynamic rule, with the types of all its arguments; a mismatch throws.\<close>

definition dynamic_set :: "nat \<Rightarrow> cxx_type list \<Rightarrow> 's user_handler \<Rightarrow> 's app \<Rightarrow> (string + 's app) option" where
  "dynamic_set i args h app =
     (case those_all (map promote (parameter_types h args)) of
        None \<Rightarrow> None
      | Some types \<Rightarrow>
          (case dynamic_setHandler args (allRules (ap_router app) ! i) of
             Inl e \<Rightarrow> Some (Inl e)
           | Inr r \<Rightarrow>
               Some (Inr ((change_rule i (\<lambda>_. r) app)
                 \<lparr>ap_functions := (ap_functions app)[i := \<lparr>rf_types = types, rf_handler = Some (wrap_handler h)\<rparr>]\<rparr>))))"

definition app_validate :: "'s app \<Rightarrow> (router_error + 's app) option" where
  "app_validate app = map_option (map_sum id (\<lambda>rt. app\<lparr>ap_router := rt\<rparr>)) (router_validate (ap_router app))"

text \<open>\<open>run\<close>: what is listened on. With TLS the code that starts the server is commented out.\<close>

datatype listener = OnAddress string u16 | OnSocket int

definition app_run :: "bool \<Rightarrow> 's app \<Rightarrow> (router_error + 's app \<times> listener option) option" where
  "app_run ssl_built app =
     map_option (map_sum id (\<lambda>app1.
       (app1, if ssl_built then None
              else if ap_socketFd app1 = - 1 then Some (OnAddress (ap_bindaddr app1) (ap_port app1))
              else Some (OnSocket (ap_socketFd app1))))) (app_validate app)"

definition app_getRoutes :: "'s app \<Rightarrow> string option list" where
  "app_getRoutes app = getRoutes (ap_router app) []"

definition app_getRoutes_below :: "string \<Rightarrow> 's app \<Rightarrow> string option list" where
  "app_getRoutes_below parent app = getRoutes (ap_router app) parent"

definition app_handleUpgrade ::
    "(string \<Rightarrow> dbl parsed) \<Rightarrow> 's app \<Rightarrow> 's request \<Rightarrow> response \<Rightarrow> (router_error + response) option" where
  "app_handleUpgrade strtod app req res = handleUpgrade strtod (ap_router app) req res"

text \<open>\<open>handle\<close>, with the call of the rule's function that \<open>Router::handle\<close> ends with.\<close>

definition app_handle ::
    "(string \<Rightarrow> dbl parsed) \<Rightarrow> 's app \<Rightarrow> 's request \<Rightarrow> response \<Rightarrow> bool \<Rightarrow> (router_error + response) option" where
  "app_handle strtod app req res bypassAuth =
     (case handle strtod (ap_router app) req res bypassAuth of
        None \<Rightarrow> None
      | Some (Inl e) \<Rightarrow> Some (Inl e)
      | Some (Inr (res1, None)) \<Rightarrow> Some (Inr res1)
      | Some (Inr (res1, Some (i, params))) \<Rightarrow>
          map_option Inr (rule_handle (ap_functions app ! i) req res1 params))"

section \<open>A list of routes\<close>

text \<open>A route as a program writes it: URL, methods and handler; they are registered in their order.\<close>

record 's route_spec =
  rs_url :: string
  rs_method :: boost_verb
  rs_methods :: "boost_verb list"
  rs_handler :: "'s user_handler"

definition add_route :: "'s route_spec \<Rightarrow> 's app \<Rightarrow> 's app option" where
  "add_route rs app =
     (case app_route (rs_url rs) app of
        None \<Rightarrow> None
      | Some (i, app1) \<Rightarrow>
          Some (tagged_set i (rs_handler rs) (change_rule i (rule_methods (rs_method rs) (rs_methods rs)) app1)))"

fun add_routes :: "'s route_spec list \<Rightarrow> 's app \<Rightarrow> 's app option" where
  "add_routes [] app = Some app"
| "add_routes (rs # specs) app = (case add_route rs app of None \<Rightarrow> None | Some app1 \<Rightarrow> add_routes specs app1)"

definition rule_of :: "'s route_spec \<Rightarrow> rule" where
  "rule_of rs = rule_setHandler (rule_methods (rs_method rs) (rs_methods rs) (new_rule (rs_url rs)))"

text \<open>Every URL can be read, has no stray bracket and no more parameters than a tag holds.\<close>

definition route_ok :: "'s route_spec \<Rightarrow> bool" where
  "route_ok rs \<longleftrightarrow> (case tokenise (rs_url rs) of
     None \<Rightarrow> False | Some toks \<Rightarrow> brackets_ok toks \<and> length (params_of toks) \<le> 24)"

definition function_of :: "'s route_spec \<Rightarrow> 's rule_function" where
  "function_of rs = \<lparr>rf_types = map param_arg (params_of (the (tokenise (rs_url rs)))),
     rf_handler = Some (wrap_handler (rs_handler rs))\<rparr>"

lemma tag_types:
  "tokenise url = Some toks \<Longrightarrow> brackets_ok toks \<Longrightarrow> length (params_of toks) \<le> 24 \<Longrightarrow>
   Arguments (unat (getParameterTag url)) = Some (map param_arg (params_of toks))"
  by (simp add: getParameterTag_packed url_tag_value_def Arguments_packed [OF url_tag_digits] param_arg_def)

lemma snoc_at:
  "n = length xs \<Longrightarrow> (xs @ [a]) ! n = a" "n = length xs \<Longrightarrow> (xs @ [a])[n := b] = xs @ [b]"
  by simp_all

lemma add_route_rule:
  assumes "route_ok rs" "length (ap_functions app) = length (allRules (ap_router app))"
  shows "\<exists>app'. add_route rs app = Some app'
    \<and> ap_router app' = (ap_router app)\<lparr>allRules := allRules (ap_router app) @ [rule_of rs]\<rparr>
    \<and> ap_functions app' = ap_functions app @ [function_of rs]"
proof -
  obtain toks where t: "tokenise (rs_url rs) = Some toks" "brackets_ok toks" "length (params_of toks) \<le> 24"
    using assms(1) by (auto simp: route_ok_def split: option.splits)
  show ?thesis
    using tag_types [OF t] t(1) assms(2)
    by (simp add: snoc_at add_route_def app_route_def newRuleTagged_def tagged_set_def change_rule_def newRule_def
        rule_of_def function_of_def)
qed

lemma add_routes_rules:
  "\<forall>rs \<in> set specs. route_ok rs \<Longrightarrow> length (ap_functions app) = length (allRules (ap_router app)) \<Longrightarrow>
   \<exists>app'. add_routes specs app = Some app'
     \<and> ap_router app' = (ap_router app)\<lparr>allRules := allRules (ap_router app) @ map rule_of specs\<rparr>
     \<and> ap_functions app' = ap_functions app @ map function_of specs"
proof (induction specs arbitrary: app)
  case (Cons rs specs)
  obtain app1 where a: "add_route rs app = Some app1"
    "ap_router app1 = (ap_router app)\<lparr>allRules := allRules (ap_router app) @ [rule_of rs]\<rparr>"
    "ap_functions app1 = ap_functions app @ [function_of rs]"
    using add_route_rule [of rs app] Cons.prems by auto
  then show ?case
    using Cons.IH [of app1] Cons.prems by auto
qed simp

section \<open>The arguments of a served request\<close>

text \<open>
  A rule that ends with a slash is also registered without it; both patterns have the same
  parameters, those of the tag.
\<close>

lemma take_snoc_slash:
  assumes "tag \<noteq> []" "last tag \<noteq> CHR ''/''"
  shows "take (length tag) (s @ ''/'') = tag \<longleftrightarrow> take (length tag) s = tag"
proof (cases "length tag \<le> length s")
  case False
  then have "length (take (length tag) s) \<noteq> length tag"
    by simp
  then have "take (length tag) s \<noteq> tag"
    by auto
  moreover have "take (length tag) (s @ ''/'') = s @ ''/''"
    using False by simp
  then have "take (length tag) (s @ ''/'') \<noteq> tag"
    using assms(2) by (metis last_snoc)
  ultimately show ?thesis by blast
qed simp

lemma matchTag_snoc: "matchTag (s @ ''/'') = matchTag s"
proof -
  have "(\<lambda>(p, tag). take (length tag) (s @ ''/'') = tag) x = (\<lambda>(p, tag). take (length tag) s = tag) x"
    if "x \<in> set paramTraits" for x
    using that take_snoc_slash [of "snd x" s] by (auto simp: paramTraits_def)
  then show ?thesis
    unfolding matchTag_def by (intro find_cong refl)
qed

lemma tokenise_snoc:
  "tokenise u = Some toks \<Longrightarrow> tokenise (u @ ''/'') = Some (toks @ [Lit (CHR ''/'')])"
proof (induction u arbitrary: toks rule: tokenise.induct)
  case (2 c cs)
  show ?case
  proof (cases "c = CHR ''<''")
    case True
    then obtain p tag toks' where m: "matchTag (c # cs) = Some (p, tag)"
        "tokenise (drop (length tag) (c # cs)) = Some toks'" "toks = Par p # toks'"
      using "2.prems" by (auto split: option.splits)
    have "length tag \<le> length (c # cs)"
      using matchTag_Some [OF m(1)] by simp
    then have "drop (length tag) ((c # cs) @ ''/'') = drop (length tag) (c # cs) @ ''/''"
      by (simp only: drop_append) simp
    moreover have "matchTag ((c # cs) @ ''/'') = Some (p, tag)"
      using m(1) matchTag_snoc [of "c # cs"] by simp
    moreover have "tokenise (drop (length tag) (c # cs) @ ''/'') = Some (toks' @ [Lit (CHR ''/'')])"
      using "2.IH"(1) [OF True m(1) refl m(2)] .
    ultimately show ?thesis
      using True m(3) by (simp del: drop_append)
  next
    case False
    then show ?thesis
      using "2.IH"(2) "2.prems" by auto
  qed
qed simp

lemma params_of_append: "params_of (a @ b) = params_of a @ params_of b"
  by (induction a rule: params_of.induct) simp_all

lemma rule_urls_params:
  assumes "u \<in> set (rule_urls url)" "tokenise u = Some toks" "tokenise url = Some toks'"
  shows "params_of toks = params_of toks'"
proof (cases "u = url")
  case False
  then have "u = butlast url" "url \<noteq> []" "last url = CHR ''/''"
    using assms(1) by (auto simp: rule_urls_def split: if_splits)
  then have "url = u @ ''/''"
    by (metis append_butlast_last_id)
  then have "toks' = toks @ [Lit (CHR ''/'')]"
    using assms(3) tokenise_snoc [OF assms(2)] by simp
  then show ?thesis
    by (simp add: params_of_append)
qed (use assms in simp)

lemma those_all_Some: "those_all (map Some xs) = Some xs"
  by (induction xs) simp_all

text \<open>A rule that serves a URL is called with values that one of its patterns reads from it.\<close>

lemma served_values:
  assumes "route_ok rs" "serves strtod (rule_of rs) url params"
  shows "\<exists>u toks values. u \<in> set (rule_urls (rs_url rs)) \<and> tokenise u = Some toks
    \<and> tok_values strtod toks url = Some values
    \<and> rule_handle (function_of rs) req res params = Some (wrap_handler (rs_handler rs) req res values)"
proof -
  have "rule_url (rule_methods m ms r) = rule_url r" for m ms r
    by (induction m ms r rule: rule_methods.induct) (auto simp: Let_def split: option.split)
  then have url: "rule_url (rule_of rs) = rs_url rs"
    by (simp add: rule_of_def rule_setHandler_def new_rule_def)
  obtain u toks where u: "u \<in> set (rule_urls (rs_url rs))" "tokenise u = Some toks"
      "tok_run strtod toks url emptyParams = Some params"
    using assms(2) unfolding serves_def url by blast
  then obtain vs where vs: "tok_values strtod toks url = Some vs" "params = fold push_arg vs emptyParams"
    by (auto simp: tok_run_values)
  obtain toks' where t: "tokenise (rs_url rs) = Some toks'"
    using assms(1) by (auto simp: route_ok_def split: option.splits)
  have "map arg_kind vs = rf_types (function_of rs)"
    using tok_values_kind [OF vs(1)] rule_urls_params [OF u(1,2) t] t by (simp add: function_of_def)
  then have "call_args (rf_types (function_of rs)) params = map Some vs"
    using call_args_values [of vs] vs(2) by simp
  then show ?thesis
    using u(1,2) vs(1) by (auto simp: rule_handle_def function_of_def those_all_Some)
qed

lemma first_match_least:
  assumes "first_match strtod L m url (Some (k, params))"
    "i \<in> matching strtod L m url" "\<forall>j \<in> matching strtod L m url. i \<le> j"
  shows "k = i \<and> serves strtod (L ! k) url params"
  using assms by (auto simp: first_match_def intro: le_antisym)

lemma first_match_served: "first_match strtod L m url r \<Longrightarrow> r \<noteq> None \<longleftrightarrow> matching strtod L m url \<noteq> {}"
  by (auto simp: first_match_def split: option.splits)

text \<open>The value of the Allow header: the verbs some rule serves the URL for, in the order of the enumeration.\<close>

definition route_allow :: "(string \<Rightarrow> dbl parsed) \<Rightarrow> rule list \<Rightarrow> string \<Rightarrow> string" where
  "route_allow strtod L url =
     allow_header (filter (\<lambda>v. matching strtod L (verbIndex v) url \<noteq> {}) allVerbs)"

lemma known_verb_all: "httpVerbFromBoost v = Some verb \<Longrightarrow> verb \<in> set allVerbs"
  by (cases v) (auto simp: allVerbs_def)

lemma verbIndex_bound: "verbIndex v \<le> methodNotAllowedIndex"
  by (cases v) (simp_all add: verb_consts)

text \<open>The router of a validated application hands the request to the first rule that serves it.\<close>

lemma handle_first:
  assumes "router_ok rt"
    and h: "httpVerbFromBoost (rq_method req) = Some verb" "rq_session req = None \<or> bypassAuth"
      "i \<in> matching strtod (allRules rt) (verbIndex verb) (urlBase req)"
      "\<forall>j \<in> matching strtod (allRules rt) (verbIndex verb) (urlBase req). i \<le> j"
  shows "\<exists>params. serves strtod (allRules rt ! i) (urlBase req) params
    \<and> handle strtod rt req res bypassAuth
       = Some (Inr (addHeader ''Allow'' (route_allow strtod (allRules rt) (urlBase req)) res, Some (i, params)))"
proof -
  let ?L = "allRules rt"
  obtain f where f: "\<forall>m \<le> methodNotAllowedIndex. findRouteByIndex strtod rt (urlBase req) m = Some (Inr (f m))
      \<and> first_match strtod ?L m (urlBase req) (f m)"
    using routes_of_router [OF assms(1)] by metis
  have "verbIndex verb \<le> methodNotAllowedIndex"
    using verbIndex_less [OF h(1)] by (simp add: verb_consts)
  then have m: "first_match strtod ?L (verbIndex verb) (urlBase req) (f (verbIndex verb))"
    using f by blast
  obtain params where fi: "f (verbIndex verb) = Some (i, params)" and s: "serves strtod (?L ! i) (urlBase req) params"
  proof (cases "f (verbIndex verb)")
    case None
    then show thesis
      using m h(3) by (simp add: first_match_def)
  next
    case (Some found)
    obtain k params where k: "found = (k, params)" by (cases found)
    have "k = i" "serves strtod (?L ! k) (urlBase req) params"
      using first_match_least [OF m [unfolded Some k] h(3,4)] by auto
    then show thesis
      using that Some k by simp
  qed
  have "handle strtod rt req res bypassAuth
      = Some (Inr (dispatch req res bypassAuth (allow_header (served_verbs f)) (Some (i, params))))"
    using handle_found [of rt req verb strtod f "(i, params)" res bypassAuth] assms(1) h(1) f fi by simp
  moreover have "allow_header (served_verbs f) = route_allow strtod ?L (urlBase req)"
    unfolding route_allow_def served_verbs_def using f verbIndex_bound first_match_served
    by (metis (no_types, lifting))
  moreover have "route_allow strtod ?L (urlBase req) \<noteq> []"
    unfolding route_allow_def using h(1,3) allow_header_empty
    by (auto simp: filter_empty_conv known_verb_all)
  ultimately show ?thesis
    using s h(2) by (auto simp: dispatch_def)
qed

text \<open>
  What is promised for a request that route \<open>rs\<close> of the rules \<open>L\<close> answers: the response is the one its
  handler makes of the given one with the Allow header, from the values one of its patterns reads
  from the URL.
\<close>

definition answered_by ::
    "(string \<Rightarrow> dbl parsed) \<Rightarrow> rule list \<Rightarrow> 's route_spec \<Rightarrow> 's request \<Rightarrow> response \<Rightarrow> response \<Rightarrow> bool" where
  "answered_by strtod L rs req res out \<longleftrightarrow>
     (\<exists>u \<in> set (rule_urls (rs_url rs)). \<exists>toks values.
        tokenise u = Some toks \<and> tok_values strtod toks (urlBase req) = Some values
        \<and> out = wrap_handler (rs_handler rs) req
                  (addHeader ''Allow'' (route_allow strtod L (urlBase req)) res) values)"

lemma app_answers:
  assumes "\<forall>rs \<in> set specs. route_ok rs" "router_ok rt" "allRules rt = map rule_of specs"
    and app: "ap_router app = rt" "ap_functions app = map function_of specs"
    and h: "httpVerbFromBoost (rq_method req) = Some verb" "rq_session req = None \<or> bypassAuth"
      "i \<in> matching strtod (map rule_of specs) (verbIndex verb) (urlBase req)"
      "\<forall>j \<in> matching strtod (map rule_of specs) (verbIndex verb) (urlBase req). i \<le> j"
  shows "\<exists>out. app_handle strtod app req res bypassAuth = Some (Inr out) \<and> answered_by strtod (map rule_of specs) (specs ! i) req res out"
proof -
  have i: "i < length specs"
    using h(3) by (simp add: matching_def)
  define allow where "allow = route_allow strtod (map rule_of specs) (urlBase req)"
  obtain params where s: "serves strtod (rule_of (specs ! i)) (urlBase req) params"
    and r: "handle strtod rt req res bypassAuth
        = Some (Inr (addHeader ''Allow'' allow res, Some (i, params)))"
    unfolding allow_def using handle_first [OF assms(2) h(1,2), of i strtod res] h(3,4) assms(3) i by auto
  define res1 where "res1 = addHeader ''Allow'' allow res"
  have "app_handle strtod app req res bypassAuth = map_option Inr (rule_handle (function_of (specs ! i)) req res1 params)"
    unfolding app_handle_def app r using i by (simp add: res1_def)
  moreover obtain u toks vals where v: "u \<in> set (rule_urls (rs_url (specs ! i)))" "tokenise u = Some toks"
      "tok_values strtod toks (urlBase req) = Some vals"
      "rule_handle (function_of (specs ! i)) req res1 params = Some (wrap_handler (rs_handler (specs ! i)) req res1 vals)"
    using served_values [OF _ s, of req res1] assms(1) i by auto
  moreover have "answered_by strtod (map rule_of specs) (specs ! i) req res (wrap_handler (rs_handler (specs ! i)) req res1 vals)"
    unfolding answered_by_def res1_def allow_def using v(1,2,3) by blast
  ultimately show ?thesis
    by simp
qed

text \<open>
  C2: a request is answered by its handler, from the registration of the routes to the response. When
  the URLs of a list of routes can be read and no two of one method have the same pattern, registering
  and validating them succeeds. A request of a known verb that some of them serve is then given to the
  handler of the first one, with exactly the values that a pattern of this route reads from the URL, in
  their order; the response is the one that handler makes of the given one with the Allow header, which
  lists the verbs that some route serves the URL for.
\<close>

theorem request_answered:
  assumes "\<forall>rs \<in> set specs. route_ok rs" "rules_ok (map rule_of specs)"
  shows "\<exists>app app'. add_routes specs (app_init ssl_built) = Some app \<and> app_validate app = Some (Inr app')
    \<and> (\<forall>strtod req res bypassAuth verb i.
         httpVerbFromBoost (rq_method req) = Some verb \<and> (rq_session req = None \<or> bypassAuth)
         \<and> i \<in> matching strtod (map rule_of specs) (verbIndex verb) (urlBase req)
         \<and> (\<forall>j \<in> matching strtod (map rule_of specs) (verbIndex verb) (urlBase req). i \<le> j) \<longrightarrow>
         (\<exists>out. app_handle strtod app' req res bypassAuth = Some (Inr out)
            \<and> answered_by strtod (map rule_of specs) (specs ! i) req res out))"
proof -
  let ?L = "map rule_of specs"
  obtain app where a: "add_routes specs (app_init ssl_built) = Some app"
      "ap_router app = router_init\<lparr>allRules := ?L\<rparr>" "ap_functions app = map function_of specs"
    using add_routes_rules [OF assms(1), of "app_init ssl_built"] by (auto simp: app_init_def router_init_def)
  obtain rt where rt: "router_validate (router_init\<lparr>allRules := ?L\<rparr>) = Some (Inr rt)" "router_ok rt" "allRules rt = ?L"
    using router_validate_ok [OF assms(2)] by blast
  have "app_validate app = Some (Inr (app\<lparr>ap_router := rt\<rparr>))"
    using a(2) rt(1) by (simp add: app_validate_def)
  moreover have "\<exists>out. app_handle strtod (app\<lparr>ap_router := rt\<rparr>) req res bypassAuth = Some (Inr out)
      \<and> answered_by strtod (map rule_of specs) (specs ! i) req res out"
    if "httpVerbFromBoost (rq_method req) = Some verb" "rq_session req = None \<or> bypassAuth"
      "i \<in> matching strtod ?L (verbIndex verb) (urlBase req)"
      "\<forall>j \<in> matching strtod ?L (verbIndex verb) (urlBase req). i \<le> j"
    for strtod and req :: "'a request" and res bypassAuth verb i
    by (rule app_answers [OF assms(1) rt(2,3) _ _ that]) (simp_all add: a(3))
  ultimately show ?thesis
    using a(1) by blast
qed

definition demo_route :: "unit route_spec" where
  "demo_route = \<lparr>rs_url = ''/v1/<str>/'', rs_method = verb_get, rs_methods = [],
     rs_handler = ResponseHandler (\<lambda>req res args. case args of [StringArg s] \<Rightarrow> res_write s res | _ \<Rightarrow> res)\<rparr>"

lemma demo_route_ok: "route_ok demo_route" "rules_ok [rule_of demo_route]"
proof -
  show "route_ok demo_route"
    by (simp add: demo_route_def route_ok_def matchTag_def paramTraits_def)
  have "[rule_of demo_route] = sample_rules"
    by (simp add: sample_rules_def rule_of_def demo_route_def new_rule_def rule_setHandler_def)
  then show "rules_ok [rule_of demo_route]"
    using sample_rules_ok by simp
qed

definition demo_request :: "unit request" where
  "demo_request = (sample_request [])\<lparr>urlBase := ''/v1/x''\<rparr>"

lemma demo_tokens:
  "tokenise ''/v1/<str>/'' = Some [Lit (CHR ''/''), Lit (CHR ''v''), Lit (CHR ''1''), Lit (CHR ''/''), Par PSTRING, Lit (CHR ''/'')]"
  "tokenise ''/v1/<str>'' = Some [Lit (CHR ''/''), Lit (CHR ''v''), Lit (CHR ''1''), Lit (CHR ''/''), Par PSTRING]"
  by (simp_all add: matchTag_def paramTraits_def)

lemma demo_values:
  "rule_urls ''/v1/<str>/'' = [''/v1/<str>/'', ''/v1/<str>'']"
  "tok_values strtod [Lit (CHR ''/''), Lit (CHR ''v''), Lit (CHR ''1''), Lit (CHR ''/''), Par PSTRING, Lit (CHR ''/'')] ''/v1/x'' = None"
  "tok_values strtod [Lit (CHR ''/''), Lit (CHR ''v''), Lit (CHR ''1''), Lit (CHR ''/''), Par PSTRING] ''/v1/x''
     = Some [StringArg ''x'']"
  by (simp_all add: rule_urls_def)

lemma demo_matching: "matching no_double [rule_of demo_route] (verbIndex Get) ''/v1/x'' = {0}"
proof -
  have "rule_of demo_route = rule_setHandler (new_rule ''/v1/<str>/'')"
    by (simp add: rule_of_def demo_route_def new_rule_def rule_setHandler_def)
  then have r: "rule_url (rule_of demo_route) = ''/v1/<str>/''" "bit (methodsBitfield (rule_of demo_route)) (verbIndex Get)"
    by (simp_all add: new_rule_def rule_setHandler_def verb_consts)
  have "\<exists>ps. serves no_double (rule_of demo_route) ''/v1/x'' ps"
    by (auto simp: serves_def r demo_values(1) demo_tokens tok_run_values demo_values(3) simp del: tokenise.simps)
  then show ?thesis
    using r(2) by (auto simp: matching_def)
qed

lemma demo_allow: "route_allow no_double [rule_of demo_route] ''/v1/x'' = ''GET''"
proof -
  have "methodsBitfield (rule_of demo_route) = 2 ^ verbIndex Get"
    by (simp add: rule_of_def demo_route_def new_rule_def rule_setHandler_def verb_consts)
  then have "v \<noteq> Get \<Longrightarrow> matching no_double [rule_of demo_route] (verbIndex v) ''/v1/x'' = {}" for v
    by (cases v) (auto simp: matching_def bit_exp_iff)
  then show ?thesis
    unfolding route_allow_def allVerbs_def by (simp add: demo_matching del: verbIndex.simps)
qed

lemma request_answered_witness:
  "\<exists>app app'. add_routes [demo_route] (app_init False) = Some app \<and> app_validate app = Some (Inr app')
    \<and> app_handle no_double app' demo_request response_init False
        = Some (Inr (res_write ''x'' (addHeader ''Allow'' ''GET'' response_init)))"
proof -
  have r: "httpVerbFromBoost (rq_method demo_request) = Some Get" "rq_session demo_request = None"
      "urlBase demo_request = ''/v1/x''" "rs_url demo_route = ''/v1/<str>/''"
    by (simp_all add: demo_request_def sample_request_def demo_route_def)
  have m: "0 \<in> matching no_double (map rule_of [demo_route]) (verbIndex Get) (urlBase demo_request)"
    using demo_matching r(3) by simp
  obtain app app' where a: "add_routes [demo_route] (app_init False) = Some app" "app_validate app = Some (Inr app')"
    and h: "\<forall>strtod req res bypassAuth verb i.
         httpVerbFromBoost (rq_method req) = Some verb \<and> (rq_session req = None \<or> bypassAuth)
         \<and> i \<in> matching strtod (map rule_of [demo_route]) (verbIndex verb) (urlBase req)
         \<and> (\<forall>j \<in> matching strtod (map rule_of [demo_route]) (verbIndex verb) (urlBase req). i \<le> j) \<longrightarrow>
         (\<exists>out. app_handle strtod app' req res bypassAuth = Some (Inr out)
            \<and> answered_by strtod (map rule_of [demo_route]) ([demo_route] ! i) req res out)"
    using request_answered [of "[demo_route]" False] demo_route_ok by auto
  obtain out where out: "app_handle no_double app' demo_request response_init False = Some (Inr out)"
      "answered_by no_double [rule_of demo_route] demo_route demo_request response_init out"
    using h [rule_format, of demo_request Get False 0 no_double response_init] m r(1,2) by auto
  then have "out = res_write ''x'' (addHeader ''Allow'' ''GET'' response_init)"
    unfolding answered_by_def r(3,4) demo_values(1) demo_allow
    by (auto simp: demo_tokens demo_values(2,3) demo_route_def simp del: tokenise.simps)
  with a out(1) show ?thesis
    by blast
qed

end
