(* ===== verification/Plugins.thy ===== *)
theory Plugins
  imports EventService
begin

text \<open>
  Plugins: interfaces (\<open>plugin-ifaces/bmcweb-plugin.hpp\<close>, \<open>router-plugin.h\<close>, the plugin of
  \<open>redfish_event.cpp\<close>) and the libraries they come from (\<open>include/shared_library.hpp\<close>). What
  \<open>dlopen\<close> and \<open>dlsym\<close> return, the functions of a library and the virtual functions of an object are
  arguments; the calls of the loader are recorded. The lemmas show which plugins a directory gives,
  that the library of a plugin is never closed, and what happens to a library that cannot be used.
\<close>

section \<open>Interfaces\<close>

definition bmcweb_iid :: string where
  "bmcweb_iid = ''iid_bmcweb''"

definition base_hasInterface :: "string \<Rightarrow> bool" where
  "base_hasInterface interfaceId \<longleftrightarrow> interfaceId = bmcweb_iid"

definition base_getInterface :: "'o \<Rightarrow> string \<Rightarrow> 'o option" where
  "base_getInterface self interfaceId = (if interfaceId = bmcweb_iid then Some self else None)"

definition router_getInterface :: "'o \<Rightarrow> string \<Rightarrow> 'o option" where
  "router_getInterface self interfaceId =
     (if interfaceId = interface_iid then Some self else base_getInterface self interfaceId)"

text \<open>The foreign parts: the loader, and the virtual functions of objects.\<close>

record 'o plugin_env =
  dl_open :: "string \<Rightarrow> nat option"
  dl_sym :: "nat option \<Rightarrow> string \<Rightarrow> nat option option"
  dl_call :: "nat \<Rightarrow> 'o option"
  has_iface :: "'o \<Rightarrow> string \<Rightarrow> bool"
  get_iface :: "'o \<Rightarrow> string \<Rightarrow> 'o option"

definition getInterface :: "'o plugin_env \<Rightarrow> string \<Rightarrow> 'o \<Rightarrow> 'o option" where
  "getInterface env iid baseIface =
     (if has_iface env baseIface iid then get_iface env baseIface iid else None)"

section \<open>Libraries\<close>

text \<open>The calls that are recorded; \<open>None\<close> is the null handle.\<close>

datatype dl_action = DlOpen string | DlSym "nat option" string | DlCall nat | DlClose nat

record shared_library =
  sl_handle :: "nat option"
  sl_persist :: bool

definition open_library :: "'o plugin_env \<Rightarrow> string \<Rightarrow> shared_library \<times> dl_action list" where
  "open_library env path = (\<lparr>sl_handle = dl_open env path, sl_persist = False\<rparr>, [DlOpen path])"

text \<open>The library that is moved to, and what is left of the other.\<close>

definition move_library :: "shared_library \<Rightarrow> shared_library \<times> shared_library" where
  "move_library other = (other, other\<lparr>sl_handle := None\<rparr>)"

definition setPersist :: "shared_library \<Rightarrow> shared_library" where
  "setPersist lib = lib\<lparr>sl_persist := True\<rparr>"

definition destroy_library :: "shared_library \<Rightarrow> dl_action list" where
  "destroy_library lib =
     (case sl_handle lib of None \<Rightarrow> [] | Some h \<Rightarrow> if \<not> sl_persist lib then [DlClose h] else [])"

text \<open>The result of \<open>loadSymbol\<close>: no value after an error, otherwise the address, which may be null.\<close>

definition loadSymbol :: "'o plugin_env \<Rightarrow> shared_library \<Rightarrow> string \<Rightarrow> nat option option \<times> dl_action list" where
  "loadSymbol env lib symbolName = (dl_sym env (sl_handle lib) symbolName, [DlSym (sl_handle lib) symbolName])"

text \<open>Calling a null address is \<open>None\<close>.\<close>

definition loadPlugin :: "'o plugin_env \<Rightarrow> shared_library \<Rightarrow> string \<Rightarrow> ('o option \<times> dl_action list) option" where
  "loadPlugin env lib symbolName =
     (case loadSymbol env lib symbolName of
        (None, as) \<Rightarrow> Some (None, as)
      | (Some None, as) \<Rightarrow> None
      | (Some (Some func), as) \<Rightarrow> Some (dl_call env func, as @ [DlCall func]))"

section \<open>The plugins of a directory\<close>

record 'o plugin_db =
  db_loaders :: "shared_library list"
  db_plugins :: "'o list"

text \<open>\<open>path::extension\<close>: from the last dot of the last part on, unless the part starts with it.\<close>

definition last_part :: "string \<Rightarrow> string" where
  "last_part path = rev (takeWhile (\<lambda>c. c \<noteq> CHR ''/'') (rev path))"

definition path_extension :: "string \<Rightarrow> string" where
  "path_extension path =
     (let name = last_part path;
          suffix = rev (takeWhile (\<lambda>c. c \<noteq> CHR ''.'') (rev name))
      in if name = ''.'' \<or> name = ''..'' \<or> length name \<le> length suffix + 1 then [] else CHR ''.'' # suffix)"

text \<open>The body of the loop; at its end the loader that was moved from is destroyed.\<close>

definition db_entry ::
    "'o plugin_env \<Rightarrow> string \<Rightarrow> 'o plugin_db \<times> dl_action list \<Rightarrow> ('o plugin_db \<times> dl_action list) option" where
  "db_entry env path r =
     (case r of (db, as) \<Rightarrow>
        if path_extension path = ''.dylib'' \<or> path_extension path = ''.so'' then
          (let (lib, as1) = open_library env path;
               loader = setPersist lib
           in case loadPlugin env loader ''create_object'' of
                None \<Rightarrow> None
              | Some (None, as2) \<Rightarrow> Some (db, as @ as1 @ as2 @ destroy_library loader)
              | Some (Some plugin, as2) \<Rightarrow>
                  let (kept, rest) = move_library loader
                  in Some (\<lparr>db_loaders = db_loaders db @ [kept], db_plugins = db_plugins db @ [plugin]\<rparr>,
                           as @ as1 @ as2 @ destroy_library rest))
        else Some r)"

fun db_entries ::
    "'o plugin_env \<Rightarrow> string list \<Rightarrow> 'o plugin_db \<times> dl_action list \<Rightarrow> ('o plugin_db \<times> dl_action list) option" where
  "db_entries env [] r = Some r"
| "db_entries env (path # paths) r =
     (case db_entry env path r of None \<Rightarrow> None | Some r1 \<Rightarrow> db_entries env paths r1)"

definition plugin_db_open :: "'o plugin_env \<Rightarrow> string list \<Rightarrow> ('o plugin_db \<times> dl_action list) option" where
  "plugin_db_open env paths = db_entries env paths (\<lparr>db_loaders = [], db_plugins = []\<rparr>, [])"

definition plugin_db_destroy :: "'o plugin_db \<Rightarrow> dl_action list" where
  "plugin_db_destroy db = concat (map destroy_library (db_loaders db))"

definition getInterFaces :: "'o plugin_env \<Rightarrow> string \<Rightarrow> 'o plugin_db \<Rightarrow> 'o list" where
  "getInterFaces env iid db = List.map_filter (getInterface env iid) (db_plugins db)"

section \<open>What a directory gives\<close>

definition is_library :: "string \<Rightarrow> bool" where
  "is_library path \<longleftrightarrow> path_extension path \<in> {''.dylib'', ''.so''}"

text \<open>The object that a file gives: its library is a plugin with a function that makes one.\<close>

definition object_of :: "'o plugin_env \<Rightarrow> string \<Rightarrow> 'o option" where
  "object_of env path =
     (if is_library path
      then Option.bind (dl_sym env (dl_open env path) ''create_object'') (\<lambda>f. Option.bind f (dl_call env))
      else None)"

definition callable :: "'o plugin_env \<Rightarrow> string \<Rightarrow> bool" where
  "callable env path \<longleftrightarrow> is_library path \<longrightarrow> dl_sym env (dl_open env path) ''create_object'' \<noteq> Some None"

definition never_closes :: "dl_action list \<Rightarrow> bool" where
  "never_closes as \<longleftrightarrow> (\<forall>h. DlClose h \<notin> set as)"

definition db_ok :: "'o plugin_env \<Rightarrow> string list \<Rightarrow> 'o plugin_db \<times> dl_action list \<Rightarrow> bool" where
  "db_ok env paths r \<longleftrightarrow>
     db_plugins (fst r) = List.map_filter (object_of env) paths
     \<and> map sl_handle (db_loaders (fst r)) = map (dl_open env) (filter (\<lambda>p. object_of env p \<noteq> None) paths)
     \<and> (\<forall>l \<in> set (db_loaders (fst r)). sl_persist l) \<and> never_closes (snd r)"

lemma db_entry_result:
  assumes "callable env path"
  shows "\<exists>as'. never_closes as' \<and> db_entry env path (db, as) = Some
    (case object_of env path of
       None \<Rightarrow> db
     | Some plugin \<Rightarrow>
         \<lparr>db_loaders = db_loaders db @ [\<lparr>sl_handle = dl_open env path, sl_persist = True\<rparr>],
          db_plugins = db_plugins db @ [plugin]\<rparr>, as @ as')"
proof (cases "is_library path")
  case False
  then show ?thesis
    by (auto simp: is_library_def object_of_def db_entry_def never_closes_def)
next
  case True
  then have e: "(path_extension path = ''.dylib'' \<or> path_extension path = ''.so'') = True"
    by (auto simp: is_library_def)
  have d: "destroy_library \<lparr>sl_handle = h, sl_persist = True\<rparr> = []" "destroy_library \<lparr>sl_handle = None, sl_persist = b\<rparr> = []"
    for h b
    by (simp_all add: destroy_library_def split: option.split)
  note defs = db_entry_def object_of_def open_library_def setPersist_def loadPlugin_def loadSymbol_def move_library_def
    never_closes_def
  show ?thesis
  proof (cases "dl_sym env (dl_open env path) ''create_object''")
    case None
    then show ?thesis
      using True e d by (simp add: defs)
  next
    case (Some f)
    then obtain g where "f = Some g"
      using assms True by (cases f) (auto simp: callable_def)
    then show ?thesis
      using True e d Some by (cases "dl_call env g") (simp_all add: defs)
  qed
qed

lemma map_filter_snoc: "List.map_filter f (xs @ [x]) = List.map_filter f xs @ (case f x of None \<Rightarrow> [] | Some y \<Rightarrow> [y])"
  by (simp add: map_filter_def split: option.split)

lemma db_entry_ok:
  assumes "db_ok env paths r" "callable env path"
  shows "\<exists>r'. db_entry env path r = Some r' \<and> db_ok env (paths @ [path]) r'"
proof -
  obtain db as where r: "r = (db, as)" by fastforce
  then show ?thesis
    using db_entry_result [OF assms(2), of db as] assms(1)
    by (cases "object_of env path") (auto simp: db_ok_def map_filter_snoc never_closes_def)
qed

lemma db_entries_ok:
  assumes "db_ok env seen r" "\<forall>p \<in> set paths. callable env p"
  shows "\<exists>r'. db_entries env paths r = Some r' \<and> db_ok env (seen @ paths) r'"
  using assms
proof (induction paths arbitrary: seen r)
  case (Cons p paths)
  obtain r1 where "db_entry env p r = Some r1" "db_ok env (seen @ [p]) r1"
    using db_entry_ok [OF Cons.prems(1), of p] Cons.prems(2) by auto
  then show ?case
    using Cons.IH [of "seen @ [p]" r1] Cons.prems(2) by simp
qed simp

text \<open>
  The plugins are the objects that the files give, in the order of the directory, each with its
  library, and no library is ever closed, neither while the directory is read nor at the end.
\<close>

lemma plugins_of_directory:
  assumes "\<forall>p \<in> set paths. callable env p"
  shows "\<exists>db as. plugin_db_open env paths = Some (db, as)
    \<and> db_plugins db = List.map_filter (object_of env) paths
    \<and> map sl_handle (db_loaders db) = map (dl_open env) (filter (\<lambda>p. object_of env p \<noteq> None) paths)
    \<and> never_closes (as @ plugin_db_destroy db)"
proof -
  have "db_ok env [] (\<lparr>db_loaders = [], db_plugins = []\<rparr>, [])"
    by (simp add: db_ok_def never_closes_def map_filter_def)
  from db_entries_ok [OF this assms] obtain db as
    where r: "plugin_db_open env paths = Some (db, as)" "db_ok env paths (db, as)"
    by (auto simp: plugin_db_open_def)
  have "destroy_library l = []" if "l \<in> set (db_loaders db)" for l
    using r(2) that by (auto simp: db_ok_def destroy_library_def split: option.split)
  then have "plugin_db_destroy db = []"
    by (simp add: plugin_db_destroy_def)
  then show ?thesis
    using r by (auto simp: db_ok_def)
qed

text \<open>An object of the event plugin is found as a router plugin by a program that asks for one.\<close>

lemma router_plugin_found:
  assumes "\<forall>p \<in> set paths. callable env p" "path \<in> set paths" "object_of env path = Some plugin"
    and "has_iface env plugin = hasInterface" "get_iface env plugin = router_getInterface plugin"
  shows "\<exists>db as. plugin_db_open env paths = Some (db, as) \<and> plugin \<in> set (getInterFaces env interface_iid db)"
proof -
  have "getInterface env interface_iid plugin = Some plugin"
    using assms(4,5) by (simp add: getInterface_def hasInterface_def router_getInterface_def)
  moreover have "plugin \<in> set (List.map_filter (object_of env) paths)"
    using assms(2,3) by (force simp: map_filter_def)
  ultimately have "db_plugins db = List.map_filter (object_of env) paths \<Longrightarrow> plugin \<in> set (getInterFaces env interface_iid db)"
    for db
    by (force simp: getInterFaces_def map_filter_def)
  then show ?thesis
    using plugins_of_directory [OF assms(1)] by blast
qed

section \<open>What goes wrong\<close>

text \<open>
  A file that cannot be opened is searched for its function all the same, with the null handle:
  what the loader finds there (an object of the program or of another library) is a plugin.
\<close>

lemma unopened_library_searched:
  assumes "is_library path" "dl_open env path = None" "dl_sym env None ''create_object'' = Some (Some f)"
    "dl_call env f = Some plugin"
  shows "\<exists>as. plugin_db_open env [path]
    = Some (\<lparr>db_loaders = [\<lparr>sl_handle = None, sl_persist = True\<rparr>], db_plugins = [plugin]\<rparr>, as)"
  using assms
  by (auto simp: plugin_db_open_def db_entry_def is_library_def open_library_def setPersist_def loadPlugin_def
      loadSymbol_def move_library_def destroy_library_def)

text \<open>A library without a plugin is marked as persistent before it is tried: it is never closed.\<close>

lemma useless_library_stays_open:
  assumes "is_library path" "dl_open env path = Some h" "dl_sym env (Some h) ''create_object'' = None"
  shows "plugin_db_open env [path]
    = Some (\<lparr>db_loaders = [], db_plugins = []\<rparr>, [DlOpen path, DlSym (Some h) ''create_object''])"
  using assms
  by (auto simp: plugin_db_open_def db_entry_def is_library_def open_library_def setPersist_def loadPlugin_def
      loadSymbol_def destroy_library_def)

text \<open>The event plugin has the interface of every plugin but says that it has not.\<close>

lemma base_interface_denied:
  "\<not> hasInterface bmcweb_iid \<and> router_getInterface self bmcweb_iid = Some self"
  by (simp add: hasInterface_def router_getInterface_def base_getInterface_def interface_iid_def bmcweb_iid_def)

end
