(* ===== verification/RandomIds.thy ===== *)
theory RandomIds
  imports Sessions
begin

text \<open>
  The random generator (\<open>ossl_random.hpp\<close>, and the same class in \<open>random.hpp\<close>), how the identifiers of
  a session are drawn from it, and the kinds of sessions (\<open>session.hpp\<close>) with their names. What
  \<open>RAND_bytes\<close> returns is an argument, and so is the distribution of the standard library, which reads
  some bytes and gives an index. The lemmas show that the store's argument \<open>draw\<close> is such a
  generator, and that a failing one makes no session.
\<close>

section \<open>The generator\<close>

definition opensslSuccess :: int where
  "opensslSuccess = 1"

text \<open>One call, given what \<open>RAND_bytes\<close> returned and left in \<open>index\<close>; the state is the flag \<open>err\<close>.\<close>

definition gen_call :: "int \<times> u8 \<Rightarrow> bool \<Rightarrow> u8 \<times> bool" where
  "gen_call r err = (case r of (rc, index) \<Rightarrow> (index, if rc \<noteq> opensslSuccess then True else err))"

definition gen_max :: u8 where "gen_max = - 1"

definition gen_min :: u8 where "gen_min = 0"

definition gen_error :: "bool \<Rightarrow> bool" where
  "gen_error err = err"

primrec gen_calls :: "(nat \<Rightarrow> int \<times> u8) \<Rightarrow> nat \<Rightarrow> nat \<Rightarrow> bool \<Rightarrow> u8 list \<times> bool" where
  "gen_calls rs p 0 err = ([], err)"
| "gen_calls rs p (Suc n) err =
     (case gen_calls rs p n err of (bs, err1) \<Rightarrow>
        case gen_call (rs (p + n)) err1 of (b, err2) \<Rightarrow> (bs @ [b], err2))"

lemma gen_range: "gen_min \<le> b" "b \<le> gen_max"
  by (simp_all add: gen_min_def gen_max_def)

lemma gen_calls_bytes: "fst (gen_calls rs p n err) = map (\<lambda>k. snd (rs (p + k))) [0..<n]"
  by (induction n) (simp_all add: gen_call_def case_prod_unfold)

lemma gen_calls_error: "snd (gen_calls rs p n err) \<longleftrightarrow> err \<or> (\<exists>k < n. fst (rs (p + k)) \<noteq> opensslSuccess)"
proof (induction n)
  case (Suc n)
  then show ?case
    by (auto simp: gen_call_def less_Suc_eq case_prod_unfold)
qed simp

section \<open>Drawing an identifier\<close>

text \<open>
  A distribution gives, for the bytes that follow, how many of them it reads, and from these an index.
  \<open>drawString\<close> is the loop of \<open>generateUserSession\<close> with the position in the bytes and the flag.
\<close>

record distribution =
  di_reads :: "(nat \<Rightarrow> u8) \<Rightarrow> nat"
  di_index :: "u8 list \<Rightarrow> nat"

fun drawString ::
    "distribution \<Rightarrow> (nat \<Rightarrow> int \<times> u8) \<Rightarrow> nat \<Rightarrow> bool \<Rightarrow> nat \<Rightarrow> (string \<times> nat \<times> bool) option" where
  "drawString d rs p err 0 = Some ([], p, err)"
| "drawString d rs p err (Suc n) =
     (let m = di_reads d (\<lambda>k. snd (rs (p + k)));
          (bs, err1) = gen_calls rs p m err
      in if gen_error err1 then None
         else map_option (\<lambda>(s, r). (alphanum ! di_index d bs # s, r)) (drawString d rs (p + m) err1 n))"

text \<open>The place of the k-th draw in the bytes, and the draws as the argument of the store.\<close>

primrec draw_pos :: "distribution \<Rightarrow> (nat \<Rightarrow> int \<times> u8) \<Rightarrow> nat \<Rightarrow> nat" where
  "draw_pos d rs 0 = 0"
| "draw_pos d rs (Suc k) =
     draw_pos d rs k + di_reads d (\<lambda>i. snd (rs (draw_pos d rs k + i)))"

definition draws :: "distribution \<Rightarrow> (nat \<Rightarrow> int \<times> u8) \<Rightarrow> nat \<Rightarrow> nat option" where
  "draws d rs k =
     (case gen_calls rs (draw_pos d rs k) (di_reads d (\<lambda>i. snd (rs (draw_pos d rs k + i)))) False of
        (bs, err) \<Rightarrow> if gen_error err then None else Some (di_index d bs))"

lemma drawString_chars:
  "drawString d rs (draw_pos d rs k) False n
     = map_option (\<lambda>s. (s, draw_pos d rs (k + n), False)) (drawChars (draws d rs) k n)"
proof (induction n arbitrary: k)
  case (Suc n)
  obtain bs err where "gen_calls rs (draw_pos d rs k) (di_reads d (\<lambda>i. snd (rs (draw_pos d rs k + i)))) False = (bs, err)"
    by fastforce
  then show ?case
    using Suc [of "Suc k"] by (simp add: draws_def gen_error_def option.map_comp comp_def)
qed simp

text \<open>The three identifiers, drawn one after the other as the code does.\<close>

definition drawIds :: "distribution \<Rightarrow> (nat \<Rightarrow> int \<times> u8) \<Rightarrow> (string \<times> string \<times> string) option" where
  "drawIds d rs =
     (case drawString d rs 0 False sessionTokenSize of
        None \<Rightarrow> None
      | Some (sessionToken, p1, e1) \<Rightarrow>
          (case drawString d rs p1 e1 sessionTokenSize of
             None \<Rightarrow> None
           | Some (csrfToken, p2, e2) \<Rightarrow>
               (case drawString d rs p2 e2 10 of
                  None \<Rightarrow> None
                | Some (uniqueId, p3, e3) \<Rightarrow> Some (sessionToken, csrfToken, uniqueId))))"

lemma drawIds_chars:
  "drawIds d rs =
     (case drawChars (draws d rs) 0 sessionTokenSize of
        None \<Rightarrow> None
      | Some sessionToken \<Rightarrow>
          (case drawChars (draws d rs) sessionTokenSize sessionTokenSize of
             None \<Rightarrow> None
           | Some csrfToken \<Rightarrow>
               map_option (\<lambda>uniqueId. (sessionToken, csrfToken, uniqueId))
                 (drawChars (draws d rs) (2 * sessionTokenSize) 10)))"
proof -
  have 0: "drawString d rs 0 False sessionTokenSize = map_option
      (\<lambda>s. (s, draw_pos d rs sessionTokenSize, False)) (drawChars (draws d rs) 0 sessionTokenSize)"
    using drawString_chars [of d rs 0] by simp
  have 1: "drawString d rs (draw_pos d rs sessionTokenSize) False sessionTokenSize = map_option
      (\<lambda>s. (s, draw_pos d rs (2 * sessionTokenSize), False)) (drawChars (draws d rs) sessionTokenSize sessionTokenSize)"
    using drawString_chars [of d rs sessionTokenSize sessionTokenSize] by (simp add: mult_2)
  note 2 = drawString_chars [of d rs "2 * sessionTokenSize" 10]
  show ?thesis
  proof (cases "drawChars (draws d rs) 0 sessionTokenSize")
    case (Some sessionToken)
    note S = this
    show ?thesis
      unfolding drawIds_def 0 S
      by (cases "drawChars (draws d rs) sessionTokenSize sessionTokenSize";
          cases "drawChars (draws d rs) (2 * sessionTokenSize) 10") (simp_all add: 1 2)
  qed (simp add: drawIds_def 0)
qed

text \<open>
  The store with these draws makes a session exactly when the identifiers can be drawn, and gives
  it these identifiers (or returns the session that has the token already).
\<close>

lemma generated_session:
  "fst (generateUserSession (draws d rs) now username ip cid pt self st) = None \<longleftrightarrow> drawIds d rs = None"
  by (auto simp: generateUserSession_def drawIds_chars Let_def emplaceSession_def split: option.splits prod.splits)

lemma failing_generator_no_session:
  assumes "fst (rs 0) \<noteq> opensslSuccess" "0 < di_reads d (\<lambda>k. snd (rs k))"
  shows "generateUserSession (draws d rs) now username ip cid pt self st = (None, st)"
proof -
  have "draws d rs 0 = None"
    using assms gen_calls_error [of rs 0 "di_reads d (\<lambda>k. snd (rs k))" False]
    by (auto simp: draws_def gen_error_def split: prod.split)
  then show ?thesis
    by (simp add: generateUserSession_def sessionTokenSize_def numeral_eq_Suc)
qed

section \<open>Kinds of sessions\<close>

datatype SessionTypes = Invalid | HostConsole | ManagerConsole | IPMI | KVMIP | OEM | Redfish | VirtualMedia | WebUI

definition session_type_table :: "(SessionTypes \<times> string) list" where
  "session_type_table =
     [(Invalid, ''Invalid''), (HostConsole, ''HostConsole''), (ManagerConsole, ''ManagerConsole''), (IPMI, ''IPMI''),
      (KVMIP, ''KVMIP''), (OEM, ''OEM''), (Redfish, ''Redfish''), (VirtualMedia, ''VirtualMedia''), (WebUI, ''WebUI'')]"

text \<open>The two functions of the macro: the first entry that fits, or the first of all.\<close>

definition session_type_to_json :: "SessionTypes \<Rightarrow> json" where
  "session_type_to_json e =
     JString (snd (case find (\<lambda>p. fst p = e) session_type_table of Some p \<Rightarrow> p | None \<Rightarrow> hd session_type_table))"

definition session_type_from_json :: "json \<Rightarrow> SessionTypes" where
  "session_type_from_json j =
     fst (case find (\<lambda>p. JString (snd p) = j) session_type_table of Some p \<Rightarrow> p | None \<Rightarrow> hd session_type_table)"

lemma session_type_roundtrip: "session_type_from_json (session_type_to_json e) = e"
  by (cases e) (simp_all add: session_type_from_json_def session_type_to_json_def session_type_table_def)

lemma unknown_session_type:
  "j \<notin> range session_type_to_json \<Longrightarrow> session_type_from_json j = Invalid"
proof -
  assume "j \<notin> range session_type_to_json"
  then have "\<forall>e. session_type_to_json e \<noteq> j" by blast
  then have "\<forall>p \<in> set session_type_table. JString (snd p) \<noteq> j"
    by (auto simp: session_type_table_def session_type_to_json_def dest: spec [where x = Invalid]
      spec [where x = HostConsole] spec [where x = ManagerConsole] spec [where x = IPMI] spec [where x = KVMIP]
      spec [where x = OEM] spec [where x = Redfish] spec [where x = VirtualMedia] spec [where x = WebUI])
  then have "find (\<lambda>p. JString (snd p) = j) session_type_table = None"
    by (auto simp: find_None_iff)
  then show ?thesis
    by (simp add: session_type_from_json_def session_type_table_def)
qed

end
