(* ===== verification/Http2Adapters.thy ===== *)
theory Http2Adapters
  imports Http2
begin

text \<open>
  The owners of nghttp2's handles (\<open>http/nghttp2_adapters.hpp\<close>), the session a connection makes with
  them and the static functions that lead from nghttp2 to the connection
  (\<open>http/http2_connection.hpp\<close>). Calls of the library are recorded; what it returns is an argument, and
  calling it with a null handle is \<open>None\<close>. The lemmas show that the calls of nghttp2 reach the
  operations of \<open>Http2\<close> in their order, that the handles are released once, and what is not installed.
\<close>

section \<open>Handles\<close>

datatype callback_slot =
    SlotSend | SlotFrameRecv | SlotStreamClose | SlotHeader | SlotBeginHeaders | SlotSendData
  | SlotBeforeFrameSend | SlotAfterFrameSend | SlotAfterFrameNoSend | SlotDataChunk

datatype static_callback =
    OnSendStatic | OnFrameRecvStatic | OnStreamCloseStatic | OnHeaderStatic | OnBeginHeadersStatic

datatype ng_action =
    CallbacksNew | CallbacksDel "nat option" | SetCallback nat callback_slot | SessionNew nat
  | SessionDel "nat option" | SetUserData nat

record ng_callbacks =
  nc_ptr :: "nat option"
  nc_table :: "callback_slot \<rightharpoonup> static_callback"

record ng_session =
  ns_ptr :: "nat option"
  ns_table :: "callback_slot \<rightharpoonup> static_callback"
  ns_userData :: "nat option"

definition callbacks_new :: "nat option \<Rightarrow> ng_callbacks \<times> ng_action list" where
  "callbacks_new ptr = (\<lparr>nc_ptr = ptr, nc_table = Map.empty\<rparr>, [CallbacksNew])"

definition callbacks_del :: "ng_callbacks \<Rightarrow> ng_action list" where
  "callbacks_del cbs = [CallbacksDel (nc_ptr cbs)]"

text \<open>All setters are alike.\<close>

definition set_callback ::
    "callback_slot \<Rightarrow> static_callback \<Rightarrow> ng_callbacks \<times> ng_action list \<Rightarrow> (ng_callbacks \<times> ng_action list) option" where
  "set_callback slot f r =
     (case r of (cbs, as) \<Rightarrow>
        (case nc_ptr cbs of
           None \<Rightarrow> None
         | Some p \<Rightarrow> Some (cbs\<lparr>nc_table := (nc_table cbs)(slot \<mapsto> f)\<rparr>, as @ [SetCallback p slot])))"

definition setSendCallback where "setSendCallback = set_callback SlotSend"
definition setOnFrameRecvCallback where "setOnFrameRecvCallback = set_callback SlotFrameRecv"
definition setOnStreamCloseCallback where "setOnStreamCloseCallback = set_callback SlotStreamClose"
definition setOnHeaderCallback where "setOnHeaderCallback = set_callback SlotHeader"
definition setOnBeginHeadersCallback where "setOnBeginHeadersCallback = set_callback SlotBeginHeaders"
definition setSendDataCallback where "setSendDataCallback = set_callback SlotSendData"
definition setBeforeFrameSendCallback where "setBeforeFrameSendCallback = set_callback SlotBeforeFrameSend"
definition setAfterFrameSendCallback where "setAfterFrameSendCallback = set_callback SlotAfterFrameSend"
definition setAfterFrameNoSendCallback where "setAfterFrameNoSendCallback = set_callback SlotAfterFrameNoSend"

text \<open>A failure is logged and leaves the handle null.\<close>

definition session_new :: "int \<Rightarrow> nat option \<Rightarrow> ng_callbacks \<Rightarrow> (ng_session \<times> ng_action list) option" where
  "session_new rc ptr cbs =
     (case nc_ptr cbs of
        None \<Rightarrow> None
      | Some p \<Rightarrow>
          Some (\<lparr>ns_ptr = (if rc \<noteq> 0 then None else ptr), ns_table = nc_table cbs, ns_userData = None\<rparr>, [SessionNew p]))"

definition session_del :: "ng_session \<Rightarrow> ng_action list" where
  "session_del ses = [SessionDel (ns_ptr ses)]"

definition session_move :: "ng_session \<Rightarrow> ng_session \<times> ng_session" where
  "session_move other = (other, other\<lparr>ns_ptr := None\<rparr>)"

definition setUserData :: "nat \<Rightarrow> ng_session \<Rightarrow> (ng_session \<times> ng_action list) option" where
  "setUserData this ses =
     (case ns_ptr ses of None \<Rightarrow> None | Some p \<Rightarrow> Some (ses\<lparr>ns_userData := Some this\<rparr>, [SetUserData this]))"

text \<open>The session of a connection at address \<open>this\<close>; the callbacks are released when it is made.\<close>

definition initializeNghttp2Session ::
    "nat option \<Rightarrow> int \<Rightarrow> nat option \<Rightarrow> nat \<Rightarrow> (ng_session \<times> ng_action list) option" where
  "initializeNghttp2Session cbs_ptr rc ses_ptr this =
     Option.bind (setOnFrameRecvCallback OnFrameRecvStatic (callbacks_new cbs_ptr)) (\<lambda>r1.
     Option.bind (setOnStreamCloseCallback OnStreamCloseStatic r1) (\<lambda>r2.
     Option.bind (setOnHeaderCallback OnHeaderStatic r2) (\<lambda>r3.
     Option.bind (setOnBeginHeadersCallback OnBeginHeadersStatic r3) (\<lambda>r4.
     Option.bind (setSendCallback OnSendStatic r4) (\<lambda>(callbacks, as).
     Option.bind (session_new rc ses_ptr callbacks) (\<lambda>(session, as1).
     Option.bind (setUserData this session) (\<lambda>(session1, as2).
       Some (session1, as @ as1 @ as2 @ callbacks_del callbacks))))))))"

section \<open>From nghttp2 to the connection\<close>

text \<open>A call of nghttp2, with arguments that may be null, and the chunks of data it has received.\<close>

datatype ng_event =
    NgBeginHeaders "frame option"
  | NgHeader "frame option" "string option" "string option"
  | NgFrameRecv "frame option"
  | NgStreamClose int
  | NgSend string
  | NgDataChunk int string

type_synonym ng_result = "h2_connection \<times> int \<times> h2_out list"

definition NGHTTP2_ERR_CALLBACK_FAILURE :: int where
  "NGHTTP2_ERR_CALLBACK_FAILURE = -902"

definition callback_failure :: "h2_connection \<Rightarrow> ng_result" where
  "callback_failure c = (c, NGHTTP2_ERR_CALLBACK_FAILURE, [])"

definition onFrameRecvCallbackStatic :: "frame option \<Rightarrow> nat option \<Rightarrow> h2_connection \<Rightarrow> ng_result" where
  "onFrameRecvCallbackStatic fr userData c =
     (if userData = None then callback_failure c
      else case fr of None \<Rightarrow> callback_failure c | Some fr \<Rightarrow> onFrameRecvCallback fr c)"

definition onStreamCloseCallbackStatic :: "int \<Rightarrow> nat option \<Rightarrow> h2_connection \<Rightarrow> ng_result" where
  "onStreamCloseCallbackStatic streamId userData c =
     (if userData = None then callback_failure c else onStreamCloseCallback streamId c)"

definition onHeaderCallbackStatic ::
    "h2_env \<Rightarrow> frame option \<Rightarrow> string option \<Rightarrow> string option \<Rightarrow> nat option \<Rightarrow> h2_connection \<Rightarrow> ng_result" where
  "onHeaderCallbackStatic env fr name value userData c =
     (if userData = None then callback_failure c
      else case fr of None \<Rightarrow> callback_failure c | Some fr \<Rightarrow>
       (case name of None \<Rightarrow> callback_failure c | Some name \<Rightarrow>
         (case value of None \<Rightarrow> callback_failure c | Some value \<Rightarrow> onHeaderCallback env fr name value c)))"

definition onBeginHeadersCallbackStatic :: "frame option \<Rightarrow> nat option \<Rightarrow> h2_connection \<Rightarrow> ng_result" where
  "onBeginHeadersCallbackStatic fr userData c =
     (if userData = None then callback_failure c
      else case fr of None \<Rightarrow> callback_failure c | Some fr \<Rightarrow> onBeginHeadersCallback fr c)"

text \<open>This one follows the pointer without looking at it.\<close>

definition onSendCallbackStatic :: "string \<Rightarrow> nat option \<Rightarrow> h2_connection \<Rightarrow> ng_result option" where
  "onSendCallbackStatic data userData c = (if userData = None then None else Some (onSendCallback data c))"

fun event_slot :: "ng_event \<Rightarrow> callback_slot" where
  "event_slot (NgBeginHeaders fr) = SlotBeginHeaders"
| "event_slot (NgHeader fr name value) = SlotHeader"
| "event_slot (NgFrameRecv fr) = SlotFrameRecv"
| "event_slot (NgStreamClose streamId) = SlotStreamClose"
| "event_slot (NgSend data) = SlotSend"
| "event_slot (NgDataChunk streamId data) = SlotDataChunk"

definition run_static :: "h2_env \<Rightarrow> static_callback \<Rightarrow> ng_event \<Rightarrow> nat option \<Rightarrow> h2_connection \<Rightarrow> ng_result option" where
  "run_static env f ev u c =
     (case ev of
        NgBeginHeaders fr \<Rightarrow> if f = OnBeginHeadersStatic then Some (onBeginHeadersCallbackStatic fr u c) else None
      | NgHeader fr name value \<Rightarrow>
          if f = OnHeaderStatic then Some (onHeaderCallbackStatic env fr name value u c) else None
      | NgFrameRecv fr \<Rightarrow> if f = OnFrameRecvStatic then Some (onFrameRecvCallbackStatic fr u c) else None
      | NgStreamClose streamId \<Rightarrow>
          if f = OnStreamCloseStatic then Some (onStreamCloseCallbackStatic streamId u c) else None
      | NgSend data \<Rightarrow> if f = OnSendStatic then onSendCallbackStatic data u c else None
      | NgDataChunk streamId data \<Rightarrow> None)"

text \<open>What nghttp2 does with an event: it calls what is installed, with its user data.\<close>

definition ng_call :: "h2_env \<Rightarrow> ng_session \<Rightarrow> ng_event \<Rightarrow> h2_connection \<Rightarrow> (h2_connection \<times> h2_out list) option" where
  "ng_call env ses ev c =
     (case ns_table ses (event_slot ev) of
        None \<Rightarrow> Some (c, [])
      | Some f \<Rightarrow> map_option (\<lambda>(c1, r, os). (c1, os)) (run_static env f ev (ns_userData ses) c))"

fun ng_calls :: "h2_env \<Rightarrow> ng_session \<Rightarrow> ng_event list \<Rightarrow> h2_connection \<Rightarrow> (h2_connection \<times> h2_out list) option" where
  "ng_calls env ses [] c = Some (c, [])"
| "ng_calls env ses (ev # evs) c =
     (case ng_call env ses ev c of
        None \<Rightarrow> None
      | Some (c1, os1) \<Rightarrow> map_option (\<lambda>(c2, os2). (c2, os1 @ os2)) (ng_calls env ses evs c1))"

section \<open>The wiring\<close>

text \<open>The session that is made when the library succeeds: five callbacks, and its connection.\<close>

definition wired :: "nat \<Rightarrow> nat \<Rightarrow> ng_session" where
  "wired p this = \<lparr>ns_ptr = Some p,
     ns_table = [SlotFrameRecv \<mapsto> OnFrameRecvStatic, SlotStreamClose \<mapsto> OnStreamCloseStatic, SlotHeader \<mapsto> OnHeaderStatic,
       SlotBeginHeaders \<mapsto> OnBeginHeadersStatic, SlotSend \<mapsto> OnSendStatic], ns_userData = Some this\<rparr>"

lemma session_wired:
  "initializeNghttp2Session (Some p) 0 (Some q) this = Some (wired q this,
     [CallbacksNew, SetCallback p SlotFrameRecv, SetCallback p SlotStreamClose, SetCallback p SlotHeader,
      SetCallback p SlotBeginHeaders, SetCallback p SlotSend, SessionNew p, SetUserData this, CallbacksDel (Some p)])"
  by (simp add: initializeNghttp2Session_def setOnFrameRecvCallback_def setOnStreamCloseCallback_def
      setOnHeaderCallback_def setOnBeginHeadersCallback_def setSendCallback_def set_callback_def callbacks_new_def
      session_new_def setUserData_def callbacks_del_def wired_def)

text \<open>The callback of \<open>Http2\<close> that an event stands for; there is none for a chunk of data.\<close>

fun callback_of :: "ng_event \<Rightarrow> h2_callback option" where
  "callback_of (NgBeginHeaders (Some fr)) = Some (BeginHeaders fr)"
| "callback_of (NgHeader (Some fr) (Some name) (Some value)) = Some (Header fr name value)"
| "callback_of (NgFrameRecv (Some fr)) = Some (FrameRecv fr)"
| "callback_of (NgStreamClose streamId) = Some (StreamClose streamId)"
| "callback_of (NgSend data) = Some (SendData data)"
| "callback_of ev = None"

text \<open>
  Whatever nghttp2 calls, the connection does what the callbacks of \<open>Http2\<close> do in this order; calls
  with null pointers and chunks of data change nothing.
\<close>

lemma ng_call_wired:
  "ng_call env (wired p this) ev c =
     Some (case callback_of ev of None \<Rightarrow> (c, []) | Some cb \<Rightarrow> h2_call env cb c)"
  by (cases ev rule: callback_of.cases)
    (auto simp: ng_call_def wired_def run_static_def onBeginHeadersCallbackStatic_def onHeaderCallbackStatic_def
      onFrameRecvCallbackStatic_def onStreamCloseCallbackStatic_def onSendCallbackStatic_def callback_failure_def
      split: prod.split option.split)

lemma ng_calls_wired:
  "ng_calls env (wired p this) evs c = Some (h2_calls env (List.map_filter callback_of evs) c)"
proof (induction evs arbitrary: c)
  case (Cons ev evs)
  then show ?case
    by (cases "callback_of ev") (auto simp: ng_call_wired split: prod.split)
qed simp

text \<open>
  The handles over the life of a connection: the callbacks are released when the session is made, the
  session once at the end, and the one it was moved from has no handle.
\<close>

lemma handles_released:
  assumes "initializeNghttp2Session (Some p) 0 (Some q) this = Some (ses, as)" "session_move ses = (held, empty_one)"
  shows "filter (\<lambda>a. \<exists>x. a = CallbacksDel x \<or> a = SessionDel x) (as @ session_del empty_one @ session_del held)
    = [CallbacksDel (Some p), SessionDel None, SessionDel (Some q)]"
  using assms by (auto simp: session_wired session_move_def session_del_def wired_def)

section \<open>What goes wrong\<close>

text \<open>The body of a request is not kept: the connection is the same with and without its chunks.\<close>

lemma chunks_ignored:
  "ng_calls env (wired p this) (filter (\<lambda>ev. event_slot ev \<noteq> SlotDataChunk) evs) c = ng_calls env (wired p this) evs c"
proof -
  have "event_slot ev = SlotDataChunk \<Longrightarrow> callback_of ev = None" for ev
    by (cases ev) auto
  then have "List.map_filter callback_of (filter (\<lambda>ev. event_slot ev \<noteq> SlotDataChunk) evs)
      = List.map_filter callback_of evs"
    by (induction evs) (auto split: option.split)
  then show ?thesis
    by (simp add: ng_calls_wired)
qed

text \<open>A session that cannot be made is logged only: the next call of the library gets a null handle.\<close>

lemma failed_session_used: "rc \<noteq> 0 \<Longrightarrow> initializeNghttp2Session (Some p) rc ptr this = None"
  by (simp add: initializeNghttp2Session_def setOnFrameRecvCallback_def setOnStreamCloseCallback_def
      setOnHeaderCallback_def setOnBeginHeadersCallback_def setSendCallback_def set_callback_def callbacks_new_def
      session_new_def setUserData_def)

end
