(* ===== verification/Spec2Isabelle.thy ===== *)
theory Spec2Isabelle
  imports Prelude HexUtils Base64 Trie Verb Json ContentTypes Response ParamTags Router
    BaseRegistry Registry ErrorJson ErrorMessages HumanSort JsonUtils
    Sessions Persist Connection HttpClient HtmlEscape JsonHtml IpUtils UrlUtils Tls Http2 Http2Streams EventService EventDelivery WebClient CommandLine Server
    Authentication JsonHtmlCopy SyncClient JsonRead App Plugins RandomIds Http2Adapters
begin

text \<open>
  This development models the HTTP server library in \<open>src/\<close>: its router and the type checks of its
  routes, requests and responses, connections over HTTP/1 and HTTP/2, sessions and their
  persistence, TLS, the Redfish error messages, the reading of JSON requests, the HTML form of
  answers, and the service that sends events to subscribers.

  \<^bold>\<open>How the program works.\<close> The server accepts a socket (\<open>http_server.hpp\<close>) and starts a connection
  (\<open>http_connection.hpp\<close>; \<open>http2_connection.hpp\<close> for HTTP/2), which reads a request, hands it with a
  response to the router (\<open>routing.hpp\<close>), and writes the response when its handler ends it. The
  router keeps, for every verb, a table of rules and a trie of their URLs; a handler gets the
  parameters of the URL with the types the pattern declares (\<open>utility.hpp\<close>). Handlers read JSON
  (\<open>json_utils.hpp\<close>) and report Redfish messages (\<open>error_messages.cpp\<close>) from a registry. When a
  response is complete, its headers, its entity tag and the form of its body are settled
  (\<open>complete_response_fields.hpp\<close>). Sessions (\<open>sessions.hpp\<close>) are made by logins, also by client
  certificates (\<open>mutual_tls.hpp\<close>), expire, and are kept in a file (\<open>persistent_data.hpp\<close>). The plugin
  of the event service (\<open>redfish_event.cpp\<close>) adds routes by which clients subscribe; its events go
  out through pools of client sessions with retries (\<open>http_subscriber.hpp\<close>, \<open>http_client.hpp\<close>).

  \<^bold>\<open>Conventions.\<close> A byte is a HOL character and a string a list of them; integers of the machine are
  words where they can wrap. Data are records and datatypes with the names of the source; a pointer
  into a container is an index; a map of the library is a list sorted by its keys (\<open>omap\<close>). An
  operation is a function from the state to the new state and what it gives or asks for. What may
  throw, read outside its buffer or not return is an option or a sum; runs of components that wait
  for input, timers or clients are inductive relations over explicit events. The functions of
  foreign libraries (parsing URLs, numbers and JSON, the texts of JSON values and doubles, random
  draws, clocks, TLS and nghttp2) are arguments or inputs; what is assumed of them is a named
  hypothesis of the lemmas, such as \<open>keep_alive_law\<close>.

  \<^bold>\<open>Theories.\<close>
  \<^item> \<open>Prelude\<close>: machine types, numbers in text (\<open>strtol\<close> and relatives), sorted maps, outcomes.
  \<^item> \<open>HexUtils\<close> (\<open>utils/hex_utils.hpp\<close>), \<open>Base64\<close> (\<open>http/utility.hpp\<close>, \<open>http_base64_file_body.hpp\<close>): the
    codecs; each inverts the other's direction, the streaming encoder and the file body agree with
    the encoding of the whole input.
  \<^item> \<open>Trie\<close>, \<open>ParamTags\<close>, \<open>Verb\<close>, \<open>Router\<close> (\<open>http/routing.hpp\<close>, \<open>http/utility.hpp\<close>, \<open>http/verb.hpp\<close>,
    \<open>common.hpp\<close>): routing. The trie is shown to hold exactly the routes that were added, merging its
    chains changes no answer, a search gives the least rule that matches; the tables of the router
    refine the list of its rules (locale \<open>route_table\<close>, interpreted by the trie). The arguments of a
    handler are the parameters of the URL in order, and registration accepts exactly the handlers
    whose types fit.
  \<^item> \<open>App\<close> (\<open>http/app.hpp\<close> and the rules of \<open>routing.hpp\<close>): routes with their handlers, from their
    registration to the answer of a request, which rests on all the lemmas of routing.
  \<^item> \<open>Json\<close>, \<open>ContentTypes\<close>, \<open>Response\<close> (\<open>http_request.hpp\<close>, \<open>http_response.hpp\<close>, \<open>http_utility.hpp\<close>,
    \<open>async_resp.hpp\<close>, \<open>security_headers.hpp\<close>, \<open>complete_response_fields.hpp\<close>): values, negotiation and the
    life of a response: its handler is called exactly once, conditional requests are answered
    without content, its length and headers are right.
  \<^item> \<open>BaseRegistry\<close>, \<open>Registry\<close>, \<open>ErrorJson\<close>, \<open>ErrorMessages\<close> (\<open>registries.hpp\<close>, \<open>base_message_registry.hpp\<close>,
    \<open>error_messages.cpp\<close>): all messages, their expansion, their place in an answer, and the functions
    that report them.
  \<^item> \<open>HumanSort\<close>, \<open>JsonUtils\<close>, \<open>JsonRead\<close> (\<open>human_sort.hpp\<close>, \<open>json_utils.hpp\<close>, \<open>json_utils.cpp\<close>, \<open>parsing.hpp\<close>): the order of
    names and objects, and the reading of requests: it never throws, reports every failure, keeps
    the types of the variables, and succeeds exactly on the requests of a declarative specification
    (\<open>accepts\<close>), whose values it leaves in the variables (\<open>reads\<close>).
  \<^item> \<open>HtmlEscape\<close>, \<open>JsonHtml\<close>, \<open>JsonHtmlCopy\<close> (\<open>json_html_serializer.hpp\<close>, \<open>json_html_serializer.cpp\<close>): the automaton for
    UTF-8 and the escaper with its buffer of 512 bytes, numbers, and the page, which is well nested
    whatever the bytes of a value are. The copy of the printer in the source file is modelled with the
    index into its buffer and refines the one of the header.
  \<^item> \<open>Sessions\<close>, \<open>Persist\<close> (\<open>sessions.hpp\<close>, \<open>persistent_data.hpp\<close>, \<open>event_service_store.hpp\<close>): the store of
    sessions as a run of operations in time, its expiry, and the configuration file and back.
  \<^item> \<open>Authentication\<close>, \<open>RandomIds\<close> (\<open>authentication.hpp\<close>, \<open>ossl_random.hpp\<close>, \<open>session.hpp\<close>): the ways to log
    in, which give a session exactly for a credential, the identifiers that are drawn for sessions,
    and the kinds of sessions.
  \<^item> \<open>Connection\<close>, \<open>Server\<close> (\<open>http_connection.hpp\<close>, \<open>http_server.hpp\<close>): a connection as a machine driven by
    completions, the answers it gives in any run, the bound on connections, the cached date.
  \<^item> \<open>Http2\<close>, \<open>Http2Streams\<close>, \<open>Http2Adapters\<close> (\<open>http2_connection.hpp\<close>, \<open>nghttp2_adapters.hpp\<close>): the callbacks of
    nghttp2, how they reach the connection, and the write queue. That
    streams do not interfere is proved once for callbacks with keys (locale \<open>keyed_callbacks\<close>).
  \<^item> \<open>Tls\<close> (\<open>mutual_tls.hpp\<close>, \<open>ssl_key_handler.hpp\<close>): logins by certificate, the key file with every
    resource that is held on the way, the contexts.
  \<^item> \<open>HttpClient\<close>, \<open>SyncClient\<close>, \<open>WebClient\<close> (\<open>http_client.hpp\<close>, \<open>http_client_pool.hpp\<close>, \<open>http_subscriber.hpp\<close>, both
    \<open>web_client.hpp\<close>): the client session over asynchronous and synchronous streams, which do the
    same, the pool, buffer and retries of a subscriber, streams of values.
  \<^item> \<open>EventService\<close>, \<open>EventDelivery\<close> (\<open>redfish_event.cpp\<close>, \<open>event_manager.hpp\<close>): the plugin from a request
    through the router to the requests its subscribers post; the manager relies on the contract of
    its subscribers (locale \<open>event_receiver\<close>).
  \<^item> \<open>Plugins\<close> (\<open>shared_library.hpp\<close>, \<open>bmcweb-plugin.hpp\<close>): the libraries of a directory, the plugins
    they give and their interfaces.
  \<^item> \<open>IpUtils\<close>, \<open>UrlUtils\<close>, \<open>CommandLine\<close> (\<open>ip_utils.hpp\<close>, \<open>http/utility.hpp\<close>, \<open>command_line_parser.hpp\<close>):
    addresses and masks, patterns over paths, options.

  \<^bold>\<open>What the properties say.\<close> Each property stands behind a text that states it in words. They follow a
  request to its answer: routing, and when registering a route ends (\<open>Trie\<close>, \<open>Router\<close>), the arguments
  of handlers (\<open>ParamTags\<close>), the whole way from the routes to an answer (\<open>App\<close>), messages and the
  reading of requests (\<open>ErrorJson\<close>, \<open>ErrorMessages\<close>, \<open>JsonUtils\<close>, \<open>JsonRead\<close>), completion (\<open>Response\<close>),
  the connections over both protocols in any run (\<open>Connection\<close>, \<open>Http2Streams\<close>, \<open>Server\<close>). Around it: the
  codecs, sessions and their file, logins by token, cookie, password and certificate, the HTML form, the
  delivery of events, addresses and paths. Sections on what goes
  wrong show on concrete inputs where the code does not do what it means to.

  \<^bold>\<open>Bounds.\<close> Recursion over positions, widths and tries that is not structural has a measure or a fuel:
  the length of a URL is enough for every iteration of \<open>add\<close> that moves on, and it is proved exactly
  when it returns; the number of nodes bounds the depth of a search, as a child is a larger node. Times
  are nanoseconds of one clock. Counters and lengths are natural numbers where the code cannot
  reach the end of their type.

  \<^bold>\<open>Not modelled.\<close> Logging and the printing of the trie; the websocket and event stream rules and the privileges, which are commented out; the main
  functions and the tests. \<open>error_messages.hpp\<close> only declares what \<open>error_messages.cpp\<close> defines, and
  \<open>random.hpp\<close> repeats a class of \<open>ossl_random.hpp\<close>. \<open>authentication.hpp\<close> is disabled by \<open>#if 0\<close> but for an
  empty function; its text is modelled as it stands. Allocation failure, threads and the time between
  two instructions are outside the model: a handler runs to its end before the next event.
\<close>

end
